(* ===== verification/W3m_Prelude.thy ===== *)
theory W3m_Prelude
  imports Main "HOL-Library.Word"
begin

text \<open>
  What every component shares: bytes and machine words, little- and big-endian
  encodings, exceptions as values, an array of bytes that is read and patched by
  offset, and C strings. A \<open>std::string\<close> is the list of its bytes
  (\<open>byte list\<close>), so its length is \<open>size()\<close> and a zero byte is an ordinary element;
  a \<open>size_t\<close> is a \<open>nat\<close> with the reduction modulo \<open>2 ^ 64\<close> written where the code
  adds or multiplies (every target of the project is a 64-bit one).
\<close>

named_theorems wire \<open>facts that evaluate encoders and decoders on encoded data\<close>
named_theorems mem_simps \<open>reads of an array of bytes after a patch\<close>

type_synonym byte = "8 word"
type_synonym u16 = "16 word"
type_synonym u32 = "32 word"
type_synonym u64 = "64 word"

abbreviation size_mod :: nat where "size_mod \<equiv> 2 ^ 64"

definition lit :: "string \<Rightarrow> byte list" where
  "lit s = map of_char s"

lemma length_lit [simp]: "length (lit s) = length s"
  by (simp add: lit_def)

lemma lit_Nil [simp]: "lit [] = []"
  by (simp add: lit_def)

subsection \<open>Exceptions\<close>

text \<open>
  The exceptions the sources throw, as values. \<open>Undefined_behaviour\<close> stands for a step
  the language gives no meaning to (an access outside an object), \<open>Std_terminate\<close> for an
  exception that leaves a destructor: the theorems about safety say where they cannot be
  reached.
\<close>

datatype exn =
    Runtime_error "byte list"
  | Length_error
  | Other_exception "byte list"
  | Std_terminate
  | Undefined_behaviour

definition exn_bind :: "exn + 'a \<Rightarrow> ('a \<Rightarrow> exn + 'b) \<Rightarrow> exn + 'b" where
  "exn_bind r f = (case r of Inl e \<Rightarrow> Inl e | Inr x \<Rightarrow> f x)"

lemma exn_bind_simps [simp]:
  "exn_bind (Inl e) f = Inl e"
  "exn_bind (Inr x) f = f x"
  by (simp_all add: exn_bind_def)

lemma exn_bind_cong [fundef_cong]:
  "r = r' \<Longrightarrow> (\<And>x. r' = Inr x \<Longrightarrow> f x = g x) \<Longrightarrow> exn_bind r f = exn_bind r' g"
  by (cases r') simp_all

lemma exn_bind_eq_Inr:
  "exn_bind r f = Inr y \<longleftrightarrow> (\<exists>x. r = Inr x \<and> f x = Inr y)"
  by (cases r) simp_all

lemma exn_bind_eq_Inl:
  "exn_bind r f = Inl e \<longleftrightarrow> r = Inl e \<or> (\<exists>x. r = Inr x \<and> f x = Inl e)"
  by (cases r) simp_all

subsection \<open>Little-endian integers\<close>

fun nat_le :: "nat \<Rightarrow> nat \<Rightarrow> byte list" where
  "nat_le 0 k = []"
| "nat_le (Suc n) k = of_nat (k mod 256) # nat_le n (k div 256)"

fun le_nat :: "byte list \<Rightarrow> nat" where
  "le_nat [] = 0"
| "le_nat (b # bs) = unat b + 256 * le_nat bs"

lemma length_nat_le [simp]: "length (nat_le n k) = n"
  by (induction n arbitrary: k) auto

lemma unat_of_nat_byte [simp]: "unat (of_nat (k mod 256) :: byte) = k mod 256"
  by (simp add: unat_of_nat)

lemma unat_byte_less [simp]: "unat (b :: byte) < 256"
  using unsigned_less [where ?'a = nat and w = b] by simp

lemma le_nat_nat_le [wire]: "le_nat (nat_le n k) = k mod 256 ^ n"
proof (induction n arbitrary: k)
  case (Suc n)
  have "k mod 256 ^ Suc n = k mod 256 + 256 * (k div 256 mod 256 ^ n)"
    by (simp add: mod_mult2_eq)
  with Suc show ?case by (simp del: power_Suc)
qed simp

lemma nat_le_le_nat [wire]: "length bs = n \<Longrightarrow> nat_le n (le_nat bs) = bs"
proof (induction bs arbitrary: n)
  case (Cons b bs)
  from Cons.prems obtain m where n: "n = Suc m" and m: "length bs = m" by auto
  have "(unat b + 256 * le_nat bs) mod 256 = unat b"
    and "(unat b + 256 * le_nat bs) div 256 = le_nat bs"
    by simp_all
  with n Cons.IH [OF m] show ?case by simp
qed simp

lemma le_nat_less: "le_nat bs < 256 ^ length bs"
proof (induction bs)
  case (Cons b bs)
  have "unat b < 256" by simp
  with Cons show ?case by (simp del: unat_byte_less)
qed simp

lemma nat_le_zero [simp]: "nat_le n 0 = replicate n 0"
  by (induction n) simp_all

definition u16_bytes :: "u16 \<Rightarrow> byte list" where "u16_bytes w = nat_le 2 (unat w)"
definition u32_bytes :: "u32 \<Rightarrow> byte list" where "u32_bytes w = nat_le 4 (unat w)"
definition u64_bytes :: "u64 \<Rightarrow> byte list" where "u64_bytes w = nat_le 8 (unat w)"

definition bytes_u16 :: "byte list \<Rightarrow> u16" where "bytes_u16 bs = of_nat (le_nat bs)"
definition bytes_u32 :: "byte list \<Rightarrow> u32" where "bytes_u32 bs = of_nat (le_nat bs)"
definition bytes_u64 :: "byte list \<Rightarrow> u64" where "bytes_u64 bs = of_nat (le_nat bs)"

lemma length_word_bytes [simp]:
  "length (u16_bytes w) = 2" "length (u32_bytes x) = 4" "length (u64_bytes y) = 8"
  by (simp_all add: u16_bytes_def u32_bytes_def u64_bytes_def)

lemma bytes_u16_u16_bytes [simp, wire]: "bytes_u16 (u16_bytes w) = w"
  using unsigned_less [where ?'a = nat and w = w] by (simp add: bytes_u16_def u16_bytes_def le_nat_nat_le)

lemma bytes_u32_u32_bytes [simp, wire]: "bytes_u32 (u32_bytes w) = w"
  using unsigned_less [where ?'a = nat and w = w] by (simp add: bytes_u32_def u32_bytes_def le_nat_nat_le)

lemma bytes_u64_u64_bytes [simp, wire]: "bytes_u64 (u64_bytes w) = w"
  using unsigned_less [where ?'a = nat and w = w] by (simp add: bytes_u64_def u64_bytes_def le_nat_nat_le)

lemma u16_bytes_bytes_u16 [wire]: "length bs = 2 \<Longrightarrow> u16_bytes (bytes_u16 bs) = bs"
  using le_nat_less [of bs]
  by (simp add: bytes_u16_def u16_bytes_def unat_of_nat nat_le_le_nat)

lemma u32_bytes_bytes_u32 [wire]: "length bs = 4 \<Longrightarrow> u32_bytes (bytes_u32 bs) = bs"
  using le_nat_less [of bs]
  by (simp add: bytes_u32_def u32_bytes_def unat_of_nat nat_le_le_nat)

lemma u64_bytes_bytes_u64 [wire]: "length bs = 8 \<Longrightarrow> u64_bytes (bytes_u64 bs) = bs"
  using le_nat_less [of bs]
  by (simp add: bytes_u64_def u64_bytes_def unat_of_nat nat_le_le_nat)

text \<open>Evaluation of an encoder at a numeral width and of a decoder on a literal.\<close>

lemma nat_le_numeral:
  "nat_le (numeral n) k = of_nat (k mod 256) # nat_le (pred_numeral n) (k div 256)"
  by (simp only: numeral_eq_Suc nat_le.simps)

lemmas word_eval = u16_bytes_def u32_bytes_def u64_bytes_def bytes_u16_def bytes_u32_def
  bytes_u64_def nat_le_numeral

subsection \<open>Arrays of bytes, read and patched by offset\<close>

definition peek :: "nat \<Rightarrow> nat \<Rightarrow> byte list \<Rightarrow> byte list" where
  "peek off n mem = take n (drop off mem)"

definition poke :: "nat \<Rightarrow> byte list \<Rightarrow> byte list \<Rightarrow> byte list" where
  "poke off xs mem = take off mem @ xs @ drop (off + length xs) mem"

lemma length_peek [simp]: "off + n \<le> length mem \<Longrightarrow> length (peek off n mem) = n"
  by (simp add: peek_def)

lemma length_poke [simp]: "off + length xs \<le> length mem \<Longrightarrow> length (poke off xs mem) = length mem"
  by (simp add: poke_def)

lemma peek_poke_same [mem_simps]:
  "off + length xs \<le> length mem \<Longrightarrow> n = length xs \<Longrightarrow> peek off n (poke off xs mem) = xs"
  by (simp add: peek_def poke_def)

lemma peek_poke_before [mem_simps]:
  "off' + n \<le> off \<Longrightarrow> off + length xs \<le> length mem \<Longrightarrow>
     peek off' n (poke off xs mem) = peek off' n mem"
  by (auto simp: peek_def poke_def drop_take min_def)

lemma peek_poke_after [mem_simps]:
  "off + length xs \<le> off' \<Longrightarrow> off + length xs \<le> length mem \<Longrightarrow>
     peek off' n (poke off xs mem) = peek off' n mem"
  by (simp add: peek_def poke_def min_def)

lemma poke_peek [mem_simps]: "off + n \<le> length mem \<Longrightarrow> poke off (peek off n mem) mem = mem"
proof -
  assume "off + n \<le> length mem"
  then have "length (peek off n mem) = n" by simp
  moreover have "peek off n mem @ drop (off + n) mem = drop off mem"
    unfolding peek_def by (metis add.commute append_take_drop_id drop_drop)
  ultimately show ?thesis
    unfolding poke_def by (metis append_take_drop_id)
qed

lemma peek_peek [mem_simps]:
  "i + n \<le> m \<Longrightarrow> peek i n (peek off m mem) = peek (off + i) n mem"
  by (simp add: peek_def drop_take min_def add.commute)

lemma peek_append_left [mem_simps]: "off + n \<le> length xs \<Longrightarrow> peek off n (xs @ ys) = peek off n xs"
  by (simp add: peek_def)

lemma peek_append_right [mem_simps]:
  "length xs \<le> off \<Longrightarrow> peek off n (xs @ ys) = peek (off - length xs) n ys"
  by (simp add: peek_def)

lemma peek_all [mem_simps]: "n = length xs \<Longrightarrow> peek 0 n xs = xs"
  by (simp add: peek_def)

lemma poke_single: "i < length mem \<Longrightarrow> poke i [x] mem = mem[i := x]"
  by (simp add: poke_def upd_conv_take_nth_drop)

lemma poke_Cons: "i < length mem \<Longrightarrow> poke i (x # xs) mem = poke (Suc i) xs (mem[i := x])"
  by (simp add: poke_def take_Suc_conv_app_nth)

lemma poke_Nil [simp]: "poke i [] mem = mem"
  by (simp add: poke_def)

subsection \<open>C strings\<close>

text \<open>
  \<open>strnlen\<close> over an array of known size; \<open>strlen\<close> is \<open>None\<close> when no terminator lies in
  the array, because the C function then reads past it.
\<close>

definition strnlen :: "byte list \<Rightarrow> nat \<Rightarrow> nat" where
  "strnlen bs n = length (takeWhile (\<lambda>b. b \<noteq> 0) (take n bs))"

definition strlen :: "byte list \<Rightarrow> nat option" where
  "strlen bs = (if 0 \<in> set bs then Some (length (takeWhile (\<lambda>b. b \<noteq> 0) bs)) else None)"

lemma strnlen_le [simp]: "strnlen bs n \<le> n"
  by (simp add: strnlen_def) (metis length_takeWhile_le length_take min.bounded_iff min.commute)

lemma takeWhile_append_zero:
  "0 \<notin> set s \<Longrightarrow> takeWhile (\<lambda>b. b \<noteq> (0 :: byte)) (s @ 0 # r) = s"
  by (simp add: takeWhile_append)

lemma strlen_terminated: "0 \<notin> set s \<Longrightarrow> strlen (s @ 0 # r) = Some (length s)"
  by (simp add: strlen_def takeWhile_append_zero)

subsection \<open>Generic lemmas on lists\<close>

lemma filter_eq_Nil_iff: "filter P xs = [] \<longleftrightarrow> (\<forall>x \<in> set xs. \<not> P x)"
  by (induction xs) auto

lemma find_Some_in: "List.find P xs = Some x \<Longrightarrow> x \<in> set xs \<and> P x"
  by (induction xs) (auto split: if_splits)

lemma find_None_all: "List.find P xs = None \<longleftrightarrow> (\<forall>x \<in> set xs. \<not> P x)"
  by (induction xs) auto

end
