(* ===== verification/Byte_Buffer.thy ===== *)
theory Byte_Buffer
  imports W3m_Prelude
begin

text \<open>
  \<open>utils::buffer_deserializer\<close> and \<open>utils::buffer_serializer\<close>
  (src/common/utils/byte_buffer.hpp): the cursor over a received packet with its
  bounds checks, the packet under construction, and the proof that the cursor refines
  a parser that consumes a list of bytes. The locale \<open>codec\<close> is the contract of a
  trivially copyable type: a fixed-width encoding with a decoder that inverts it.
\<close>

section \<open>Model\<close>

record deserializer =
  d_offset :: nat
  d_buffer :: "byte list"

definition make_deserializer :: "byte list \<Rightarrow> deserializer" where
  "make_deserializer bs = \<lparr>d_offset = 0, d_buffer = bs\<rparr>"

definition out_of_bounds :: exn where
  "out_of_bounds = Runtime_error (lit ''Out of bounds read from byte buffer'')"

text \<open>
  The largest size a \<open>std::string\<close> can be resized to; above it \<open>resize\<close> throws
  \<open>std::length_error\<close>.
\<close>

definition max_string_size :: nat where
  "max_string_size = 2 ^ 63 - 1"

text \<open>
  \<open>read(void*, length)\<close>: the sum in the check is a \<open>size_t\<close> sum. A \<open>memcpy\<close> that
  leaves the viewed buffer is undefined behaviour.
\<close>

definition read_raw :: "nat \<Rightarrow> deserializer \<Rightarrow> exn + (byte list \<times> deserializer)" where
  "read_raw len d =
     (if (d_offset d + len) mod size_mod > length (d_buffer d) then Inl out_of_bounds
      else if d_offset d + len > length (d_buffer d) then Inl Undefined_behaviour
      else Inr (peek (d_offset d) len (d_buffer d),
                d\<lparr>d_offset := (d_offset d + len) mod size_mod\<rparr>))"

definition read_data :: "nat \<Rightarrow> deserializer \<Rightarrow> exn + (byte list \<times> deserializer)" where
  "read_data len d =
     (if len > max_string_size then Inl Length_error else read_raw len d)"

definition read_obj :: "nat \<Rightarrow> (byte list \<Rightarrow> 'a) \<Rightarrow> deserializer \<Rightarrow> exn + ('a \<times> deserializer)" where
  "read_obj n dec d = exn_bind (read_raw n d) (\<lambda>(bs, d'). Inr (dec bs, d'))"

definition read_u32 :: "deserializer \<Rightarrow> exn + (u32 \<times> deserializer)" where
  "read_u32 = read_obj 4 bytes_u32"

definition read_u64 :: "deserializer \<Rightarrow> exn + (u64 \<times> deserializer)" where
  "read_u64 = read_obj 8 bytes_u64"

text \<open>The elements of an array of \<open>k\<close> objects of \<open>n\<close> bytes each.\<close>

fun array_of_bytes :: "nat \<Rightarrow> (byte list \<Rightarrow> 'a) \<Rightarrow> nat \<Rightarrow> byte list \<Rightarrow> 'a list" where
  "array_of_bytes n dec 0 bs = []"
| "array_of_bytes n dec (Suc k) bs = dec (take n bs) # array_of_bytes n dec k (drop n bs)"

definition read_vector ::
    "nat \<Rightarrow> (byte list \<Rightarrow> 'a) \<Rightarrow> deserializer \<Rightarrow> exn + ('a list \<times> deserializer)" where
  "read_vector n dec d =
     exn_bind (read_u32 d) (\<lambda>(sz, d').
       let total = unat sz * n mod size_mod in
       if (d_offset d' + total) mod size_mod > length (d_buffer d') then Inl out_of_bounds
       else exn_bind (read_raw total d') (\<lambda>(bs, d'').
              Inr (array_of_bytes n dec (unat sz) bs, d'')))"

definition read_string :: "deserializer \<Rightarrow> exn + (byte list \<times> deserializer)" where
  "read_string d =
     exn_bind (read_u32 d) (\<lambda>(sz, d').
       if (d_offset d' + unat sz) mod size_mod > length (d_buffer d') then Inl out_of_bounds
       else read_raw (unat sz) d')"

definition get_remaining_size :: "deserializer \<Rightarrow> nat" where
  "get_remaining_size d = (length (d_buffer d) + size_mod - d_offset d) mod size_mod"

definition get_remaining_data :: "deserializer \<Rightarrow> exn + (byte list \<times> deserializer)" where
  "get_remaining_data d = read_data (get_remaining_size d) d"

definition get_offset :: "deserializer \<Rightarrow> nat" where
  "get_offset d = d_offset d"

text \<open>The serializer is the bytes written so far.\<close>

type_synonym serializer = "byte list"

definition write_raw :: "byte list \<Rightarrow> serializer \<Rightarrow> serializer" where
  "write_raw bs buf = buf @ bs"

definition write_cstr :: "byte list \<Rightarrow> serializer \<Rightarrow> exn + serializer" where
  "write_cstr text buf =
     (case strlen text of None \<Rightarrow> Inl Undefined_behaviour
      | Some n \<Rightarrow> Inr (write_raw (take n text) buf))"

definition write_obj :: "('a \<Rightarrow> byte list) \<Rightarrow> 'a \<Rightarrow> serializer \<Rightarrow> serializer" where
  "write_obj enc x buf = write_raw (enc x) buf"

definition write_u32 :: "u32 \<Rightarrow> serializer \<Rightarrow> serializer" where
  "write_u32 = write_obj u32_bytes"

definition write_u64 :: "u64 \<Rightarrow> serializer \<Rightarrow> serializer" where
  "write_u64 = write_obj u64_bytes"

text \<open>The length prefix is \<open>static_cast<uint32_t>(length)\<close>: the conversion truncates.\<close>

definition write_string :: "byte list \<Rightarrow> serializer \<Rightarrow> serializer" where
  "write_string str buf = write_raw str (write_u32 (of_nat (length str)) buf)"

definition write_elements :: "('a \<Rightarrow> byte list) \<Rightarrow> 'a list \<Rightarrow> serializer \<Rightarrow> serializer" where
  "write_elements enc xs buf = write_raw (concat (map enc xs)) buf"

definition write_vector :: "('a \<Rightarrow> byte list) \<Rightarrow> 'a list \<Rightarrow> serializer \<Rightarrow> serializer" where
  "write_vector enc xs buf = write_elements enc xs (write_u32 (of_nat (length xs)) buf)"

definition write_serializer :: "serializer \<Rightarrow> serializer \<Rightarrow> serializer" where
  "write_serializer obj buf = write_raw obj buf"

lemmas serializer_defs =
  write_raw_def write_obj_def write_u32_def write_u64_def write_string_def
  write_elements_def write_vector_def write_serializer_def

section \<open>The cursor invariant and the abstract parser\<close>

text \<open>
  \<open>cursor_ok\<close>: the cursor is inside a buffer whose size an object can have. The abstract
  value of a cursor is the list of bytes still to be read; the operations refine a parser
  on that list.
\<close>

definition cursor_ok :: "deserializer \<Rightarrow> bool" where
  "cursor_ok d \<longleftrightarrow> d_offset d \<le> length (d_buffer d) \<and> length (d_buffer d) \<le> max_string_size"

definition remaining :: "deserializer \<Rightarrow> byte list" where
  "remaining d = drop (d_offset d) (d_buffer d)"

definition parse_take :: "nat \<Rightarrow> byte list \<Rightarrow> (byte list \<times> byte list) option" where
  "parse_take n bs = (if n \<le> length bs then Some (take n bs, drop n bs) else None)"

definition parse_prefixed :: "nat \<Rightarrow> byte list \<Rightarrow> (nat \<times> byte list \<times> byte list) option" where
  "parse_prefixed w bs =
     (case parse_take 4 bs of None \<Rightarrow> None
      | Some (pre, rest) \<Rightarrow>
          (case parse_take (le_nat pre * w) rest of None \<Rightarrow> None
           | Some (body, rest') \<Rightarrow> Some (le_nat pre, body, rest')))"

lemma cursor_ok_make [simp]:
  "length bs \<le> max_string_size \<Longrightarrow> cursor_ok (make_deserializer bs)"
  by (simp add: cursor_ok_def make_deserializer_def)

lemma remaining_make [simp]: "remaining (make_deserializer bs) = bs"
  by (simp add: remaining_def make_deserializer_def)

lemma read_raw_refines:
  assumes "cursor_ok d" and "len \<le> max_string_size"
  shows "read_raw len d =
     (case parse_take len (remaining d) of None \<Rightarrow> Inl out_of_bounds
      | Some (bs, rest) \<Rightarrow> Inr (bs, d\<lparr>d_offset := d_offset d + len\<rparr>))"
proof -
  from assms have "d_offset d + len < size_mod"
    by (simp add: cursor_ok_def max_string_size_def)
  then have "(d_offset d + len) mod size_mod = d_offset d + len" by simp
  moreover from assms have "length (remaining d) = length (d_buffer d) - d_offset d"
    by (simp add: remaining_def)
  ultimately show ?thesis
    using assms(1)
    by (auto simp: read_raw_def parse_take_def remaining_def peek_def cursor_ok_def)
qed

lemma advance_ok:
  "cursor_ok d \<Longrightarrow> len \<le> length (remaining d) \<Longrightarrow>
     cursor_ok (d\<lparr>d_offset := d_offset d + len\<rparr>) \<and>
     remaining (d\<lparr>d_offset := d_offset d + len\<rparr>) = drop len (remaining d)"
  by (auto simp: cursor_ok_def remaining_def add.commute)

lemma remaining_length: "cursor_ok d \<Longrightarrow> length (remaining d) \<le> max_string_size"
  by (auto simp: cursor_ok_def remaining_def)

text \<open>Reading \<open>n\<close> bytes that are there: the successful case, in the form the proofs use.\<close>

lemma read_raw_ok:
  assumes "cursor_ok d" and "remaining d = bs @ rest"
  shows "\<exists>d'. read_raw (length bs) d = Inr (bs, d') \<and> cursor_ok d' \<and> remaining d' = rest"
proof -
  from assms remaining_length [OF assms(1)] have len: "length bs \<le> max_string_size" by simp
  from assms(2) have "parse_take (length bs) (remaining d) = Some (bs, rest)"
    by (simp add: parse_take_def)
  with read_raw_refines [OF assms(1) len]
  have "read_raw (length bs) d = Inr (bs, d\<lparr>d_offset := d_offset d + length bs\<rparr>)" by simp
  with advance_ok [OF assms(1), of "length bs"] assms(2) show ?thesis by auto
qed

lemma read_raw_short:
  assumes "cursor_ok d" and "length (remaining d) < len" and "len \<le> max_string_size"
  shows "read_raw len d = Inl out_of_bounds"
  using read_raw_refines [OF assms(1,3)] assms(2) by (simp add: parse_take_def)

lemma read_raw_cases:
  assumes "cursor_ok d" and "len \<le> max_string_size"
  obtains (short) "length (remaining d) < len" "read_raw len d = Inl out_of_bounds"
  | (ok) d' where "len \<le> length (remaining d)"
      "read_raw len d = Inr (take len (remaining d), d')" "cursor_ok d'"
      "remaining d' = drop len (remaining d)"
proof (cases "len \<le> length (remaining d)")
  case True
  then have "length (take len (remaining d)) = len" by simp
  moreover obtain d' where
    "read_raw (length (take len (remaining d))) d = Inr (take len (remaining d), d')"
    "cursor_ok d'" "remaining d' = drop len (remaining d)"
    using read_raw_ok [OF assms(1), of "take len (remaining d)" "drop len (remaining d)"] by auto
  ultimately show ?thesis using True ok by auto
next
  case False
  then show ?thesis using short read_raw_short [OF assms(1)] assms(2) by simp
qed

section \<open>The contract of a trivially copyable type\<close>

locale codec =
  fixes enc :: "'a \<Rightarrow> byte list" and dec :: "byte list \<Rightarrow> 'a" and width :: nat
    and valid :: "'a \<Rightarrow> bool"
  assumes enc_length [simp]: "valid x \<Longrightarrow> length (enc x) = width"
    and dec_enc [simp]: "valid x \<Longrightarrow> dec (enc x) = x"
    and dec_valid [simp]: "length bs = width \<Longrightarrow> valid (dec bs)"
    and width_bound: "0 < width \<and> width < 2 ^ 31"
begin

lemma read_obj_enc:
  assumes "valid x" and "cursor_ok d" and "remaining d = enc x @ rest"
  shows "\<exists>d'. read_obj width dec d = Inr (x, d') \<and> cursor_ok d' \<and> remaining d' = rest"
  using read_raw_ok [OF assms(2,3)] assms(1) by (auto simp: read_obj_def)

lemma width_fits: "width \<le> max_string_size"
  using width_bound by (simp add: max_string_size_def)

lemma read_obj_short:
  assumes "cursor_ok d" and "length (remaining d) < width"
  shows "read_obj width dec d = Inl out_of_bounds"
  using read_raw_short [OF assms width_fits] by (simp add: read_obj_def)

text \<open>Every read of the type: too few bytes, or a valid value and the rest.\<close>

lemma read_obj_cases:
  assumes "cursor_ok d"
  obtains (short) "length (remaining d) < width" "read_obj width dec d = Inl out_of_bounds"
  | (ok) d' where "width \<le> length (remaining d)"
      "read_obj width dec d = Inr (dec (take width (remaining d)), d')"
      "valid (dec (take width (remaining d)))"
      "cursor_ok d'" "remaining d' = drop width (remaining d)"
proof (cases rule: read_raw_cases [OF assms width_fits])
  case 1
  then show ?thesis using short by (simp add: read_obj_def)
next
  case (2 d')
  then show ?thesis using ok [of d'] by (simp add: read_obj_def)
qed

lemma enc_inject: "valid x \<Longrightarrow> valid y \<Longrightarrow> enc x = enc y \<longleftrightarrow> x = y"
  by (metis dec_enc)

lemma length_concat_enc [simp]:
  "list_all valid xs \<Longrightarrow> length (concat (map enc xs)) = length xs * width"
  by (induction xs) auto

lemma array_of_bytes_enc:
  "list_all valid xs \<Longrightarrow>
     array_of_bytes width dec (length xs) (concat (map enc xs) @ rest) = xs"
  by (induction xs) auto

lemma array_of_bytes_valid:
  "length bs = k * width \<Longrightarrow> list_all valid (array_of_bytes width dec k bs)"
proof (induction k arbitrary: bs)
  case (Suc k)
  then have "length (take width bs) = width" and "length (drop width bs) = k * width" by auto
  with Suc.IH [of "drop width bs"] show ?case by simp
qed simp

end

locale bijective_codec = codec +
  assumes enc_dec: "length bs = width \<Longrightarrow> enc (dec bs) = bs"
begin

lemma dec_surj_on: "length bs = width \<Longrightarrow> \<exists>x. valid x \<and> bs = enc x"
  by (metis enc_dec dec_valid)

text \<open>Whatever is decoded re-encodes to the bytes it was read from.\<close>

lemma concat_enc_array_of_bytes:
  "length bs = k * width \<Longrightarrow> concat (map enc (array_of_bytes width dec k bs)) = bs"
proof (induction k arbitrary: bs)
  case (Suc k)
  then have "length (take width bs) = width" and "length (drop width bs) = k * width" by auto
  with Suc.IH [of "drop width bs"] show ?case by (simp add: enc_dec)
qed simp

end

abbreviation any_value :: "'a \<Rightarrow> bool" where "any_value x \<equiv> True"

interpretation u16c: bijective_codec u16_bytes bytes_u16 2 any_value
  by unfold_locales (simp_all add: u16_bytes_bytes_u16)

interpretation u32c: bijective_codec u32_bytes bytes_u32 4 any_value
  by unfold_locales (simp_all add: u32_bytes_bytes_u32)

interpretation u64c: bijective_codec u64_bytes bytes_u64 8 any_value
  by unfold_locales (simp_all add: u64_bytes_bytes_u64)

lemmas read_u32_enc = u32c.read_obj_enc [OF TrueI, folded read_u32_def]
lemmas read_u32_short = u32c.read_obj_short [folded read_u32_def]
lemmas read_u64_enc = u64c.read_obj_enc [OF TrueI, folded read_u64_def]
lemmas read_u64_short = u64c.read_obj_short [folded read_u64_def]

text \<open>The whole behaviour of \<open>read<uint32_t>\<close>.\<close>

lemma read_u32_cases:
  assumes "cursor_ok d"
  obtains (short) "length (remaining d) < 4" "read_u32 d = Inl out_of_bounds"
  | (ok) w rest d' where "remaining d = u32_bytes w @ rest" "read_u32 d = Inr (w, d')"
      "cursor_ok d'" "remaining d' = rest"
proof (cases "length (remaining d) < 4")
  case True
  then show ?thesis using short read_u32_short [OF assms] by simp
next
  case False
  then have "length (take 4 (remaining d)) = 4" by simp
  then obtain w where "take 4 (remaining d) = u32_bytes w" using u32c.dec_surj_on by blast
  then have "remaining d = u32_bytes w @ drop 4 (remaining d)"
    by (metis append_take_drop_id)
  then show ?thesis using ok read_u32_enc [OF assms] by blast
qed

lemma le_nat_u32_bytes [simp, wire]: "le_nat (u32_bytes w) = unat w"
  using unsigned_less [where ?'a = nat and w = w]
  by (simp add: u32_bytes_def le_nat_nat_le)

lemma le_nat_u64_bytes [simp, wire]: "le_nat (u64_bytes w) = unat w"
  using unsigned_less [where ?'a = nat and w = w]
  by (simp add: u64_bytes_def le_nat_nat_le)

lemma unat_u32_bound: "unat (w :: u32) < 2 ^ 32"
  using unsigned_less [where ?'a = nat and w = w] by simp

section \<open>Strings and vectors\<close>

text \<open>
  A vector's byte count is below \<open>2 ^ 63\<close>, so none of the \<open>size_t\<close> operations of
  \<open>read_vector\<close> wraps around and its two checks are exact.
\<close>

lemma vector_total:
  assumes "w < 2 ^ 31"
  shows "unat (sz :: u32) * w mod size_mod = unat sz * w" and "unat sz * w \<le> max_string_size"
proof -
  have "unat sz * w \<le> (2 ^ 32 - 1) * (2 ^ 31 - 1)"
    using assms unat_u32_bound [of sz] by (intro mult_le_mono) simp_all
  then have "unat sz * w < 2 ^ 63" by simp
  then show "unat sz * w mod size_mod = unat sz * w" and "unat sz * w \<le> max_string_size"
    by (simp_all add: max_string_size_def)
qed

lemma parse_prefixed_u32:
  "parse_prefixed w (u32_bytes sz @ rest) =
     (if unat sz * w \<le> length rest
      then Some (unat sz, take (unat sz * w) rest, drop (unat sz * w) rest) else None)"
  by (simp add: parse_prefixed_def parse_take_def)

lemma bounds_check_exact:
  assumes "cursor_ok d" and "len \<le> max_string_size"
  shows "(d_offset d + len) mod size_mod > length (d_buffer d) \<longleftrightarrow> length (remaining d) < len"
  using assms by (auto simp: cursor_ok_def remaining_def max_string_size_def)

lemma read_vector_refines:
  assumes ok: "cursor_ok d" and w: "w < 2 ^ 31"
  shows "case parse_prefixed w (remaining d) of
       None \<Rightarrow> read_vector w dec d = Inl out_of_bounds
     | Some (n, body, rest) \<Rightarrow>
         \<exists>d'. read_vector w dec d = Inr (array_of_bytes w dec n body, d') \<and>
              cursor_ok d' \<and> remaining d' = rest"
  using ok
proof (cases rule: read_u32_cases)
  case short
  then show ?thesis by (simp add: parse_prefixed_def parse_take_def read_vector_def)
next
  case (ok sz rest d')
  note sz = vector_total [OF w, of sz]
  have check: "(d_offset d' + unat sz * w) mod size_mod > length (d_buffer d') \<longleftrightarrow>
      length rest < unat sz * w"
    using bounds_check_exact [OF ok(3) sz(2)] ok(4) by simp
  from ok(3) sz(2) show ?thesis
    by (cases rule: read_raw_cases)
       (use ok sz check in \<open>auto simp: read_vector_def parse_prefixed_u32 Let_def\<close>)
qed

lemma read_string_refines:
  assumes ok: "cursor_ok d"
  shows "case parse_prefixed 1 (remaining d) of
       None \<Rightarrow> read_string d = Inl out_of_bounds
     | Some (n, body, rest) \<Rightarrow>
         \<exists>d'. read_string d = Inr (body, d') \<and> cursor_ok d' \<and> remaining d' = rest"
  using ok
proof (cases rule: read_u32_cases)
  case short
  then show ?thesis by (simp add: parse_prefixed_def parse_take_def read_string_def)
next
  case (ok sz rest d')
  have sz: "unat sz \<le> max_string_size"
    using unat_u32_bound [of sz] by (simp add: max_string_size_def)
  have check: "(d_offset d' + unat sz) mod size_mod > length (d_buffer d') \<longleftrightarrow>
      length rest < unat sz"
    using bounds_check_exact [OF ok(3) sz] ok(4) by simp
  from ok(3) sz show ?thesis
    by (cases rule: read_raw_cases)
       (use ok check in \<open>auto simp: read_string_def parse_prefixed_u32\<close>)
qed

lemma unat_of_nat_u32: "n < 2 ^ 32 \<Longrightarrow> unat (of_nat n :: u32) = n"
  by (simp add: unat_of_nat)

lemma read_write_string:
  assumes "cursor_ok d" and "remaining d = write_string s [] @ rest" and "length s < 2 ^ 32"
  shows "\<exists>d'. read_string d = Inr (s, d') \<and> cursor_ok d' \<and> remaining d' = rest"
proof -
  from assms(2,3) have "parse_prefixed 1 (remaining d) = Some (length s, s, rest)"
    by (simp add: serializer_defs parse_prefixed_u32 unat_of_nat_u32)
  with read_string_refines [OF assms(1)] show ?thesis by simp
qed

context codec
begin

lemma read_write_vector:
  assumes "list_all valid xs" and "cursor_ok d"
    and "remaining d = write_vector enc xs [] @ rest" and "length xs < 2 ^ 32"
  shows "\<exists>d'. read_vector width dec d = Inr (xs, d') \<and> cursor_ok d' \<and> remaining d' = rest"
proof -
  from assms(1,3,4) have
    "parse_prefixed width (remaining d) = Some (length xs, concat (map enc xs), rest)"
    by (simp add: serializer_defs parse_prefixed_u32 unat_of_nat_u32)
  with read_vector_refines [OF assms(2), of width dec] width_bound
    array_of_bytes_enc [OF assms(1), of "[]"]
  show ?thesis by simp
qed

end

section \<open>Properties\<close>

text \<open>C35: reading a length-prefixed array from any bytes an attacker chose never leaves the
  buffer: it either fails with the out-of-bounds error, exactly when the prefix and that many
  elements are not there, or consumes them and leaves the cursor inside the buffer.\<close>

theorem read_vector_safe:
  assumes "cursor_ok d" and "w < 2 ^ 31"
  shows "case read_vector w dec d of
      Inl e \<Rightarrow> e = out_of_bounds \<and> parse_prefixed w (remaining d) = None
    | Inr (xs, d') \<Rightarrow> cursor_ok d' \<and>
        (\<exists>sz body. remaining d = u32_bytes sz @ body @ remaining d' \<and>
           length body = unat sz * w \<and> xs = array_of_bytes w dec (unat sz) body)"
  using assms(1)
proof (cases rule: read_u32_cases)
  case short
  then show ?thesis by (simp add: read_vector_def parse_prefixed_def parse_take_def)
next
  case (ok sz rest d1)
  show ?thesis
  proof (cases "unat sz * w \<le> length rest")
    case True
    then have p: "parse_prefixed w (remaining d) =
        Some (unat sz, take (unat sz * w) rest, drop (unat sz * w) rest)"
      by (simp add: ok(1) parse_prefixed_u32)
    from True read_vector_refines [OF assms, of dec] ok(1) show ?thesis
      unfolding p by (auto intro!: exI [of _ sz] exI [of _ "take (unat sz * w) rest"])
  next
    case False
    then have p: "parse_prefixed w (remaining d) = None" by (simp add: ok(1) parse_prefixed_u32)
    from read_vector_refines [OF assms, of dec] show ?thesis unfolding p by simp
  qed
qed

theorem read_vector_safe_witness:
  "case read_vector 2 bytes_u16 (make_deserializer [3, 0, 0, 0, 1, 2]) of
      Inl e \<Rightarrow> e = out_of_bounds \<and> parse_prefixed 2 [3, 0, 0, 0, 1, 2] = None
    | Inr (xs, d') \<Rightarrow> cursor_ok d' \<and>
        (\<exists>sz body. [3, 0, 0, 0, 1, 2] = u32_bytes sz @ body @ remaining d' \<and>
           length body = unat sz * 2 \<and> xs = array_of_bytes 2 bytes_u16 (unat sz) body)"
  using read_vector_safe [of "make_deserializer [3, 0, 0, 0, 1, 2]" 2 bytes_u16,
      unfolded remaining_make] cursor_ok_make [of "[3, 0, 0, 0, 1, 2]"]
  by (auto simp: max_string_size_def)

text \<open>A message of a number and two strings is read back as it was written, with nothing
  left over.\<close>

theorem message_roundtrip:
  assumes "length s1 < 2 ^ 32" and "length s2 < 2 ^ 32"
  shows "\<exists>d1 d2 d3.
    read_u32 (make_deserializer (write_string s2 (write_string s1 (write_u32 w [])))) = Inr (w, d1) \<and>
    read_string d1 = Inr (s1, d2) \<and> read_string d2 = Inr (s2, d3) \<and> get_remaining_size d3 = 0"
proof -
  let ?rest = "write_string s1 [] @ write_string s2 []"
  have msg: "write_string s2 (write_string s1 (write_u32 w [])) = u32_bytes w @ ?rest"
    by (simp add: serializer_defs)
  have "length (u32_bytes w @ ?rest) \<le> max_string_size"
    using assms by (simp add: serializer_defs max_string_size_def)
  then obtain d1 where d1: "read_u32 (make_deserializer (u32_bytes w @ ?rest)) = Inr (w, d1)"
      "cursor_ok d1" "remaining d1 = ?rest"
    using read_u32_enc [of "make_deserializer (u32_bytes w @ ?rest)" w ?rest] by auto
  obtain d2 where d2: "read_string d1 = Inr (s1, d2)" "cursor_ok d2"
      "remaining d2 = write_string s2 []"
    using read_write_string [OF d1(2,3) assms(1)] by blast
  obtain d3 where d3: "read_string d2 = Inr (s2, d3)" "cursor_ok d3" "remaining d3 = []"
    using read_write_string [of d2 s2 "[]"] d2(2,3) assms(2) by auto
  have "get_remaining_size d3 = 0"
    using d3(2,3) by (simp add: get_remaining_size_def cursor_ok_def remaining_def)
  with d1(1) d2(1) d3(1) show ?thesis by (auto simp: msg)
qed

theorem message_roundtrip_witness:
  "\<exists>d1 d2 d3.
    read_u32 (make_deserializer (write_string [] (write_string [1, 2] (write_u32 6 [])))) =
      Inr (6, d1) \<and>
    read_string d1 = Inr ([1, 2], d2) \<and> read_string d2 = Inr ([], d3) \<and> get_remaining_size d3 = 0"
  using message_roundtrip [of "[1, 2]" "[]" 6] by simp

text \<open>The check of the raw read adds in \<open>size_t\<close>: from any position after the first byte there
  is a length that passes it although the bytes are not there, so the copy leaves the buffer.\<close>

theorem raw_read_check_wraps:
  assumes "0 < d_offset d" and "cursor_ok d"
  shows "read_raw (2 ^ 64 - d_offset d) d = Inl Undefined_behaviour"
proof -
  have "d_offset d < 2 ^ 64" using assms(2) by (simp add: cursor_ok_def max_string_size_def)
  with assms show ?thesis by (simp add: read_raw_def cursor_ok_def max_string_size_def)
qed

theorem raw_read_check_wraps_witness:
  "read_raw (2 ^ 64 - 1) \<lparr>d_offset = 1, d_buffer = [0]\<rparr> = Inl Undefined_behaviour"
  using raw_read_check_wraps [of "\<lparr>d_offset = 1, d_buffer = [0]\<rparr>"]
  by (simp add: cursor_ok_def max_string_size_def)

end
