(* ===== verification/Game_Structs.thy ===== *)
theory Game_Structs
  imports Byte_Buffer
begin

text \<open>
  \<open>game::player\<close> and \<open>game::player_state\<close> (src/common/game/structs.hpp) with their
  memory layout on x86-64, which is the wire format because the code copies the structs
  with \<open>memcpy\<close>: 64-bit little-endian fields at multiples of 8, the float and the
  \<open>int32_t\<close> sharing one such slot, no padding, 104 bytes for the state and 176 for the
  player. A \<open>double\<close> (\<open>float\<close>) is kept as the 64 (32) bits of its representation: the
  code here only stores and copies them.
\<close>

section \<open>Model\<close>

definition PROTOCOL :: u32 where
  "PROTOCOL = 6"

type_synonym f64 = u64
type_synonym f32 = u32
type_synonym vec3_t = "f64 \<times> f64 \<times> f64"
type_synonym vec4_t = "f64 \<times> f64 \<times> f64 \<times> f64"

definition name_size :: nat where
  "name_size = 64"

record player_state =
  angles :: vec3_t
  position :: vec4_t
  velocity :: vec4_t
  speed :: f32
  move_type :: u32
  state_id :: u64

record player =
  guid :: u64
  name :: "byte list"
  pstate :: player_state

definition zero_state :: player_state where
  "zero_state = \<lparr>angles = (0, 0, 0), position = (0, 0, 0, 0), velocity = (0, 0, 0, 0),
     speed = 0, move_type = 0, state_id = 0\<rparr>"

definition zero_player :: player where
  "zero_player = \<lparr>guid = 0, name = replicate name_size 0, pstate = zero_state\<rparr>"

fun vec3_bytes :: "vec3_t \<Rightarrow> byte list" where
  "vec3_bytes (a, b, c) = u64_bytes a @ u64_bytes b @ u64_bytes c"

fun vec4_bytes :: "vec4_t \<Rightarrow> byte list" where
  "vec4_bytes (a, b, c, d) = u64_bytes a @ u64_bytes b @ u64_bytes c @ u64_bytes d"

definition bytes_vec3 :: "byte list \<Rightarrow> vec3_t" where
  "bytes_vec3 bs = (bytes_u64 (peek 0 8 bs), bytes_u64 (peek 8 8 bs), bytes_u64 (peek 16 8 bs))"

definition bytes_vec4 :: "byte list \<Rightarrow> vec4_t" where
  "bytes_vec4 bs = (bytes_u64 (peek 0 8 bs), bytes_u64 (peek 8 8 bs),
     bytes_u64 (peek 16 8 bs), bytes_u64 (peek 24 8 bs))"

definition state_bytes :: "player_state \<Rightarrow> byte list" where
  "state_bytes s = vec3_bytes (angles s) @ vec4_bytes (position s) @ vec4_bytes (velocity s) @
     u32_bytes (speed s) @ u32_bytes (move_type s) @ u64_bytes (state_id s)"

definition bytes_state :: "byte list \<Rightarrow> player_state" where
  "bytes_state bs = \<lparr>angles = bytes_vec3 (peek 0 24 bs), position = bytes_vec4 (peek 24 32 bs),
     velocity = bytes_vec4 (peek 56 32 bs), speed = bytes_u32 (peek 88 4 bs),
     move_type = bytes_u32 (peek 92 4 bs), state_id = bytes_u64 (peek 96 8 bs)\<rparr>"

definition player_bytes :: "player \<Rightarrow> byte list" where
  "player_bytes p = u64_bytes (guid p) @ name p @ state_bytes (pstate p)"

definition bytes_player :: "byte list \<Rightarrow> player" where
  "bytes_player bs = \<lparr>guid = bytes_u64 (peek 0 8 bs), name = peek 8 64 bs,
     pstate = bytes_state (peek 72 104 bs)\<rparr>"

definition player_size :: nat where
  "player_size = 176"

text \<open>A \<open>name_t\<close> is a \<open>std::array<char, 64>\<close>: the only constraint a value carries.\<close>

definition valid_player :: "player \<Rightarrow> bool" where
  "valid_player p \<longleftrightarrow> length (name p) = name_size"

section \<open>The layout is a codec\<close>

lemma length_vec_bytes [simp]: "length (vec3_bytes v) = 24" "length (vec4_bytes w) = 32"
  by (cases v; simp) (cases w; simp)

lemma length_state_bytes [simp]: "length (state_bytes s) = 104"
  by (simp add: state_bytes_def)

lemma bytes_vec3_bytes [simp, wire]: "bytes_vec3 (vec3_bytes v) = v"
  by (cases v) (simp add: bytes_vec3_def mem_simps)

lemma bytes_vec4_bytes [simp, wire]: "bytes_vec4 (vec4_bytes v) = v"
  by (cases v) (simp add: bytes_vec4_def mem_simps)

lemma bytes_state_bytes [simp, wire]: "bytes_state (state_bytes s) = s"
  by (simp add: bytes_state_def state_bytes_def mem_simps)

lemma split_at_peek: "peek 0 n bs @ drop n bs = bs"
  by (simp add: peek_def)

lemma peek_join: "peek i n bs @ peek (i + n) m bs = peek i (n + m) bs"
  unfolding peek_def by (metis add.commute drop_drop take_add)

lemma vec3_bytes_bytes: "length bs = 24 \<Longrightarrow> vec3_bytes (bytes_vec3 bs) = bs"
  using peek_join [of 0 8 bs 8] peek_join [of 0 16 bs 8]
  by (simp add: bytes_vec3_def u64_bytes_bytes_u64 mem_simps flip: append_assoc)

lemma vec4_bytes_bytes: "length bs = 32 \<Longrightarrow> vec4_bytes (bytes_vec4 bs) = bs"
  using peek_join [of 0 8 bs 8] peek_join [of 0 16 bs 8] peek_join [of 0 24 bs 8]
  by (simp add: bytes_vec4_def u64_bytes_bytes_u64 mem_simps flip: append_assoc)

lemma state_bytes_bytes: "length bs = 104 \<Longrightarrow> state_bytes (bytes_state bs) = bs"
  using peek_join [of 0 24 bs 32] peek_join [of 0 56 bs 32] peek_join [of 0 88 bs 4]
    peek_join [of 0 92 bs 4] peek_join [of 0 96 bs 8]
  by (simp add: bytes_state_def state_bytes_def vec3_bytes_bytes vec4_bytes_bytes
      u32_bytes_bytes_u32 u64_bytes_bytes_u64 mem_simps flip: append_assoc)

lemma player_bytes_bytes: "length bs = 176 \<Longrightarrow> player_bytes (bytes_player bs) = bs"
  using peek_join [of 0 8 bs 64] peek_join [of 0 72 bs 104]
  by (simp add: bytes_player_def player_bytes_def state_bytes_bytes
      u64_bytes_bytes_u64 mem_simps flip: append_assoc)

lemma valid_zero_player [simp]: "valid_player zero_player"
  by (simp add: valid_player_def zero_player_def)

interpretation playerc: bijective_codec player_bytes bytes_player player_size valid_player
proof unfold_locales
  fix p assume "valid_player p"
  then have n: "length (name p) = 64" by (simp add: valid_player_def name_size_def)
  then show "length (player_bytes p) = player_size"
    by (simp add: player_bytes_def player_size_def)
  from n show "bytes_player (player_bytes p) = p"
    by (simp add: bytes_player_def player_bytes_def mem_simps)
qed (simp_all add: player_size_def valid_player_def name_size_def bytes_player_def
      player_bytes_bytes [unfolded bytes_player_def])

lemma bytes_player_bytes [wire]: "valid_player p \<Longrightarrow> bytes_player (player_bytes p) = p"
  by (rule playerc.dec_enc)

end
