(* ===== verification/String_Utils.thy ===== *)
theory String_Utils
  imports W3m_Prelude "HOL-Library.Sublist"
begin

unbundle bit_operations_syntax

text \<open>
  \<open>utils::string\<close> (src/common/utils/string.cpp) in the "C" locale: case mapping,
  splitting, searching, replacing, trimming, hexadecimal dumps, the narrowing and widening
  conversions, and the bounded C-string copy that fills the fixed-size player names.
\<close>

section \<open>Model\<close>

definition is_upper :: "byte \<Rightarrow> bool" where "is_upper b \<longleftrightarrow> 65 \<le> b \<and> b \<le> 90"
definition is_lower :: "byte \<Rightarrow> bool" where "is_lower b \<longleftrightarrow> 97 \<le> b \<and> b \<le> 122"
definition is_digit :: "byte \<Rightarrow> bool" where "is_digit b \<longleftrightarrow> 48 \<le> b \<and> b \<le> 57"
definition is_space :: "byte \<Rightarrow> bool" where "is_space b \<longleftrightarrow> b = 32 \<or> 9 \<le> b \<and> b \<le> 13"

definition tolower :: "byte \<Rightarrow> byte" where "tolower b = (if is_upper b then b + 32 else b)"
definition toupper :: "byte \<Rightarrow> byte" where "toupper b = (if is_lower b then b - 32 else b)"

definition to_lower :: "byte list \<Rightarrow> byte list" where "to_lower text = map tolower text"
definition to_upper :: "byte list \<Rightarrow> byte list" where "to_upper text = map toupper text"

text \<open>The wide versions leave every code unit that is not a single byte alone.\<close>

definition wide_lower :: "u16 \<Rightarrow> u16" where
  "wide_lower c = (if ucast (ucast c :: byte) \<noteq> c then c else ucast (tolower (ucast c)))"

definition wide_upper :: "u16 \<Rightarrow> u16" where
  "wide_upper c = (if ucast (ucast c :: byte) \<noteq> c then c else ucast (toupper (ucast c)))"

definition to_lower_wide :: "u16 list \<Rightarrow> u16 list" where "to_lower_wide text = map wide_lower text"
definition to_upper_wide :: "u16 list \<Rightarrow> u16 list" where "to_upper_wide text = map wide_upper text"

text \<open>
  \<open>std::getline\<close> delivers the characters before the next delimiter and fails only when
  nothing is left, so a delimiter at the very end adds no empty item.
\<close>

function split :: "'a list \<Rightarrow> 'a \<Rightarrow> 'a list list" where
  "split s delim =
     (if s = [] then []
      else let item = takeWhile (\<lambda>c. c \<noteq> delim) s; rest = dropWhile (\<lambda>c. c \<noteq> delim) s in
        (if rest = [] then [item] else item # split (tl rest) delim))"
  by pat_completeness auto
termination
proof (relation "measure (\<lambda>(s, delim). length s)")
  fix s item rest :: "'a list" and delim
  assume "rest = dropWhile (\<lambda>c. c \<noteq> delim) s" and "rest \<noteq> []"
  then have "length (tl rest) < length rest" and "length rest \<le> length s"
    by (simp_all add: length_dropWhile_le)
  then show "((tl rest, delim), (s, delim)) \<in> measure (\<lambda>(s, delim). length s)"
    by simp
qed simp

declare split.simps [simp del]

text \<open>\<open>std::string::find\<close>: the first position not before \<open>pos\<close>, \<open>None\<close> for \<open>npos\<close>.\<close>

fun find_sub :: "'a list \<Rightarrow> 'a list \<Rightarrow> nat option" where
  "find_sub sub [] = (if sub = [] then Some 0 else None)"
| "find_sub sub (c # text) =
     (if take (length sub) (c # text) = sub then Some 0
      else map_option Suc (find_sub sub text))"

definition str_find :: "'a list \<Rightarrow> 'a list \<Rightarrow> nat \<Rightarrow> nat option" where
  "str_find text sub pos =
     (if pos > length text then None else map_option ((+) pos) (find_sub sub (drop pos text)))"

definition starts_with :: "'a list \<Rightarrow> 'a list \<Rightarrow> bool" where
  "starts_with text sub \<longleftrightarrow> str_find text sub 0 = Some 0"

definition ends_with :: "'a list \<Rightarrow> 'a list \<Rightarrow> bool" where
  "ends_with text sub \<longleftrightarrow>
     (if length sub > length text then False
      else take (length sub) (rev text) = rev sub)"

definition is_numeric :: "byte list \<Rightarrow> bool" where
  "is_numeric text \<longleftrightarrow> text \<noteq> [] \<and> dropWhile is_digit text = []"

definition hex_digit :: "byte \<Rightarrow> byte" where
  "hex_digit n = (if n < 10 then 48 + n else 55 + n)"

fun dump_hex_from :: "nat \<Rightarrow> byte list \<Rightarrow> byte list \<Rightarrow> byte list" where
  "dump_hex_from i [] sep = []"
| "dump_hex_from i (b # bs) sep =
     (if i > 0 then sep else []) @ [hex_digit (drop_bit 4 b), hex_digit (b AND 15)] @
     dump_hex_from (Suc i) bs sep"

definition dump_hex :: "byte list \<Rightarrow> byte list \<Rightarrow> byte list" where
  "dump_hex data sep = dump_hex_from 0 data sep"

text \<open>
  \<open>convert\<close>: a wide code unit is truncated to a \<open>char\<close>; a \<open>char\<close> is signed, so widening
  it extends the sign.
\<close>

definition narrow :: "u16 list \<Rightarrow> byte list" where "narrow wstr = map ucast wstr"
definition widen :: "byte list \<Rightarrow> u16 list" where "widen str = map scast str"

text \<open>The loop of \<open>replace\<close>, from position \<open>pos\<close>.\<close>

function replace_loop :: "'a list \<Rightarrow> 'a list \<Rightarrow> 'a list \<Rightarrow> nat \<Rightarrow> 'a list" where
  "replace_loop str frm to pos =
     (if frm = [] then str
      else case str_find str frm pos of
        None \<Rightarrow> str
      | Some p \<Rightarrow>
          replace_loop (take p str @ to @ drop (p + length frm) str) frm to (p + length to))"
  by pat_completeness auto

definition ltrim :: "byte list \<Rightarrow> byte list" where
  "ltrim str = dropWhile is_space str"

definition rtrim :: "byte list \<Rightarrow> byte list" where
  "rtrim str = rev (dropWhile is_space (rev str))"

definition trim :: "byte list \<Rightarrow> byte list" where
  "trim str = ltrim (rtrim str)"

text \<open>
  \<open>copy(dest, max_size, src)\<close>: \<open>src\<close> is the array the pointer leads to. Reading past it
  or writing past \<open>dest\<close> is undefined.
\<close>

function copy_loop :: "byte list \<Rightarrow> nat \<Rightarrow> byte list \<Rightarrow> nat \<Rightarrow> exn + byte list" where
  "copy_loop dest max_size src i =
     (if i \<ge> length dest then Inl Undefined_behaviour
      else if i + 1 = max_size then Inr (dest[i := 0])
      else if i \<ge> length src then Inl Undefined_behaviour
      else if src ! i = 0 then Inr (dest[i := src ! i])
      else copy_loop (dest[i := src ! i]) max_size src (i + 1))"
  by pat_completeness auto
termination
  by (relation "measure (\<lambda>(dest, max_size, src, i). length dest - i)") auto

declare copy_loop.simps [simp del]

definition str_copy :: "byte list \<Rightarrow> nat \<Rightarrow> byte list \<Rightarrow> exn + byte list" where
  "str_copy dest max_size src =
     (if max_size = 0 then Inr dest else copy_loop dest max_size src 0)"

text \<open>\<open>std::to_string\<close> of an unsigned number.\<close>

fun decimal :: "nat \<Rightarrow> byte list" where
  "decimal n = (if n < 10 then [of_nat (48 + n)] else decimal (n div 10) @ [of_nat (48 + n mod 10)])"

declare decimal.simps [simp del]

section \<open>Searching\<close>

lemma find_sub_sound:
  "find_sub sub s = Some i \<Longrightarrow>
     i \<le> length s \<and> take (length sub) (drop i s) = sub \<and>
     (\<forall>j < i. take (length sub) (drop j s) \<noteq> sub)"
proof (induction sub s arbitrary: i rule: find_sub.induct)
  case (2 sub c s)
  show ?case
  proof (cases "take (length sub) (c # s) = sub")
    case False
    with "2.prems" obtain k where k: "i = Suc k" "find_sub sub s = Some k" by auto
    have "take (length sub) (drop j (c # s)) \<noteq> sub" if "j < Suc k" for j
      using that False "2.IH" [OF False k(2)] by (cases j) auto
    with k "2.IH" [OF False k(2)] show ?thesis by auto
  qed (use "2.prems" in auto)
qed (auto split: if_splits)

lemma find_sub_complete:
  "i \<le> length s \<Longrightarrow> take (length sub) (drop i s) = sub \<Longrightarrow> find_sub sub s \<noteq> None"
proof (induction sub s arbitrary: i rule: find_sub.induct)
  case (2 sub c s)
  then show ?case by (cases i) auto
qed auto

lemma find_sub_None_iff: "find_sub sub s = None \<longleftrightarrow> \<not> sublist sub s"
proof -
  have "sublist sub s \<longleftrightarrow> (\<exists>i \<le> length s. take (length sub) (drop i s) = sub)"
  proof
    assume "sublist sub s"
    then obtain u v where "s = u @ sub @ v" unfolding sublist_def by blast
    then show "\<exists>i \<le> length s. take (length sub) (drop i s) = sub"
      by (intro exI [of _ "length u"]) simp
  next
    assume "\<exists>i \<le> length s. take (length sub) (drop i s) = sub"
    then obtain i where "take (length sub) (drop i s) = sub" by blast
    then have "s = take i s @ sub @ drop (length sub) (drop i s)"
      by (metis append_take_drop_id)
    then show "sublist sub s" unfolding sublist_def by blast
  qed
  then show ?thesis
    using find_sub_sound find_sub_complete by (metis not_None_eq)
qed

lemma str_find_SomeD:
  assumes "str_find s sub pos = Some p"
  shows "pos \<le> p" and "p + length sub \<le> length s" and "take (length sub) (drop p s) = sub"
    and "\<And>j. pos \<le> j \<Longrightarrow> j < p \<Longrightarrow> take (length sub) (drop j s) \<noteq> sub"
proof -
  from assms obtain i where pos: "pos \<le> length s" and i: "find_sub sub (drop pos s) = Some i"
    and p: "p = pos + i" by (auto simp: str_find_def split: if_splits)
  note sound = find_sub_sound [OF i]
  from p show "pos \<le> p" by simp
  from sound p show t: "take (length sub) (drop p s) = sub" by (simp add: add.commute)
  from sound pos p have "p \<le> length s" by auto
  moreover from t have "length sub \<le> length (drop p s)" by (metis length_take min.cobounded1)
  ultimately show "p + length sub \<le> length s" by simp
  show "take (length sub) (drop j s) \<noteq> sub" if "pos \<le> j" "j < p" for j
    using sound that p by (auto dest: spec [of _ "j - pos"])
qed

lemma starts_with_iff: "starts_with s sub \<longleftrightarrow> prefix sub s"
proof
  assume "starts_with s sub"
  then have "take (length sub) s = sub"
    using str_find_SomeD(3) [of s sub 0 0] by (simp add: starts_with_def)
  then show "prefix sub s" by (metis take_is_prefix)
next
  assume "prefix sub s"
  then obtain v where "s = sub @ v" by (auto elim: prefixE)
  then have "take (length sub) s = sub" by simp
  then have "find_sub sub s = Some 0" by (cases s) auto
  then show "starts_with s sub" by (simp add: starts_with_def str_find_def)
qed

lemma ends_with_iff: "ends_with s sub \<longleftrightarrow> suffix sub s"
proof
  assume "ends_with s sub"
  then have "take (length sub) (rev s) = rev sub" by (auto simp: ends_with_def split: if_splits)
  then have "prefix (rev sub) (rev s)" by (metis take_is_prefix)
  then show "suffix sub s" by (simp add: suffix_to_prefix)
qed (auto simp: ends_with_def suffix_def)

termination replace_loop
proof (relation "measure (\<lambda>(str, frm, to, pos). length str - pos)", simp)
  fix str frm to :: "'a list" and pos p
  assume "frm \<noteq> []" and "str_find str frm pos = Some p"
  with str_find_SomeD(1,2) [OF this(2)] show
    "((take p str @ to @ drop (p + length frm) str, frm, to, p + length to), (str, frm, to, pos))
       \<in> measure (\<lambda>(str, frm, to, pos). length str - pos)"
    by (cases frm) auto
qed

declare replace_loop.simps [simp del]

definition replace :: "'a list \<Rightarrow> 'a list \<Rightarrow> 'a list \<Rightarrow> 'a list" where
  "replace str frm to = (if frm = [] then str else replace_loop str frm to 0)"

section \<open>Replacing\<close>

text \<open>
  The reference: one pass from left to right over the original text, which never looks at
  a replacement again.
\<close>

function replace_spec :: "'a list \<Rightarrow> 'a list \<Rightarrow> 'a list \<Rightarrow> 'a list" where
  "replace_spec [] frm to = []"
| "replace_spec (c # s) frm to =
     (if frm \<noteq> [] \<and> prefix frm (c # s) then to @ replace_spec (drop (length frm) (c # s)) frm to
      else c # replace_spec s frm to)"
  by pat_completeness auto
termination
  by (relation "measure (\<lambda>(s, frm, to). length s)") (auto simp: neq_Nil_conv)

declare replace_spec.simps(2) [simp del]

lemma prefix_iff_take: "prefix p s \<longleftrightarrow> take (length p) s = p"
  by (metis append_eq_conv_conj prefixE take_is_prefix)

lemma replace_spec_skip:
  assumes "\<And>j. j < k \<Longrightarrow> take (length frm) (drop j s) \<noteq> frm" and "k \<le> length s"
  shows "replace_spec s frm to = take k s @ replace_spec (drop k s) frm to"
  using assms
proof (induction k arbitrary: s)
  case (Suc k)
  then obtain c t where s: "s = c # t" by (cases s) auto
  have "\<not> prefix frm (c # t)" using Suc.prems(1) [of 0] s by (simp add: prefix_iff_take)
  moreover have "replace_spec t frm to = take k t @ replace_spec (drop k t) frm to"
  proof (rule Suc.IH)
    show "take (length frm) (drop j t) \<noteq> frm" if "j < k" for j
      using Suc.prems(1) [of "Suc j"] that s by simp
  qed (use Suc.prems s in simp)
  ultimately show ?case using s by (simp add: replace_spec.simps)
qed simp

lemma replace_spec_none:
  "frm \<noteq> [] \<Longrightarrow> \<not> sublist frm s \<Longrightarrow> replace_spec s frm to = s"
  by (induction s) (auto simp: replace_spec.simps sublist_Cons_right)

lemma replace_spec_at:
  "frm \<noteq> [] \<Longrightarrow> take (length frm) s = frm \<Longrightarrow>
     replace_spec s frm to = to @ replace_spec (drop (length frm) s) frm to"
  by (cases s) (auto simp: replace_spec.simps prefix_iff_take)

lemma replace_loop_spec:
  "frm \<noteq> [] \<Longrightarrow> pos \<le> length s \<Longrightarrow>
     replace_loop s frm to pos = take pos s @ replace_spec (drop pos s) frm to"
proof (induction s frm to pos rule: replace_loop.induct)
  case (1 s frm to pos)
  show ?case
  proof (cases "str_find s frm pos")
    case None
    with "1.prems" have "\<not> sublist frm (drop pos s)"
      by (auto simp: str_find_def find_sub_None_iff)
    with None "1.prems" show ?thesis by (simp add: replace_loop.simps [of s] replace_spec_none)
  next
    case (Some p)
    note found = str_find_SomeD [OF Some]
    let ?s = "take p s @ to @ drop (p + length frm) s"
    have "replace_loop s frm to pos = replace_loop ?s frm to (p + length to)"
      using Some "1.prems" by (simp add: replace_loop.simps [of s])
    also have "\<dots> = take (p + length to) ?s @ replace_spec (drop (p + length to) ?s) frm to"
      using "1.IH" [OF "1.prems"(1) Some] "1.prems" found by simp
    also have "\<dots> = take p s @ to @ replace_spec (drop (length frm) (drop p s)) frm to"
      using found by (simp add: add.commute)
    also have "\<dots> = take p s @ replace_spec (drop p s) frm to"
      using replace_spec_at [OF "1.prems"(1) found(3), of to] by simp
    also have "\<dots> = take pos s @ replace_spec (drop pos s) frm to"
    proof -
      have "replace_spec (drop pos s) frm to =
          take (p - pos) (drop pos s) @ replace_spec (drop (p - pos) (drop pos s)) frm to"
        using found by (intro replace_spec_skip) auto
      then show ?thesis using found(1,2)
        by (simp flip: append_assoc take_add)
    qed
    finally show ?thesis .
  qed
qed

lemma replace_correct: "frm \<noteq> [] \<Longrightarrow> replace s frm to = replace_spec s frm to"
  by (simp add: replace_def replace_loop_spec)

lemma replace_empty: "replace s [] to = s"
  by (simp add: replace_def)

section \<open>Splitting\<close>

fun join :: "'a \<Rightarrow> 'a list list \<Rightarrow> 'a list" where
  "join d [] = []"
| "join d [x] = x"
| "join d (x # y # xs) = x @ d # join d (y # xs)"

lemma join_Cons: "xs \<noteq> [] \<Longrightarrow> join d (x # xs) = x @ d # join d xs"
  by (cases xs) auto

lemma split_eq_Nil [simp]: "split s d = [] \<longleftrightarrow> s = []"
  by (simp add: split.simps [of s] Let_def)

text \<open>
  The items are the pieces between the delimiters: joining them gives the text back, but for
  one delimiter at its very end, and no item contains a delimiter.
\<close>

lemma split_join:
  "s \<noteq> [] \<Longrightarrow> join d (split s d) @ (if last s = d then [d] else []) = s"
proof (induction s d rule: split.induct)
  case (1 s d)
  let ?item = "takeWhile (\<lambda>c. c \<noteq> d) s" and ?rest = "dropWhile (\<lambda>c. c \<noteq> d) s"
  show ?case
  proof (cases "?rest = []")
    case True
    then have item: "?item = s" and "\<forall>c \<in> set s. c \<noteq> d"
      by (metis append.right_neutral takeWhile_dropWhile_id, simp add: dropWhile_eq_Nil_conv)
    with "1.prems" have "last s \<noteq> d" using last_in_set by blast
    with item True "1.prems" show ?thesis by (simp add: split.simps [of s] Let_def)
  next
    case False
    then have rest: "?rest = d # tl ?rest"
      by (metis (mono_tags, lifting) hd_dropWhile list.collapse)
    then have s: "s = ?item @ d # tl ?rest" by (metis takeWhile_dropWhile_id)
    have split: "split s d = ?item # split (tl ?rest) d"
      using False "1.prems" by (subst split.simps) (simp add: Let_def del: dropWhile_eq_Nil_conv)
    show ?thesis
    proof (cases "tl ?rest = []")
      case True
      with s split show ?thesis by (metis append_Nil2 join.simps(2) last_snoc split_eq_Nil)
    next
      case ne: False
      have "last s = last (tl ?rest)" using s ne by (metis last_ConsR last_appendR list.discI)
      moreover have "join d (split s d) = ?item @ d # join d (split (tl ?rest) d)"
        using split ne by (simp add: join_Cons)
      moreover note "1.IH" [OF "1.prems" refl refl False ne]
      ultimately show ?thesis using s by (metis append.assoc append_Cons)
    qed
  qed
qed

lemma split_items: "item \<in> set (split s d) \<Longrightarrow> d \<notin> set item"
proof (induction s d rule: split.induct)
  case (1 s d)
  from "1.prems" have ne: "s \<noteq> []" by (auto simp: split.simps [of s])
  show ?case
  proof (cases "item = takeWhile (\<lambda>c. c \<noteq> d) s")
    case True
    then show ?thesis by (auto dest: set_takeWhileD)
  next
    case False
    with "1.prems" have "dropWhile (\<lambda>c. c \<noteq> d) s \<noteq> []"
      and "item \<in> set (split (tl (dropWhile (\<lambda>c. c \<noteq> d) s)) d)"
      by (simp_all add: split.simps [of s] Let_def split: if_splits)
    with "1.IH" [OF ne refl refl] show ?thesis by blast
  qed
qed

section \<open>Digits and hexadecimal dumps\<close>

lemma is_numeric_iff: "is_numeric s \<longleftrightarrow> s \<noteq> [] \<and> list_all is_digit s"
  by (auto simp: is_numeric_def dropWhile_eq_Nil_conv list_all_iff)

lemma length_dump_hex_from: "length (dump_hex_from i bs []) = 2 * length bs"
  by (induction bs arbitrary: i) auto

lemma length_dump_hex [simp]: "length (dump_hex bs []) = 2 * length bs"
  by (simp add: dump_hex_def length_dump_hex_from)

definition hex_value :: "byte \<Rightarrow> byte" where
  "hex_value c = (if c < 58 then c - 48 else c - 55)"

lemma hex_value_digit: "n < 16 \<Longrightarrow> hex_value (hex_digit n) = n"
proof -
  assume n: "n < 16"
  then have "unat n < 16" by (simp add: word_less_nat_alt)
  then have "unat n \<in> set [0..<16]" by simp
  then have "n \<in> of_nat ` set [0..<16]" by (metis imageI of_nat_unat ucast_id)
  then show ?thesis by (auto simp: upt_rec hex_value_def hex_digit_def)
qed

lemma low_nibble: "(b :: byte) AND 15 = take_bit 4 b"
  by (simp add: take_bit_eq_mask mask_eq_exp_minus_1)

lemma nibble_bounds: "drop_bit 4 (b :: byte) < 16" "take_bit 4 (b :: byte) < 16"
proof -
  have "unat b div 16 < 16" by (rule less_mult_imp_div_less) simp
  then show "drop_bit 4 b < 16" by (simp add: word_less_nat_alt unat_drop_bit_eq drop_bit_eq_div unat_div)
  show "take_bit 4 b < 16"
    by (simp add: word_less_nat_alt take_bit_eq_mod unat_mod)
qed

lemma byte_of_nibbles:
  "push_bit 4 (hex_value (hex_digit (drop_bit 4 b))) + hex_value (hex_digit (b AND 15)) = b"
  by (simp add: low_nibble hex_value_digit nibble_bounds bits_ident)

fun undump_hex :: "byte list \<Rightarrow> byte list" where
  "undump_hex (h # l # s) = (push_bit 4 (hex_value h) + hex_value l) # undump_hex s"
| "undump_hex _ = []"

lemma undump_dump_hex: "undump_hex (dump_hex bs []) = bs"
proof -
  have "undump_hex (dump_hex_from i bs []) = bs" for i
    by (induction bs arbitrary: i) (simp_all add: byte_of_nibbles)
  then show ?thesis by (simp add: dump_hex_def)
qed

section \<open>Case mapping\<close>

lemma tolower_idem [simp]: "tolower (tolower b) = tolower b"
proof -
  have "\<not> is_upper (b + 32)" if "is_upper b"
  proof -
    from that have "65 \<le> unat b" "unat b \<le> 90" by (simp_all add: is_upper_def word_le_nat_alt)
    then have "unat (b + 32) = unat b + 32" by (simp add: unat_word_ariths)
    with \<open>65 \<le> unat b\<close> show ?thesis by (simp add: is_upper_def word_le_nat_alt)
  qed
  then show ?thesis by (simp add: tolower_def)
qed

lemma to_lower_idem [simp]: "to_lower (to_lower s) = to_lower s"
  by (simp add: to_lower_def)

lemma length_to_lower [simp]: "length (to_lower s) = length s"
  by (simp add: to_lower_def)

lemma to_lower_append [simp]: "to_lower (s @ t) = to_lower s @ to_lower t"
  by (simp add: to_lower_def)

section \<open>Trimming\<close>

lemma trim_spec:
  "\<exists>l r. s = l @ trim s @ r \<and> list_all is_space l \<and> list_all is_space r \<and>
     (trim s \<noteq> [] \<longrightarrow> \<not> is_space (hd (trim s)) \<and> \<not> is_space (last (trim s)))"
proof -
  let ?r = "rev (takeWhile is_space (rev s))"
  let ?l = "takeWhile is_space (rtrim s)"
  have s: "s = rtrim s @ ?r"
    unfolding rtrim_def by (metis rev_append rev_rev_ident takeWhile_dropWhile_id)
  have t: "rtrim s = ?l @ trim s" by (simp add: trim_def ltrim_def)
  have "\<not> is_space (last (rtrim s))" if "rtrim s \<noteq> []"
    using that hd_dropWhile [of is_space "rev s"] by (simp add: rtrim_def last_rev)
  moreover have "\<not> is_space (hd (trim s))" if "trim s \<noteq> []"
    using that hd_dropWhile [of is_space "rtrim s"] by (simp add: trim_def ltrim_def)
  moreover have "last (trim s) = last (rtrim s)" if "trim s \<noteq> []"
    using that t by (metis last_appendR)
  ultimately have "trim s \<noteq> [] \<longrightarrow> \<not> is_space (hd (trim s)) \<and> \<not> is_space (last (trim s))"
    using t by (metis append_is_Nil_conv)
  moreover have "list_all is_space ?l" and "list_all is_space ?r"
    by (auto simp: list_all_iff dest: set_takeWhileD)
  moreover from s t have "s = ?l @ trim s @ ?r" by (metis append.assoc)
  ultimately show ?thesis by blast
qed

section \<open>The bounded copy\<close>

lemma copy_loop_terminated:
  assumes "0 \<notin> set s" and "i < max_size" and "i \<le> length s" and "max_size \<le> length dest"
  shows "copy_loop dest max_size (s @ 0 # r) i =
     Inr (poke i (take (max_size - 1 - i) (drop i s) @ [0]) dest)"
  using assms
proof (induction "max_size - i" arbitrary: i dest)
  case (Suc n)
  have i: "i < length dest" using Suc.prems by simp
  show ?case
  proof (cases "i + 1 = max_size \<or> i = length s")
    case True
    with Suc.prems i show ?thesis
      by (auto simp: copy_loop.simps [of dest] nth_append poke_single)
  next
    case False
    with Suc.prems have lt: "i < length s" "i + 1 < max_size" by auto
    then have si: "(s @ 0 # r) ! i = s ! i" and nz: "s ! i \<noteq> 0"
      using Suc.prems(1) by (auto simp: nth_append) (metis nth_mem)
    let ?dest = "dest[i := s ! i]"
    have "copy_loop dest max_size (s @ 0 # r) i = copy_loop ?dest max_size (s @ 0 # r) (i + 1)"
      using i lt si nz by (simp add: copy_loop.simps [of dest])
    also have "\<dots> = Inr (poke (i + 1) (take (max_size - 1 - (i + 1)) (drop (i + 1) s) @ [0]) ?dest)"
      using Suc.hyps Suc.prems lt by (intro Suc.hyps(1)) auto
    also have "take (max_size - 1 - i) (drop i s) =
        s ! i # take (max_size - 1 - (i + 1)) (drop (i + 1) s)"
      using lt by (subst Cons_nth_drop_Suc [symmetric]) (auto simp: take_Cons' Suc_diff_Suc)
    ultimately show ?thesis using i by (simp add: poke_Cons)
  qed
qed simp

lemma str_copy_terminated:
  assumes "0 \<notin> set s" and "0 < max_size" and "max_size \<le> length dest"
  shows "str_copy dest max_size (s @ 0 # r) =
     Inr (poke 0 (take (max_size - 1) s @ [0]) dest)"
  using copy_loop_terminated [OF assms(1,2) _ assms(3), of r] assms(2)
  by (simp add: str_copy_def)

lemma drop_poke_start: "length xs \<le> n \<Longrightarrow> drop n (poke 0 xs mem) = drop n mem"
  by (simp add: poke_def)

section \<open>Properties\<close>

text \<open>Splitting loses only one delimiter at the very end: the items contain no delimiter and,
  joined by it, give the text back.\<close>

theorem split_roundtrip:
  assumes "s \<noteq> []"
  shows "join d (split s d) @ (if last s = d then [d] else []) = s \<and>
    list_all (\<lambda>item. d \<notin> set item) (split s d)"
  using split_join [OF assms, of d] split_items [of _ s d] unfolding list_all_iff by blast

theorem split_roundtrip_witness:
  "join 44 (split [1, 44, 44, 2, 44 :: byte] 44) @ [44] = [1, 44, 44, 2, 44]"
  using split_roundtrip [of "[1, 44, 44, 2, 44 :: byte]" 44] by simp

text \<open>The replacing loop, which edits the text in place and goes on after each replacement,
  replaces exactly the leftmost non-overlapping occurrences of the original text.\<close>

theorem replace_equals_spec:
  assumes "frm \<noteq> []"
  shows "replace s frm to = replace_spec s frm to"
  using assms by (simp add: replace_def replace_loop_spec)

theorem replace_equals_spec_witness:
  "replace [1, 1, 1, 2 :: byte] [1, 1] [1, 1, 1] = [1, 1, 1, 1, 2]"
  using replace_equals_spec [of "[1, 1 :: byte]"]
  by (simp add: replace_spec.simps)

text \<open>The bounded copy of a C string writes inside the destination and always terminates it:
  the destination starts with at most \<open>max_size - 1\<close> characters of the source and a zero, and the
  rest of it is untouched.\<close>

theorem copy_is_bounded:
  assumes "0 \<notin> set s" and "0 < max_size" and "max_size \<le> length dest"
  shows "\<exists>out. str_copy dest max_size (s @ 0 # r) = Inr out \<and> length out = length dest \<and>
    takeWhile (\<lambda>b. b \<noteq> 0) out = take (max_size - 1) s \<and>
    drop max_size out = drop max_size dest"
proof -
  let ?t = "take (max_size - 1) s"
  let ?out = "poke 0 (?t @ [0]) dest"
  have len: "length (?t @ [0]) \<le> max_size" using assms(2) by simp
  have "0 \<notin> set ?t" using assms(1) by (meson in_set_takeD)
  then have "takeWhile (\<lambda>b. b \<noteq> 0) ?out = ?t"
    by (simp add: poke_def takeWhile_append_zero)
  moreover have "length ?out = length dest" using len assms(3) by (intro length_poke) simp
  moreover have "drop max_size ?out = drop max_size dest"
    using len by (rule drop_poke_start)
  ultimately show ?thesis using str_copy_terminated [OF assms, of r] by blast
qed

theorem copy_is_bounded_witness:
  "\<exists>out. str_copy [9, 9, 9, 9] 3 [65, 66, 67, 0] = Inr out \<and> length out = length [9, 9, 9, 9 :: byte] \<and>
    takeWhile (\<lambda>b. b \<noteq> 0) out = take (3 - 1) [65, 66, 67] \<and>
    drop 3 out = drop 3 [9, 9, 9, 9]"
  using copy_is_bounded [of "[65, 66, 67]" 3 "[9, 9, 9, 9]" "[]"] by simp

end
