(* ===== verification/Address.thy ===== *)
theory Address
  imports String_Utils
begin

text \<open>
  \<open>network::address\<close> (src/common/network/address.cpp). The class is a union of
  \<open>sockaddr\<close>, \<open>sockaddr_in\<close>, \<open>sockaddr_in6\<close> and \<open>sockaddr_storage\<close>: the model keeps
  its 128 bytes and reads and writes the members at their offsets. The abstract value of
  an address is the endpoint it names (family, port, IP); equality and hashing are shown
  to be functions of it. The constants are those of Winsock, where the client runs;
  the proofs use only that the three families differ. The name resolver and
  \<open>inet_ntop\<close> belong to the operating system and are parameters.
\<close>

section \<open>Model\<close>

definition AF_UNSPEC :: u16 where "AF_UNSPEC = 0"
definition AF_INET :: u16 where "AF_INET = 2"
definition AF_INET6 :: u16 where "AF_INET6 = 23"

definition sockaddr_size :: nat where "sockaddr_size = 16"
definition sockaddr_in_size :: nat where "sockaddr_in_size = 16"
definition sockaddr_in6_size :: nat where "sockaddr_in6_size = 28"
definition storage_size :: nat where "storage_size = 128"

record address =
  storage :: "byte list"

definition sa_family :: "address \<Rightarrow> u16" where
  "sa_family a = bytes_u16 (peek 0 2 (storage a))"

definition sin_port :: "address \<Rightarrow> byte list" where "sin_port a = peek 2 2 (storage a)"
definition sin_addr :: "address \<Rightarrow> byte list" where "sin_addr a = peek 4 4 (storage a)"
definition sin6_addr :: "address \<Rightarrow> byte list" where "sin6_addr a = peek 8 16 (storage a)"

definition htons :: "u16 \<Rightarrow> byte list" where "htons p = rev (u16_bytes p)"
definition ntohs :: "byte list \<Rightarrow> u16" where "ntohs bs = bytes_u16 (rev bs)"

definition get_max_size :: nat where
  "get_max_size = max storage_size (max sockaddr_size (max sockaddr_in_size sockaddr_in6_size))"

text \<open>\<open>address()\<close>: everything zero, family unspecified.\<close>

definition new_address :: address where
  "new_address = \<lparr>storage = poke 0 (u16_bytes AF_UNSPEC) (replicate get_max_size 0)\<rparr>"

definition address_of_in6 :: "byte list \<Rightarrow> address" where
  "address_of_in6 sa = new_address\<lparr>storage := poke 0 sa (storage new_address)\<rparr>"

definition address_of_in :: "byte list \<Rightarrow> address" where
  "address_of_in sa = new_address\<lparr>storage := poke 0 sa (storage new_address)\<rparr>"

definition set_ipv4 :: "byte list \<Rightarrow> address \<Rightarrow> address" where
  "set_ipv4 ip a = a\<lparr>storage :=
     poke 4 ip (poke 0 (u16_bytes AF_INET) (poke 0 (replicate sockaddr_in_size 0) (storage a)))\<rparr>"

definition set_ipv4_u32 :: "u32 \<Rightarrow> address \<Rightarrow> address" where
  "set_ipv4_u32 ip = set_ipv4 (u32_bytes ip)"

definition set_ipv6 :: "byte list \<Rightarrow> address \<Rightarrow> address" where
  "set_ipv6 ip a = a\<lparr>storage :=
     poke 8 ip (poke 0 (u16_bytes AF_INET6) (poke 0 (replicate sockaddr_in6_size 0) (storage a)))\<rparr>"

text \<open>
  \<open>set_address\<close>: \<open>sa\<close> is the memory the pointer leads to, \<open>len\<close> the \<open>int\<close> length,
  converted to \<open>size_t\<close> by the code.
\<close>

definition set_address :: "byte list \<Rightarrow> int \<Rightarrow> address \<Rightarrow> exn + address" where
  "set_address sa len a =
     (let n = nat (len mod 2 ^ 64); fam = bytes_u16 (peek 0 2 sa) in
      if n \<ge> sockaddr_in_size \<and> length sa < 2 then Inl Undefined_behaviour
      else if n \<ge> sockaddr_in_size \<and> fam = AF_INET then
        (if length sa < sockaddr_in_size then Inl Undefined_behaviour
         else Inr (a\<lparr>storage := poke 0 (take sockaddr_in_size sa) (storage a)\<rparr>))
      else if n = sockaddr_in6_size \<and> fam = AF_INET6 then
        (if length sa < sockaddr_in6_size then Inl Undefined_behaviour
         else Inr (a\<lparr>storage := poke 0 (take sockaddr_in6_size sa) (storage a)\<rparr>))
      else Inl (Runtime_error (lit ''Invalid network address'')))"

definition set_port :: "u16 \<Rightarrow> address \<Rightarrow> exn + address" where
  "set_port port a =
     (if sa_family a = AF_INET then Inr (a\<lparr>storage := poke 2 (htons port) (storage a)\<rparr>)
      else if sa_family a = AF_INET6 then Inr (a\<lparr>storage := poke 2 (htons port) (storage a)\<rparr>)
      else Inl (Runtime_error (lit ''Invalid address family'')))"

definition get_port :: "address \<Rightarrow> u16" where
  "get_port a =
     (if sa_family a = AF_INET then ntohs (sin_port a)
      else if sa_family a = AF_INET6 then ntohs (sin_port a)
      else 0)"

definition is_ipv4 :: "address \<Rightarrow> bool" where "is_ipv4 a \<longleftrightarrow> sa_family a = AF_INET"
definition is_ipv6 :: "address \<Rightarrow> bool" where "is_ipv6 a \<longleftrightarrow> sa_family a = AF_INET6"
definition is_supported :: "address \<Rightarrow> bool" where "is_supported a \<longleftrightarrow> is_ipv4 a \<or> is_ipv6 a"

definition get_size :: "address \<Rightarrow> nat" where
  "get_size a =
     (if sa_family a = AF_INET then sockaddr_in_size
      else if sa_family a = AF_INET6 then sockaddr_in6_size
      else sockaddr_size)"

definition addr_eq :: "address \<Rightarrow> address \<Rightarrow> bool" where
  "addr_eq a b \<longleftrightarrow>
     (if sa_family a \<noteq> sa_family b then False
      else if get_port a \<noteq> get_port b then False
      else if sa_family a = AF_INET then sin_addr a = sin_addr b
      else if sa_family a = AF_INET6 then sin6_addr a = sin6_addr b
      else False)"

definition is_local :: "address \<Rightarrow> bool" where
  "is_local a =
     (let bytes = sin_addr a in
      if sa_family a \<noteq> AF_INET then False
      else if bytes ! 0 = 10 then True
      else if bytes ! 0 = 192 \<and> bytes ! 1 = 168 then True
      else if bytes ! 0 = 172 \<and> bytes ! 1 \<ge> 16 \<and> bytes ! 1 < 32 then True
      else if bytes_u32 bytes = 0x0100007F then True
      else False)"

text \<open>\<open>to_string\<close>; \<open>ntop\<close> is \<open>inet_ntop\<close>.\<close>

definition to_string :: "(u16 \<Rightarrow> byte list \<Rightarrow> byte list) \<Rightarrow> address \<Rightarrow> byte list" where
  "to_string ntop a =
     (if sa_family a = AF_INET then ntop AF_INET (sin_addr a)
      else if sa_family a = AF_INET6 then lit ''['' @ ntop AF_INET6 (sin6_addr a) @ lit '']''
      else lit ''?'') @ lit '':'' @ decimal (unat (get_port a))"

text \<open>\<open>std::hash<network::address>\<close> over the library's hashes of an integer and of a string.\<close>

definition hash_address :: "(u32 \<Rightarrow> u64) \<Rightarrow> (byte list \<Rightarrow> u64) \<Rightarrow> address \<Rightarrow> u64" where
  "hash_address hash_int hash_view a =
     (let h = xor (hash_int (ucast (sa_family a))) (hash_int (ucast (get_port a))) in
      if sa_family a = AF_INET then xor h (hash_int (bytes_u32 (sin_addr a)))
      else if sa_family a = AF_INET6 then xor h (hash_view (sin6_addr a))
      else h)"

text \<open>
  An entry of the list \<open>getaddrinfo\<close> returns: family, socket address and its length. The
  resolver gives \<open>None\<close> when it fails.
\<close>

record addrinfo =
  ai_family :: u16
  ai_addr :: "byte list"
  ai_addrlen :: int

type_synonym resolver = "byte list \<Rightarrow> addrinfo list option"

fun collect_addresses :: "addrinfo list \<Rightarrow> exn + address list" where
  "collect_addresses [] = Inr []"
| "collect_addresses (i # is) =
     (if ai_family i = AF_INET \<or> ai_family i = AF_INET6 then
        exn_bind (set_address (ai_addr i) (ai_addrlen i) new_address) (\<lambda>a.
          exn_bind (collect_addresses is) (\<lambda>as. Inr (a # as)))
      else collect_addresses is)"

definition resolve_multiple :: "resolver \<Rightarrow> byte list \<Rightarrow> exn + address list" where
  "resolve_multiple gai hostname =
     (case gai (takeWhile (\<lambda>b. b \<noteq> 0) hostname) of
        None \<Rightarrow> Inr []
      | Some infos \<Rightarrow> collect_addresses infos)"

text \<open>
  \<open>resolve\<close>: the scope guard restores the port on every way out but the last, and it runs
  in a \<open>noexcept\<close> destructor, so a \<open>set_port\<close> that throws there ends the program.
\<close>

definition port_reset :: "u16 \<Rightarrow> address \<Rightarrow> exn + address" where
  "port_reset port a = (case set_port port a of Inl e \<Rightarrow> Inl Std_terminate | Inr b \<Rightarrow> Inr b)"

definition wanted :: "u16 option \<Rightarrow> address \<Rightarrow> bool" where
  "wanted family a \<longleftrightarrow> is_supported a \<and> (family = None \<or> family = Some (sa_family a))"

definition resolve :: "resolver \<Rightarrow> byte list \<Rightarrow> u16 option \<Rightarrow> address \<Rightarrow> exn + address" where
  "resolve gai hostname family a =
     (let port = get_port a in
      case resolve_multiple gai hostname of
        Inl e \<Rightarrow> exn_bind (port_reset port a) (\<lambda>_. Inl e)
      | Inr result \<Rightarrow>
          (case List.find (wanted family) result of
             Some r \<Rightarrow>
               (case set_address (storage r) (int (get_size r)) a of
                  Inl e \<Rightarrow> exn_bind (port_reset port a) (\<lambda>_. Inl e)
                | Inr a' \<Rightarrow> port_reset port a')
           | None \<Rightarrow> Inl (Runtime_error (lit ''Unable to resolve hostname: '' @ hostname))))"

fun atoi_digits :: "int \<Rightarrow> byte list \<Rightarrow> int" where
  "atoi_digits acc [] = acc"
| "atoi_digits acc (c # cs) =
     (if is_digit c then atoi_digits (acc * 10 + int (unat c - 48)) cs else acc)"

text \<open>\<open>atoi\<close> on a value an \<open>int\<close> can hold; beyond it the C function promises nothing.\<close>

definition atoi :: "byte list \<Rightarrow> int" where
  "atoi str =
     (let s = dropWhile is_space (takeWhile (\<lambda>b. b \<noteq> 0) str) in
      case s of
        [] \<Rightarrow> 0
      | c # cs \<Rightarrow> if c = 45 then - atoi_digits 0 cs
                  else if c = 43 then atoi_digits 0 cs else atoi_digits 0 s)"

definition find_last :: "'a \<Rightarrow> 'a list \<Rightarrow> nat option" where
  "find_last c s = (if c \<in> set s then Some (length s - 1 - length (takeWhile (\<lambda>x. x \<noteq> c) (rev s))) else None)"

definition parse :: "resolver \<Rightarrow> byte list \<Rightarrow> u16 option \<Rightarrow> address \<Rightarrow> exn + address" where
  "parse gai addr family a =
     (case find_last 58 addr of
        None \<Rightarrow> resolve gai addr family a
      | Some pos \<Rightarrow>
          exn_bind (resolve gai (take pos addr) family a) (\<lambda>a'.
            set_port (of_int (atoi (drop (pos + 1) addr))) a'))"

definition address_of_string :: "resolver \<Rightarrow> byte list \<Rightarrow> u16 option \<Rightarrow> exn + address" where
  "address_of_string gai addr family = parse gai addr family new_address"

section \<open>The type invariant\<close>

definition addr_ok :: "address \<Rightarrow> bool" where
  "addr_ok a \<longleftrightarrow> length (storage a) = storage_size"

lemmas size_defs =
  sockaddr_size_def sockaddr_in_size_def sockaddr_in6_size_def storage_size_def get_max_size_def
lemmas family_defs = AF_UNSPEC_def AF_INET_def AF_INET6_def
lemmas view_defs = sa_family_def sin_port_def sin_addr_def sin6_addr_def

lemma families_differ [simp]:
  "AF_INET \<noteq> AF_INET6" "AF_INET6 \<noteq> AF_INET" "AF_UNSPEC \<noteq> AF_INET" "AF_UNSPEC \<noteq> AF_INET6"
  "AF_INET \<noteq> AF_UNSPEC" "AF_INET6 \<noteq> AF_UNSPEC"
  by (simp_all add: family_defs)

lemma length_htons [simp]: "length (htons p) = 2"
  by (simp add: htons_def)

lemma ntohs_htons [simp, wire]: "ntohs (htons p) = p"
  by (simp add: ntohs_def htons_def)

lemma new_address_ok [simp]: "addr_ok new_address"
  by (simp add: addr_ok_def new_address_def size_defs)

lemma set_ipv4_ok [simp]: "addr_ok a \<Longrightarrow> length ip = 4 \<Longrightarrow> addr_ok (set_ipv4 ip a)"
  by (simp add: addr_ok_def set_ipv4_def size_defs)

lemma set_ipv6_ok [simp]: "addr_ok a \<Longrightarrow> length ip = 16 \<Longrightarrow> addr_ok (set_ipv6 ip a)"
  by (simp add: addr_ok_def set_ipv6_def size_defs)

lemma set_address_ok: "set_address sa len a = Inr b \<Longrightarrow> addr_ok a \<Longrightarrow> addr_ok b"
  by (auto simp: set_address_def addr_ok_def size_defs Let_def split: if_splits)

lemma set_port_ok: "set_port p a = Inr b \<Longrightarrow> addr_ok a \<Longrightarrow> addr_ok b"
  by (auto simp: set_port_def addr_ok_def size_defs split: if_splits)

lemma set_ipv4_fields:
  assumes "addr_ok a" and "length ip = 4"
  shows "sa_family (set_ipv4 ip a) = AF_INET" and "sin_addr (set_ipv4 ip a) = ip"
    and "get_port (set_ipv4 ip a) = 0"
proof -
  have len: "length (storage a) = 128" using assms(1) by (simp add: addr_ok_def size_defs)
  let ?z = "poke 0 (replicate 16 0) (storage a)"
  have z: "length ?z = 128" using len by simp
  have port: "peek 2 2 ?z = [0, 0]"
    using len by (simp add: peek_def poke_def numeral_eq_Suc)
  show fam: "sa_family (set_ipv4 ip a) = AF_INET" and "sin_addr (set_ipv4 ip a) = ip"
    using assms(2) len z by (simp_all add: set_ipv4_def view_defs size_defs mem_simps)
  show "get_port (set_ipv4 ip a) = 0"
    using assms(2) len z port fam
    by (simp add: set_ipv4_def get_port_def view_defs size_defs mem_simps)
       (simp add: ntohs_def bytes_u16_def)
qed

lemma set_ipv6_fields:
  assumes "addr_ok a" and "length ip = 16"
  shows "sa_family (set_ipv6 ip a) = AF_INET6" and "sin6_addr (set_ipv6 ip a) = ip"
    and "get_port (set_ipv6 ip a) = 0"
proof -
  have len: "length (storage a) = 128" using assms(1) by (simp add: addr_ok_def size_defs)
  let ?z = "poke 0 (replicate 28 0) (storage a)"
  have z: "length ?z = 128" using len by simp
  have port: "peek 2 2 ?z = [0, 0]"
    using len by (simp add: peek_def poke_def numeral_eq_Suc)
  show fam: "sa_family (set_ipv6 ip a) = AF_INET6" and "sin6_addr (set_ipv6 ip a) = ip"
    using assms(2) len z by (simp_all add: set_ipv6_def view_defs size_defs mem_simps)
  show "get_port (set_ipv6 ip a) = 0"
    using assms(2) len z port fam
    by (simp add: set_ipv6_def get_port_def view_defs size_defs mem_simps)
       (simp add: ntohs_def bytes_u16_def)
qed

text \<open>Setting the port changes the port and nothing else.\<close>

lemma set_port_fields:
  assumes "addr_ok a" and "set_port p a = Inr b"
  shows "get_port b = p" and "sa_family b = sa_family a" and "sin_addr b = sin_addr a"
    and "sin6_addr b = sin6_addr a"
proof -
  have len: "length (storage a) = 128" using assms(1) by (simp add: addr_ok_def size_defs)
  have b: "b = a\<lparr>storage := poke 2 (htons p) (storage a)\<rparr>" and sup: "is_supported a"
    using assms(2) by (auto simp: set_port_def is_supported_def is_ipv4_def is_ipv6_def split: if_splits)
  show fam: "sa_family b = sa_family a" and "sin_addr b = sin_addr a" and "sin6_addr b = sin6_addr a"
    using len by (simp_all add: b view_defs mem_simps)
  have "sin_port b = htons p" using len by (simp add: b sin_port_def mem_simps)
  with fam sup show "get_port b = p"
    by (auto simp: get_port_def is_supported_def is_ipv4_def is_ipv6_def)
qed

lemma set_port_total: "is_supported a \<longleftrightarrow> (\<exists>b. set_port p a = Inr b)"
  by (auto simp: set_port_def is_supported_def is_ipv4_def is_ipv6_def)

section \<open>Equality and hashing are functions of the endpoint\<close>

datatype endpoint =
    V4 "byte list" u16
  | V6 "byte list" u16
  | No_endpoint

definition endpoint_of :: "address \<Rightarrow> endpoint" where
  "endpoint_of a =
     (if is_ipv4 a then V4 (sin_addr a) (get_port a)
      else if is_ipv6 a then V6 (sin6_addr a) (get_port a)
      else No_endpoint)"

lemma addr_eq_iff:
  "addr_eq a b \<longleftrightarrow> endpoint_of a = endpoint_of b \<and> endpoint_of a \<noteq> No_endpoint"
  by (auto simp: addr_eq_def endpoint_of_def is_ipv4_def is_ipv6_def)

lemma addr_eq_refl_iff: "addr_eq a a \<longleftrightarrow> is_supported a"
  by (auto simp: addr_eq_iff endpoint_of_def is_supported_def)

lemma addr_eq_sym: "addr_eq a b \<Longrightarrow> addr_eq b a"
  by (auto simp: addr_eq_iff)

lemma addr_eq_trans: "addr_eq a b \<Longrightarrow> addr_eq b c \<Longrightarrow> addr_eq a c"
  by (auto simp: addr_eq_iff)

lemma addr_eq_supported: "addr_eq a b \<Longrightarrow> is_supported a \<and> is_supported b"
  by (auto simp: addr_eq_iff endpoint_of_def is_supported_def split: if_splits)

lemma hash_address_endpoint:
  "addr_eq a b \<Longrightarrow> hash_address hi hv a = hash_address hi hv b"
  by (auto simp: addr_eq_def hash_address_def Let_def split: if_splits)

section \<open>Private networks\<close>

lemma localhost_bytes: "bytes_u32 bs = 0x0100007F \<longleftrightarrow> bs = [127, 0, 0, 1]" if "length bs = 4"
proof -
  have "u32_bytes 0x0100007F = [127, 0, 0, 1]" by (simp add: word_eval)
  with that show ?thesis by (metis bytes_u32_u32_bytes u32_bytes_bytes_u32)
qed

lemma is_local_v4:
  assumes "addr_ok a"
  shows "is_local (set_ipv4 [b0, b1, b2, b3] a) \<longleftrightarrow>
     b0 = 10 \<or> b0 = 192 \<and> b1 = 168 \<or> b0 = 172 \<and> 16 \<le> b1 \<and> b1 < 32 \<or>
     b0 = 127 \<and> b1 = 0 \<and> b2 = 0 \<and> b3 = 1"
  by (simp add: is_local_def Let_def set_ipv4_fields(1,2) [OF assms] localhost_bytes)

lemma is_local_not_v4: "\<not> is_ipv4 a \<Longrightarrow> \<not> is_local a"
  by (simp add: is_local_def is_ipv4_def Let_def)

section \<open>Parsing and resolving\<close>

lemma set_address_self:
  assumes "addr_ok r" and "addr_ok a" and "is_supported r"
  shows "\<exists>a'. set_address (storage r) (int (get_size r)) a = Inr a' \<and>
           endpoint_of a' = endpoint_of r \<and> sa_family a' = sa_family r \<and> addr_ok a'"
proof -
  have len: "length (storage r) = 128" "length (storage a) = 128"
    using assms by (simp_all add: addr_ok_def size_defs)
  have fam: "bytes_u16 (peek 0 2 (storage r)) = sa_family r" by (simp add: sa_family_def)
  have take: "peek i n (poke 0 (take m (storage r)) (storage a)) = peek i n (storage r)"
    if "i + n \<le> m" "m \<le> 128" for i n m
    using that len by (auto simp: peek_def poke_def drop_take min_def)
  have v4: ?thesis if "sa_family r = AF_INET"
  proof -
    let ?a = "a\<lparr>storage := poke 0 (take 16 (storage r)) (storage a)\<rparr>"
    have "sa_family ?a = AF_INET" "sin_addr ?a = sin_addr r" "sin_port ?a = sin_port r"
      using that by (simp_all add: view_defs take)
    moreover have "set_address (storage r) (int (get_size r)) a = Inr ?a"
      using that len fam by (simp add: set_address_def get_size_def size_defs)
    moreover have "addr_ok ?a" using len by (simp add: addr_ok_def size_defs)
    ultimately show ?thesis using that
      by (simp add: endpoint_of_def get_port_def is_ipv4_def)
  qed
  have v6: ?thesis if "sa_family r = AF_INET6"
  proof -
    let ?a = "a\<lparr>storage := poke 0 (take 28 (storage r)) (storage a)\<rparr>"
    have "sa_family ?a = AF_INET6" "sin6_addr ?a = sin6_addr r" "sin_port ?a = sin_port r"
      using that by (simp_all add: view_defs take)
    moreover have "set_address (storage r) (int (get_size r)) a = Inr ?a"
      using that len fam by (simp add: set_address_def get_size_def size_defs)
    moreover have "addr_ok ?a" using len by (simp add: addr_ok_def size_defs)
    ultimately show ?thesis using that
      by (simp add: endpoint_of_def get_port_def is_ipv4_def is_ipv6_def)
  qed
  from v4 v6 assms(3) show ?thesis
    by (auto simp: is_supported_def is_ipv4_def is_ipv6_def)
qed

lemma collect_addresses_supported:
  "collect_addresses infos = Inr as \<Longrightarrow> a \<in> set as \<Longrightarrow> addr_ok a"
  by (induction infos arbitrary: as)
     (auto simp: exn_bind_eq_Inr set_address_ok split: if_splits intro: set_address_ok)

lemma resolve_multiple_ok: "resolve_multiple gai h = Inr as \<Longrightarrow> a \<in> set as \<Longrightarrow> addr_ok a"
  by (auto simp: resolve_multiple_def collect_addresses_supported split: option.splits)

lemma wanted_supported: "wanted family r \<Longrightarrow> is_supported r"
  by (simp add: wanted_def)

text \<open>The whole behaviour of \<open>resolve\<close> once the resolver has answered.\<close>

lemma resolve_found:
  assumes "resolve_multiple gai h = Inr as" and "List.find (wanted family) as = Some r"
    and "addr_ok a"
  shows "\<exists>b. resolve gai h family a = Inr b \<and> sa_family b = sa_family r \<and>
    (is_ipv4 r \<longrightarrow> sin_addr b = sin_addr r) \<and> (is_ipv6 r \<longrightarrow> sin6_addr b = sin6_addr r) \<and>
    get_port b = get_port a \<and> addr_ok b"
proof -
  have r: "addr_ok r" "is_supported r"
    using resolve_multiple_ok [OF assms(1)] find_Some_in [OF assms(2)] wanted_supported by blast+
  obtain a' where a': "set_address (storage r) (int (get_size r)) a = Inr a'"
    "endpoint_of a' = endpoint_of r" "sa_family a' = sa_family r" "addr_ok a'"
    using set_address_self [OF r(1) assms(3) r(2)] by blast
  then have "is_supported a'" using r(2) by (simp add: is_supported_def is_ipv4_def is_ipv6_def)
  then obtain b where b: "set_port (get_port a) a' = Inr b" using set_port_total by blast
  note fields = set_port_fields [OF a'(4) b] set_port_ok [OF b a'(4)]
  have "resolve gai h family a = Inr b"
    using assms(1,2) a'(1) b by (simp add: resolve_def port_reset_def Let_def)
  with fields a' show ?thesis
    by (auto simp: endpoint_of_def is_ipv4_def is_ipv6_def split: if_splits)
qed

lemma resolve_not_found:
  "resolve_multiple gai h = Inr as \<Longrightarrow> List.find (wanted family) as = None \<Longrightarrow>
     resolve gai h family a = Inl (Runtime_error (lit ''Unable to resolve hostname: '' @ h))"
  by (simp add: resolve_def Let_def)

section \<open>Printing and parsing a port\<close>

lemma digit_byte: "n < 10 \<Longrightarrow> is_digit (of_nat (48 + n)) \<and> unat (of_nat (48 + n) :: byte) = 48 + n"
proof -
  assume "n < 10"
  then have "unat (of_nat (48 + n) :: byte) = 48 + n" by (subst unat_of_nat) simp
  with \<open>n < 10\<close> show ?thesis by (simp add: is_digit_def word_le_nat_alt del: of_nat_add)
qed

lemma decimal_digits: "list_all is_digit (decimal n) \<and> decimal n \<noteq> []"
proof (induction n rule: decimal.induct)
  case (1 n)
  then show ?case using digit_byte [of n] digit_byte [of "n mod 10"]
    by (cases "n < 10") (simp_all add: decimal.simps [of n])
qed

lemma atoi_digits_append:
  "list_all is_digit xs \<Longrightarrow> atoi_digits acc (xs @ ys) = atoi_digits (atoi_digits acc xs) ys"
  by (induction xs arbitrary: acc) auto

lemma atoi_digits_decimal: "atoi_digits 0 (decimal n) = int n"
proof (induction n rule: decimal.induct)
  case (1 n)
  show ?case
  proof (cases "n < 10")
    case True
    then show ?thesis using digit_byte [of n] by (simp add: decimal.simps [of n])
  next
    case False
    have "int (n div 10) * 10 + int (n mod 10) = int n"
      using div_mult_mod_eq [of n 10] by (metis of_nat_add of_nat_mult of_nat_numeral)
    with False show ?thesis
      using 1 digit_byte [of "n mod 10"] decimal_digits [of "n div 10"]
      by (simp add: decimal.simps [of n] atoi_digits_append)
  qed
qed

lemma digit_facts: "is_digit c \<Longrightarrow> c \<noteq> 0 \<and> c \<noteq> 45 \<and> c \<noteq> 43 \<and> c \<noteq> 58 \<and> \<not> is_space c"
  by (auto simp: is_digit_def is_space_def word_le_nat_alt)

lemma atoi_decimal: "atoi (decimal n) = int n"
proof -
  obtain c cs where d: "decimal n = c # cs" using decimal_digits by (cases "decimal n") auto
  have "takeWhile (\<lambda>b. b \<noteq> 0) (decimal n) = decimal n"
    using decimal_digits [of n] by (auto simp: list_all_iff dest: digit_facts)
  moreover have "c \<noteq> 45 \<and> c \<noteq> 43 \<and> \<not> is_space c"
    using decimal_digits [of n] d by (auto dest: digit_facts)
  ultimately show ?thesis using d atoi_digits_decimal [of n] by (simp add: atoi_def)
qed

lemma find_last_append: "c \<notin> set r \<Longrightarrow> find_last c (l @ c # r) = Some (length l)"
  by (simp add: find_last_def takeWhile_append)

lemma set_port_endpoint:
  assumes "addr_ok a" and "set_port p a = Inr b"
  shows "endpoint_of b = (case endpoint_of a of V4 ip q \<Rightarrow> V4 ip p | V6 ip q \<Rightarrow> V6 ip p
    | No_endpoint \<Rightarrow> No_endpoint)"
  using set_port_fields [OF assms]
  by (simp add: endpoint_of_def is_ipv4_def is_ipv6_def)

section \<open>Properties\<close>

text \<open>Two addresses are equal exactly when they name the same supported endpoint; in
  particular a default-constructed address is not equal to itself.\<close>

theorem address_equality:
  "addr_eq a b = (endpoint_of a = endpoint_of b \<and> is_supported a) \<and> \<not> addr_eq new_address new_address"
proof -
  have "\<not> is_supported new_address"
    by (simp add: is_supported_def is_ipv4_def is_ipv6_def new_address_def view_defs mem_simps
        size_defs)
  then show ?thesis
    by (auto simp: addr_eq_iff endpoint_of_def is_supported_def addr_eq_refl_iff)
qed

text \<open>Equal addresses have equal hashes, whatever the library's hashes of integers and strings
  are.\<close>

theorem hash_respects_equality:
  assumes "addr_eq a b"
  shows "hash_address hash_int hash_view a = hash_address hash_int hash_view b"
  using assms by (auto simp: addr_eq_def hash_address_def Let_def split: if_splits)

theorem hash_respects_equality_witness:
  "hash_address (\<lambda>w. ucast w) (\<lambda>_. 0) (set_ipv4 [1, 2, 3, 4] new_address) =
     hash_address (\<lambda>w. ucast w) (\<lambda>_. 0)
       (set_ipv4 [1, 2, 3, 4] (set_ipv6 (replicate 16 9) new_address))"
  by (rule hash_respects_equality) (simp add: addr_eq_iff endpoint_of_def is_ipv4_def set_ipv4_fields)

text \<open>An IPv4 address counts as local exactly when it is in one of the three private ranges or
  is the loopback address.\<close>

theorem is_local_exact:
  assumes "addr_ok a"
  shows "is_local (set_ipv4 [b0, b1, b2, b3] a) \<longleftrightarrow>
     b0 = 10 \<or> b0 = 192 \<and> b1 = 168 \<or> b0 = 172 \<and> 16 \<le> b1 \<and> b1 < 32 \<or>
     [b0, b1, b2, b3] = [127, 0, 0, 1]"
  by (simp add: is_local_v4 [OF assms])

theorem is_local_exact_witness:
  "is_local (set_ipv4 [172, 31, 0, 1] new_address) \<longleftrightarrow> (172 :: byte) = 10 \<or>
     (172 :: byte) = 192 \<and> (31 :: byte) = 168 \<or>
     (172 :: byte) = 172 \<and> 16 \<le> (31 :: byte) \<and> (31 :: byte) < 32 \<or>
     [172, 31, 0, 1 :: byte] = [127, 0, 0, 1]"
  by (rule is_local_exact [OF new_address_ok])

text \<open>An IPv4 endpoint that is printed is parsed back, whatever the resolver lists after it,
  provided the resolver reads the printed host as that host.\<close>

theorem parse_to_string_v4:
  assumes "addr_ok a" and "endpoint_of a = V4 ip p" and "addr_ok b"
    and "0 \<notin> set (ntop AF_INET ip)"
    and "gai (ntop AF_INET ip) = Some infos"
    and "collect_addresses infos = Inr (r # rs)" and "is_ipv4 r" and "sin_addr r = ip"
  shows "\<exists>b'. parse gai (to_string ntop a) None b = Inr b' \<and> endpoint_of b' = V4 ip p"
proof -
  let ?host = "ntop AF_INET ip"
  have fam: "sa_family a = AF_INET" and ip: "sin_addr a = ip" and p: "get_port a = p"
    using assms(2) by (auto simp: endpoint_of_def is_ipv4_def split: if_splits)
  have str: "to_string ntop a = ?host @ 58 # decimal (unat p)"
    by (simp add: to_string_def fam ip p lit_def)
  have "58 \<notin> set (decimal (unat p))"
    using decimal_digits by (auto simp: list_all_iff dest: digit_facts)
  then have pos: "find_last 58 (to_string ntop a) = Some (length ?host)"
    by (simp add: str find_last_append)
  have "takeWhile (\<lambda>b. b \<noteq> 0) ?host = ?host"
    using assms(4) by (auto simp: takeWhile_eq_all_conv)
  then have "resolve_multiple gai ?host = Inr (r # rs)"
    using assms(5,6) by (simp add: resolve_multiple_def del: takeWhile_eq_all_conv)
  moreover have "List.find (wanted None) (r # rs) = Some r"
    using assms(7) by (simp add: wanted_def is_supported_def)
  ultimately obtain b1 where b1: "resolve gai ?host None b = Inr b1" "sa_family b1 = sa_family r"
      "sin_addr b1 = sin_addr r" "addr_ok b1"
    using resolve_found [OF _ _ assms(3)] assms(7) by blast
  then have e1: "endpoint_of b1 = V4 ip (get_port b1)" "is_supported b1"
    using assms(7,8) by (simp_all add: endpoint_of_def is_supported_def is_ipv4_def)
  then obtain b2 where b2: "set_port p b1 = Inr b2" using set_port_total by blast
  have "parse gai (to_string ntop a) None b = Inr b2"
    using b1(1) b2 by (simp add: parse_def pos) (simp add: str atoi_decimal)
  then show ?thesis using set_port_endpoint [OF b1(4) b2] e1(1) by auto
qed

definition demo_infos :: "addrinfo list" where
  "demo_infos = [\<lparr>ai_family = AF_INET, ai_addr = take 16 (storage (set_ipv4 [1, 2, 3, 4] new_address)),
     ai_addrlen = 16\<rparr>]"

lemma demo_infos_collected:
  "\<exists>r. collect_addresses demo_infos = Inr [r] \<and> is_ipv4 r \<and> sin_addr r = [1, 2, 3, 4]"
proof -
  let ?a = "set_ipv4 [1, 2, 3, 4] new_address"
  have fam: "sa_family ?a = AF_INET" by (simp add: set_ipv4_fields)
  then have "bytes_u16 (peek 0 2 (take 16 (storage ?a))) = AF_INET"
    by (simp add: sa_family_def peek_def)
  moreover have "length (storage ?a) = 128"
    using set_ipv4_ok [OF new_address_ok, of "[1, 2, 3, 4]"] by (simp add: addr_ok_def size_defs)
  ultimately obtain r where r: "set_address (take 16 (storage ?a)) 16 new_address = Inr r"
      "r = new_address\<lparr>storage := poke 0 (take 16 (storage ?a)) (storage new_address)\<rparr>"
    by (simp add: set_address_def size_defs)
  have s: "set_address (storage ?a) (int (get_size ?a)) new_address = Inr r"
    using r \<open>bytes_u16 _ = _\<close> \<open>length (storage ?a) = 128\<close> fam
    by (simp add: set_address_def size_defs get_size_def sa_family_def)
  from set_address_self [of ?a new_address] s fam
  have "is_ipv4 r" "sin_addr r = [1, 2, 3, 4]"
    by (auto simp: is_supported_def is_ipv4_def endpoint_of_def set_ipv4_fields split: if_splits)
  moreover have "collect_addresses demo_infos = Inr [r]"
    using r(1) by (simp add: demo_infos_def)
  ultimately show ?thesis by blast
qed

theorem parse_to_string_v4_witness:
  "\<exists>b'. parse (\<lambda>h. if h = lit ''1.2.3.4'' then Some demo_infos else None)
      (to_string (\<lambda>f ip. lit ''1.2.3.4'') (set_ipv4 [1, 2, 3, 4] new_address)) None new_address = Inr b' \<and>
    endpoint_of b' = V4 [1, 2, 3, 4] 0"
proof -
  obtain r where "collect_addresses demo_infos = Inr [r]" "is_ipv4 r" "sin_addr r = [1, 2, 3, 4]"
    using demo_infos_collected by blast
  moreover have "endpoint_of (set_ipv4 [1, 2, 3, 4] new_address) = V4 [1, 2, 3, 4] 0"
    by (simp add: endpoint_of_def is_ipv4_def set_ipv4_fields)
  moreover have "0 \<notin> set (lit ''1.2.3.4'')" by (simp add: lit_def)
  ultimately show ?thesis
    by (intro parse_to_string_v4 [where infos = demo_infos]) simp_all
qed

end
