(* ===== verification/Unordered_Map.thy ===== *)
theory Unordered_Map
  imports W3m_Prelude "HOL-Library.Multiset"
begin

text \<open>
  \<open>std::unordered_map\<close> with the key equality of the program: the nodes in iteration
  order. The library promises no order, so a new node is linked at the front and the step
  relations that use the map may permute the nodes at any time (a rehash). The locale
  \<open>key_equality\<close> is what the container asks of its equality, less reflexivity, which
  \<open>network::address\<close> does not have; the lemmas in it are the laws the clients use.
\<close>

section \<open>Model\<close>

type_synonym ('k, 'v) umap = "('k \<times> 'v) list"

definition um_find :: "('k \<Rightarrow> 'k \<Rightarrow> bool) \<Rightarrow> 'k \<Rightarrow> ('k, 'v) umap \<Rightarrow> 'v option" where
  "um_find eq k m = map_option snd (List.find (\<lambda>n. eq (fst n) k) m)"

text \<open>
  \<open>operator[]\<close>: the mapped value, a default one when the key is new; \<open>um_put\<close> is what the
  map holds after the reference it returned was assigned.
\<close>

definition um_at :: "('k \<Rightarrow> 'k \<Rightarrow> bool) \<Rightarrow> 'v \<Rightarrow> 'k \<Rightarrow> ('k, 'v) umap \<Rightarrow> 'v" where
  "um_at eq d k m = (case um_find eq k m of None \<Rightarrow> d | Some v \<Rightarrow> v)"

fun um_replace :: "('k \<Rightarrow> 'k \<Rightarrow> bool) \<Rightarrow> 'k \<Rightarrow> 'v \<Rightarrow> ('k, 'v) umap \<Rightarrow> ('k, 'v) umap" where
  "um_replace eq k v [] = []"
| "um_replace eq k v (n # m) = (if eq (fst n) k then (fst n, v) # m else n # um_replace eq k v m)"

definition um_put :: "('k \<Rightarrow> 'k \<Rightarrow> bool) \<Rightarrow> 'k \<Rightarrow> 'v \<Rightarrow> ('k, 'v) umap \<Rightarrow> ('k, 'v) umap" where
  "um_put eq k v m = (if um_find eq k m = None then (k, v) # m else um_replace eq k v m)"

definition um_erase :: "('k \<Rightarrow> 'k \<Rightarrow> bool) \<Rightarrow> 'k \<Rightarrow> ('k, 'v) umap \<Rightarrow> ('k, 'v) umap" where
  "um_erase eq k m = filter (\<lambda>n. \<not> eq (fst n) k) m"

text \<open>No two nodes hold equal keys.\<close>

definition um_ok :: "('k \<Rightarrow> 'k \<Rightarrow> bool) \<Rightarrow> ('k, 'v) umap \<Rightarrow> bool" where
  "um_ok eq m \<longleftrightarrow> sorted_wrt (\<lambda>a b. \<not> eq (fst a) (fst b)) m"

section \<open>The laws of the container\<close>

lemma um_ok_Nil [simp]: "um_ok eq []"
  by (simp add: um_ok_def)

lemma um_ok_Cons:
  "um_ok eq (n # m) \<longleftrightarrow> (\<forall>x \<in> set m. \<not> eq (fst n) (fst x)) \<and> um_ok eq m"
  by (simp add: um_ok_def)

lemma um_find_None_iff: "um_find eq k m = None \<longleftrightarrow> (\<forall>n \<in> set m. \<not> eq (fst n) k)"
  by (simp add: um_find_def find_None_all)

lemma um_find_SomeD: "um_find eq k m = Some v \<Longrightarrow> \<exists>k'. (k', v) \<in> set m \<and> eq k' k"
  unfolding um_find_def map_option_eq_Some using find_Some_in by fastforce

lemma um_find_Cons:
  "um_find eq k (n # m) = (if eq (fst n) k then Some (snd n) else um_find eq k m)"
  by (simp add: um_find_def)

lemma um_replace_nodes:
  "n \<in> set (um_replace eq k v m) \<Longrightarrow> n \<in> set m \<or> snd n = v \<and> eq (fst n) k \<and> fst n \<in> fst ` set m"
  by (induction m) (auto split: if_splits)

lemma map_fst_um_replace [simp]: "map fst (um_replace eq k v m) = map fst m"
  by (induction m) auto

lemma um_put_nodes:
  "n \<in> set (um_put eq k v m) \<Longrightarrow> n \<in> set m \<or> snd n = v \<and> (fst n = k \<or> eq (fst n) k)"
  by (auto simp: um_put_def split: if_splits dest: um_replace_nodes)

lemma um_ok_fst: "um_ok eq m \<longleftrightarrow> sorted_wrt (\<lambda>a b. \<not> eq a b) (map fst m)"
  by (simp add: um_ok_def sorted_wrt_map)

lemma um_ok_replace [simp]: "um_ok eq (um_replace eq k v m) = um_ok eq m"
  by (simp add: um_ok_fst)

lemma um_ok_filter [simp]: "um_ok eq m \<Longrightarrow> um_ok eq (filter P m)"
  by (simp add: um_ok_def sorted_wrt_filter)

lemma um_erase_set: "set (um_erase eq k m) = {n \<in> set m. \<not> eq (fst n) k}"
  by (auto simp: um_erase_def)

text \<open>Replacing a value touches one node: the values of the others stay.\<close>

lemma um_replace_split:
  "um_find eq k m = Some v \<Longrightarrow>
     \<exists>xs k' ys. m = xs @ (k', v) # ys \<and> eq k' k \<and> (\<forall>n \<in> set xs. \<not> eq (fst n) k) \<and>
       um_replace eq k w m = xs @ (k', w) # ys"
proof (induction m)
  case (Cons n m)
  show ?case
  proof (cases "eq (fst n) k")
    case True
    with Cons.prems show ?thesis
      by (intro exI [of _ "[]"] exI [of _ "fst n"] exI [of _ m]) (auto simp: um_find_Cons)
  next
    case False
    with Cons obtain xs k' ys where "m = xs @ (k', v) # ys" "eq k' k"
      "\<forall>n \<in> set xs. \<not> eq (fst n) k" "um_replace eq k w m = xs @ (k', w) # ys"
      by (auto simp: um_find_Cons)
    with False show ?thesis
      by (intro exI [of _ "n # xs"] exI [of _ k'] exI [of _ ys]) auto
  qed
qed (simp add: um_find_def)

locale key_equality =
  fixes eq :: "'k \<Rightarrow> 'k \<Rightarrow> bool"
  assumes eq_sym: "eq a b \<Longrightarrow> eq b a"
    and eq_trans: "eq a b \<Longrightarrow> eq b c \<Longrightarrow> eq a c"
begin

lemma eq_cong: "eq a b \<Longrightarrow> eq c a \<longleftrightarrow> eq c b"
  by (blast intro: eq_sym eq_trans)

lemma um_find_cong: "eq k k' \<Longrightarrow> um_find eq k m = um_find eq k' m"
  by (simp add: um_find_def eq_cong)

lemma um_find_replace_same:
  "um_find eq k m \<noteq> None \<Longrightarrow> um_find eq k (um_replace eq k v m) = Some v"
  by (induction m) (auto simp: um_find_Cons um_find_def split: if_splits)

lemma um_find_replace_other:
  "\<not> eq k k' \<Longrightarrow> um_find eq k' (um_replace eq k v m) = um_find eq k' m"
  by (induction m) (auto simp: um_find_Cons dest: eq_sym eq_trans)

lemma um_find_put_same: "eq k k \<Longrightarrow> um_find eq k (um_put eq k v m) = Some v"
  by (simp add: um_put_def um_find_replace_same um_find_Cons)

lemma um_find_put_other: "\<not> eq k k' \<Longrightarrow> um_find eq k' (um_put eq k v m) = um_find eq k' m"
  by (simp add: um_put_def um_find_replace_other um_find_Cons)

lemma um_at_put_same: "eq k k \<Longrightarrow> um_at eq d k (um_put eq k v m) = v"
  by (simp add: um_at_def um_find_put_same)

lemma um_ok_put: "um_ok eq m \<Longrightarrow> um_ok eq (um_put eq k v m)"
  by (auto simp: um_put_def um_ok_Cons um_find_None_iff dest: eq_sym)

lemma um_find_unique:
  assumes "um_ok eq m" and "(k', v) \<in> set m" and "eq k' k"
  shows "um_find eq k m = Some v"
  using assms
proof (induction m)
  case (Cons n m)
  then show ?case
    using eq_trans [OF _ eq_sym [OF Cons.prems(3)]] by (auto simp: um_find_Cons um_ok_Cons)
qed simp

text \<open>Dropping nodes keeps what a key finds or makes it new.\<close>

lemma um_find_filter: "um_ok eq m \<Longrightarrow> um_find eq k (filter P m) \<in> {um_find eq k m, None}"
proof (induction m)
  case (Cons n m)
  have "um_find eq k m = None" if "eq (fst n) k"
  proof -
    have "\<not> eq (fst x) k" if "x \<in> set m" for x
      using that Cons.prems eq_trans [OF \<open>eq (fst n) k\<close> eq_sym, of "fst x"] by (auto simp: um_ok_Cons)
    then show ?thesis by (simp add: um_find_None_iff)
  qed
  with Cons show ?case by (auto simp: um_find_Cons um_ok_Cons)
qed simp

lemma um_ok_middle: "um_ok eq (xs @ n # ys) \<longleftrightarrow> um_ok eq (n # xs @ ys)"
  by (auto simp: um_ok_def sorted_wrt_append dest: eq_sym)

text \<open>
  A permutation of the nodes is the same map: no two keys become equal, and lookups do not
  see the iteration order.
\<close>

lemma um_ok_perm: "mset m = mset m' \<Longrightarrow> um_ok eq m \<Longrightarrow> um_ok eq m'"
proof (induction m arbitrary: m')
  case (Cons n m)
  then have "n \<in> set m'" by (metis list.set_intros(1) set_mset_mset)
  then obtain xs ys where m': "m' = xs @ n # ys" by (meson split_list)
  with Cons.prems(1) have ms: "mset m = mset (xs @ ys)" by simp
  with Cons have "um_ok eq (xs @ ys)" by (simp add: um_ok_Cons)
  moreover have "set m = set (xs @ ys)" using ms by (metis set_mset_mset)
  ultimately have "um_ok eq (n # xs @ ys)" using Cons.prems(2) by (auto simp: um_ok_Cons)
  then show ?case by (simp add: m' um_ok_middle)
qed simp

lemma um_find_perm:
  assumes "mset m = mset m'" and "um_ok eq m"
  shows "um_find eq k m' = um_find eq k m"
proof -
  have ok: "um_ok eq m'" and set: "set m' = set m"
    using um_ok_perm [OF assms] assms(1) by (simp, metis set_mset_mset)
  show ?thesis
  proof (cases "um_find eq k m")
    case None
    then have "um_find eq k m' = None" using set by (simp add: um_find_None_iff)
    with None show ?thesis by simp
  next
    case (Some v)
    then obtain k' where "(k', v) \<in> set m'" "eq k' k" using set by (auto dest: um_find_SomeD)
    with um_find_unique [OF ok] Some show ?thesis by simp
  qed
qed

end

interpretation hol_eq: key_equality "(=)"
  by unfold_locales auto

lemma um_find_hol: "um_find (=) k m = map_of m k"
  by (induction m) (auto simp: um_find_Cons um_find_def)

end
