(* ===== verification/Network.thy ===== *)
theory Network
  imports Address Unordered_Map
begin

text \<open>
  \<open>network::socket\<close> and \<open>network::manager\<close> (src/common/network/socket.cpp, manager.cpp):
  binding with its search for a free port, the framing of a command in a datagram, and the
  dispatch of a received datagram to the callback registered for its command. The
  operating system's calls are parameters; a callback is a step on the application's state
  that may end with an exception.
\<close>

section \<open>Sockets\<close>

text \<open>
  A descriptor is an integer, \<open>INVALID_SOCKET\<close> is \<open>-1\<close>; the set of open descriptors is the
  state of the operating system that construction, move and destruction change.
\<close>

record socket =
  address_family :: u16
  port :: u16
  fd :: int

definition INVALID_SOCKET :: int where "INVALID_SOCKET = -1"

definition empty_socket :: socket where
  "empty_socket = \<lparr>address_family = AF_UNSPEC, port = 0, fd = INVALID_SOCKET\<rparr>"

definition new_socket :: "u16 \<Rightarrow> int \<Rightarrow> int set \<Rightarrow> socket \<times> int set" where
  "new_socket af h opened =
     (\<lparr>address_family = af, port = 0, fd = h\<rparr>, if h = INVALID_SOCKET then opened else insert h opened)"

text \<open>\<open>None\<close> is the close of a descriptor that is not open.\<close>

definition destroy_socket :: "socket \<Rightarrow> int set \<Rightarrow> int set option" where
  "destroy_socket s opened =
     (if fd s \<noteq> INVALID_SOCKET then (if fd s \<in> opened then Some (opened - {fd s}) else None)
      else Some opened)"

text \<open>
  Move assignment to a different object: the target is destroyed, takes the three fields,
  and the source loses the descriptor and the family but keeps its port.
\<close>

definition move_socket :: "socket \<Rightarrow> socket \<Rightarrow> int set \<Rightarrow> (socket \<times> socket \<times> int set) option" where
  "move_socket this obj opened =
     map_option (\<lambda>opened'.
       (this\<lparr>fd := fd obj, port := port obj, address_family := address_family obj\<rparr>,
        obj\<lparr>fd := INVALID_SOCKET, address_family := AF_UNSPEC\<rparr>, opened'))
       (destroy_socket this opened)"

definition bind_port :: "(int \<Rightarrow> byte list \<Rightarrow> bool) \<Rightarrow> address \<Rightarrow> socket \<Rightarrow> bool \<times> socket" where
  "bind_port os_bind target s =
     (if os_bind (fd s) (take (get_size target) (storage target))
      then (True, s\<lparr>port := get_port target\<rparr>) else (False, s))"

text \<open>\<open>send\<close>: the size is converted to \<open>int\<close> for the call and for the comparison.\<close>

definition to_int :: "nat \<Rightarrow> int" where
  "to_int n = sint (of_nat n :: u32)"

definition socket_send ::
    "(int \<Rightarrow> byte list \<Rightarrow> byte list \<Rightarrow> int) \<Rightarrow> socket \<Rightarrow> address \<Rightarrow> byte list \<Rightarrow> bool" where
  "socket_send sendto s target data \<longleftrightarrow>
     sendto (fd s) data (take (get_size target) (storage target)) = to_int (length data)"

text \<open>
  \<open>receive\<close>: \<open>recvfrom\<close> gives \<open>None\<close> on an error (nothing pending on a non-blocking
  socket), otherwise the sender's socket address and the datagram, of which the buffer
  takes the first 8192 bytes.
\<close>

definition receive_buffer_size :: nat where "receive_buffer_size = 0x2000"

definition socket_receive ::
    "(byte list \<times> byte list) option \<Rightarrow> address \<Rightarrow> (address \<times> byte list) option" where
  "socket_receive recvfrom source =
     (case recvfrom of None \<Rightarrow> None
      | Some (sa, datagram) \<Rightarrow>
          Some (source\<lparr>storage := poke 0 (take get_max_size sa) (storage source)\<rparr>,
                take receive_buffer_size datagram))"

section \<open>Binding a free port\<close>

definition try_bind_socket ::
    "(int \<Rightarrow> byte list \<Rightarrow> bool) \<Rightarrow> socket \<Rightarrow> u16 \<Rightarrow> exn + (bool \<times> socket)" where
  "try_bind_socket os_bind s p =
     (let a = new_address;
          a1 = (if address_family s = AF_INET then set_ipv4_u32 0 a
                else if address_family s = AF_INET6 then set_ipv6 (replicate 16 0) a else a) in
      exn_bind (set_port p a1) (\<lambda>a2. Inr (bind_port os_bind a2 s)))"

text \<open>The loop over \<open>i\<close>: the candidate port is \<open>port + i\<close>, converted back to 16 bits.\<close>

function bind_loop ::
    "(int \<Rightarrow> byte list \<Rightarrow> bool) \<Rightarrow> socket \<Rightarrow> u16 \<Rightarrow> nat \<Rightarrow> exn + socket" where
  "bind_loop os_bind s p i =
     (if i < 100 then
        exn_bind (try_bind_socket os_bind s (p + of_nat i)) (\<lambda>(ok, s').
          if ok then Inr s' else bind_loop os_bind s' p (i + 1))
      else Inl (Runtime_error (lit ''Failed to bind socket'')))"
  by pat_completeness auto
termination
  by (relation "measure (\<lambda>(os_bind, s, p, i). 100 - i)") auto

declare bind_loop.simps [simp del]

definition bind_socket :: "(int \<Rightarrow> byte list \<Rightarrow> bool) \<Rightarrow> socket \<Rightarrow> u16 \<Rightarrow> exn + socket" where
  "bind_socket os_bind s p = bind_loop os_bind s p 0"

text \<open>\<open>create_and_bind_socket\<close>: \<open>s\<close> is the socket just created for \<open>family\<close>.\<close>

definition create_and_bind_socket ::
    "(int \<Rightarrow> byte list \<Rightarrow> bool) \<Rightarrow> u16 \<Rightarrow> int \<Rightarrow> u16 option \<Rightarrow> exn + socket" where
  "create_and_bind_socket os_bind family h port_opt =
     (let s = fst (new_socket family h {}) in
      case port_opt of None \<Rightarrow> Inr s | Some p \<Rightarrow> bind_socket os_bind s p)"

section \<open>Commands\<close>

text \<open>
  A callback runs on the application's state \<open>'s\<close>; what it changed before it threw stays
  changed. The callback map is keyed by the lower-case command.
\<close>

type_synonym 's callback = "address \<Rightarrow> byte list \<Rightarrow> 's \<Rightarrow> 's \<times> exn option"
type_synonym 's callback_map = "byte list \<rightharpoonup> 's callback"

definition manager_on :: "byte list \<Rightarrow> 's callback \<Rightarrow> 's callback_map \<Rightarrow> 's callback_map" where
  "manager_on command cb callbacks = callbacks(to_lower command \<mapsto> cb)"

datatype dispatch_result =
    Dropped
  | No_callback
  | Handled
  | Reported "byte list" exn
  | Fatal exn

text \<open>Every exception of the program derives from \<open>std::exception\<close>; the other two end it.\<close>

fun catchable :: "exn \<Rightarrow> bool" where
  "catchable Std_terminate = False"
| "catchable Undefined_behaviour = False"
| "catchable _ = True"

definition dispatch_command ::
    "'s callback_map \<Rightarrow> address \<Rightarrow> byte list \<Rightarrow> byte list \<Rightarrow> 's \<Rightarrow> 's \<times> dispatch_result" where
  "dispatch_command callbacks source command data s =
     (let lower_command = to_lower command in
      case callbacks lower_command of
        None \<Rightarrow> (s, No_callback)
      | Some cb \<Rightarrow>
          (case cb source data s of
             (s', None) \<Rightarrow> (s', Handled)
           | (s', Some e) \<Rightarrow> (s', if catchable e then Reported lower_command e else Fatal e)))"

definition magic :: "byte list" where "magic = [0xFF, 0xFF, 0xFF, 0xFF]"

definition is_divider :: "byte \<Rightarrow> bool" where "is_divider b \<longleftrightarrow> b = 32 \<or> b = 10"

definition find_first_of :: "(byte \<Rightarrow> bool) \<Rightarrow> byte list \<Rightarrow> nat option" where
  "find_first_of P bs =
     (let n = length (takeWhile (\<lambda>b. \<not> P b) bs) in if n < length bs then Some n else None)"

definition handle_data ::
    "'s callback_map \<Rightarrow> address \<Rightarrow> byte list \<Rightarrow> 's \<Rightarrow> 's \<times> dispatch_result" where
  "handle_data callbacks source packet s =
     (if length packet < 4 + 1 \<or> take 4 packet \<noteq> magic then (s, Dropped)
      else let buffer = drop 4 packet in
        case find_first_of is_divider buffer of
          None \<Rightarrow> (s, Dropped)
        | Some divider \<Rightarrow>
            let command = take divider buffer in
            if command = [] then (s, Dropped)
            else dispatch_command callbacks source command (drop (divider + 1) buffer) s)"

definition make_packet :: "byte list \<Rightarrow> byte \<Rightarrow> byte list \<Rightarrow> byte list" where
  "make_packet command separator data = magic @ command @ [separator] @ data"

text \<open>\<open>send_data\<close> picks the socket of the address's family; \<open>os\<close> sends on a descriptor.\<close>

definition send_data ::
    "(int \<Rightarrow> byte list \<Rightarrow> byte list \<Rightarrow> int) \<Rightarrow> socket \<Rightarrow> socket \<Rightarrow> address \<Rightarrow> byte list \<Rightarrow> bool" where
  "send_data sendto v4 v6 a data =
     (if is_ipv4 a then socket_send sendto v4 a data
      else if is_ipv6 a then socket_send sendto v6 a data
      else False)"

definition manager_send ::
    "(int \<Rightarrow> byte list \<Rightarrow> byte list \<Rightarrow> int) \<Rightarrow> socket \<Rightarrow> socket \<Rightarrow>
     address \<Rightarrow> byte list \<Rightarrow> byte list \<Rightarrow> byte \<Rightarrow> bool" where
  "manager_send sendto v4 v6 a command data separator =
     send_data sendto v4 v6 a (make_packet command separator data)"

text \<open>
  One round of \<open>packet_receiver\<close>: one datagram of each socket, if there is one; the last
  component says that the thread goes to sleep because neither had any.
\<close>

definition receive_socket_data ::
    "'s callback_map \<Rightarrow> (byte list \<times> byte list) option \<Rightarrow> 's \<Rightarrow> bool \<times> 's \<times> dispatch_result" where
  "receive_socket_data callbacks pending s =
     (case socket_receive pending new_address of
        None \<Rightarrow> (False, s, Dropped)
      | Some (source, data) \<Rightarrow> (True, handle_data callbacks source data s))"

type_synonym datagrams = "(byte list \<times> byte list) list"

fun first_of :: "'a list \<Rightarrow> 'a option" where
  "first_of [] = None"
| "first_of (x # xs) = Some x"

definition receiver_round ::
    "'s callback_map \<Rightarrow> datagrams \<times> datagrams \<times> 's \<Rightarrow> (datagrams \<times> datagrams \<times> 's) \<times> bool" where
  "receiver_round callbacks st =
     (case st of (q4, q6, s) \<Rightarrow>
        let (v4_handled, s1, r4) = receive_socket_data callbacks (first_of q4) s;
            (v6_handled, s2, r6) = receive_socket_data callbacks (first_of q6) s1 in
        ((tl q4, tl q6, s2), \<not> v4_handled \<and> \<not> v6_handled))"

section \<open>Ownership of descriptors\<close>

lemma move_socket_ownership:
  assumes "move_socket this obj opened = Some (this', obj', opened')"
    and "fd obj \<in> opened" and "fd this \<noteq> fd obj"
  shows "fd this' = fd obj \<and> fd obj' = INVALID_SOCKET \<and> fd this' \<in> opened' \<and>
     opened' = (if fd this = INVALID_SOCKET then opened else opened - {fd this}) \<and>
     destroy_socket obj' opened' = Some opened'"
  using assms by (auto simp: move_socket_def destroy_socket_def split: if_splits)

section \<open>The port search\<close>

text \<open>The address a port number stands for, as the socket would bind it.\<close>

definition any_address :: "u16 \<Rightarrow> address" where
  "any_address family =
     (if family = AF_INET then set_ipv4_u32 0 new_address else set_ipv6 (replicate 16 0) new_address)"

definition bindable :: "(int \<Rightarrow> byte list \<Rightarrow> bool) \<Rightarrow> socket \<Rightarrow> u16 \<Rightarrow> bool" where
  "bindable os_bind s p \<longleftrightarrow>
     (case set_port p (any_address (address_family s)) of
        Inl e \<Rightarrow> False
      | Inr a \<Rightarrow> os_bind (fd s) (take (get_size a) (storage a)))"

lemma any_address_supported:
  "is_supported (any_address family)" "addr_ok (any_address family)"
  by (simp_all add: any_address_def is_supported_def is_ipv4_def is_ipv6_def set_ipv4_u32_def
      set_ipv4_fields set_ipv6_fields)

lemma try_bind_socket_eq:
  assumes "address_family s = AF_INET \<or> address_family s = AF_INET6"
  shows "try_bind_socket os_bind s p =
     Inr (if bindable os_bind s p then (True, s\<lparr>port := p\<rparr>) else (False, s))"
proof -
  obtain a where a: "set_port p (any_address (address_family s)) = Inr a"
    using any_address_supported(1) set_port_total by blast
  have "get_port a = p" using set_port_fields(1) [OF any_address_supported(2) a] .
  with a assms show ?thesis
    by (auto simp: try_bind_socket_def bindable_def bind_port_def any_address_def Let_def
        split: if_splits)
qed

lemma bind_loop_cases:
  assumes "address_family s = AF_INET \<or> address_family s = AF_INET6" and "i \<le> 100"
  shows "(\<exists>k. i \<le> k \<and> k < 100 \<and> bindable os_bind s (p + of_nat k) \<and>
            (\<forall>j. i \<le> j \<and> j < k \<longrightarrow> \<not> bindable os_bind s (p + of_nat j)) \<and>
            bind_loop os_bind s p i = Inr (s\<lparr>port := p + of_nat k\<rparr>)) \<or>
     ((\<forall>j. i \<le> j \<and> j < 100 \<longrightarrow> \<not> bindable os_bind s (p + of_nat j)) \<and>
      bind_loop os_bind s p i = Inl (Runtime_error (lit ''Failed to bind socket'')))"
  using assms(2)
proof (induction "100 - i" arbitrary: i)
  case 0
  then show ?case by (auto simp: bind_loop.simps)
next
  case (Suc n)
  note step = bind_loop.simps [of os_bind s p i] try_bind_socket_eq [OF assms(1)]
  show ?case
  proof (cases "bindable os_bind s (p + of_nat i)")
    case True
    with Suc.hyps(2) show ?thesis
      by (intro disjI1 exI [of _ i]) (auto simp: step)
  next
    case False
    have i: "i < 100" using Suc.hyps(2) by simp
    with False have nxt: "bind_loop os_bind s p i = bind_loop os_bind s p (i + 1)"
      by (simp add: step)
    have split: "i \<le> j \<and> j < k \<longleftrightarrow> j = i \<and> i < k \<or> i + 1 \<le> j \<and> j < k" for j k
      by auto
    from i have "i + 1 \<le> 100" and "n = 100 - (i + 1)" using Suc.hyps(2) by simp_all
    from Suc.hyps(1) [OF this(2,1)] show ?thesis
    proof (elim disjE exE conjE)
      fix k assume "i + 1 \<le> k" "k < 100" "bindable os_bind s (p + of_nat k)"
        "\<forall>j. i + 1 \<le> j \<and> j < k \<longrightarrow> \<not> bindable os_bind s (p + of_nat j)"
        "bind_loop os_bind s p (i + 1) = Inr (s\<lparr>port := p + of_nat k\<rparr>)"
      with False nxt show ?thesis
        by (intro disjI1 exI [of _ k]) (auto simp: split)
    next
      assume "\<forall>j. i + 1 \<le> j \<and> j < 100 \<longrightarrow> \<not> bindable os_bind s (p + of_nat j)"
        "bind_loop os_bind s p (i + 1) = Inl (Runtime_error (lit ''Failed to bind socket''))"
      with False nxt show ?thesis
        by (intro disjI2) (auto simp: split)
    qed
  qed
qed

section \<open>Framing and dispatch\<close>

text \<open>A command that can be framed: not empty, and without the characters that end it.\<close>

definition plain_command :: "byte list \<Rightarrow> bool" where
  "plain_command c \<longleftrightarrow> c \<noteq> [] \<and> list_all (\<lambda>b. \<not> is_divider b) c"

lemma find_first_of_append:
  "list_all (\<lambda>b. \<not> P b) c \<Longrightarrow> P d \<Longrightarrow> find_first_of P (c @ d # rest) = Some (length c)"
  by (simp add: find_first_of_def takeWhile_append list_all_iff)

lemma handle_data_make_packet:
  assumes "plain_command c" and "is_divider sep"
  shows "handle_data callbacks source (make_packet c sep data) s =
     dispatch_command callbacks source c data s"
proof -
  have "find_first_of is_divider (c @ sep # data) = Some (length c)"
    using assms by (simp add: plain_command_def find_first_of_append)
  with assms(1) show ?thesis
    by (simp add: handle_data_def make_packet_def magic_def plain_command_def)
qed

lemma find_first_of_SomeD:
  assumes "find_first_of P bs = Some n"
  shows "n < length bs" and "P (bs ! n)" and "list_all (\<lambda>b. \<not> P b) (take n bs)"
proof -
  have n: "n = length (takeWhile (\<lambda>b. \<not> P b) bs)" and lt: "n < length bs"
    using assms by (simp_all add: find_first_of_def Let_def split: if_splits)
  show "n < length bs" by (rule lt)
  show "P (bs ! n)" using nth_length_takeWhile [of "\<lambda>b. \<not> P b" bs] n lt by simp
  have "take n bs = takeWhile (\<lambda>b. \<not> P b) bs" unfolding n by (rule takeWhile_eq_take [symmetric])
  then show "list_all (\<lambda>b. \<not> P b) (take n bs)"
    by (auto simp: list_all_iff dest: set_takeWhileD)
qed

text \<open>Whatever gets past the checks is a framed command: the framing loses nothing.\<close>

lemma handle_data_framed:
  assumes "handle_data callbacks source packet s \<noteq> (s, Dropped)"
  shows "\<exists>c sep data. packet = make_packet c sep data \<and> plain_command c \<and> is_divider sep"
proof -
  have checks: "\<not> (length packet < 4 + 1 \<or> take 4 packet \<noteq> magic)"
    using assms by (metis (no_types, lifting) handle_data_def)
  obtain buf where buf: "drop 4 packet = buf" by blast
  with checks have packet: "packet = magic @ buf" by (metis append_take_drop_id)
  have data: "handle_data callbacks source packet s = (case find_first_of is_divider buf of
      None \<Rightarrow> (s, Dropped)
    | Some n \<Rightarrow> if take n buf = [] then (s, Dropped)
               else dispatch_command callbacks source (take n buf) (drop (n + 1) buf) s)"
    by (simp only: handle_data_def buf Let_def checks if_False)
  obtain n where n: "find_first_of is_divider buf = Some n" and ne: "take n buf \<noteq> []"
    using assms unfolding data by (cases "find_first_of is_divider buf") (auto split: if_splits)
  note found = find_first_of_SomeD [OF n]
  have "packet = make_packet (take n buf) (buf ! n) (drop (Suc n) buf)"
    by (simp add: make_packet_def packet id_take_nth_drop [OF found(1), symmetric])
  moreover have "plain_command (take n buf)"
    unfolding plain_command_def using ne found(3) by blast
  ultimately show ?thesis using found(2) by blast
qed

lemma manager_on_lookup:
  "manager_on c cb callbacks (to_lower c') =
     (if to_lower c' = to_lower c then Some cb else callbacks (to_lower c'))"
  by (simp add: manager_on_def)

lemma dispatch_command_lower:
  "to_lower c = to_lower c' \<Longrightarrow>
     dispatch_command callbacks source c data s = dispatch_command callbacks source c' data s"
  by (simp add: dispatch_command_def Let_def)

lemma socket_receive_small:
  "length datagram \<le> receive_buffer_size \<Longrightarrow>
     socket_receive (Some (sa, datagram)) a =
       Some (a\<lparr>storage := poke 0 (take get_max_size sa) (storage a)\<rparr>, datagram)"
  by (simp add: socket_receive_def)

section \<open>Properties\<close>

text \<open>Binding takes the first of the 100 ports from the wanted one on (modulo 65536) that the
  operating system accepts, and fails with an error only when it accepts none of them.\<close>

theorem bind_socket_first_free:
  assumes "address_family s = AF_INET \<or> address_family s = AF_INET6"
  shows "(\<exists>k < 100. bindable os_bind s (p + of_nat k) \<and>
            (\<forall>j < k. \<not> bindable os_bind s (p + of_nat j)) \<and>
            bind_socket os_bind s p = Inr (s\<lparr>port := p + of_nat k\<rparr>)) \<or>
     ((\<forall>j < 100. \<not> bindable os_bind s (p + of_nat j)) \<and>
      bind_socket os_bind s p = Inl (Runtime_error (lit ''Failed to bind socket'')))"
  using bind_loop_cases [OF assms, of 0] unfolding bind_socket_def by auto

theorem bind_socket_first_free_witness:
  "bind_socket (\<lambda>h sa. False) (fst (new_socket AF_INET 3 {})) 28960 =
     Inl (Runtime_error (lit ''Failed to bind socket''))"
proof -
  have "\<not> bindable (\<lambda>h sa. False) s q" for s q by (simp add: bindable_def split: sum.splits)
  with bind_socket_first_free [of "fst (new_socket AF_INET 3 {})" "\<lambda>h sa. False" 28960]
  show ?thesis by (simp add: new_socket_def)
qed

text \<open>A framed command reaches exactly the callback registered for it, whatever the case of its
  letters, with the data as it was sent; the callback's exceptions do not leave the dispatcher
  unless they end the program.\<close>

theorem framed_command_is_dispatched:
  assumes "plain_command c" and "is_divider sep" and "to_lower c = to_lower c'"
  shows "handle_data (manager_on c' cb callbacks) source (make_packet c sep data) s =
    (case cb source data s of
       (s', None) \<Rightarrow> (s', Handled)
     | (s', Some e) \<Rightarrow> (s', if catchable e then Reported (to_lower c) e else Fatal e))"
  using assms
  by (simp add: handle_data_make_packet dispatch_command_def manager_on_def Let_def
      split: prod.split option.split)

theorem framed_command_is_dispatched_witness:
  "handle_data (manager_on (lit ''Kill'') (\<lambda>a d s. (s + length d, Some Length_error)) Map.empty)
      new_address (make_packet (lit ''kILL'') 32 [1, 2]) 5 =
    (7, Reported (lit ''kill'') Length_error)"
  by (subst framed_command_is_dispatched)
     (simp_all add: plain_command_def is_divider_def to_lower_def lit_def tolower_def is_upper_def)

text \<open>A datagram that is not dropped is a framed command: the magic bytes, a command without
  dividers, one divider and the data, and it is dispatched as that command.\<close>

theorem only_framed_commands_act:
  assumes "handle_data callbacks source packet s \<noteq> (s, Dropped)"
  shows "\<exists>c sep data. packet = make_packet c sep data \<and> plain_command c \<and> is_divider sep \<and>
     handle_data callbacks source packet s = dispatch_command callbacks source c data s"
  using handle_data_framed [OF assms] handle_data_make_packet by metis

theorem only_framed_commands_act_witness:
  "\<exists>c sep data. magic @ [97, 32] = make_packet c sep data \<and> plain_command c \<and> is_divider sep \<and>
     handle_data (Map.empty :: nat callback_map) new_address (magic @ [97, 32]) 0 =
       dispatch_command Map.empty new_address c data 0"
proof (rule only_framed_commands_act)
  have "magic @ [97, 32] = make_packet [97] 32 []" by (simp add: make_packet_def)
  moreover have "plain_command [97]" by (simp add: plain_command_def is_divider_def)
  ultimately show "handle_data (Map.empty :: nat callback_map) new_address (magic @ [97, 32]) 0 \<noteq>
      (0, Dropped)"
    by (simp add: handle_data_make_packet is_divider_def dispatch_command_def)
qed

text \<open>Moving a socket hands the descriptor over: the target's own descriptor is closed, the
  source's one stays open and is the target's, and destroying the source closes nothing.\<close>

theorem move_socket_transfers:
  assumes "move_socket this obj opened = Some (this', obj', opened')"
    and "fd obj \<in> opened" and "fd this \<noteq> fd obj"
  shows "fd this' = fd obj \<and> fd this' \<in> opened' \<and>
     opened' = (if fd this = INVALID_SOCKET then opened else opened - {fd this}) \<and>
     destroy_socket obj' opened' = Some opened'"
  using move_socket_ownership [OF assms] by blast

theorem move_socket_transfers_witness:
  "destroy_socket (empty_socket\<lparr>port := 7\<rparr>) {4} = Some {4}"
proof -
  have "move_socket (empty_socket\<lparr>fd := 3\<rparr>) \<lparr>address_family = AF_INET, port = 7, fd = 4\<rparr> {3, 4} =
      Some (\<lparr>address_family = AF_INET, port = 7, fd = 4\<rparr>, empty_socket\<lparr>port := 7\<rparr>, {4})"
    by (simp add: move_socket_def destroy_socket_def empty_socket_def INVALID_SOCKET_def insert_Diff_if)
  from move_socket_transfers [OF this] show ?thesis by (simp add: empty_socket_def)
qed

end
