(* ===== verification/Memory_Utils.thy ===== *)
theory Memory_Utils
  imports W3m_Prelude
begin

unbundle bit_operations_syntax

text \<open>
  \<open>utils::memory\<close> (src/common/utils/memory.cpp): the pool allocator over \<open>calloc\<close> and
  \<open>free\<close>, the byte scan \<open>is_set\<close> and the page-protection tests. A pointer is a number,
  \<open>0\<close> the null pointer; the heap maps the start of each live block to its bytes. Which
  address \<open>calloc\<close> returns is an argument of the model, and the theorems assume of it
  what the C library promises: it is null, or the start of no live block.
\<close>

section \<open>Model\<close>

type_synonym pointer = nat
type_synonym heap = "pointer \<rightharpoonup> byte list"

definition null :: pointer where "null = 0"

definition calloc :: "pointer \<Rightarrow> nat \<Rightarrow> heap \<Rightarrow> heap" where
  "calloc p len h = (if p = null then h else h(p \<mapsto> replicate len 0))"

text \<open>\<open>memory::free\<close>; \<open>None\<close> is the undefined release of a block that is not live.\<close>

definition mem_free :: "pointer \<Rightarrow> heap \<Rightarrow> heap option" where
  "mem_free p h = (if p = null then Some h else if p \<in> dom h then Some (h(p := None)) else None)"

text \<open>\<open>memory::duplicate_string\<close> writes through the pointer \<open>calloc\<close> returned, unchecked.\<close>

definition mem_duplicate_string :: "pointer \<Rightarrow> byte list \<Rightarrow> heap \<Rightarrow> heap option" where
  "mem_duplicate_string p str h =
     (let h' = calloc p (length str + 1) h in
      if p = null then None else Some (h'(p \<mapsto> str @ [0])))"

record allocator =
  pool :: "pointer list"
  heap_of :: heap

definition alloc_allocate :: "pointer \<Rightarrow> nat \<Rightarrow> allocator \<Rightarrow> pointer \<times> allocator" where
  "alloc_allocate p len a =
     (p, a\<lparr>pool := pool a @ [p], heap_of := calloc p len (heap_of a)\<rparr>)"

definition alloc_duplicate_string ::
    "pointer \<Rightarrow> byte list \<Rightarrow> allocator \<Rightarrow> (pointer \<times> allocator) option" where
  "alloc_duplicate_string p str a =
     map_option (\<lambda>h. (p, a\<lparr>pool := pool a @ [p], heap_of := h\<rparr>))
       (mem_duplicate_string p str (heap_of a))"

definition alloc_free :: "pointer \<Rightarrow> allocator \<Rightarrow> allocator option" where
  "alloc_free data a =
     (if data \<in> set (pool a)
      then map_option (\<lambda>h. a\<lparr>pool := remove1 data (pool a), heap_of := h\<rparr>)
             (mem_free data (heap_of a))
      else Some a)"

fun free_all :: "pointer list \<Rightarrow> heap \<Rightarrow> heap option" where
  "free_all [] h = Some h"
| "free_all (p # ps) h = (case mem_free p h of None \<Rightarrow> None | Some h' \<Rightarrow> free_all ps h')"

definition alloc_clear :: "allocator \<Rightarrow> allocator option" where
  "alloc_clear a = map_option (\<lambda>h. a\<lparr>pool := [], heap_of := h\<rparr>) (free_all (pool a) (heap_of a))"

definition alloc_empty :: "allocator \<Rightarrow> bool" where
  "alloc_empty a \<longleftrightarrow> pool a = []"

text \<open>\<open>is_set\<close> reads \<open>len\<close> bytes; \<open>mem\<close> is the memory from the pointer on.\<close>

fun is_set :: "byte list \<Rightarrow> byte \<Rightarrow> nat \<Rightarrow> bool" where
  "is_set mem chr 0 = True"
| "is_set [] chr (Suc n) = False"
| "is_set (b # mem) chr (Suc n) = (if b \<noteq> chr then False else is_set mem chr n)"

definition PAGE_NOACCESS :: u32 where "PAGE_NOACCESS = 0x01"
definition PAGE_READONLY :: u32 where "PAGE_READONLY = 0x02"
definition PAGE_READWRITE :: u32 where "PAGE_READWRITE = 0x04"
definition PAGE_WRITECOPY :: u32 where "PAGE_WRITECOPY = 0x08"
definition PAGE_EXECUTE_READ :: u32 where "PAGE_EXECUTE_READ = 0x20"
definition PAGE_EXECUTE_READWRITE :: u32 where "PAGE_EXECUTE_READWRITE = 0x40"
definition PAGE_EXECUTE_WRITECOPY :: u32 where "PAGE_EXECUTE_WRITECOPY = 0x80"
definition PAGE_GUARD :: u32 where "PAGE_GUARD = 0x100"

text \<open>The argument is the protection \<open>VirtualQuery\<close> reports, \<open>None\<close> when it fails.\<close>

definition is_bad_read_ptr :: "u32 option \<Rightarrow> bool" where
  "is_bad_read_ptr query =
     (case query of
        None \<Rightarrow> True
      | Some protect \<Rightarrow>
          let mask = PAGE_READONLY OR PAGE_READWRITE OR PAGE_WRITECOPY OR PAGE_EXECUTE_READ OR
                     PAGE_EXECUTE_READWRITE OR PAGE_EXECUTE_WRITECOPY;
              b = (protect AND mask = 0) in
          if protect AND (PAGE_GUARD OR PAGE_NOACCESS) \<noteq> 0 then True else b)"

definition is_bad_code_ptr :: "u32 option \<Rightarrow> bool" where
  "is_bad_code_ptr query =
     (case query of
        None \<Rightarrow> True
      | Some protect \<Rightarrow>
          let mask = PAGE_EXECUTE_READ OR PAGE_EXECUTE_READWRITE OR PAGE_EXECUTE_WRITECOPY;
              b = (protect AND mask = 0) in
          if protect AND (PAGE_GUARD OR PAGE_NOACCESS) \<noteq> 0 then True else b)"

record section_header =
  section_name :: "byte list"
  pointer_to_raw_data :: nat
  size_of_raw_data :: nat

text \<open>
  \<open>is_rdata_ptr\<close>: the first section whose 8-byte name, read as a C string, is \<open>.rdata\<close>
  decides; \<open>base\<close> is the address of the module that holds the pointer.
\<close>

fun is_rdata_ptr :: "nat \<Rightarrow> section_header list \<Rightarrow> nat \<Rightarrow> bool" where
  "is_rdata_ptr base [] target = False"
| "is_rdata_ptr base (s # ss) target =
     (if takeWhile (\<lambda>b. b \<noteq> 0) (section_name s @ [0]) = lit ''.rdata'' then
        (let source_start = (base + pointer_to_raw_data s) mod size_mod;
             source_end = (source_start + size_of_raw_data s) mod size_mod in
         target \<ge> source_start \<and> target \<le> source_end)
      else is_rdata_ptr base ss target)"

section \<open>The pool invariant\<close>

text \<open>
  Every pointer of the pool is null or the start of a live block, and no block is in the
  pool twice: then no operation of the allocator releases a block that is not live.
\<close>

definition pool_ok :: "allocator \<Rightarrow> bool" where
  "pool_ok a \<longleftrightarrow> distinct (filter (\<lambda>p. p \<noteq> null) (pool a)) \<and>
     set (pool a) - {null} \<subseteq> dom (heap_of a)"

definition fresh :: "pointer \<Rightarrow> heap \<Rightarrow> bool" where
  "fresh p h \<longleftrightarrow> p = null \<or> p \<notin> dom h"

lemma pool_ok_allocate: "pool_ok a \<Longrightarrow> fresh p (heap_of a) \<Longrightarrow> pool_ok (snd (alloc_allocate p len a))"
  by (auto simp: pool_ok_def alloc_allocate_def calloc_def fresh_def)

lemma pool_ok_duplicate_string:
  "pool_ok a \<Longrightarrow> fresh p (heap_of a) \<Longrightarrow> alloc_duplicate_string p str a = Some (q, a') \<Longrightarrow>
     pool_ok a' \<and> heap_of a' q = Some (str @ [0])"
  by (auto simp: pool_ok_def alloc_duplicate_string_def mem_duplicate_string_def calloc_def
      fresh_def Let_def split: if_splits)

lemma mem_free_live: "p = null \<or> p \<in> dom h \<Longrightarrow> mem_free p h = Some (if p = null then h else h(p := None))"
  by (auto simp: mem_free_def)

lemma remove1_nonnull:
  "distinct (filter (\<lambda>p. p \<noteq> null) ps) \<Longrightarrow> d \<noteq> null \<Longrightarrow>
     distinct (filter (\<lambda>p. p \<noteq> null) (remove1 d ps)) \<and> d \<notin> set (remove1 d ps)"
proof (induction ps)
  case (Cons p ps)
  have "set (remove1 d ps) \<subseteq> set ps" by (rule set_remove1_subset)
  with Cons show ?case by (auto split: if_splits)
qed simp

lemma pool_ok_free:
  assumes "pool_ok a"
  shows "\<exists>a'. alloc_free d a = Some a' \<and> pool_ok a' \<and>
     (d \<in> set (pool a) \<and> d \<noteq> null \<longrightarrow> heap_of a' d = None) \<and>
     (\<forall>q. q \<noteq> d \<longrightarrow> heap_of a' q = heap_of a q)"
proof (cases "d \<in> set (pool a)")
  case True
  then have "d = null \<or> d \<in> dom (heap_of a)" using assms by (auto simp: pool_ok_def)
  note free = mem_free_live [OF this]
  have sub: "set (remove1 d (pool a)) \<subseteq> set (pool a)" by (rule set_remove1_subset)
  show ?thesis
  proof (cases "d = null")
    case True
    have "distinct (filter (\<lambda>p. p \<noteq> null) (remove1 null (pool a)))"
      using assms by (simp add: pool_ok_def filter_remove1 distinct_remove1)
    with True sub assms free \<open>d \<in> set (pool a)\<close> show ?thesis
      by (auto simp: alloc_free_def pool_ok_def)
  next
    case False
    with remove1_nonnull [OF _ False, of "pool a"] sub assms free \<open>d \<in> set (pool a)\<close>
    show ?thesis by (auto simp: alloc_free_def pool_ok_def)
  qed
qed (use assms in \<open>simp add: alloc_free_def\<close>)

lemma free_all_live:
  "distinct (filter (\<lambda>p. p \<noteq> null) ps) \<Longrightarrow> set ps - {null} \<subseteq> dom h \<Longrightarrow>
     free_all ps h = Some (h |` (- (set ps - {null})))"
proof (induction ps arbitrary: h)
  case (Cons p ps)
  show ?case
  proof (cases "p = null")
    case True
    with Cons show ?thesis by (simp add: mem_free_def insert_Diff_if)
  next
    case False
    with Cons.prems have "p \<in> dom h" "p \<notin> set ps - {null}"
      "set ps - {null} \<subseteq> dom (h(p := None))" by auto
    with False Cons have "free_all (p # ps) h = Some ((h(p := None)) |` (- (set ps - {null})))"
      by (simp add: mem_free_live)
    also have "(h(p := None)) |` (- (set ps - {null})) = h |` (- (set (p # ps) - {null}))"
      using False by (auto simp: restrict_map_def fun_eq_iff)
    finally show ?thesis .
  qed
qed (simp add: restrict_map_def)

lemma pool_ok_clear:
  assumes "pool_ok a"
  shows "\<exists>a'. alloc_clear a = Some a' \<and> pool_ok a' \<and> alloc_empty a' \<and>
     heap_of a' = heap_of a |` (- (set (pool a) - {null}))"
  using assms free_all_live [of "pool a" "heap_of a"]
  by (simp add: alloc_clear_def pool_ok_def alloc_empty_def)

section \<open>Scans and page protections\<close>

lemma is_set_iff: "n \<le> length mem \<Longrightarrow> is_set mem chr n \<longleftrightarrow> take n mem = replicate n chr"
  by (induction mem chr n rule: is_set.induct) auto

lemma bad_read_bad_code: "is_bad_read_ptr q \<Longrightarrow> is_bad_code_ptr q"
proof (cases q)
  case (Some protect)
  let ?code = "PAGE_EXECUTE_READ OR PAGE_EXECUTE_READWRITE OR PAGE_EXECUTE_WRITECOPY"
  let ?data = "PAGE_READONLY OR PAGE_READWRITE OR PAGE_WRITECOPY"
  assume "is_bad_read_ptr q"
  moreover have "protect AND ?code = 0" if "protect AND (?data OR ?code) = 0"
  proof -
    have "protect AND ?code = (protect AND (?data OR ?code)) AND ?code"
      by (simp add: bit_eq_iff bit_simps) blast
    with that show ?thesis by simp
  qed
  ultimately show ?thesis
    using Some by (auto simp: is_bad_read_ptr_def is_bad_code_ptr_def Let_def or.assoc split: if_splits)
qed (simp add: is_bad_code_ptr_def)

section \<open>Properties\<close>

text \<open>A life of a pool: any sequence of its operations, with the addresses \<open>calloc\<close> gives.\<close>

datatype pool_op =
    Op_allocate pointer nat
  | Op_duplicate pointer "byte list"
  | Op_free pointer
  | Op_clear

fun pool_step :: "pool_op \<Rightarrow> allocator \<Rightarrow> allocator option" where
  "pool_step (Op_allocate p n) a = Some (snd (alloc_allocate p n a))"
| "pool_step (Op_duplicate p s) a = map_option snd (alloc_duplicate_string p s a)"
| "pool_step (Op_free p) a = alloc_free p a"
| "pool_step Op_clear a = alloc_clear a"

text \<open>The addresses are what \<open>calloc\<close> may return; a string is duplicated only into a block.\<close>

fun op_ok :: "pool_op \<Rightarrow> allocator \<Rightarrow> bool" where
  "op_ok (Op_allocate p n) a = fresh p (heap_of a)"
| "op_ok (Op_duplicate p s) a = (p \<noteq> null \<and> fresh p (heap_of a))"
| "op_ok _ a = True"

inductive pool_run :: "pool_op list \<Rightarrow> allocator \<Rightarrow> allocator \<Rightarrow> bool" where
  run_nil: "pool_run [] a a"
| run_more: "op_ok op a \<Longrightarrow> pool_step op a = Some a' \<Longrightarrow> pool_run ops a' a'' \<Longrightarrow>
    pool_run (op # ops) a a''"

definition empty_pool :: allocator where
  "empty_pool = \<lparr>pool = [], heap_of = Map.empty\<rparr>"

lemma pool_step_ok:
  assumes "pool_ok a" and "op_ok op a"
  shows "\<exists>a'. pool_step op a = Some a' \<and> pool_ok a'"
proof (cases op)
  case (Op_duplicate p s)
  with assms(2) have "alloc_duplicate_string p s a \<noteq> None"
    by (simp add: alloc_duplicate_string_def mem_duplicate_string_def Let_def)
  with pool_ok_duplicate_string [OF assms(1)] assms(2) Op_duplicate show ?thesis
    by (cases "alloc_duplicate_string p s a") auto
next
  case (Op_free p)
  with pool_ok_free [OF assms(1), of p] show ?thesis by auto
next
  case Op_clear
  with pool_ok_clear [OF assms(1)] show ?thesis by auto
qed (use assms pool_ok_allocate in auto)

lemma pool_run_ok: "pool_run ops a b \<Longrightarrow> pool_ok a \<Longrightarrow> pool_ok b"
  by (induction rule: pool_run.induct) (use pool_step_ok in fastforce)+

text \<open>After any sequence of operations on a pool, every operation the C library allows is
  defined: the allocator never releases a block twice or one it does not own, and clearing it
  releases every block it still holds.\<close>

theorem pool_never_double_frees:
  assumes "pool_run ops empty_pool a" and "op_ok op a"
  shows "(\<exists>a'. pool_step op a = Some a') \<and>
    (\<exists>b. pool_step Op_clear a = Some b \<and> pool b = [] \<and> heap_of b = heap_of a |` (- (set (pool a) - {null})))"
proof -
  have "pool_ok empty_pool" by (simp add: pool_ok_def empty_pool_def)
  then have ok: "pool_ok a" using pool_run_ok [OF assms(1)] by blast
  from pool_step_ok [OF ok assms(2)] pool_ok_clear [OF ok] show ?thesis
    by (auto simp: alloc_empty_def)
qed

lemmas pool_run_eval = fresh_def null_def alloc_allocate_def calloc_def alloc_free_def
  mem_free_def alloc_duplicate_string_def mem_duplicate_string_def domIff

theorem pool_never_double_frees_witness:
  "\<exists>a b. pool_run [Op_allocate 16 4, Op_free 16, Op_free 16, Op_duplicate 16 [1]] empty_pool a \<and>
     pool_step Op_clear a = Some b \<and> pool b = []"
proof -
  have "\<exists>a. pool_run [Op_allocate 16 4, Op_free 16, Op_free 16, Op_duplicate 16 [1]] empty_pool a"
    by (rule exI, (rule pool_run.run_more, simp add: empty_pool_def pool_run_eval,
        simp add: empty_pool_def pool_run_eval)+, rule pool_run.run_nil)
  then show ?thesis using pool_never_double_frees [where op = Op_clear] by force
qed

end
