(* ===== verification/Crypto.thy ===== *)
theory Crypto
  imports String_Utils Memory_Utils
begin

unbundle bit_operations_syntax

text \<open>
  \<open>utils::cryptography\<close> (src/common/utils/cryptography.cpp): the life cycle of an ECC key,
  key hashes, signatures, the retry of the encryption wrappers, challenges and the
  one-at-a-time hash. The functions of libtomcrypt are the fields of a record that every
  definition takes as its first argument; \<open>lib_ok\<close> is what its manual promises. A key is
  the memory of its \<open>ecc_key\<close>: the code tells an empty key by its bytes being all zero.
\<close>

section \<open>The library\<close>

record crypto_lib =
  ecc_key_size :: nat
  ecc_import :: "byte list \<Rightarrow> byte list option"
  ecc_export :: "nat \<Rightarrow> byte list \<Rightarrow> byte list option"
  ecc_key_type :: "byte list \<Rightarrow> nat"
  ansi_import :: "byte list \<Rightarrow> byte list option"
  ansi_export :: "byte list \<Rightarrow> byte list option"
  openssl_import :: "byte list \<Rightarrow> byte list option"
  openssl_export :: "byte list \<Rightarrow> byte list option"
  sha1_digest :: "byte list \<Rightarrow> byte list"
  sha256_digest :: "byte list \<Rightarrow> byte list"
  sha512_digest :: "byte list \<Rightarrow> byte list"
  sign_hash :: "byte list \<Rightarrow> byte list \<Rightarrow> byte list"
  verify_hash :: "byte list \<Rightarrow> byte list \<Rightarrow> byte list \<Rightarrow> bool \<times> int"

definition PK_PUBLIC :: nat where "PK_PUBLIC = 0"
definition PK_PRIVATE :: nat where "PK_PRIVATE = 1"

text \<open>An import that reports success fills the structure, and digests have their size.\<close>

definition image_ok :: "crypto_lib \<Rightarrow> byte list \<Rightarrow> bool" where
  "image_ok L img \<longleftrightarrow> length img = ecc_key_size L \<and> img \<noteq> replicate (ecc_key_size L) 0"

definition lib_ok :: "crypto_lib \<Rightarrow> bool" where
  "lib_ok L \<longleftrightarrow>
     (\<forall>bs img. ecc_import L bs = Some img \<longrightarrow> image_ok L img) \<and>
     (\<forall>bs img. ansi_import L bs = Some img \<longrightarrow> image_ok L img) \<and>
     (\<forall>bs img. openssl_import L bs = Some img \<longrightarrow> image_ok L img) \<and>
     (\<forall>bs. length (sha1_digest L bs) = 20) \<and>
     (\<forall>bs. length (sha256_digest L bs) = 32) \<and>
     (\<forall>bs. length (sha512_digest L bs) = 64)"

section \<open>Model\<close>

type_synonym key = "byte list"

definition key_new :: "crypto_lib \<Rightarrow> key" where
  "key_new L = replicate (ecc_key_size L) 0"

definition key_is_valid :: "crypto_lib \<Rightarrow> key \<Rightarrow> bool" where
  "key_is_valid L k \<longleftrightarrow> \<not> is_set k 0 (ecc_key_size L)"

text \<open>\<open>free\<close> hands a valid key back to the library and zeroes the structure either way.\<close>

definition key_free :: "crypto_lib \<Rightarrow> key \<Rightarrow> key" where
  "key_free L k = replicate (ecc_key_size L) 0"

definition key_import :: "crypto_lib \<Rightarrow> byte list option \<Rightarrow> key \<Rightarrow> key" where
  "key_import L imported k =
     (let k' = key_free L k in
      case imported of None \<Rightarrow> replicate (ecc_key_size L) 0 | Some img \<Rightarrow> img)"

definition key_set :: "crypto_lib \<Rightarrow> byte list \<Rightarrow> key \<Rightarrow> key" where
  "key_set L pub k = key_import L (ansi_import L pub) k"

definition key_deserialize :: "crypto_lib \<Rightarrow> byte list \<Rightarrow> key \<Rightarrow> key" where
  "key_deserialize L bs k = key_import L (ecc_import L bs) k"

definition key_set_openssl :: "crypto_lib \<Rightarrow> byte list \<Rightarrow> key \<Rightarrow> key" where
  "key_set_openssl L bs k = key_import L (openssl_import L bs) k"

definition bytes_or_empty :: "byte list option \<Rightarrow> byte list" where
  "bytes_or_empty r = (case r of None \<Rightarrow> [] | Some bs \<Rightarrow> bs)"

definition key_get_public_key :: "crypto_lib \<Rightarrow> key \<Rightarrow> byte list" where
  "key_get_public_key L k = bytes_or_empty (ansi_export L k)"

definition key_serialize :: "crypto_lib \<Rightarrow> nat \<Rightarrow> key \<Rightarrow> byte list" where
  "key_serialize L typ k = bytes_or_empty (ecc_export L typ k)"

definition key_get_openssl :: "crypto_lib \<Rightarrow> key \<Rightarrow> byte list" where
  "key_get_openssl L k = bytes_or_empty (openssl_export L k)"

text \<open>
  Assignment to a different object: the move takes the bytes and zeroes the source; the
  copy does nothing at all when the source is not valid.
\<close>

definition key_assign_move :: "crypto_lib \<Rightarrow> key \<Rightarrow> key \<Rightarrow> key \<times> key" where
  "key_assign_move L this obj = (obj, replicate (ecc_key_size L) 0)"

definition key_assign_copy :: "crypto_lib \<Rightarrow> key \<Rightarrow> key \<Rightarrow> key" where
  "key_assign_copy L this obj =
     (if key_is_valid L obj
      then key_deserialize L (key_serialize L (ecc_key_type L obj) obj) this
      else this)"

definition key_copy :: "crypto_lib \<Rightarrow> key \<Rightarrow> key" where
  "key_copy L obj = key_assign_copy L (key_new L) obj"

definition key_equals :: "crypto_lib \<Rightarrow> key \<Rightarrow> key \<Rightarrow> bool" where
  "key_equals L a b \<longleftrightarrow>
     key_is_valid L a \<and> key_is_valid L b \<and>
     key_serialize L PK_PUBLIC a = key_serialize L PK_PUBLIC b"

definition hex_or_raw :: "byte list \<Rightarrow> bool \<Rightarrow> byte list" where
  "hex_or_raw hash hex = (if \<not> hex then hash else dump_hex hash [])"

definition sha1_compute :: "crypto_lib \<Rightarrow> byte list \<Rightarrow> bool \<Rightarrow> byte list" where
  "sha1_compute L data hex = hex_or_raw (sha1_digest L data) hex"

definition sha256_compute :: "crypto_lib \<Rightarrow> byte list \<Rightarrow> bool \<Rightarrow> byte list" where
  "sha256_compute L data hex = hex_or_raw (sha256_digest L data) hex"

definition sha512_compute :: "crypto_lib \<Rightarrow> byte list \<Rightarrow> bool \<Rightarrow> byte list" where
  "sha512_compute L data hex = hex_or_raw (sha512_digest L data) hex"

definition key_get_hash :: "crypto_lib \<Rightarrow> key \<Rightarrow> u64" where
  "key_get_hash L k =
     (let hash = sha1_compute L (key_get_public_key L k) False in
      if length hash \<ge> 8 then bytes_u64 (take 8 hash) else 0)"

definition sign_message :: "crypto_lib \<Rightarrow> key \<Rightarrow> byte list \<Rightarrow> byte list" where
  "sign_message L k message =
     (if \<not> key_is_valid L k then []
      else sign_hash L k (sha512_compute L message False))"

definition verify_message :: "crypto_lib \<Rightarrow> key \<Rightarrow> byte list \<Rightarrow> byte list \<Rightarrow> bool" where
  "verify_message L k message signature =
     (if \<not> key_is_valid L k then False
      else let (res_ok, result) = verify_hash L signature (sha512_compute L message False) k in
        res_ok \<and> result \<noteq> 0)"

text \<open>
  The shape \<open>ecc::encrypt\<close>, \<open>ecc::decrypt\<close> and \<open>rsa::encrypt\<close> share: a first attempt with a
  guessed buffer, a second one with the size the library asked for. \<open>crypt n\<close> is the
  library call on a buffer of \<open>n\<close> bytes; \<open>unsigned long\<close> has 32 bits on Windows.
\<close>

datatype crypt_result = Crypt_ok "byte list" | Buffer_overflow nat | Crypt_error

definition ul :: "nat \<Rightarrow> nat" where
  "ul n = n mod 2 ^ 32"

definition crypt_retry :: "(nat \<Rightarrow> crypt_result) \<Rightarrow> byte list \<Rightarrow> byte list option" where
  "crypt_retry crypt data =
     (let out_len = max (ul (length data * 3)) (ul 0x100);
          res = crypt out_len;
          res2 = (case res of Buffer_overflow n \<Rightarrow> crypt n | _ \<Rightarrow> res) in
      case res2 of Crypt_ok out \<Rightarrow> Some out | _ \<Rightarrow> None)"

text \<open>\<open>ecc::encrypt\<close> and \<open>ecc::decrypt\<close> replace the data only when the call succeeded.\<close>

definition ecc_crypt :: "(nat \<Rightarrow> crypt_result) \<Rightarrow> byte list \<Rightarrow> bool \<times> byte list" where
  "ecc_crypt crypt data =
     (case crypt_retry crypt data of None \<Rightarrow> (False, data) | Some out \<Rightarrow> (True, out))"

definition rsa_encrypt :: "(nat \<Rightarrow> crypt_result) \<Rightarrow> byte list \<Rightarrow> byte list" where
  "rsa_encrypt crypt data = bytes_or_empty (crypt_retry crypt data)"

text \<open>One-at-a-time hash: \<open>key[i]\<close> is a signed \<open>char\<close>, so it is sign-extended.\<close>

fun jenkins_loop :: "u32 \<Rightarrow> byte list \<Rightarrow> u32" where
  "jenkins_loop hash [] = hash"
| "jenkins_loop hash (c # cs) =
     (let h1 = hash + scast c; h2 = h1 + push_bit 10 h1; h3 = h2 XOR drop_bit 6 h2 in
      jenkins_loop h3 cs)"

definition jenkins_compute :: "byte list \<Rightarrow> u32" where
  "jenkins_compute key =
     (let h = jenkins_loop 0 key; h1 = h + push_bit 3 h; h2 = h1 XOR drop_bit 11 h1 in
      h2 + push_bit 15 h2)"

text \<open>
  \<open>random::get_data\<close> fills a buffer from the generator; the bytes it delivers are an
  argument, of the length the caller asked for.
\<close>

definition get_integer :: "byte list \<Rightarrow> u32" where
  "get_integer rnd = bytes_u32 rnd"

definition challenge_size :: nat where "challenge_size = 8"

definition get_challenge :: "byte list \<Rightarrow> byte list" where
  "get_challenge rnd = dump_hex rnd []"

section \<open>Keys\<close>

lemma key_new_invalid [simp]: "\<not> key_is_valid L (key_new L)"
  by (simp add: key_is_valid_def key_new_def is_set_iff)

lemma key_zero_invalid [simp]: "\<not> key_is_valid L (replicate (ecc_key_size L) 0)"
  by (simp add: key_is_valid_def is_set_iff)

lemma image_valid: "image_ok L img \<Longrightarrow> key_is_valid L img"
  by (simp add: image_ok_def key_is_valid_def is_set_iff)

lemma key_import_valid:
  "(\<And>img. r = Some img \<Longrightarrow> image_ok L img) \<Longrightarrow> key_is_valid L (key_import L r k) \<longleftrightarrow> r \<noteq> None"
  by (cases r) (auto simp: key_import_def image_valid)

lemma key_deserialize_valid:
  "lib_ok L \<Longrightarrow> key_is_valid L (key_deserialize L bs k) \<longleftrightarrow> ecc_import L bs \<noteq> None"
  unfolding key_deserialize_def by (rule key_import_valid) (simp add: lib_ok_def)

lemma key_deserialize_Some: "ecc_import L bs = Some img \<Longrightarrow> key_deserialize L bs k = img"
  by (simp add: key_deserialize_def key_import_def)

lemma key_deserialize_fresh: "key_deserialize L bs k = key_deserialize L bs k'"
  by (simp add: key_deserialize_def key_import_def)

lemma key_equals_sym: "key_equals L a b \<Longrightarrow> key_equals L b a"
  by (simp add: key_equals_def)

lemma key_equals_trans: "key_equals L a b \<Longrightarrow> key_equals L b c \<Longrightarrow> key_equals L a c"
  by (simp add: key_equals_def)

lemma verify_message_valid: "verify_message L k m sig \<Longrightarrow> key_is_valid L k"
  by (simp add: verify_message_def split: if_splits)

lemma get_challenge_nonempty: "length rnd = challenge_size \<Longrightarrow> get_challenge rnd \<noteq> []"
  by (metis get_challenge_def length_dump_hex challenge_size_def length_0_conv mult_eq_0_iff
      zero_neq_numeral)

lemma length_get_challenge: "length rnd = challenge_size \<Longrightarrow> length (get_challenge rnd) = 16"
  by (simp add: get_challenge_def challenge_size_def)

lemma get_challenge_inject: "get_challenge a = get_challenge b \<Longrightarrow> a = b"
  unfolding get_challenge_def by (metis undump_dump_hex)

section \<open>Retries\<close>

lemma crypt_retry_Some:
  assumes honest: "\<And>n. n < need \<Longrightarrow> crypt n = Buffer_overflow need"
    and fits: "\<And>n. need \<le> n \<Longrightarrow> crypt n = Crypt_ok out"
  shows "crypt_retry crypt data = Some out"
proof (cases "max (ul (length data * 3)) (ul 0x100) < need")
  case True
  then show ?thesis using honest [OF True] fits [of need] by (simp add: crypt_retry_def Let_def)
next
  case False
  then have "crypt (max (ul (length data * 3)) (ul 0x100)) = Crypt_ok out"
    by (intro fits) (simp only: not_less)
  then show ?thesis by (simp add: crypt_retry_def Let_def)
qed

section \<open>A concrete library\<close>

text \<open>
  The smallest library with the promised behaviour: a key is one byte other than zero and
  its own serialisation, digests pad their input, and a signature is the key followed by
  what is signed. The examples below and in the other theories run on it.
\<close>

definition toy_import :: "byte list \<Rightarrow> byte list option" where
  "toy_import bs = (if length bs = 1 \<and> bs \<noteq> [0] then Some bs else None)"

definition toy_digest :: "nat \<Rightarrow> byte list \<Rightarrow> byte list" where
  "toy_digest n bs = take n (bs @ replicate n 0)"

definition toy_lib :: crypto_lib where
  "toy_lib = \<lparr>ecc_key_size = 1, ecc_import = toy_import, ecc_export = (\<lambda>typ k. Some k),
     ecc_key_type = (\<lambda>k. PK_PRIVATE), ansi_import = toy_import, ansi_export = Some,
     openssl_import = toy_import, openssl_export = Some,
     sha1_digest = toy_digest 20, sha256_digest = toy_digest 32, sha512_digest = toy_digest 64,
     sign_hash = (\<lambda>k h. k @ h), verify_hash = (\<lambda>sig h k. (True, if sig = k @ h then 1 else 0))\<rparr>"

lemma length_toy_digest [simp]: "length (toy_digest n bs) = n"
  by (simp add: toy_digest_def min_def)

lemma toy_lib_ok: "lib_ok toy_lib"
  by (simp add: lib_ok_def toy_lib_def image_ok_def toy_import_def)

lemma toy_key: "key_deserialize toy_lib [7] k = [7]" "key_is_valid toy_lib [7]"
  by (simp_all add: key_deserialize_def key_import_def toy_lib_def toy_import_def
      key_is_valid_def is_set_iff)

lemma toy_verify: "verify_message toy_lib [7] m (sign_message toy_lib [7] m)"
  by (simp add: verify_message_def sign_message_def toy_key)
     (simp add: toy_lib_def)

section \<open>Properties\<close>

text \<open>When the library asks for a larger buffer and then succeeds with it, encryption and
  decryption succeed with the library's result for every input, however wrong the guess for the
  buffer was.\<close>

theorem crypt_retry_delivers:
  assumes "\<And>n. n < need \<Longrightarrow> crypt n = Buffer_overflow need"
    and "\<And>n. need \<le> n \<Longrightarrow> crypt n = Crypt_ok out"
  shows "ecc_crypt crypt data = (True, out) \<and> rsa_encrypt crypt data = out"
  using crypt_retry_Some [OF assms] by (simp add: ecc_crypt_def rsa_encrypt_def bytes_or_empty_def)

theorem crypt_retry_delivers_witness:
  "ecc_crypt (\<lambda>n. if n < 300 then Buffer_overflow 300 else Crypt_ok [1]) [2] = (True, [1])"
  using crypt_retry_delivers [of 300 "\<lambda>n. if n < 300 then Buffer_overflow 300 else Crypt_ok [1]"]
  by simp

text \<open>Copy assignment of a valid key gives an equal key, but of an invalid key leaves the target
  as it was: a valid target stays valid and stays different from its source.\<close>

theorem copy_assignment:
  assumes "lib_ok L" and "key_is_valid L obj"
    and "\<And>typ. ecc_import L (key_serialize L typ obj) \<noteq> None"
    and "\<And>img. ecc_import L (key_serialize L (ecc_key_type L obj) obj) = Some img \<Longrightarrow>
        key_serialize L PK_PUBLIC img = key_serialize L PK_PUBLIC obj"
  shows "key_equals L (key_assign_copy L this obj) obj \<and>
    key_assign_copy L obj (key_new L) = obj \<and> \<not> key_equals L obj (key_new L)"
proof -
  obtain img where img: "ecc_import L (key_serialize L (ecc_key_type L obj) obj) = Some img"
    using assms(3) by blast
  then have "key_assign_copy L this obj = img"
    using assms(2) by (simp add: key_assign_copy_def key_deserialize_Some)
  moreover have "key_is_valid L img" using assms(1) img by (simp add: lib_ok_def image_valid)
  ultimately show ?thesis
    using assms(2) assms(4) [OF img] by (simp add: key_equals_def key_assign_copy_def)
qed

theorem copy_assignment_witness:
  "key_equals toy_lib (key_assign_copy toy_lib [3] [7]) [7] \<and>
    key_assign_copy toy_lib [7] (key_new toy_lib) = [7] \<and>
    \<not> key_equals toy_lib [7] (key_new toy_lib)"
proof -
  have "key_serialize toy_lib ty [7] = [7]" "ecc_import toy_lib [7] = Some [7]" for ty
    by (simp_all add: key_serialize_def bytes_or_empty_def toy_lib_def toy_import_def)
  then show ?thesis by (intro copy_assignment [OF toy_lib_ok toy_key(2)]) simp_all
qed

end
