(* ===== verification/Server.thy ===== *)
theory Server
  imports Game_Structs Network Crypto
begin

text \<open>
  The server (src/server/server.cpp, client.hpp): the table of clients keyed by address,
  the three packet handlers, the broadcast, the frame that drops silent clients, and the
  step relation of the two threads. Every access to the table happens under its mutex, so
  the network thread and the main thread interleave in whole handlers and whole frames.
  The clock, the random bytes and the crypto library are arguments; console messages and
  datagrams are recorded as effects.
\<close>

section \<open>Model\<close>

record client =
  last_packet :: int
  c_guid :: u64
  c_name :: "byte list"
  current_state :: player_state
  authentication_nonce :: "byte list"
  public_key :: "key option"
  c_state_id :: u64
  has_printed_failure :: bool

definition new_client :: client where
  "new_client = \<lparr>last_packet = 0, c_guid = 0, c_name = [], current_state = zero_state,
     authentication_nonce = [], public_key = None, c_state_id = 0, has_printed_failure = False\<rparr>"

definition is_authenticated :: "client \<Rightarrow> bool" where
  "is_authenticated c \<longleftrightarrow> public_key c \<noteq> None"

type_synonym client_map = "(address, client) umap"

datatype effect =
    Send address "byte list" "byte list"
  | Log_authenticating address u64
  | Log_failure address "byte list"
  | Log_authenticated address u64
  | Log_removing address

type_synonym outcome = "client_map \<times> effect list \<times> exn option"

definition client_at :: "address \<Rightarrow> client_map \<Rightarrow> client" where
  "client_at source clients = um_at addr_eq new_client source clients"

definition put_client :: "address \<Rightarrow> client \<Rightarrow> client_map \<Rightarrow> client_map" where
  "put_client source c clients = um_put addr_eq source c clients"

text \<open>
  \<open>send_authentication_request\<close>: \<open>rnd\<close> are the eight random bytes a new challenge is
  made of.
\<close>

definition send_authentication_request ::
    "byte list \<Rightarrow> address \<Rightarrow> client \<Rightarrow> client \<times> effect list" where
  "send_authentication_request rnd source c =
     (let (c', logs) =
        (if authentication_nonce c = []
         then (c\<lparr>authentication_nonce := get_challenge rnd\<rparr>, [Log_authenticating source (c_guid c)])
         else (c, []));
          buffer = write_string (authentication_nonce c') (write_u32 PROTOCOL []) in
      (c', logs @ [Send source (lit ''authRequest'') buffer]))"

definition send_killed_command :: "address \<Rightarrow> client \<Rightarrow> effect list" where
  "send_killed_command victim killer =
     [Send victim (lit ''killed'') (write_u64 (c_guid killer) (write_u32 PROTOCOL []))]"

text \<open>The three checks of a response against the client it names, in the code's order.\<close>

definition print_failure :: "address \<Rightarrow> string \<Rightarrow> client \<Rightarrow> client \<times> effect list" where
  "print_failure source reason c =
     (if \<not> has_printed_failure c
      then (c\<lparr>has_printed_failure := True\<rparr>, [Log_failure source (lit reason)])
      else (c, []))"

definition check_response ::
    "crypto_lib \<Rightarrow> int \<Rightarrow> address \<Rightarrow> key \<Rightarrow> byte list \<Rightarrow> client \<Rightarrow> client \<times> effect list" where
  "check_response L now source crypto_key signature c =
     (if authentication_nonce c = [] then print_failure source ''Nonce not set'' c
      else if key_get_hash L crypto_key \<noteq> c_guid c
        then print_failure source ''Key doesn't match GUID'' c
      else if \<not> verify_message L crypto_key (authentication_nonce c) signature
        then print_failure source ''Invalid signature'' c
      else (c\<lparr>public_key := Some crypto_key, last_packet := now\<rparr>,
            [Log_authenticated source (c_guid c)]))"

definition handle_authentication_response ::
    "crypto_lib \<Rightarrow> int \<Rightarrow> client_map \<Rightarrow> address \<Rightarrow> byte list \<Rightarrow> outcome" where
  "handle_authentication_response L now clients source data =
     (case read_u32 (make_deserializer data) of
        Inl e \<Rightarrow> (clients, [], Some e)
      | Inr (protocol, d1) \<Rightarrow>
          if protocol \<noteq> PROTOCOL then (clients, [], None)
          else (case read_string d1 of
            Inl e \<Rightarrow> (clients, [], Some e)
          | Inr (keydata, d2) \<Rightarrow>
              (case read_string d2 of
                 Inl e \<Rightarrow> (clients, [], Some e)
               | Inr (signature, d3) \<Rightarrow>
                   let crypto_key = key_deserialize L keydata (key_new L) in
                   if \<not> key_is_valid L crypto_key then (clients, [], None)
                   else let (c, effs) = check_response L now source crypto_key signature
                              (client_at source clients) in
                     (put_client source c clients, effs, None))))"

definition is_victim :: "u64 \<Rightarrow> address \<times> client \<Rightarrow> bool" where
  "is_victim player_guid n \<longleftrightarrow> is_authenticated (snd n) \<and> c_guid (snd n) = player_guid"

definition handle_player_kill :: "client_map \<Rightarrow> address \<Rightarrow> byte list \<Rightarrow> outcome" where
  "handle_player_kill clients source data =
     (case read_u32 (make_deserializer data) of
        Inl e \<Rightarrow> (clients, [], Some e)
      | Inr (protocol, d1) \<Rightarrow>
          if protocol \<noteq> PROTOCOL then (clients, [], None)
          else
            let killer = client_at source clients;
                clients' = put_client source killer clients in
            if \<not> is_authenticated killer then (clients', [], None)
            else (case read_u64 d1 of
                Inl e \<Rightarrow> (clients', [], Some e)
              | Inr (player_guid, d2) \<Rightarrow>
                  (case List.find (is_victim player_guid) clients' of
                     None \<Rightarrow> (clients', [], None)
                   | Some victim \<Rightarrow> (clients', send_killed_command (fst victim) killer, None))))"

definition read_player :: "deserializer \<Rightarrow> exn + (player \<times> deserializer)" where
  "read_player = read_obj player_size bytes_player"

text \<open>What a state message makes of the client it came from, before authentication.\<close>

definition update_client :: "int \<Rightarrow> player \<Rightarrow> client \<Rightarrow> client" where
  "update_client now p c = c\<lparr>last_packet := now, c_guid := guid p,
     c_name := take (strnlen (name p) name_size) (name p),
     current_state := pstate p, c_state_id := c_state_id c + 1\<rparr>"

definition handle_player_state ::
    "int \<Rightarrow> byte list \<Rightarrow> client_map \<Rightarrow> address \<Rightarrow> byte list \<Rightarrow> outcome" where
  "handle_player_state now rnd clients source data =
     (case read_u32 (make_deserializer data) of
        Inl e \<Rightarrow> (clients, [], Some e)
      | Inr (protocol, d1) \<Rightarrow>
          if protocol \<noteq> PROTOCOL then (clients, [], None)
          else (case read_player d1 of
              Inl e \<Rightarrow> (clients, [], Some e)
            | Inr (p, d2) \<Rightarrow>
                let c = update_client now p (client_at source clients);
                    (c', effs) = (if \<not> is_authenticated c
                      then send_authentication_request rnd source c else (c, [])) in
                (put_client source c' clients, effs, None)))"

text \<open>
  The entry of a client in the broadcast: the copy of the name into the 64-byte array is
  the bounded C-string copy, from the terminated \<open>name.data()\<close>.
\<close>

definition broadcast_player :: "client \<Rightarrow> exn + player" where
  "broadcast_player c =
     exn_bind (str_copy (name zero_player) name_size (c_name c @ [0])) (\<lambda>n.
       Inr \<lparr>guid = c_guid c, name = n, pstate = (current_state c)\<lparr>state_id := c_state_id c\<rparr>\<rparr>)"

fun collect_states :: "client_map \<Rightarrow> exn + player list" where
  "collect_states [] = Inr []"
| "collect_states (n # clients) =
     (if \<not> is_authenticated (snd n) then collect_states clients
      else exn_bind (broadcast_player (snd n)) (\<lambda>p.
        exn_bind (collect_states clients) (\<lambda>ps. Inr (p # ps))))"

definition states_message :: "player list \<Rightarrow> byte list" where
  "states_message states = write_vector player_bytes states (write_u32 PROTOCOL [])"

definition send_state :: "client_map \<Rightarrow> effect list \<times> exn option" where
  "send_state clients =
     (case collect_states clients of
        Inl e \<Rightarrow> ([], Some e)
      | Inr states \<Rightarrow>
          (map (\<lambda>n. Send (fst n) (lit ''states'') (states_message states))
             (filter (\<lambda>n. is_authenticated (snd n)) clients), None))"

definition timeout_ns :: int where "timeout_ns = 20 * 10 ^ 9"

fun remove_silent :: "int \<Rightarrow> client_map \<Rightarrow> client_map \<times> effect list" where
  "remove_silent now [] = ([], [])"
| "remove_silent now (n # clients) =
     (let (clients', effs) = remove_silent now clients in
      if now - last_packet (snd n) > timeout_ns then (clients', Log_removing (fst n) # effs)
      else (n # clients', effs))"

definition run_frame :: "int \<Rightarrow> client_map \<Rightarrow> outcome" where
  "run_frame now clients =
     (let (clients', effs) = remove_silent now clients; (sends, err) = send_state clients' in
      (clients', effs @ sends, err))"

text \<open>
  The callbacks the constructor registers, as steps on the table and the effects so far;
  \<open>on\<close> wraps each into an access to the locked table.
\<close>

record server_state =
  clients :: client_map
  effects :: "effect list"

definition lift_handler ::
    "(client_map \<Rightarrow> address \<Rightarrow> byte list \<Rightarrow> outcome) \<Rightarrow> server_state callback" where
  "lift_handler h source data s =
     (case h (clients s) source data of
        (cs, effs, err) \<Rightarrow> (s\<lparr>clients := cs, effects := effects s @ effs\<rparr>, err))"

definition server_callbacks ::
    "crypto_lib \<Rightarrow> int \<Rightarrow> byte list \<Rightarrow> server_state callback_map" where
  "server_callbacks L now rnd =
     manager_on (lit ''authResponse'') (lift_handler (handle_authentication_response L now))
       (manager_on (lit ''kill'') (lift_handler handle_player_kill)
         (manager_on (lit ''state'') (lift_handler (handle_player_state now rnd)) Map.empty))"

definition init_server :: server_state where
  "init_server = \<lparr>clients = [], effects = []\<rparr>"

text \<open>
  One step: a datagram is dispatched, a frame runs, or the table is rehashed. The random
  bytes a handler may draw have the length it asks for.
\<close>

inductive server_step :: "crypto_lib \<Rightarrow> server_state \<Rightarrow> server_state \<Rightarrow> bool"
  for L :: crypto_lib where
  packet: "length rnd = challenge_size \<Longrightarrow>
     handle_data (server_callbacks L now rnd) source datagram s = (s', r) \<Longrightarrow> server_step L s s'"
| frame: "run_frame now (clients s) = (cs, effs, err) \<Longrightarrow>
     server_step L s (s\<lparr>clients := cs, effects := effects s @ effs\<rparr>)"
| rehash: "mset cs = mset (clients s) \<Longrightarrow> server_step L s (s\<lparr>clients := cs\<rparr>)"

inductive server_reachable :: "crypto_lib \<Rightarrow> server_state \<Rightarrow> bool" for L :: crypto_lib where
  init: "server_reachable L init_server"
| step: "server_reachable L s \<Longrightarrow> server_step L s s' \<Longrightarrow> server_reachable L s'"

inductive_cases server_stepE: "server_step L s s'"

section \<open>The table of clients\<close>

interpretation addrs: key_equality addr_eq
  by unfold_locales (blast intro: addr_eq_sym addr_eq_trans)+

lemma client_at_put:
  "is_supported a \<Longrightarrow> client_at a (put_client a c cs) = c"
  by (simp add: client_at_def put_client_def addrs.um_at_put_same addr_eq_refl_iff)

lemma client_at_put_other:
  "\<not> addr_eq a b \<Longrightarrow> client_at b (put_client a c cs) = client_at b cs"
  by (simp add: client_at_def put_client_def um_at_def addrs.um_find_put_other)

lemma client_at_cases:
  obtains (new) "client_at a cs = new_client" "um_find addr_eq a cs = None"
  | (old) k where "(k, client_at a cs) \<in> set cs" "addr_eq k a"
proof (cases "um_find addr_eq a cs")
  case None
  then show ?thesis using new by (simp add: client_at_def um_at_def)
next
  case (Some c)
  then show ?thesis using old um_find_SomeD [OF Some] by (auto simp: client_at_def um_at_def)
qed

lemma put_client_nodes:
  "n \<in> set (put_client a c cs) \<Longrightarrow> n \<in> set cs \<or> snd n = c \<and> (fst n = a \<or> addr_eq (fst n) a)"
  unfolding put_client_def by (rule um_put_nodes)

lemma new_client_unauthenticated [simp]: "\<not> is_authenticated new_client"
  by (simp add: is_authenticated_def new_client_def)

section \<open>Client invariants\<close>

text \<open>
  A predicate on clients that the default client satisfies and every handler's update
  keeps holds of the whole table in every reachable state: the contract the invariants
  below share.
\<close>

locale client_invariant =
  fixes L :: crypto_lib and I :: "client \<Rightarrow> bool"
  assumes I_new: "I new_client"
    and I_update: "I c \<Longrightarrow> valid_player p \<Longrightarrow> I (update_client now p c)"
    and I_request: "I c \<Longrightarrow> length rnd = challenge_size \<Longrightarrow>
          I (fst (send_authentication_request rnd source c))"
    and I_response: "I c \<Longrightarrow> key_is_valid L k \<Longrightarrow>
          I (fst (check_response L now source k signature c))"
begin

definition table_ok :: "client_map \<Rightarrow> bool" where
  "table_ok cs \<longleftrightarrow> (\<forall>n \<in> set cs. I (snd n))"

lemma I_client_at: "table_ok cs \<Longrightarrow> I (client_at a cs)"
  by (cases rule: client_at_cases [of a cs]) (force simp: table_ok_def I_new)+

lemma table_put: "table_ok cs \<Longrightarrow> I c \<Longrightarrow> table_ok (put_client a c cs)"
  by (auto simp: table_ok_def dest!: put_client_nodes)

lemma table_response:
  "table_ok cs \<Longrightarrow> table_ok (fst (handle_authentication_response L now cs source data))"
  using I_response [OF I_client_at [of cs source]]
  by (auto simp: handle_authentication_response_def Let_def table_put
      split: sum.splits prod.splits if_splits) (metis fst_conv table_put)

lemma table_kill: "table_ok cs \<Longrightarrow> table_ok (fst (handle_player_kill cs source data))"
  using I_client_at [of cs source]
  by (auto simp: handle_player_kill_def Let_def table_put
      split: sum.splits prod.splits if_splits option.splits)

lemma read_player_valid: "read_player d = Inr (p, d') \<Longrightarrow> valid_player p"
  by (auto simp: read_player_def read_obj_def exn_bind_eq_Inr read_raw_def player_size_def
      split: if_splits intro!: playerc.dec_valid)

lemma table_state:
  assumes "table_ok cs" and "length rnd = challenge_size"
  shows "table_ok (fst (handle_player_state now rnd cs source data))"
proof -
  have upd: "I (update_client now p (client_at source cs))" if "valid_player p" for p
    using I_update [OF I_client_at [OF assms(1)] that] .
  show ?thesis
    using assms upd I_request [OF upd assms(2)]
    by (auto simp: handle_player_state_def Let_def dest!: read_player_valid
        split: sum.splits prod.splits if_splits intro!: table_put) (metis fst_conv)
qed

lemma table_frame: "table_ok cs \<Longrightarrow> table_ok (fst (run_frame now cs))"
proof -
  have "set (fst (remove_silent now cs)) \<subseteq> set cs"
    by (induction cs) (auto simp: Let_def split: prod.splits)
  then show "table_ok cs \<Longrightarrow> table_ok (fst (run_frame now cs))"
    by (auto simp: run_frame_def table_ok_def Let_def split: prod.splits)
qed

lemma table_dispatch:
  assumes "table_ok (clients s)" and "length rnd = challenge_size"
    and "handle_data (server_callbacks L now rnd) source datagram s = (s', r)"
  shows "table_ok (clients s')"
proof -
  have cb: "table_ok (clients (fst (cb source data s)))"
    if "server_callbacks L now rnd c = Some cb" for c cb data
    using that assms(1,2)
    by (auto simp: server_callbacks_def manager_on_def lift_handler_def
        split: if_splits prod.splits)
       (metis fst_conv table_response table_kill table_state)+
  have "table_ok (clients (fst (dispatch_command (server_callbacks L now rnd) source c data s)))"
    for c data
    using cb [of "to_lower c" _ data] assms(1)
    by (cases "server_callbacks L now rnd (to_lower c)")
       (auto simp: dispatch_command_def Let_def split: option.splits prod.splits)
  then have "table_ok (clients (fst (handle_data (server_callbacks L now rnd) source datagram s)))"
    using assms(1) by (auto simp: handle_data_def Let_def split: option.splits)
  with assms(3) show ?thesis by simp
qed

lemma step_table_ok: "server_step L s s' \<Longrightarrow> table_ok (clients s) \<Longrightarrow> table_ok (clients s')"
proof (erule server_stepE)
  fix now cs effs err
  assume "run_frame now (clients s) = (cs, effs, err)" "table_ok (clients s)"
    "s' = s\<lparr>clients := cs, effects := effects s @ effs\<rparr>"
  then show ?thesis using table_frame [of "clients s" now] by simp
next
  fix cs assume "mset cs = mset (clients s)" "table_ok (clients s)" "s' = s\<lparr>clients := cs\<rparr>"
  then show ?thesis by (simp add: table_ok_def) (metis set_mset_mset)
qed (auto intro: table_dispatch)

lemma reachable_table_ok: "server_reachable L s \<Longrightarrow> table_ok (clients s)"
  by (induction rule: server_reachable.induct) (auto simp: init_server_def table_ok_def [of "[]"]
      intro: step_table_ok)

lemma reachable_client: "server_reachable L s \<Longrightarrow> (a, c) \<in> set (clients s) \<Longrightarrow> I c"
  using reachable_table_ok [of s] by (auto simp: table_ok_def)

end

text \<open>An authenticated client proved the possession of a key for the nonce it holds.\<close>

definition auth_ok :: "crypto_lib \<Rightarrow> client \<Rightarrow> bool" where
  "auth_ok L c \<longleftrightarrow>
     (\<forall>k. public_key c = Some k \<longrightarrow>
        key_is_valid L k \<and> authentication_nonce c \<noteq> [] \<and>
        (\<exists>signature. verify_message L k (authentication_nonce c) signature))"

lemma send_request_fields:
  "fst (send_authentication_request rnd source c) =
     c\<lparr>authentication_nonce :=
         (if authentication_nonce c = [] then get_challenge rnd else authentication_nonce c)\<rparr>"
  by (simp add: send_authentication_request_def)

lemma check_response_fields:
  "public_key (fst (check_response L now source k signature c)) =
     (if authentication_nonce c \<noteq> [] \<and> key_get_hash L k = c_guid c \<and>
         verify_message L k (authentication_nonce c) signature
      then Some k else public_key c)"
  "authentication_nonce (fst (check_response L now source k signature c)) = authentication_nonce c"
  "c_guid (fst (check_response L now source k signature c)) = c_guid c"
  "c_name (fst (check_response L now source k signature c)) = c_name c"
  by (simp_all add: check_response_def print_failure_def)

lemma update_client_fields [simp]:
  "public_key (update_client now p c) = public_key c"
  "authentication_nonce (update_client now p c) = authentication_nonce c"
  "c_guid (update_client now p c) = guid p"
  "is_authenticated (update_client now p c) = is_authenticated c"
  by (simp_all add: update_client_def is_authenticated_def)

interpretation authi: client_invariant L "auth_ok L" for L
proof unfold_locales
  show "auth_ok L new_client" by (simp add: auth_ok_def new_client_def)
  show "auth_ok L (update_client now p c)" if "auth_ok L c" for now p c
    using that by (simp add: auth_ok_def)
  show "auth_ok L (fst (send_authentication_request rnd source c))" if "auth_ok L c"
    for rnd source c
    using that by (simp add: auth_ok_def send_request_fields)
  show "auth_ok L (fst (check_response L now source k signature c))"
    if "auth_ok L c" "key_is_valid L k" for now source k signature c
    using that by (auto simp: auth_ok_def check_response_fields)
qed

text \<open>A stored name fits the array it is copied to, and has no terminator inside.\<close>

definition name_ok :: "client \<Rightarrow> bool" where
  "name_ok c \<longleftrightarrow> 0 \<notin> set (c_name c) \<and> length (c_name c) \<le> name_size"

lemma take_strnlen: "take (strnlen bs n) bs = takeWhile (\<lambda>b. b \<noteq> 0) (take n bs)"
proof -
  have "take (strnlen bs n) bs = take (strnlen bs n) (take n bs)" by (simp add: min_def)
  then show ?thesis unfolding strnlen_def by (simp only: takeWhile_eq_take [symmetric])
qed

interpretation namei: client_invariant L name_ok for L
proof unfold_locales
  show "name_ok new_client" by (simp add: name_ok_def new_client_def)
  show "name_ok (update_client now p c)" for now p c
    by (auto simp: name_ok_def update_client_def take_strnlen dest: set_takeWhileD)
       (metis strnlen_def strnlen_le)
  show "name_ok (fst (send_authentication_request rnd source c))" if "name_ok c"
    for rnd source c
    using that by (simp add: name_ok_def send_request_fields)
  show "name_ok (fst (check_response L now source k signature c))" if "name_ok c"
    for now source k signature c
    using that by (simp add: name_ok_def check_response_fields)
qed

section \<open>The frame\<close>

lemma remove_silent_eq:
  "remove_silent now cs =
     (filter (\<lambda>n. now - last_packet (snd n) \<le> timeout_ns) cs,
      map (\<lambda>n. Log_removing (fst n)) (filter (\<lambda>n. now - last_packet (snd n) > timeout_ns) cs))"
  by (induction cs) (auto simp: Let_def)

text \<open>The broadcast entry of a client whose name fits: the name cut to 63 bytes and padded.\<close>

definition padded_name :: "byte list \<Rightarrow> byte list" where
  "padded_name s = take 63 s @ replicate (64 - length (take 63 s)) 0"

definition public_player :: "client \<Rightarrow> player" where
  "public_player c = \<lparr>guid = c_guid c, name = padded_name (c_name c),
     pstate = (current_state c)\<lparr>state_id := c_state_id c\<rparr>\<rparr>"

lemma length_padded_name [simp]: "length (padded_name s) = 64"
  by (simp add: padded_name_def)

lemma str_copy_name:
  assumes "0 \<notin> set s"
  shows "str_copy (name zero_player) name_size (s @ 0 # r) = Inr (padded_name s)"
proof -
  have "poke 0 (take 63 s @ [0]) (replicate 64 0) = padded_name s"
    by (simp add: poke_def padded_name_def replicate_append_same flip: replicate_Suc)
  then show ?thesis
    using str_copy_terminated [OF assms, of name_size "name zero_player" r]
    by (simp add: name_size_def zero_player_def)
qed

lemma broadcast_player_ok: "name_ok c \<Longrightarrow> broadcast_player c = Inr (public_player c)"
  by (simp add: broadcast_player_def str_copy_name name_ok_def public_player_def)

lemma valid_public_player [simp]: "valid_player (public_player c)"
  by (simp add: valid_player_def public_player_def name_size_def)

definition authenticated_clients :: "client_map \<Rightarrow> client_map" where
  "authenticated_clients cs = filter (\<lambda>n. is_authenticated (snd n)) cs"

lemma collect_states_ok:
  "(\<forall>n \<in> set cs. name_ok (snd n)) \<Longrightarrow>
     collect_states cs = Inr (map (\<lambda>n. public_player (snd n)) (authenticated_clients cs))"
  by (induction cs) (auto simp: authenticated_clients_def broadcast_player_ok)

lemma send_state_ok:
  "(\<forall>n \<in> set cs. name_ok (snd n)) \<Longrightarrow>
     send_state cs =
       (map (\<lambda>n. Send (fst n) (lit ''states'')
          (states_message (map (\<lambda>n. public_player (snd n)) (authenticated_clients cs))))
          (authenticated_clients cs), None)"
  by (simp add: send_state_def collect_states_ok authenticated_clients_def)

section \<open>Messages\<close>

lemma read_u32_message:
  assumes "length bs \<le> max_string_size - 4"
  shows "\<exists>d. read_u32 (make_deserializer (u32_bytes w @ bs)) = Inr (w, d) \<and>
    cursor_ok d \<and> remaining d = bs"
  using assms by (intro read_u32_enc) (simp_all add: max_string_size_def)

lemma handle_response_message:
  assumes "length keydata < 2 ^ 32" and "length signature < 2 ^ 32"
  shows "handle_authentication_response L now cs source
      (write_string signature (write_string keydata (write_u32 PROTOCOL []))) =
    (let k = key_deserialize L keydata (key_new L) in
     if \<not> key_is_valid L k then (cs, [], None)
     else let (c, effs) = check_response L now source k signature (client_at source cs) in
       (put_client source c cs, effs, None))"
proof -
  let ?rest = "write_string keydata [] @ write_string signature []"
  have msg: "write_string signature (write_string keydata (write_u32 PROTOCOL [])) =
      u32_bytes PROTOCOL @ ?rest"
    by (simp add: serializer_defs)
  have "length ?rest \<le> max_string_size - 4"
    using assms by (simp add: serializer_defs max_string_size_def)
  then obtain d1 where d1: "read_u32 (make_deserializer (u32_bytes PROTOCOL @ ?rest)) =
      Inr (PROTOCOL, d1)" "cursor_ok d1" "remaining d1 = ?rest"
    using read_u32_message by blast
  obtain d2 where d2: "read_string d1 = Inr (keydata, d2)" "cursor_ok d2"
      "remaining d2 = write_string signature []"
    using read_write_string [OF d1(2,3) assms(1)] by blast
  obtain d3 where "read_string d2 = Inr (signature, d3)"
    using read_write_string [of d2 signature "[]"] d2(2,3) assms(2) by auto
  with d1(1) d2(1) show ?thesis
    by (simp add: handle_authentication_response_def msg)
qed

lemma handle_state_message:
  assumes "valid_player p"
  shows "handle_player_state now rnd cs source (write_obj player_bytes p (write_u32 PROTOCOL [])) =
    (let c = update_client now p (client_at source cs);
         (c', effs) = (if \<not> is_authenticated c
            then send_authentication_request rnd source c else (c, [])) in
     (put_client source c' cs, effs, None))"
proof -
  have len: "length (player_bytes p) \<le> max_string_size - 4"
    using playerc.enc_length [OF assms] by (simp add: player_size_def max_string_size_def)
  obtain d1 where d1: "read_u32 (make_deserializer (u32_bytes PROTOCOL @ player_bytes p)) =
      Inr (PROTOCOL, d1)" "cursor_ok d1" "remaining d1 = player_bytes p"
    using read_u32_message [OF len] by blast
  obtain d2 where "read_player d1 = Inr (p, d2)"
    using playerc.read_obj_enc [OF assms d1(2), of "[]"] d1(3) by (auto simp: read_player_def)
  with d1(1) show ?thesis
    by (simp add: handle_player_state_def serializer_defs)
qed

lemma handle_kill_message:
  "handle_player_kill cs source (write_u64 g (write_u32 PROTOCOL [])) =
    (let killer = client_at source cs; cs' = put_client source killer cs in
     if \<not> is_authenticated killer then (cs', [], None)
     else (case List.find (is_victim g) cs' of
         None \<Rightarrow> (cs', [], None)
       | Some victim \<Rightarrow> (cs', send_killed_command (fst victim) killer, None)))"
proof -
  have len: "length (u64_bytes g) \<le> max_string_size - 4" by (simp add: max_string_size_def)
  obtain d1 where d1: "read_u32 (make_deserializer (u32_bytes PROTOCOL @ u64_bytes g)) =
      Inr (PROTOCOL, d1)" "cursor_ok d1" "remaining d1 = u64_bytes g"
    using read_u32_message [OF len] by blast
  obtain d2 where "read_u64 d1 = Inr (g, d2)"
    using read_u64_enc [OF d1(2), of g "[]"] d1(3) by auto
  with d1(1) show ?thesis
    by (simp add: handle_player_kill_def serializer_defs Let_def)
qed

section \<open>One packet\<close>

text \<open>The client an address has after a store: the stored one exactly for equal addresses.\<close>

lemma client_at_cong: "addr_eq a b \<Longrightarrow> client_at a cs = client_at b cs"
  using addrs.um_find_cong [of a b cs] by (simp add: client_at_def um_at_def)

lemma client_at_put_iff:
  "client_at b (put_client a c cs) = (if addr_eq a b then c else client_at b cs)"
proof (cases "addr_eq a b")
  case True
  have "client_at b (put_client a c cs) = client_at a (put_client a c cs)"
    by (rule client_at_cong [OF True, symmetric])
  with True client_at_put [of a] addr_eq_supported [OF True] show ?thesis by simp
qed (simp add: client_at_put_other)

lemma client_at_put_self: "client_at b (put_client a (client_at a cs) cs) = client_at b cs"
  by (simp add: client_at_put_iff client_at_cong)

text \<open>What the body of a response was read as.\<close>

definition response_fields :: "byte list \<Rightarrow> byte list \<Rightarrow> byte list \<Rightarrow> bool" where
  "response_fields data keydata signature \<longleftrightarrow>
     (\<exists>d1 d2 d3. read_u32 (make_deserializer data) = Inr (PROTOCOL, d1) \<and>
        read_string d1 = Inr (keydata, d2) \<and> read_string d2 = Inr (signature, d3))"

lemma response_key_change:
  assumes "public_key (client_at a (fst (handle_authentication_response L now cs source data))) \<noteq>
      public_key (client_at a cs)"
  shows "addr_eq source a \<and> (\<exists>keydata signature k. response_fields data keydata signature \<and>
      k = key_deserialize L keydata (key_new L) \<and> key_is_valid L k \<and>
      authentication_nonce (client_at source cs) \<noteq> [] \<and>
      key_get_hash L k = c_guid (client_at source cs) \<and>
      verify_message L k (authentication_nonce (client_at source cs)) signature \<and>
      public_key (client_at a (fst (handle_authentication_response L now cs source data))) = Some k)"
proof -
  obtain d1 where d1: "read_u32 (make_deserializer data) = Inr (PROTOCOL, d1)"
    using assms by (auto simp: handle_authentication_response_def split: sum.splits if_splits)
  obtain keydata d2 where d2: "read_string d1 = Inr (keydata, d2)"
    using assms d1 by (auto simp: handle_authentication_response_def split: sum.splits)
  obtain signature d3 where d3: "read_string d2 = Inr (signature, d3)"
    using assms d1 d2 by (auto simp: handle_authentication_response_def split: sum.splits)
  let ?k = "key_deserialize L keydata (key_new L)"
  let ?c = "fst (check_response L now source ?k signature (client_at source cs))"
  have valid: "key_is_valid L ?k"
    using assms d1 d2 d3 by (auto simp: handle_authentication_response_def Let_def split: if_splits)
  have res: "fst (handle_authentication_response L now cs source data) = put_client source ?c cs"
    using d1 d2 d3 valid
    by (simp add: handle_authentication_response_def Let_def prod.case_eq_if)
  with assms have a: "addr_eq source a" and pk: "public_key ?c \<noteq> public_key (client_at a cs)"
    by (auto simp: client_at_put_iff split: if_splits)
  have "client_at a cs = client_at source cs"
    by (rule client_at_cong [OF a, symmetric])
  with pk res a valid d1 d2 d3 show ?thesis
    unfolding response_fields_def
    by (auto simp: client_at_put_iff check_response_fields split: if_splits)
qed

lemma kill_clients: "client_at a (fst (handle_player_kill cs source data)) = client_at a cs"
  by (auto simp: handle_player_kill_def Let_def client_at_put_self
      split: sum.splits option.splits)

lemma state_key: "public_key (client_at a (fst (handle_player_state now rnd cs source data))) =
     public_key (client_at a cs)"
proof -
  have "client_at a cs = client_at source cs" if "addr_eq source a"
    by (rule client_at_cong [OF that, symmetric])
  then show ?thesis
    by (auto simp: handle_player_state_def Let_def client_at_put_iff prod.case_eq_if
        send_request_fields split: sum.splits)
qed

text \<open>A packet acts on the table as the handler of its command, or not at all.\<close>

lemma packet_cases:
  assumes "handle_data (server_callbacks L now rnd) source datagram s = (s', r)"
  obtains (none) "clients s' = clients s"
  | (response) c sep data where "datagram = make_packet c sep data"
      "to_lower c = lit ''authresponse''"
      "clients s' = fst (handle_authentication_response L now (clients s) source data)"
  | (kill) c sep data where "datagram = make_packet c sep data" "to_lower c = lit ''kill''"
      "clients s' = fst (handle_player_kill (clients s) source data)"
  | (state) c sep data where "datagram = make_packet c sep data" "to_lower c = lit ''state''"
      "clients s' = fst (handle_player_state now rnd (clients s) source data)"
proof (cases "handle_data (server_callbacks L now rnd) source datagram s = (s, Dropped)")
  case True
  with assms none show ?thesis by simp
next
  case False
  then obtain c sep data where d: "datagram = make_packet c sep data" "plain_command c" "is_divider sep"
    using handle_data_framed [OF False] by blast
  have low: "to_lower (lit ''authResponse'') = lit ''authresponse''"
    "to_lower (lit ''kill'') = lit ''kill''" "to_lower (lit ''state'') = lit ''state''"
    by (simp_all add: to_lower_def lit_def tolower_def is_upper_def)
  have s': "s' = fst (dispatch_command (server_callbacks L now rnd) source c data s)"
    using assms handle_data_make_packet [OF d(2,3)] d(1) by (metis fst_conv)
  have cb: "server_callbacks L now rnd (to_lower c) =
     (if to_lower c = lit ''authresponse'' then Some (lift_handler (handle_authentication_response L now))
      else if to_lower c = lit ''kill'' then Some (lift_handler handle_player_kill)
      else if to_lower c = lit ''state'' then Some (lift_handler (handle_player_state now rnd))
      else None)"
    by (simp add: server_callbacks_def manager_on_def low)
  have run: "clients (fst (dispatch_command (server_callbacks L now rnd) source c data s)) =
      fst (h (clients s) source data)"
    if "server_callbacks L now rnd (to_lower c) = Some (lift_handler h)" for h
    using that
    by (cases "h (clients s) source data")
       (auto simp: dispatch_command_def lift_handler_def split: option.splits)
  consider "to_lower c = lit ''authresponse''" | "to_lower c = lit ''kill''"
    | "to_lower c = lit ''state''" | "server_callbacks L now rnd (to_lower c) = None"
    using cb by presburger
  then show ?thesis
  proof cases
    case 1
    then show ?thesis using response [OF d(1)] run cb s' by simp
  next
    case 2
    then show ?thesis using kill [OF d(1)] run cb s' by (simp add: lit_def)
  next
    case 3
    then show ?thesis using state [OF d(1)] run cb s' by (simp add: lit_def)
  next
    case 4
    then show ?thesis using none s' by (simp add: dispatch_command_def)
  qed
qed

lemma handlers_um_ok:
  "um_ok addr_eq cs \<Longrightarrow> um_ok addr_eq (fst (handle_authentication_response L now cs source data))"
  "um_ok addr_eq cs \<Longrightarrow> um_ok addr_eq (fst (handle_player_kill cs source data))"
  "um_ok addr_eq cs \<Longrightarrow> um_ok addr_eq (fst (handle_player_state now rnd cs source data))"
  by (auto simp: handle_authentication_response_def handle_player_kill_def handle_player_state_def
      Let_def prod.case_eq_if put_client_def addrs.um_ok_put split: sum.splits option.splits)

lemma step_um_ok: "server_step L s s' \<Longrightarrow> um_ok addr_eq (clients s) \<Longrightarrow> um_ok addr_eq (clients s')"
proof (erule server_stepE)
  fix now rnd source datagram r
  assume "handle_data (server_callbacks L now rnd) source datagram s = (s', r)"
    and ok: "um_ok addr_eq (clients s)"
  then show ?thesis by (cases rule: packet_cases) (simp_all add: handlers_um_ok)
next
  fix now cs effs err
  assume "run_frame now (clients s) = (cs, effs, err)" "um_ok addr_eq (clients s)"
    "s' = s\<lparr>clients := cs, effects := effects s @ effs\<rparr>"
  then show ?thesis by (auto simp: run_frame_def remove_silent_eq Let_def split: prod.splits)
next
  fix cs assume "mset cs = mset (clients s)" "um_ok addr_eq (clients s)" "s' = s\<lparr>clients := cs\<rparr>"
  then show ?thesis using addrs.um_ok_perm [of "clients s" cs] by simp
qed

lemma server_callback_commands:
  "server_callbacks L now rnd (to_lower (lit ''authResponse'')) =
     Some (lift_handler (handle_authentication_response L now))"
  "server_callbacks L now rnd (to_lower (lit ''kill'')) = Some (lift_handler handle_player_kill)"
  "server_callbacks L now rnd (to_lower (lit ''state'')) =
     Some (lift_handler (handle_player_state now rnd))"
  by (simp_all add: server_callbacks_def manager_on_def to_lower_def lit_def tolower_def
      is_upper_def)

lemma server_commands_plain [simp]:
  "plain_command (lit ''authResponse'')" "plain_command (lit ''kill'')"
  "plain_command (lit ''state'')"
  by (simp_all add: plain_command_def lit_def is_divider_def)

lemma dispatch_handled:
  assumes "server_callbacks L now rnd (to_lower c) = Some (lift_handler h)"
    and "plain_command c" and "is_divider sep"
    and "h (clients s) source data = (cs, effs, None)"
  shows "handle_data (server_callbacks L now rnd) source (make_packet c sep data) s =
    (s\<lparr>clients := cs, effects := effects s @ effs\<rparr>, Handled)"
  using assms
  by (simp add: handle_data_make_packet dispatch_command_def lift_handler_def)

text \<open>The two packets of a client that authenticates, as the server handles them.\<close>

lemma dispatch_state_unauthenticated:
  assumes "valid_player p" and "is_divider sep"
    and "\<not> is_authenticated (client_at source (clients s))"
    and "c = update_client now p (client_at source (clients s))"
    and "nonce = (if authentication_nonce c = [] then get_challenge rnd else authentication_nonce c)"
  shows "\<exists>logs. handle_data (server_callbacks L now rnd) source
      (make_packet (lit ''state'') sep (write_obj player_bytes p (write_u32 PROTOCOL []))) s =
    (s\<lparr>clients := put_client source (c\<lparr>authentication_nonce := nonce\<rparr>) (clients s),
       effects := effects s @ logs @
         [Send source (lit ''authRequest'') (write_string nonce (write_u32 PROTOCOL []))]\<rparr>, Handled)"
proof -
  let ?logs = "if authentication_nonce c = [] then [Log_authenticating source (c_guid c)] else []"
  have "send_authentication_request rnd source c =
      (c\<lparr>authentication_nonce := nonce\<rparr>,
       ?logs @ [Send source (lit ''authRequest'') (write_string nonce (write_u32 PROTOCOL []))])"
    using assms(5) by (simp add: send_authentication_request_def)
  then have "handle_player_state now rnd (clients s) source
      (write_obj player_bytes p (write_u32 PROTOCOL [])) =
     (put_client source (c\<lparr>authentication_nonce := nonce\<rparr>) (clients s),
      ?logs @ [Send source (lit ''authRequest'') (write_string nonce (write_u32 PROTOCOL []))], None)"
    using assms(3,4) by (simp add: handle_state_message [OF assms(1)])
  from dispatch_handled [OF server_callback_commands(3) server_commands_plain(3) assms(2) this]
  show ?thesis by (intro exI [of _ ?logs])
qed

lemma dispatch_response_accepted:
  assumes "length keydata < 2 ^ 32" and "length signature < 2 ^ 32" and "is_divider sep"
    and "k = key_deserialize L keydata (key_new L)" and "c = client_at source (clients s)"
    and "authentication_nonce c \<noteq> []" and "key_get_hash L k = c_guid c"
    and "verify_message L k (authentication_nonce c) signature"
  shows "handle_data (server_callbacks L now rnd) source
      (make_packet (lit ''authResponse'') sep
        (write_string signature (write_string keydata (write_u32 PROTOCOL [])))) s =
    (s\<lparr>clients := put_client source (c\<lparr>public_key := Some k, last_packet := now\<rparr>) (clients s),
       effects := effects s @ [Log_authenticated source (c_guid c)]\<rparr>, Handled)"
proof (rule dispatch_handled [OF server_callback_commands(1) server_commands_plain(1) assms(3)])
  show "handle_authentication_response L now (clients s) source
      (write_string signature (write_string keydata (write_u32 PROTOCOL []))) =
    (put_client source (c\<lparr>public_key := Some k, last_packet := now\<rparr>) (clients s),
     [Log_authenticated source (c_guid c)], None)"
    using assms verify_message_valid [OF assms(8)]
    by (simp add: handle_response_message Let_def check_response_def)
qed

end
