(* ===== verification/Server_Properties.thy ===== *)
theory Server_Properties
  imports Server
begin

text \<open>
  The properties of the server: what authenticates a client, the invariants of its table,
  what each packet does, and the broadcast of a frame. The examples run on the concrete
  crypto library of \<open>Crypto\<close>, with one client at a fixed address.
\<close>

section \<open>An example client\<close>

definition demo_address :: address where
  "demo_address = set_ipv4 [10, 0, 0, 1] new_address"

definition demo_random :: "byte list" where
  "demo_random = replicate 8 1"

definition demo_player :: player where
  "demo_player = zero_player\<lparr>guid := key_get_hash toy_lib [7]\<rparr>"

definition demo_nonce :: "byte list" where
  "demo_nonce = get_challenge demo_random"

definition demo_response :: "byte list" where
  "demo_response = write_string (sign_message toy_lib [7] demo_nonce)
     (write_string [7] (write_u32 PROTOCOL []))"

definition demo_asked :: client where
  "demo_asked = (update_client 0 demo_player new_client)\<lparr>authentication_nonce := demo_nonce\<rparr>"

definition demo_client :: client where
  "demo_client = demo_asked\<lparr>public_key := Some [7], last_packet := 0\<rparr>"

definition demo_table :: client_map where
  "demo_table = [(demo_address, demo_client)]"

lemma demo_address_supported [simp]: "is_supported demo_address"
  by (simp add: demo_address_def is_supported_def is_ipv4_def set_ipv4_fields)

lemma demo_address_eq [simp]: "addr_eq demo_address demo_address"
  by (simp add: addr_eq_refl_iff)

lemma client_at_single [simp]: "client_at demo_address [(demo_address, c)] = c"
  by (simp add: client_at_def um_at_def um_find_Cons)

lemma put_single [simp]: "put_client demo_address c [] = [(demo_address, c)]"
  "put_client demo_address c [(demo_address, d)] = [(demo_address, c)]"
  by (simp_all add: put_client_def um_put_def um_find_def)

lemma client_at_Nil [simp]: "client_at a [] = new_client"
  by (simp add: client_at_def um_at_def um_find_def)

lemma is_divider_space [simp]: "is_divider 32"
  by (simp add: is_divider_def)

lemma demo_player_valid [simp]: "valid_player demo_player"
  by (simp add: demo_player_def valid_player_def zero_player_def name_size_def)

lemma demo_random_length [simp]: "length demo_random = challenge_size"
  by (simp add: demo_random_def challenge_size_def)

lemma demo_nonce_set [simp]: "demo_nonce \<noteq> []"
  by (simp add: demo_nonce_def get_challenge_nonempty)

text \<open>The example reaches the state with one authenticated client in two packets.\<close>

lemma demo_asked_reachable:
  "\<exists>effs. server_reachable toy_lib \<lparr>clients = [(demo_address, demo_asked)], effects = effs\<rparr>"
proof -
  obtain logs where "handle_data (server_callbacks toy_lib 0 demo_random) demo_address
      (make_packet (lit ''state'') 32 (write_obj player_bytes demo_player (write_u32 PROTOCOL [])))
      init_server = (init_server\<lparr>clients := [(demo_address, demo_asked)],
        effects := effects init_server @ logs @ [Send demo_address (lit ''authRequest'')
          (write_string demo_nonce (write_u32 PROTOCOL []))]\<rparr>, Handled)"
    using dispatch_state_unauthenticated [OF demo_player_valid is_divider_space, of demo_address
        init_server _ 0 demo_nonce demo_random toy_lib]
    by (auto simp: init_server_def demo_asked_def demo_nonce_def update_client_def
        new_client_def is_authenticated_def)
  from server_reachable.step [OF server_reachable.init
      server_step.packet [OF demo_random_length this]]
  show ?thesis by (auto simp: init_server_def)
qed

lemma toy_response_lengths: "length demo_nonce = 16"
    "length (sign_message toy_lib [7] demo_nonce) = 65"
  by (simp_all add: demo_nonce_def length_get_challenge)
     (simp add: sign_message_def toy_key sha512_compute_def hex_or_raw_def, simp add: toy_lib_def)

lemma demo_accepted:
  "handle_data (server_callbacks toy_lib 0 demo_random) demo_address
     (make_packet (lit ''authResponse'') 32 demo_response)
     \<lparr>clients = [(demo_address, demo_asked)], effects = effs\<rparr> =
   (\<lparr>clients = demo_table, effects = effs @ [Log_authenticated demo_address (c_guid demo_asked)]\<rparr>,
    Handled)"
proof -
  let ?s = "\<lparr>clients = [(demo_address, demo_asked)], effects = effs\<rparr>"
  have "authentication_nonce demo_asked = demo_nonce" "c_guid demo_asked = key_get_hash toy_lib [7]"
    by (simp_all add: demo_asked_def demo_player_def)
  then have "handle_data (server_callbacks toy_lib 0 demo_random) demo_address
      (make_packet (lit ''authResponse'') 32 demo_response) ?s =
    (?s\<lparr>clients := put_client demo_address (demo_asked\<lparr>public_key := Some [7], last_packet := 0\<rparr>)
         (clients ?s), effects := effects ?s @ [Log_authenticated demo_address (c_guid demo_asked)]\<rparr>,
     Handled)"
    unfolding demo_response_def
    using toy_response_lengths toy_verify [of demo_nonce]
    by (intro dispatch_response_accepted) (simp_all add: toy_key)
  then show ?thesis by (simp add: demo_table_def demo_client_def)
qed

lemma demo_reachable:
  "\<exists>effs. server_reachable toy_lib \<lparr>clients = demo_table, effects = effs\<rparr>"
proof -
  obtain effs where "server_reachable toy_lib \<lparr>clients = [(demo_address, demo_asked)], effects = effs\<rparr>"
    using demo_asked_reachable by blast
  from server_reachable.step [OF this server_step.packet [OF demo_random_length demo_accepted]]
  show ?thesis by blast
qed

section \<open>Authentication\<close>

text \<open>C1: a client's stored key changes only by an authResponse packet from its own endpoint
  that carries that key and a signature of the nonce the server holds for the client, with the
  hash of the key equal to the identity the client announced.\<close>

theorem authentication_needs_signature:
  assumes "handle_data (server_callbacks L now rnd) source datagram s = (s', r)"
    and "public_key (client_at a (clients s')) \<noteq> public_key (client_at a (clients s))"
  shows "\<exists>c sep data keydata signature k.
    datagram = make_packet c sep data \<and> to_lower c = lit ''authresponse'' \<and> addr_eq source a \<and>
    response_fields data keydata signature \<and>
    k = key_deserialize L keydata (key_new L) \<and> key_is_valid L k \<and>
    authentication_nonce (client_at source (clients s)) \<noteq> [] \<and>
    key_get_hash L k = c_guid (client_at source (clients s)) \<and>
    verify_message L k (authentication_nonce (client_at source (clients s))) signature \<and>
    public_key (client_at a (clients s')) = Some k"
  using assms(1)
proof (cases rule: packet_cases)
  case (response c sep data)
  then show ?thesis using response_key_change assms(2) by (metis (no_types, lifting))
next
  case (kill c sep data)
  then show ?thesis using assms(2) by (simp add: kill_clients)
next
  case (state c sep data)
  then show ?thesis using assms(2) by (simp add: state_key)
qed (use assms(2) in simp)

theorem authentication_needs_signature_witness:
  "\<exists>c sep data keydata signature k.
    make_packet (lit ''authResponse'') 32 demo_response = make_packet c sep data \<and>
    to_lower c = lit ''authresponse'' \<and> addr_eq demo_address demo_address \<and>
    response_fields data keydata signature \<and>
    k = key_deserialize toy_lib keydata (key_new toy_lib) \<and> key_is_valid toy_lib k \<and>
    authentication_nonce demo_asked \<noteq> [] \<and>
    key_get_hash toy_lib k = c_guid demo_asked \<and>
    verify_message toy_lib k (authentication_nonce demo_asked) signature \<and>
    public_key demo_client = Some k"
  using authentication_needs_signature [OF demo_accepted [of "[]"], of demo_address]
  by (simp add: demo_table_def demo_client_def) (simp add: demo_asked_def new_client_def)

text \<open>C6: in every reachable state of the server, whatever packets arrived and frames ran, an
  authenticated client holds a valid key and a nonce for which that key verified a signature.\<close>

theorem reachable_authenticated:
  assumes "server_reachable L s" and "(a, c) \<in> set (clients s)" and "public_key c = Some k"
  shows "key_is_valid L k \<and> authentication_nonce c \<noteq> [] \<and>
    (\<exists>signature. verify_message L k (authentication_nonce c) signature)"
  using authi.reachable_client [OF assms(1,2)] assms(3) by (simp add: auth_ok_def)

theorem reachable_authenticated_witness:
  "key_is_valid toy_lib [7] \<and> authentication_nonce demo_client \<noteq> [] \<and>
    (\<exists>signature. verify_message toy_lib [7] (authentication_nonce demo_client) signature)"
proof -
  obtain effs where "server_reachable toy_lib \<lparr>clients = demo_table, effects = effs\<rparr>"
    using demo_reachable by blast
  from reachable_authenticated [OF this, of demo_address demo_client "[7]"]
  show ?thesis by (simp add: demo_table_def demo_client_def)
qed

text \<open>In every reachable state no two entries of the table have equal addresses, so each
  endpoint is one client.\<close>

theorem reachable_table_unique:
  assumes "server_reachable L s"
  shows "um_ok addr_eq (clients s)"
  using assms
  by (induction rule: server_reachable.induct) (auto simp: init_server_def intro: step_um_ok)

theorem reachable_table_unique_witness:
  "um_ok addr_eq demo_table"
proof -
  obtain effs where "server_reachable toy_lib \<lparr>clients = demo_table, effects = effs\<rparr>"
    using demo_reachable by blast
  from reachable_table_unique [OF this] show ?thesis by simp
qed

text \<open>A well-formed authResponse makes an unauthenticated client authenticated exactly when
  its key imports, a nonce was sent, the key's hash is the announced identity and the signature
  verifies against the nonce.\<close>

theorem response_accepted_iff:
  assumes "lib_ok L" and "is_supported source" and "\<not> is_authenticated (client_at source cs)"
    and "length keydata < 2 ^ 32" and "length signature < 2 ^ 32"
  shows "is_authenticated (client_at source (fst (handle_authentication_response L now cs source
      (write_string signature (write_string keydata (write_u32 PROTOCOL [])))))) \<longleftrightarrow>
    (\<exists>k. ecc_import L keydata = Some k \<and> authentication_nonce (client_at source cs) \<noteq> [] \<and>
      key_get_hash L k = c_guid (client_at source cs) \<and>
      verify_message L k (authentication_nonce (client_at source cs)) signature)"
proof (cases "ecc_import L keydata")
  case None
  then show ?thesis
    using assms(3) key_deserialize_valid [OF assms(1)]
    by (simp add: handle_response_message [OF assms(4,5)] Let_def)
next
  case (Some k)
  let ?c = "client_at source cs"
  have valid: "key_is_valid L k"
    using Some key_deserialize_valid [OF assms(1)] by (metis key_deserialize_Some option.distinct(1))
  have "client_at source (fst (handle_authentication_response L now cs source
      (write_string signature (write_string keydata (write_u32 PROTOCOL []))))) =
    fst (check_response L now source k signature ?c)"
    using valid by (simp add: handle_response_message [OF assms(4,5)] Let_def
      key_deserialize_Some [OF Some] prod.case_eq_if client_at_put [OF assms(2)])
  with Some assms(3) show ?thesis
    by (simp add: is_authenticated_def check_response_fields)
qed

theorem response_accepted_iff_witness:
  "is_authenticated (client_at demo_address (fst (handle_authentication_response toy_lib 0
      [(demo_address, demo_asked)] demo_address demo_response)))"
proof -
  have un: "\<not> is_authenticated (client_at demo_address [(demo_address, demo_asked)])"
    by (simp add: demo_asked_def is_authenticated_def new_client_def)
  have "authentication_nonce demo_asked = demo_nonce" "c_guid demo_asked = key_get_hash toy_lib [7]"
    "ecc_import toy_lib [7] = Some [7]"
    by (simp_all add: demo_asked_def demo_player_def) (simp add: toy_lib_def toy_import_def)
  then show ?thesis
    unfolding demo_response_def
    by (subst response_accepted_iff [OF toy_lib_ok demo_address_supported un])
       (use toy_verify toy_response_lengths in \<open>simp_all\<close>)
qed

text \<open>A nonce that was set never changes again, so the challenge a client answers is the one
  the server first drew for it.\<close>

theorem nonce_is_stable:
  assumes "handle_data (server_callbacks L now rnd) source datagram s = (s', r)"
    and "authentication_nonce (client_at a (clients s)) \<noteq> []"
  shows "authentication_nonce (client_at a (clients s')) = authentication_nonce (client_at a (clients s))"
proof -
  have cong: "client_at a (clients s) = client_at source (clients s)" if "addr_eq source a"
    by (rule client_at_cong [OF that, symmetric])
  show ?thesis
    using assms(1)
  proof (cases rule: packet_cases)
    case (response c sep data)
    then show ?thesis
      by (auto simp: handle_authentication_response_def Let_def client_at_put_iff prod.case_eq_if
          check_response_fields cong split: sum.splits)
  next
    case (kill c sep data)
    then show ?thesis by (simp add: kill_clients)
  next
    case (state c sep data)
    then show ?thesis using assms(2)
      by (auto simp: handle_player_state_def Let_def client_at_put_iff prod.case_eq_if
          send_request_fields cong split: sum.splits)
  qed simp
qed

theorem nonce_is_stable_witness:
  "authentication_nonce demo_client = demo_nonce"
  using nonce_is_stable [OF demo_accepted [of "[]"], of demo_address]
  by (simp add: demo_table_def) (simp add: demo_asked_def)

section \<open>States\<close>

text \<open>A state packet stores the player under its sender, counts it, keeps the sender's key,
  touches no other client, and sends a challenge exactly when the sender is not authenticated.\<close>

theorem state_packet:
  assumes "valid_player p" and "is_supported source" and "length rnd = challenge_size"
  shows "case handle_player_state now rnd cs source
      (write_obj player_bytes p (write_u32 PROTOCOL [])) of (cs', effs, err) \<Rightarrow>
    (let c = client_at source cs; c' = client_at source cs' in
      err = None \<and>
      c_guid c' = guid p \<and> current_state c' = pstate p \<and> last_packet c' = now \<and>
      c_name c' = takeWhile (\<lambda>b. b \<noteq> 0) (name p) \<and>
      c_state_id c' = c_state_id c + 1 \<and> public_key c' = public_key c \<and>
      (if is_authenticated c then effs = []
       else authentication_nonce c' \<noteq> [] \<and> (\<exists>logs. effs = logs @ [Send source (lit ''authRequest'')
              (write_string (authentication_nonce c') (write_u32 PROTOCOL []))])) \<and>
      (\<forall>a. addr_eq source a \<or> client_at a cs' = client_at a cs))"
proof -
  have name: "take (strnlen (name p) name_size) (name p) = takeWhile (\<lambda>b. b \<noteq> 0) (name p)"
    using assms(1) by (simp add: take_strnlen valid_player_def)
  show ?thesis
    using get_challenge_nonempty [OF assms(3)] assms(2)
    by (auto simp: handle_state_message [OF assms(1)] Let_def client_at_put_iff addr_eq_refl_iff
        send_authentication_request_def update_client_def name is_authenticated_def)
qed

theorem state_packet_witness:
  "c_guid (client_at demo_address (fst (handle_player_state 5 demo_random demo_table demo_address
      (write_obj player_bytes demo_player (write_u32 PROTOCOL []))))) = key_get_hash toy_lib [7]"
  using state_packet [OF demo_player_valid demo_address_supported demo_random_length,
      where now = 5 and cs = demo_table]
  by (simp add: Let_def case_prod_unfold) (simp add: demo_player_def)

text \<open>C9: an authenticated client that sends a state with any other identity keeps its key and
  takes that identity, without a new challenge: authentication does not bind the identity.\<close>

theorem identity_can_be_rebound:
  assumes "valid_player p" and "is_supported source" and "public_key (client_at source cs) = Some k"
  shows "\<exists>cs'. handle_player_state now rnd cs source
      (write_obj player_bytes p (write_u32 PROTOCOL [])) = (cs', [], None) \<and>
    public_key (client_at source cs') = Some k \<and> c_guid (client_at source cs') = guid p"
  using assms by (simp add: handle_state_message Let_def is_authenticated_def client_at_put)

theorem identity_can_be_rebound_witness:
  "\<exists>cs'. handle_player_state 1 [] demo_table demo_address
      (write_obj player_bytes zero_player (write_u32 PROTOCOL [])) = (cs', [], None) \<and>
    public_key (client_at demo_address cs') = Some [7] \<and> c_guid (client_at demo_address cs') = 0"
  using identity_can_be_rebound [OF valid_zero_player demo_address_supported, of demo_table "[7]"]
  by (simp add: demo_table_def demo_client_def) (simp add: zero_player_def)

section \<open>Kills\<close>

lemma put_client_at:
  "put_client source (client_at source cs) cs =
     (if um_find addr_eq source cs = None then (source, new_client) # cs else cs)"
proof (cases "um_find addr_eq source cs")
  case None
  then show ?thesis by (simp add: put_client_def um_put_def client_at_def um_at_def)
next
  case (Some c)
  from um_replace_split [OF Some, of c] show ?thesis
    using Some by (auto simp: put_client_def um_put_def client_at_def um_at_def)
qed

lemma find_victim_at:
  "List.find (is_victim g) (put_client source (client_at source cs) cs) = List.find (is_victim g) cs"
  by (simp add: put_client_at is_victim_def)

text \<open>C12: a kill changes no client; it is delivered to one client, which is authenticated and
  has the identity it names, exactly when the killer is authenticated and there is such a client,
  and then carries the killer's identity.\<close>

theorem kill_delivery:
  "case handle_player_kill cs source (write_u64 g (write_u32 PROTOCOL [])) of (cs', effs, err) \<Rightarrow>
    err = None \<and> (\<forall>a. client_at a cs' = client_at a cs) \<and>
    (if is_authenticated (client_at source cs) \<and>
        (\<exists>v c. (v, c) \<in> set cs \<and> is_authenticated c \<and> c_guid c = g)
     then \<exists>v c. (v, c) \<in> set cs \<and> is_authenticated c \<and> c_guid c = g \<and>
       effs = [Send v (lit ''killed'')
         (write_u64 (c_guid (client_at source cs)) (write_u32 PROTOCOL []))]
     else effs = [])"
proof (cases "List.find (is_victim g) cs")
  case None
  then have "\<not> (\<exists>v c. (v, c) \<in> set cs \<and> is_authenticated c \<and> c_guid c = g)"
    by (auto simp: find_None_all is_victim_def)
  with None show ?thesis
    by (auto simp: handle_kill_message Let_def find_victim_at client_at_put_self)
next
  case (Some n)
  with find_Some_in [OF Some] show ?thesis
    by (cases n) (auto simp: handle_kill_message Let_def find_victim_at client_at_put_self
        send_killed_command_def is_victim_def)
qed

section \<open>Frames\<close>

lemma run_frame_effects:
  assumes "server_reachable L s"
    and "live = filter (\<lambda>n. now - last_packet (snd n) \<le> timeout_ns) (clients s)"
  shows "run_frame now (clients s) =
    (live,
     map (\<lambda>n. Log_removing (fst n))
       (filter (\<lambda>n. now - last_packet (snd n) > timeout_ns) (clients s)) @
     map (\<lambda>n. Send (fst n) (lit ''states'')
         (states_message (map (\<lambda>n. public_player (snd n)) (authenticated_clients live))))
       (authenticated_clients live),
     None)"
proof -
  have "name_ok (snd n)" if "n \<in> set live" for n
    using namei.reachable_client [OF assms(1), of "fst n" "snd n"] that assms(2) by simp
  then have "send_state live = (map (\<lambda>n. Send (fst n) (lit ''states'')
      (states_message (map (\<lambda>n. public_player (snd n)) (authenticated_clients live))))
      (authenticated_clients live), None)"
    by (intro send_state_ok) blast
  with assms(2) show ?thesis by (simp add: run_frame_def remove_silent_eq Let_def)
qed

text \<open>C7: in a reachable state a frame drops exactly the clients that were silent for more than
  20 seconds and sends every remaining authenticated client, and no one else, the same message
  with the states of the remaining authenticated clients; it never fails.\<close>

theorem frame_broadcast:
  assumes "server_reachable L s"
    and "live = filter (\<lambda>n. now - last_packet (snd n) \<le> timeout_ns) (clients s)"
  shows "run_frame now (clients s) =
    (live,
     map (\<lambda>n. Log_removing (fst n))
       (filter (\<lambda>n. now - last_packet (snd n) > timeout_ns) (clients s)) @
     map (\<lambda>n. Send (fst n) (lit ''states'')
         (states_message (map (\<lambda>n. public_player (snd n)) (authenticated_clients live))))
       (authenticated_clients live),
     None)"
  by (rule run_frame_effects [OF assms])

theorem frame_broadcast_witness:
  "run_frame 5 demo_table =
    (demo_table, [Send demo_address (lit ''states'') (states_message [public_player demo_client])],
     None)"
proof -
  obtain effs where r: "server_reachable toy_lib \<lparr>clients = demo_table, effects = effs\<rparr>"
    using demo_reachable by blast
  have "is_authenticated demo_client" "last_packet demo_client = 0"
    by (simp_all add: demo_client_def is_authenticated_def)
  then show ?thesis
    using frame_broadcast [OF r refl, of 5]
    by (simp add: demo_table_def authenticated_clients_def timeout_ns_def)
qed

end
