(* ===== verification/Client_Session.thy ===== *)
theory Client_Session
  imports Game_Structs Network Crypto
begin

unbundle bit_operations_syntax

text \<open>
  The client's side of the protocol (src/client/module/scripting_experiments.cpp,
  src/client/utils/identity.cpp): the messages it sends, the table of other players it
  keeps, and what it hands to the game's scripts. A script string is its array of 16-bit
  code units with the terminator. The conversions between \<open>float\<close> and \<open>double\<close> are the
  processor's and arrive as a record of two functions on their representations.
\<close>

section \<open>Identity\<close>

text \<open>
  \<open>utils::identity::get_guid\<close>: a second instance on the machine draws a random identity
  under a fixed prefix, the first one uses the hash of its key.
\<close>

definition get_guid :: "crypto_lib \<Rightarrow> bool \<Rightarrow> byte list \<Rightarrow> key \<Rightarrow> u64" where
  "get_guid L second_instance rnd own_key =
     (if second_instance then 0x110000100000000 OR ucast (get_integer rnd AND NOT 0x80000000)
      else key_get_hash L own_key)"

section \<open>Values of the scripts\<close>

record fpu =
  f2d :: "f32 \<Rightarrow> f64"
  d2f :: "f64 \<Rightarrow> f32"

type_synonym euler_angles = "f32 \<times> f32 \<times> f32"
type_synonym vector = "f32 \<times> f32 \<times> f32 \<times> f32"
type_synonym script_string = "u16 list"

record w3m_state =
  w_angles :: euler_angles
  w_position :: vector
  w_velocity :: vector
  w_speed :: f32
  w_move_type :: u32

record w3m_player =
  w_guid :: u64
  w_name :: script_string
  w_state :: "w3m_state list"

fun euler_to_vec3 :: "fpu \<Rightarrow> euler_angles \<Rightarrow> vec3_t" where
  "euler_to_vec3 F (roll, pitch, yaw) = (f2d F roll, f2d F pitch, f2d F yaw)"

fun vec3_to_euler :: "fpu \<Rightarrow> vec3_t \<Rightarrow> euler_angles" where
  "vec3_to_euler F (a, b, c) = (d2f F a, d2f F b, d2f F c)"

fun vector_to_vec4 :: "fpu \<Rightarrow> vector \<Rightarrow> vec4_t" where
  "vector_to_vec4 F (x, y, z, w) = (f2d F x, f2d F y, f2d F z, f2d F w)"

fun vec4_to_vector :: "fpu \<Rightarrow> vec4_t \<Rightarrow> vector" where
  "vec4_to_vector F (a, b, c, d) = (d2f F a, d2f F b, d2f F c, d2f F d)"

text \<open>\<open>string(str, length)\<close> fills \<open>length + 1\<close> zeroes with the widened characters.\<close>

definition script_string_of :: "byte list \<Rightarrow> script_string" where
  "script_string_of s = widen s @ [0]"

definition convert_name :: "byte list \<Rightarrow> script_string" where
  "convert_name n = script_string_of (take (strnlen n (length n)) n)"

definition string_to_bytes :: "script_string \<Rightarrow> byte list" where
  "string_to_bytes s = narrow (if s = [] then [] else take (length s - 1) s)"

definition convert_player :: "fpu \<Rightarrow> player \<Rightarrow> bool \<Rightarrow> w3m_player" where
  "convert_player F p attach_state =
     \<lparr>w_guid = guid p, w_name = convert_name (name p),
      w_state =
        (if attach_state then
           [\<lparr>w_angles = vec3_to_euler F (angles (pstate p)),
             w_position = vec4_to_vector F (position (pstate p)),
             w_velocity = vec4_to_vector F (velocity (pstate p)),
             w_speed = speed (pstate p), w_move_type = move_type (pstate p)\<rparr>]
         else [])\<rparr>"

section \<open>The table of other players\<close>

record players =
  infos :: "player list"
  state_ids :: "u64 \<rightharpoonup> u64"

definition no_players :: players where
  "no_players = \<lparr>infos = [], state_ids = Map.empty\<rparr>"

fun deliver_states :: "fpu \<Rightarrow> player list \<Rightarrow> (u64 \<rightharpoonup> u64) \<Rightarrow> w3m_player list \<times> (u64 \<rightharpoonup> u64)" where
  "deliver_states F [] ids = ([], ids)"
| "deliver_states F (info # is) ids =
     (let last_state = (case ids (guid info) of None \<Rightarrow> 0 | Some i \<Rightarrow> i);
          has_new_state = (state_id (pstate info) > last_state);
          ids' = ids(guid info \<mapsto> state_id (pstate info));
          (rest, ids'') = deliver_states F is ids' in
      (convert_player F info has_new_state # rest, ids''))"

definition get_player_states :: "fpu \<Rightarrow> players \<Rightarrow> w3m_player list \<times> players" where
  "get_player_states F g =
     (if infos g = [] then ([], g)
      else let (out, ids) = deliver_states F (infos g) (state_ids g) in
        (out, g\<lparr>state_ids := ids\<rparr>))"

definition get_player_count :: "players \<Rightarrow> nat" where
  "get_player_count g = length (infos g)"

text \<open>The loop over a received vector: own entries are skipped, the others collected.\<close>

fun collect_players :: "u64 \<Rightarrow> player list \<Rightarrow> u64 set \<times> player list \<Rightarrow> u64 set \<times> player list" where
  "collect_players own [] acc = acc"
| "collect_players own (p # ps) (guids, is) =
     (if guid p = own then collect_players own ps (guids, is)
      else collect_players own ps (insert (guid p) guids, is @ [p]))"

definition store_players :: "u64 \<Rightarrow> player list \<Rightarrow> players \<Rightarrow> players" where
  "store_players own ps g =
     (let (guids, is) = collect_players own ps ({}, []) in
      g\<lparr>infos := is, state_ids := (state_ids g) |` guids\<rparr>)"

section \<open>Messages\<close>

record session =
  g_players :: players
  player_name :: "byte list"
  outbox :: "(address \<times> byte list \<times> byte list) list"

definition send_out :: "address \<Rightarrow> string \<Rightarrow> byte list \<Rightarrow> session \<Rightarrow> session" where
  "send_out a command data s = s\<lparr>outbox := outbox s @ [(a, lit command, data)]\<rparr>"

definition own_player :: "fpu \<Rightarrow> u64 \<Rightarrow> byte list \<Rightarrow> w3m_state \<Rightarrow> exn + player" where
  "own_player F own username st =
     exn_bind (str_copy (name zero_player) name_size (username @ [0])) (\<lambda>n.
       Inr \<lparr>guid = own, name = n,
         pstate = zero_state\<lparr>angles := euler_to_vec3 F (w_angles st),
           position := vector_to_vec4 F (w_position st),
           velocity := vector_to_vec4 F (w_velocity st),
           speed := w_speed st, move_type := w_move_type st\<rparr>\<rparr>)"

definition state_message :: "player \<Rightarrow> byte list" where
  "state_message p = write_obj player_bytes p (write_u32 PROTOCOL [])"

definition store_player_state ::
    "fpu \<Rightarrow> address \<Rightarrow> u64 \<Rightarrow> w3m_state \<Rightarrow> session \<Rightarrow> session \<times> exn option" where
  "store_player_state F master own st s =
     (case own_player F own (player_name s) st of
        Inl e \<Rightarrow> (s, Some e)
      | Inr p \<Rightarrow> (send_out master ''state'' (state_message p) s, None))"

definition update_player_name :: "script_string \<Rightarrow> session \<Rightarrow> session" where
  "update_player_name wide_name s = s\<lparr>player_name := string_to_bytes wide_name\<rparr>"

definition receive_player_states :: "address \<Rightarrow> u64 \<Rightarrow> session callback" where
  "receive_player_states master own address data s =
     (if \<not> addr_eq address master then (s, None)
      else case read_u32 (make_deserializer data) of
        Inl e \<Rightarrow> (s, Some e)
      | Inr (protocol, d1) \<Rightarrow>
          if protocol \<noteq> PROTOCOL then (s, None)
          else (case read_vector player_size bytes_player d1 of
              Inl e \<Rightarrow> (s, Some e)
            | Inr (player_data, d2) \<Rightarrow>
                (s\<lparr>g_players := store_players own player_data (g_players s)\<rparr>, None)))"

definition auth_response :: "byte list \<Rightarrow> byte list \<Rightarrow> byte list" where
  "auth_response public_key signature =
     write_string signature (write_string public_key (write_u32 PROTOCOL []))"

definition receive_auth_request :: "crypto_lib \<Rightarrow> key \<Rightarrow> address \<Rightarrow> session callback" where
  "receive_auth_request L own_key master address data s =
     (if \<not> addr_eq address master then (s, None)
      else case read_u32 (make_deserializer data) of
        Inl e \<Rightarrow> (s, Some e)
      | Inr (protocol, d1) \<Rightarrow>
          if protocol \<noteq> PROTOCOL then (s, None)
          else (case read_string d1 of
              Inl e \<Rightarrow> (s, Some e)
            | Inr (nonce, d2) \<Rightarrow>
                let public_key = key_serialize L PK_PUBLIC own_key;
                    signature = sign_message L own_key nonce in
                (send_out address ''authResponse'' (auth_response public_key signature) s, None)))"

definition client_callbacks :: "crypto_lib \<Rightarrow> key \<Rightarrow> address \<Rightarrow> u64 \<Rightarrow> session callback_map" where
  "client_callbacks L own_key master own =
     manager_on (lit ''authRequest'') (receive_auth_request L own_key master)
       (manager_on (lit ''states'') (receive_player_states master own) Map.empty)"

section \<open>Movement of an agent\<close>

record moving_agent =
  m_relativeMoveSpeed :: f32
  m_moveType :: u32
  m_desiredAbsoluteSpeed :: f32
  m_gameplayRelativeMoveSpeed :: f32
  m_currentSpeedVal :: f32
  m_lastRelMovementSpeed :: f32

text \<open>The agent is \<open>None\<close> for a null handle or a handle without an object.\<close>

definition get_move_type :: "moving_agent option \<Rightarrow> u32" where
  "get_move_type agent = (case agent of None \<Rightarrow> 0 | Some a \<Rightarrow> m_moveType a)"

definition set_speed ::
    "(moving_agent \<Rightarrow> f32 \<Rightarrow> f32) \<Rightarrow> moving_agent option \<Rightarrow> f32 \<Rightarrow> moving_agent option" where
  "set_speed abs_to_rel agent abs_speed =
     (case agent of None \<Rightarrow> None
      | Some a \<Rightarrow>
          let rel_speed = abs_to_rel a abs_speed in
          Some (a\<lparr>m_desiredAbsoluteSpeed := abs_speed, m_currentSpeedVal := abs_speed,
            m_relativeMoveSpeed := rel_speed, m_lastRelMovementSpeed := rel_speed,
            m_gameplayRelativeMoveSpeed := rel_speed\<rparr>))"

section \<open>Received players\<close>

lemma collect_players_eq:
  "collect_players own ps (guids, is) =
     (guids \<union> guid ` {p \<in> set ps. guid p \<noteq> own}, is @ filter (\<lambda>p. guid p \<noteq> own) ps)"
  by (induction ps arbitrary: guids "is") auto

lemma store_players_infos:
  "infos (store_players own ps g) = filter (\<lambda>p. guid p \<noteq> own) ps"
  by (simp add: store_players_def collect_players_eq)

lemma store_players_ids:
  "state_ids (store_players own ps g) = (state_ids g) |` (guid ` {p \<in> set ps. guid p \<noteq> own})"
  by (simp add: store_players_def collect_players_eq)

text \<open>
  Every identity that has a delivered state is one of the players known: the table of ids
  does not grow with the players that left.
\<close>

definition players_ok :: "u64 \<Rightarrow> players \<Rightarrow> bool" where
  "players_ok own g \<longleftrightarrow>
     dom (state_ids g) \<subseteq> guid ` set (infos g) \<and> own \<notin> guid ` set (infos g)"

lemma players_ok_store: "players_ok own (store_players own ps g)"
  by (auto simp: players_ok_def store_players_infos store_players_ids)

lemma deliver_states_dom:
  "dom (snd (deliver_states F is ids)) = dom ids \<union> guid ` set is"
  by (induction "is" arbitrary: ids) (auto simp: Let_def prod.case_eq_if)

lemma players_ok_get: "players_ok own g \<Longrightarrow> players_ok own (snd (get_player_states F g))"
  using deliver_states_dom [of F "infos g" "state_ids g"]
  by (auto simp: players_ok_def get_player_states_def Let_def prod.case_eq_if)

definition last_id :: "(u64 \<rightharpoonup> u64) \<Rightarrow> u64 \<Rightarrow> u64" where
  "last_id ids g = (case ids g of None \<Rightarrow> 0 | Some i \<Rightarrow> i)"

lemma deliver_states_other:
  "g \<notin> guid ` set is \<Longrightarrow> snd (deliver_states F is ids) g = ids g"
  by (induction "is" arbitrary: ids) (simp_all add: Let_def prod.case_eq_if)

text \<open>With one entry per player, each is judged by the id delivered last for it.\<close>

lemma last_id_upd: "last_id (ids(h \<mapsto> i)) g = (if g = h then i else last_id ids g)"
  by (simp add: last_id_def)

lemma deliver_states_distinct:
  "distinct (map guid is) \<Longrightarrow> fst (deliver_states F is ids) =
      map (\<lambda>p. convert_player F p (state_id (pstate p) > last_id ids (guid p))) is"
proof (induction "is" arbitrary: ids)
  case (Cons p ps)
  have "guid q \<noteq> guid p" if "q \<in> set ps" for q
    using that Cons.prems by (simp add: image_iff) metis
  then show ?case
    using Cons by (simp add: Let_def prod.case_eq_if last_id_upd last_id_def [symmetric])
qed simp

lemma deliver_states_seen:
  "distinct (map guid is) \<Longrightarrow> p \<in> set is \<Longrightarrow>
     snd (deliver_states F is ids) (guid p) = Some (state_id (pstate p))"
  by (induction "is" arbitrary: ids) (auto simp: Let_def prod.case_eq_if deliver_states_other)

lemma client_message_u32:
  "length bs \<le> max_string_size - 4 \<Longrightarrow>
     \<exists>d. read_u32 (make_deserializer (u32_bytes w @ bs)) = Inr (w, d) \<and>
       cursor_ok d \<and> remaining d = bs"
  by (intro read_u32_enc) (simp_all add: max_string_size_def)

lemma receive_states_message:
  assumes "addr_eq address master" and "list_all valid_player ps" and "length ps < 2 ^ 32"
  shows "receive_player_states master own address
      (write_vector player_bytes ps (write_u32 PROTOCOL [])) s =
    (s\<lparr>g_players := store_players own ps (g_players s)\<rparr>, None)"
proof -
  let ?rest = "write_vector player_bytes ps []"
  have msg: "write_vector player_bytes ps (write_u32 PROTOCOL []) = u32_bytes PROTOCOL @ ?rest"
    by (simp add: serializer_defs)
  have "length (concat (map player_bytes ps)) = length ps * 176"
    using playerc.length_concat_enc [OF assms(2)] by (simp add: player_size_def)
  then have "length ?rest \<le> max_string_size - 4"
    using assms(3) by (simp add: serializer_defs max_string_size_def)
  then obtain d1 where d1: "read_u32 (make_deserializer (u32_bytes PROTOCOL @ ?rest)) =
      Inr (PROTOCOL, d1)" "cursor_ok d1" "remaining d1 = ?rest"
    using client_message_u32 by blast
  obtain d2 where "read_vector player_size bytes_player d1 = Inr (ps, d2)"
    using playerc.read_write_vector [OF assms(2) d1(2), of "[]"] d1(3) assms(3) by auto
  with d1(1) assms(1) show ?thesis by (simp add: receive_player_states_def msg)
qed

lemma receive_request_message:
  assumes "addr_eq address master" and "length nonce < 2 ^ 32"
  shows "receive_auth_request L own_key master address
      (write_string nonce (write_u32 PROTOCOL [])) s =
    (send_out address ''authResponse''
       (auth_response (key_serialize L PK_PUBLIC own_key) (sign_message L own_key nonce)) s, None)"
proof -
  let ?rest = "write_string nonce []"
  have msg: "write_string nonce (write_u32 PROTOCOL []) = u32_bytes PROTOCOL @ ?rest"
    by (simp add: serializer_defs)
  have "length ?rest \<le> max_string_size - 4"
    using assms(2) by (simp add: serializer_defs max_string_size_def)
  then obtain d1 where d1: "read_u32 (make_deserializer (u32_bytes PROTOCOL @ ?rest)) =
      Inr (PROTOCOL, d1)" "cursor_ok d1" "remaining d1 = ?rest"
    using client_message_u32 by blast
  obtain d2 where "read_string d1 = Inr (nonce, d2)"
    using read_write_string [OF d1(2), of nonce "[]"] d1(3) assms(2) by auto
  with d1(1) assms(1) show ?thesis by (simp add: receive_auth_request_def msg Let_def)
qed

section \<open>Properties\<close>

definition poll :: "fpu \<Rightarrow> players \<Rightarrow> players" where
  "poll F g = snd (get_player_states F g)"

text \<open>A poll hands out every known player in order, with its state attached exactly when the
  state is newer than the last one handed out for it; a second poll with nothing received in
  between attaches no state.\<close>

theorem poll_delivers_new_states:
  assumes "distinct (map guid (infos g))"
  shows "fst (get_player_states F g) =
      map (\<lambda>p. convert_player F p (state_id (pstate p) > last_id (state_ids g) (guid p))) (infos g) \<and>
    fst (get_player_states F (poll F g)) = map (\<lambda>p. convert_player F p False) (infos g)"
proof -
  have first: "fst (get_player_states F g) =
      map (\<lambda>p. convert_player F p (state_id (pstate p) > last_id (state_ids g) (guid p))) (infos g)"
    if "distinct (map guid (infos g))" for g
    using deliver_states_distinct [of "infos g" F "state_ids g"] that
    by (simp add: get_player_states_def Let_def prod.case_eq_if)
  have g': "poll F g = g\<lparr>state_ids := snd (deliver_states F (infos g) (state_ids g))\<rparr>"
    by (simp add: poll_def get_player_states_def Let_def prod.case_eq_if)
  have "last_id (state_ids (poll F g)) (guid p) = state_id (pstate p)" if "p \<in> set (infos g)" for p
    using deliver_states_seen [OF assms that, of F "state_ids g"] by (simp add: g' last_id_def)
  then show ?thesis
    using first [of g] first [of "poll F g"] assms by (simp add: g')
qed

definition raw_fpu :: fpu where
  "raw_fpu = \<lparr>f2d = (\<lambda>w. ucast w), d2f = (\<lambda>w. ucast w)\<rparr>"

theorem poll_delivers_new_states_witness:
  "fst (get_player_states raw_fpu (poll raw_fpu \<lparr>infos = [zero_player], state_ids = Map.empty\<rparr>)) =
    map (\<lambda>p. convert_player raw_fpu p False) [zero_player]"
  using poll_delivers_new_states [of "\<lparr>infos = [zero_player], state_ids = Map.empty\<rparr>" raw_fpu] by simp

text \<open>Whatever datagram a client receives, the ids it keeps stay those of known players and it
  never lists itself; a datagram that is not from the master server's endpoint changes neither the
  players nor what is sent.\<close>

theorem client_trusts_master_only:
  assumes "handle_data (client_callbacks L k master own) source datagram s = (s', r)"
    and "players_ok own (g_players s)"
  shows "players_ok own (g_players s') \<and>
    (addr_eq source master \<or> g_players s' = g_players s \<and> outbox s' = outbox s)"
proof -
  have cb: "players_ok own (g_players (fst (cb source data s))) \<and>
      (addr_eq source master \<or> fst (cb source data s) = s)"
    if "client_callbacks L k master own c = Some cb" for c cb data
    using that assms(2)
    by (auto simp: client_callbacks_def manager_on_def receive_auth_request_def
        receive_player_states_def send_out_def Let_def players_ok_store
        split: if_splits sum.splits)
  have "players_ok own (g_players (fst (dispatch_command (client_callbacks L k master own) source c data s))) \<and>
      (addr_eq source master \<or> fst (dispatch_command (client_callbacks L k master own) source c data s) = s)"
    for c data
    using cb [of "to_lower c" _ data] assms(2)
    by (cases "client_callbacks L k master own (to_lower c)")
       (auto simp: dispatch_command_def Let_def split: option.splits prod.splits)
  then have "players_ok own (g_players (fst (handle_data (client_callbacks L k master own) source datagram s))) \<and>
      (addr_eq source master \<or> fst (handle_data (client_callbacks L k master own) source datagram s) = s)"
    using assms(2) by (simp add: handle_data_def Let_def split: option.split)
  then show ?thesis using assms(1) by auto
qed

theorem client_trusts_master_only_witness:
  "players_ok 5 no_players \<and> (addr_eq new_address new_address \<or> no_players = no_players)"
proof -
  let ?s = "\<lparr>g_players = no_players, player_name = [], outbox = []\<rparr>"
  have "handle_data (client_callbacks toy_lib [7] new_address 5) new_address [] ?s = (?s, Dropped)"
    by (simp add: handle_data_def)
  moreover have "players_ok 5 no_players" by (simp add: players_ok_def no_players_def)
  ultimately show ?thesis using client_trusts_master_only [of toy_lib "[7]" new_address 5] by force
qed

end
