(* ===== verification/Agreement.thy ===== *)
theory Agreement
  imports Server_Properties Client_Session
begin

text \<open>
  The authentication protocol as a whole: the server, the clients of honest players with
  their keys, and a network that loses, repeats, reorders, invents and redirects datagrams.
  A log records, in their order, the challenges the server draws and the messages the honest
  clients sign. The network cannot do two things: make a signature that verifies under an
  honest key for a digest whose owner did not sign it, and make the server draw a challenge
  that was seen before.
\<close>

section \<open>The client's callbacks\<close>

lemma client_callback_commands:
  "client_callbacks L k master own (to_lower (lit ''authRequest'')) =
     Some (receive_auth_request L k master)"
  "client_callbacks L k master own (to_lower (lit ''states'')) =
     Some (receive_player_states master own)"
  by (simp_all add: client_callbacks_def manager_on_def to_lower_def lit_def tolower_def
      is_upper_def)

lemma client_commands_plain [simp]:
  "plain_command (lit ''authRequest'')" "plain_command (lit ''states'')"
  by (simp_all add: plain_command_def lit_def is_divider_def)

lemma client_handles_request:
  assumes "addr_eq source master" and "length nonce < 2 ^ 32" and "is_divider sep"
  shows "handle_data (client_callbacks L k master own) source
      (make_packet (lit ''authRequest'') sep (write_string nonce (write_u32 PROTOCOL []))) s =
    (send_out source ''authResponse''
       (auth_response (key_serialize L PK_PUBLIC k) (sign_message L k nonce)) s, Handled)"
  by (simp add: handle_data_make_packet [OF client_commands_plain(1) assms(3)] dispatch_command_def
      client_callback_commands(1) receive_request_message [OF assms(1,2)])

lemma client_handles_states:
  assumes "addr_eq source master" and "list_all valid_player ps" and "length ps < 2 ^ 32"
    and "is_divider sep"
  shows "handle_data (client_callbacks L k master own) source
      (make_packet (lit ''states'') sep (states_message ps)) s =
    (s\<lparr>g_players := store_players own ps (g_players s)\<rparr>, Handled)"
  by (simp add: handle_data_make_packet [OF client_commands_plain(2) assms(4)] dispatch_command_def
      client_callback_commands(2) states_message_def receive_states_message [OF assms(1-3)])

text \<open>The key the client holds, the one the server imports from it, and what signing promises.\<close>

definition key_pair :: "crypto_lib \<Rightarrow> key \<Rightarrow> key \<Rightarrow> bool" where
  "key_pair L own k \<longleftrightarrow>
     ecc_import L (key_serialize L PK_PUBLIC own) = Some k \<and>
     length (key_serialize L PK_PUBLIC own) < 2 ^ 32 \<and>
     (\<forall>m. verify_message L k m (sign_message L own m) \<and> length (sign_message L own m) < 2 ^ 32)"

section \<open>Model\<close>

datatype protocol_event = Drawn "byte list" | Signed key "byte list"

fun event_nonce :: "protocol_event \<Rightarrow> byte list" where
  "event_nonce (Drawn n) = n"
| "event_nonce (Signed k n) = n"

record system =
  server_side :: server_state
  peers :: "nat \<Rightarrow> session"
  log :: "protocol_event list"

text \<open>The public key of a private one, as the server imports it.\<close>

definition public_of :: "crypto_lib \<Rightarrow> key \<Rightarrow> key" where
  "public_of L own = key_deserialize L (key_serialize L PK_PUBLIC own) (key_new L)"

text \<open>The nonce a request asks a client to sign, by the tests of \<open>receive_auth_request\<close>.\<close>

definition asked_nonce :: "address \<Rightarrow> address \<Rightarrow> byte list \<Rightarrow> byte list option" where
  "asked_nonce master source data =
     (if \<not> addr_eq source master then None
      else case read_u32 (make_deserializer data) of
        Inl e \<Rightarrow> None
      | Inr (protocol, d1) \<Rightarrow>
          if protocol \<noteq> PROTOCOL then None
          else (case read_string d1 of Inl e \<Rightarrow> None | Inr (nonce, d2) \<Rightarrow> Some nonce))"

text \<open>The nonces a client signs when it is handed a datagram.\<close>

definition asked_by :: "address \<Rightarrow> address \<Rightarrow> byte list \<Rightarrow> byte list list" where
  "asked_by master source datagram =
     fst (handle_data (manager_on (lit ''authRequest'') (\<lambda>a data ns.
         (case asked_nonce master a data of None \<Rightarrow> ns | Some n \<Rightarrow> ns @ [n], None)) Map.empty)
       source datagram [])"

text \<open>The owner of a key has signed a message with the digest of \<open>n\<close>.\<close>

definition signed_digest :: "crypto_lib \<Rightarrow> key \<Rightarrow> byte list \<Rightarrow> protocol_event list \<Rightarrow> bool" where
  "signed_digest L k n events \<longleftrightarrow>
     (\<exists>m. Signed k m \<in> set events \<and> sha512_digest L m = sha512_digest L n)"

text \<open>A response in the datagram carries no forged signature of an honest key.\<close>

definition genuine :: "crypto_lib \<Rightarrow> (nat \<Rightarrow> key) \<Rightarrow> protocol_event list \<Rightarrow> byte list \<Rightarrow> bool" where
  "genuine L own events datagram \<longleftrightarrow>
     (\<forall>c sep data keydata signature n k.
        datagram = make_packet c sep data \<longrightarrow> to_lower c = lit ''authresponse'' \<longrightarrow>
        response_fields data keydata signature \<longrightarrow> k = key_deserialize L keydata (key_new L) \<longrightarrow>
        k \<in> range (\<lambda>i. public_of L (own i)) \<longrightarrow> verify_message L k n signature \<longrightarrow>
        signed_digest L k n events)"

inductive system_step ::
    "crypto_lib \<Rightarrow> address \<Rightarrow> (nat \<Rightarrow> key) \<Rightarrow> (nat \<Rightarrow> u64) \<Rightarrow> system \<Rightarrow> system \<Rightarrow> bool"
  for L :: crypto_lib and master :: address and own :: "nat \<Rightarrow> key" and ids :: "nat \<Rightarrow> u64" where
  serve: "length rnd = challenge_size \<Longrightarrow> get_challenge rnd \<notin> event_nonce ` set (log s) \<Longrightarrow>
     genuine L own (log s) datagram \<Longrightarrow>
     handle_data (server_callbacks L now rnd) source datagram (server_side s) = (srv, r) \<Longrightarrow>
     system_step L master own ids s
       (s\<lparr>server_side := srv, log := log s @ [Drawn (get_challenge rnd)]\<rparr>)"
| frame: "run_frame now (clients (server_side s)) = (cs, effs, err) \<Longrightarrow>
     system_step L master own ids s
       (s\<lparr>server_side := (server_side s)\<lparr>clients := cs, effects := effects (server_side s) @ effs\<rparr>\<rparr>)"
| rehash: "mset cs = mset (clients (server_side s)) \<Longrightarrow>
     system_step L master own ids s (s\<lparr>server_side := (server_side s)\<lparr>clients := cs\<rparr>\<rparr>)"
| answer: "handle_data (client_callbacks L (own i) master (ids i)) source datagram (peers s i) = (p, r) \<Longrightarrow>
     system_step L master own ids s
       (s\<lparr>peers := (peers s)(i := p),
         log := log s @ map (Signed (public_of L (own i))) (asked_by master source datagram)\<rparr>)"

inductive system_reachable ::
    "crypto_lib \<Rightarrow> address \<Rightarrow> (nat \<Rightarrow> key) \<Rightarrow> (nat \<Rightarrow> u64) \<Rightarrow> system \<Rightarrow> bool"
  for L :: crypto_lib and master :: address and own :: "nat \<Rightarrow> key" and ids :: "nat \<Rightarrow> u64" where
  start: "system_reachable L master own ids \<lparr>server_side = init_server, peers = p, log = []\<rparr>"
| step: "system_reachable L master own ids s \<Longrightarrow> system_step L master own ids s s' \<Longrightarrow>
     system_reachable L master own ids s'"

inductive_cases system_stepE: "system_step L master own ids s s'"

section \<open>What a client signs\<close>

lemma receive_auth_request_asked:
  "fst (receive_auth_request L k master source data s) =
     (case asked_nonce master source data of None \<Rightarrow> s
      | Some n \<Rightarrow> send_out source ''authResponse''
          (auth_response (key_serialize L PK_PUBLIC k) (sign_message L k n)) s)"
  by (auto simp: receive_auth_request_def asked_nonce_def Let_def split: sum.splits)

lemma fst_dispatch_command:
  "fst (dispatch_command callbacks source c data s) =
     (case callbacks (to_lower c) of None \<Rightarrow> s | Some cb \<Rightarrow> fst (cb source data s))"
  by (auto simp: dispatch_command_def Let_def split: option.splits prod.splits)

lemma client_commands:
  "client_callbacks L k master own c =
     (if c = lit ''authrequest'' then Some (receive_auth_request L k master)
      else if c = lit ''states'' then Some (receive_player_states master own) else None)"
  by (simp add: client_callbacks_def manager_on_def to_lower_def lit_def tolower_def is_upper_def)

text \<open>A client sends exactly the responses to what it was asked, each to the sender of the request.\<close>

lemma client_sends_asked:
  "outbox (fst (handle_data (client_callbacks L k master own) source datagram s)) =
     outbox s @ map (\<lambda>n. (source, lit ''authResponse'',
       auth_response (key_serialize L PK_PUBLIC k) (sign_message L k n))) (asked_by master source datagram)"
proof (cases "\<exists>c sep data. datagram = make_packet c sep data \<and> plain_command c \<and> is_divider sep")
  case False
  then have "handle_data cbs source datagram u = (u, Dropped)" for cbs :: "'a callback_map" and u
    using handle_data_framed by metis
  moreover from False have "handle_data cbs source datagram s = (s, Dropped)" for cbs
    using handle_data_framed by metis
  moreover from False have "handle_data cbs source datagram u = (u, Dropped)"
    for cbs :: "byte list list callback_map" and u
    using handle_data_framed by metis
  ultimately show ?thesis by (simp add: asked_by_def)
next
  case True
  then obtain c sep data where d: "datagram = make_packet c sep data" "plain_command c" "is_divider sep"
    by blast
  have req: "to_lower (lit ''authRequest'') = lit ''authrequest''"
    by (simp add: to_lower_def lit_def tolower_def is_upper_def)
  have other: "outbox (fst (receive_player_states master own source data s)) = outbox s"
    by (auto simp: receive_player_states_def split: sum.splits)
  show ?thesis
    unfolding d(1) asked_by_def handle_data_make_packet [OF d(2,3)] fst_dispatch_command client_commands
    by (auto simp: manager_on_def req receive_auth_request_asked send_out_def other split: option.splits)
qed

section \<open>What one datagram changes at the server\<close>

lemma packet_nonce:
  assumes "handle_data (server_callbacks L now rnd) source datagram s = (s', r)"
  shows "authentication_nonce (client_at a (clients s')) = authentication_nonce (client_at a (clients s)) \<or>
    addr_eq source a \<and> authentication_nonce (client_at a (clients s)) = [] \<and>
    authentication_nonce (client_at a (clients s')) = get_challenge rnd"
proof -
  have cong: "client_at a (clients s) = client_at source (clients s)" if "addr_eq source a"
    by (rule client_at_cong [OF that, symmetric])
  show ?thesis
    using assms
  proof (cases rule: packet_cases)
    case (response c sep data)
    then show ?thesis
      by (auto simp: handle_authentication_response_def Let_def client_at_put_iff prod.case_eq_if
          check_response_fields cong split: sum.splits)
  next
    case (kill c sep data)
    then show ?thesis by (simp add: kill_clients)
  next
    case (state c sep data)
    then show ?thesis
      by (auto simp: handle_player_state_def Let_def client_at_put_iff prod.case_eq_if
          send_request_fields cong split: sum.splits)
  qed simp
qed

lemma packet_key:
  assumes "handle_data (server_callbacks L now rnd) source datagram s = (s', r)"
    and "public_key (client_at a (clients s')) \<noteq> public_key (client_at a (clients s))"
  shows "\<exists>c sep data keydata signature k.
    datagram = make_packet c sep data \<and> to_lower c = lit ''authresponse'' \<and>
    response_fields data keydata signature \<and> k = key_deserialize L keydata (key_new L) \<and>
    public_key (client_at a (clients s')) = Some k \<and>
    authentication_nonce (client_at a (clients s)) \<noteq> [] \<and>
    verify_message L k (authentication_nonce (client_at a (clients s))) signature"
  using assms(1)
proof (cases rule: packet_cases)
  case (response c sep data)
  note change = response_key_change [OF assms(2) [unfolded response(3)]]
  then have "client_at a (clients s) = client_at source (clients s)"
    using client_at_cong by metis
  with change response show ?thesis by metis
next
  case (kill c sep data)
  then show ?thesis using assms(2) by (simp add: kill_clients)
next
  case (state c sep data)
  then show ?thesis using assms(2) by (simp add: state_key)
qed (use assms(2) in simp)

text \<open>A frame keeps the client of an endpoint or forgets it.\<close>

lemma frame_client:
  assumes "run_frame now cs = (cs', effs, err)" and "um_ok addr_eq cs"
  shows "client_at a cs' = client_at a cs \<or> client_at a cs' = new_client"
proof -
  have "cs' = filter (\<lambda>n. now - last_packet (snd n) \<le> timeout_ns) cs"
    using assms(1) by (auto simp: run_frame_def remove_silent_eq Let_def split: prod.splits)
  then show ?thesis
    using addrs.um_find_filter [OF assms(2), of a "\<lambda>n. now - last_packet (snd n) \<le> timeout_ns"]
    by (auto simp: client_at_def um_at_def)
qed

lemma rehash_client:
  assumes "mset cs' = mset cs" and "um_ok addr_eq cs"
  shows "client_at a cs' = client_at a cs"
  using addrs.um_find_perm [OF assms(1) [symmetric] assms(2)] by (simp add: client_at_def um_at_def)

section \<open>The invariant\<close>

abbreviation nonce_at :: "address \<Rightarrow> system \<Rightarrow> byte list" where
  "nonce_at a s \<equiv> authentication_nonce (client_at a (clients (server_side s)))"

abbreviation key_at :: "address \<Rightarrow> system \<Rightarrow> key option" where
  "key_at a s \<equiv> public_key (client_at a (clients (server_side s)))"

text \<open>Every challenge in the log is new there; \<open>seen\<close> is what came before.\<close>

fun fresh_log :: "byte list set \<Rightarrow> protocol_event list \<Rightarrow> bool" where
  "fresh_log seen [] \<longleftrightarrow> True"
| "fresh_log seen (Drawn n # es) \<longleftrightarrow> n \<notin> seen \<and> fresh_log (insert n seen) es"
| "fresh_log seen (Signed k n # es) \<longleftrightarrow> fresh_log (insert n seen) es"

lemma fresh_log_append [simp]:
  "fresh_log seen (es @ fs) \<longleftrightarrow> fresh_log seen es \<and> fresh_log (seen \<union> event_nonce ` set es) fs"
  by (induction seen es rule: fresh_log.induct) simp_all

lemma fresh_log_signed [simp]: "fresh_log seen (map (Signed k) ns)"
  by (induction ns arbitrary: seen) simp_all

text \<open>What the table holds is in the log, and no two endpoints have the same challenge.\<close>

definition agreed :: "crypto_lib \<Rightarrow> (nat \<Rightarrow> key) \<Rightarrow> system \<Rightarrow> bool" where
  "agreed L own s \<longleftrightarrow>
     um_ok addr_eq (clients (server_side s)) \<and> fresh_log {} (log s) \<and>
     (\<forall>a. nonce_at a s \<noteq> [] \<longrightarrow> Drawn (nonce_at a s) \<in> set (log s)) \<and>
     (\<forall>a k. key_at a s = Some k \<longrightarrow> nonce_at a s \<noteq> [] \<and>
        (k \<in> range (\<lambda>i. public_of L (own i)) \<longrightarrow> signed_digest L k (nonce_at a s) (log s))) \<and>
     (\<forall>a b. nonce_at a s \<noteq> [] \<longrightarrow> nonce_at a s = nonce_at b s \<longrightarrow> addr_eq a b)"

lemma signed_digest_append: "signed_digest L k n es \<Longrightarrow> signed_digest L k n (es @ fs)"
  by (auto simp: signed_digest_def)

text \<open>No two of the messages that occurred have the same digest.\<close>

definition no_collision :: "crypto_lib \<Rightarrow> protocol_event list \<Rightarrow> bool" where
  "no_collision L es \<longleftrightarrow> inj_on (sha512_digest L) (event_nonce ` set es)"

lemma packet_agreed:
  assumes "agreed L own s" and "length rnd = challenge_size"
    and "get_challenge rnd \<notin> event_nonce ` set (log s)" and "genuine L own (log s) datagram"
    and "handle_data (server_callbacks L now rnd) source datagram (server_side s) = (srv, r)"
  shows "agreed L own (s\<lparr>server_side := srv, log := log s @ [Drawn (get_challenge rnd)]\<rparr>)"
proof -
  let ?s = "s\<lparr>server_side := srv, log := log s @ [Drawn (get_challenge rnd)]\<rparr>"
  note nonce = packet_nonce [OF assms(5)]
  have n: "nonce_at a ?s = nonce_at a s \<or>
      addr_eq source a \<and> nonce_at a s = [] \<and> nonce_at a ?s = get_challenge rnd" for a
    using nonce [of a] by simp
  have drawn: "nonce_at a s \<noteq> get_challenge rnd" for a
    using assms(1,3) get_challenge_nonempty [OF assms(2)]
    by (metis agreed_def event_nonce.simps(1) image_eqI)
  have "um_ok addr_eq (clients srv)"
    using step_um_ok [OF server_step.packet [OF assms(2,5)]] assms(1) by (simp add: agreed_def)
  moreover have "fresh_log {} (log ?s)"
    using assms(1,3) by (simp add: agreed_def)
  moreover have "\<forall>a. nonce_at a ?s \<noteq> [] \<longrightarrow> Drawn (nonce_at a ?s) \<in> set (log ?s)"
    using assms(1) n by (simp add: agreed_def) metis
  moreover have "nonce_at a ?s \<noteq> [] \<and> (k \<in> range (\<lambda>i. public_of L (own i)) \<longrightarrow> signed_digest L k (nonce_at a ?s) (log ?s))"
    if k: "key_at a ?s = Some k" for a k
  proof (cases "key_at a ?s = key_at a s")
    case True
    then have "key_at a s = Some k" using k by simp
    then have "nonce_at a s \<noteq> [] \<and> (k \<in> range (\<lambda>i. public_of L (own i)) \<longrightarrow> signed_digest L k (nonce_at a s) (log s))"
      using assms(1) unfolding agreed_def by blast
    with n [of a] show ?thesis by (auto intro: signed_digest_append)
  next
    case False
    then obtain c sep data keydata signature k' where p: "datagram = make_packet c sep data"
        "to_lower c = lit ''authresponse''" "response_fields data keydata signature"
        "k' = key_deserialize L keydata (key_new L)" "key_at a ?s = Some k'"
        "nonce_at a s \<noteq> []" "verify_message L k' (nonce_at a s) signature"
      using packet_key [OF assms(5), of a] by auto
    then have "k' = k" "nonce_at a ?s = nonce_at a s" using k n [of a] by auto
    moreover have "signed_digest L k' (nonce_at a s) (log s)" if "k' \<in> range (\<lambda>i. public_of L (own i))"
      using assms(4) p that unfolding genuine_def by blast
    ultimately show ?thesis using p(6) by (auto intro: signed_digest_append)
  qed
  moreover have "addr_eq a b" if "nonce_at a ?s \<noteq> []" "nonce_at a ?s = nonce_at b ?s" for a b
    using that n [of a] n [of b] drawn [of a] drawn [of b] assms(1)
    by (auto simp: agreed_def dest: addr_eq_sym intro: addr_eq_trans)
  ultimately show ?thesis by (simp add: agreed_def)
qed

text \<open>A step that only forgets clients, or renames none, keeps the agreement.\<close>

lemma agreed_sub:
  assumes "agreed L own s" and "um_ok addr_eq cs"
    and "\<And>a. client_at a cs = client_at a (clients (server_side s)) \<or> client_at a cs = new_client"
  shows "agreed L own (s\<lparr>server_side := (server_side s)\<lparr>clients := cs, effects := e\<rparr>\<rparr>)"
proof -
  have new: "authentication_nonce new_client = []" "public_key new_client = None"
    by (simp_all add: new_client_def)
  let ?s = "s\<lparr>server_side := (server_side s)\<lparr>clients := cs, effects := e\<rparr>\<rparr>"
  have n: "(nonce_at a ?s = nonce_at a s \<and> key_at a ?s = key_at a s) \<or> (nonce_at a ?s = [] \<and> key_at a ?s = None)" for a
    using assms(3) [of a] new by auto
  show ?thesis
    unfolding agreed_def
    using assms(1,2) n by (simp add: agreed_def) (metis option.distinct(1))
qed

lemma reachable_agreed:
  "system_reachable L master own ids s \<Longrightarrow> agreed L own s"
proof (induction rule: system_reachable.induct)
  case (start p)
  have "authentication_nonce new_client = []" "public_key new_client = None"
    by (simp_all add: new_client_def)
  then show ?case by (simp add: agreed_def init_server_def )
next
  case (step s s')
  then have ok: "um_ok addr_eq (clients (server_side s))" by (simp add: agreed_def)
  from step.hyps(2) show ?case
  proof cases
    case (serve rnd datagram now source srv r)
    then show ?thesis using packet_agreed step.IH by metis
  next
    case (frame now cs effs err)
    have "um_ok addr_eq cs"
      using step_um_ok [OF server_step.frame [OF frame(2)] ok] by simp
    then show ?thesis
      unfolding frame(1) by (rule agreed_sub [OF step.IH]) (rule frame_client [OF frame(2) ok])
  next
    case (rehash cs)
    have "um_ok addr_eq cs"
      using addrs.um_ok_perm [OF rehash(2) [symmetric] ok] .
    then have "agreed L own (s\<lparr>server_side := (server_side s)\<lparr>clients := cs,
        effects := effects (server_side s)\<rparr>\<rparr>)"
      by (rule agreed_sub [OF step.IH]) (rule disjI1, rule rehash_client [OF rehash(2) ok])
    then show ?thesis by (simp add: rehash(1))
  next
    case (answer i source datagram p r)
    then show ?thesis using step.IH by (auto simp: agreed_def intro: signed_digest_append)
  qed
qed

section \<open>Agreement\<close>

text \<open>C2: 
  Whenever the server holds an endpoint for authenticated under the key of an honest player,
  that player has signed the challenge of just this endpoint, after the server drew it: no
  signature of an earlier run is accepted, and no signature authenticates two endpoints.
\<close>

theorem authentication_agreement:
  assumes "system_reachable L master own ids s"
    and "public_key (client_at a (clients (server_side s))) = Some (public_of L (own i))"
    and "no_collision L (log s)" and "n = authentication_nonce (client_at a (clients (server_side s)))"
  shows "\<exists>before after. log s = before @ Drawn n # after \<and> n \<notin> event_nonce ` set before \<and>
    Signed (public_of L (own i)) n \<in> set after \<and>
    (\<forall>b. authentication_nonce (client_at b (clients (server_side s))) = n \<longrightarrow> addr_eq a b)"
proof -
  note inv = reachable_agreed [OF assms(1), unfolded agreed_def]
  have n: "n \<noteq> []" and "signed_digest L (public_of L (own i)) n (log s)"
    using inv assms(2,4) by auto
  then obtain m where m: "Signed (public_of L (own i)) m \<in> set (log s)" "sha512_digest L m = sha512_digest L n"
    by (auto simp: signed_digest_def)
  from n inv assms(4) have "Drawn n \<in> set (log s)" by simp
  then have "n \<in> event_nonce ` set (log s)" "m \<in> event_nonce ` set (log s)"
    using m(1) by (metis event_nonce.simps image_eqI)+
  then have signed: "Signed (public_of L (own i)) n \<in> set (log s)"
    using m assms(3) by (auto simp: no_collision_def dest: inj_onD)
  note \<open>Drawn n \<in> set (log s)\<close>
  then obtain before after where log: "log s = before @ Drawn n # after" by (meson split_list)
  with inv have fresh: "n \<notin> event_nonce ` set before" by simp
  then have "Signed (public_of L (own i)) n \<notin> set before"
    by (metis event_nonce.simps(2) image_eqI)
  with signed log have "Signed (public_of L (own i)) n \<in> set after" by auto
  moreover have "\<forall>b. nonce_at b s = n \<longrightarrow> addr_eq a b" using inv n assms(4) by metis
  ultimately show ?thesis using log fresh by blast
qed

section \<open>The relay\<close>

lemma response_packet_data:
  assumes "make_packet (lit ''authResponse'') 32 data = make_packet c sep data'"
    and "to_lower c = lit ''authresponse''"
  shows "data' = data"
proof -
  have "length c = length (lit ''authResponse'')"
    using arg_cong [OF assms(2), of length] by (simp add: to_lower_def)
  then show ?thesis using assms(1) by (simp add: make_packet_def)
qed

lemma state_packet_is_no_response:
  assumes "make_packet (lit ''state'') 32 data = make_packet c sep data'"
  shows "to_lower c \<noteq> lit ''authresponse''"
proof
  assume low: "to_lower c = lit ''authresponse''"
  then obtain b c' where c: "c = b # c'" by (cases c) (auto simp: to_lower_def lit_def)
  with assms have "b = 115" by (simp add: make_packet_def lit_def)
  with low c show False by (simp add: to_lower_def lit_def tolower_def is_upper_def)
qed

lemma response_fields_auth_response:
  assumes "length keydata < 2 ^ 32" and "length signature < 2 ^ 32"
    and "response_fields (auth_response keydata signature) keydata' signature'"
  shows "keydata' = keydata \<and> signature' = signature"
proof -
  let ?rest = "write_string keydata [] @ write_string signature []"
  have msg: "auth_response keydata signature = u32_bytes PROTOCOL @ ?rest"
    by (simp add: serializer_defs auth_response_def)
  have "length ?rest \<le> max_string_size - 4"
    using assms by (simp add: serializer_defs max_string_size_def)
  then obtain d1 where d1: "read_u32 (make_deserializer (u32_bytes PROTOCOL @ ?rest)) =
      Inr (PROTOCOL, d1)" "cursor_ok d1" "remaining d1 = ?rest"
    using read_u32_message by blast
  obtain d2 where d2: "read_string d1 = Inr (keydata, d2)" "cursor_ok d2"
      "remaining d2 = write_string signature []"
    using read_write_string [OF d1(2,3) assms(1)] by blast
  obtain d3 where "read_string d2 = Inr (signature, d3)"
    using read_write_string [of d2 signature "[]"] d2(2,3) assms(2) by auto
  with d1(1) d2(1) assms(3) show ?thesis by (simp add: response_fields_def msg)
qed

lemma asked_nonce_request:
  assumes "addr_eq source master" and "length nonce < 2 ^ 32"
  shows "asked_nonce master source (write_string nonce (write_u32 PROTOCOL [])) = Some nonce"
proof -
  let ?rest = "write_string nonce []"
  have msg: "write_string nonce (write_u32 PROTOCOL []) = u32_bytes PROTOCOL @ ?rest"
    by (simp add: serializer_defs)
  have "length ?rest \<le> max_string_size - 4"
    using assms(2) by (simp add: serializer_defs max_string_size_def)
  then obtain d1 where d1: "read_u32 (make_deserializer (u32_bytes PROTOCOL @ ?rest)) =
      Inr (PROTOCOL, d1)" "cursor_ok d1" "remaining d1 = ?rest"
    using read_u32_message by blast
  obtain d2 where "read_string d1 = Inr (nonce, d2)"
    using read_write_string [OF d1(2), of nonce "[]"] d1(3) assms(2) by auto
  with d1(1) assms(1) show ?thesis by (simp add: asked_nonce_def msg)
qed

text \<open>The three steps of a run, from any reachable state.\<close>

lemma step_reported:
  assumes "system_reachable L master own ids s" and "valid_player p" and "is_supported a"
    and "client_at a (clients (server_side s)) = new_client"
    and "length rnd = challenge_size" and "get_challenge rnd \<notin> event_nonce ` set (log s)"
  shows "\<exists>srv. system_reachable L master own ids
      (s\<lparr>server_side := srv, log := log s @ [Drawn (get_challenge rnd)]\<rparr>) \<and>
    client_at a (clients srv) = (update_client now p new_client)\<lparr>authentication_nonce := get_challenge rnd\<rparr>"
proof -
  let ?packet = "make_packet (lit ''state'') 32 (write_obj player_bytes p (write_u32 PROTOCOL []))"
  have un: "\<not> is_authenticated (client_at a (clients (server_side s)))" using assms(4) by simp
  have n: "get_challenge rnd = (if authentication_nonce (update_client now p new_client) = [] then get_challenge rnd
      else authentication_nonce (update_client now p new_client))"
    by (simp add: new_client_def)
  obtain srv r where srv: "handle_data (server_callbacks L now rnd) a ?packet (server_side s) = (srv, r)"
    "clients srv = put_client a ((update_client now p new_client)\<lparr>authentication_nonce := get_challenge rnd\<rparr>)
       (clients (server_side s))"
    using dispatch_state_unauthenticated [OF assms(2) is_divider_space un refl n [folded assms(4)], of L]
    by (auto simp: assms(4))
  have "genuine L own (log s) ?packet"
    by (auto simp: genuine_def dest: state_packet_is_no_response)
  from system_reachable.step [OF assms(1) system_step.serve [OF assms(5,6) this srv(1)]]
  show ?thesis using srv(2) assms(3) by (auto simp: client_at_put)
qed

lemma step_answered:
  assumes "system_reachable L master own ids s" and "is_supported master" and "length n < 2 ^ 32"
  shows "system_reachable L master own ids (s\<lparr>peers := (peers s)(i := send_out master ''authResponse''
      (auth_response (key_serialize L PK_PUBLIC (own i)) (sign_message L (own i) n)) (peers s i)),
    log := log s @ [Signed (public_of L (own i)) n]\<rparr>)"
proof -
  let ?request = "make_packet (lit ''authRequest'') 32 (write_string n (write_u32 PROTOCOL []))"
  have master: "addr_eq master master" using assms(2) by (simp add: addr_eq_refl_iff)
  have "asked_by master master ?request = [n]"
    by (simp add: asked_by_def handle_data_make_packet fst_dispatch_command manager_on_def
        asked_nonce_request [OF master assms(3)])
  with system_reachable.step [OF assms(1) system_step.answer [OF
      client_handles_request [OF master assms(3) is_divider_space], where i = i and ids = ids]]
  show ?thesis by simp
qed

lemma step_accepted:
  assumes "system_reachable L master own ids s" and "key_pair L (own i) k"
    and "\<forall>n'. verify_message L k n' (sign_message L (own i) n) \<longrightarrow> sha512_digest L n = sha512_digest L n'"
    and "Signed k n \<in> set (log s)" and "c = client_at a (clients (server_side s))"
    and "authentication_nonce c = n" and "n \<noteq> []" and "key_get_hash L k = c_guid c" and "is_supported a"
    and "length rnd = challenge_size" and "get_challenge rnd \<notin> event_nonce ` set (log s)"
  shows "\<exists>srv. system_reachable L master own ids
      (s\<lparr>server_side := srv, log := log s @ [Drawn (get_challenge rnd)]\<rparr>) \<and>
    client_at a (clients srv) = c\<lparr>public_key := Some k, last_packet := now\<rparr>"
proof -
  let ?pub = "key_serialize L PK_PUBLIC (own i)" and ?sig = "sign_message L (own i) n"
  let ?packet = "make_packet (lit ''authResponse'') 32 (auth_response ?pub ?sig)"
  have pub: "k = key_deserialize L ?pub (key_new L)"
    using assms(2) by (simp add: key_pair_def key_deserialize_Some)
  obtain srv r where srv: "handle_data (server_callbacks L now rnd) a ?packet (server_side s) = (srv, r)"
    "clients srv = put_client a (c\<lparr>public_key := Some k, last_packet := now\<rparr>) (clients (server_side s))"
    using dispatch_response_accepted [OF _ _ is_divider_space pub assms(5), of ?sig now rnd] assms(2,6-8)
    by (simp add: auth_response_def key_pair_def)
  have "genuine L own (log s) ?packet"
  proof (unfold genuine_def, intro allI impI)
    fix d sep data keydata signature n' k'
    assume p: "?packet = make_packet d sep data" "to_lower d = lit ''authresponse''"
      "response_fields data keydata signature" "k' = key_deserialize L keydata (key_new L)"
      "verify_message L k' n' signature"
    have "data = auth_response ?pub ?sig" by (rule response_packet_data [OF p(1,2)])
    then have "keydata = ?pub \<and> signature = ?sig"
      using response_fields_auth_response [of ?pub ?sig keydata signature] p(3) assms(2)
      by (simp add: key_pair_def)
    with p(4,5) pub assms(3,4) show "signed_digest L k' n' (log s)" by (auto simp: signed_digest_def)
  qed
  from system_reachable.step [OF assms(1) system_step.serve [OF assms(10,11) this srv(1)]]
  show ?thesis using srv(2) assms(9) by (auto simp: client_at_put)
qed

lemma relay_run:
  assumes "key_pair L (own i) k" and "\<forall>n n'. verify_message L k n' (sign_message L (own i) n) \<longrightarrow> sha512_digest L n = sha512_digest L n'"
    and "key_get_hash L k = guid p" and "valid_player p"
    and "is_supported a" and "is_supported master"
  shows "\<exists>s response. system_reachable L master own ids s \<and>
    public_key (client_at a (clients (server_side s))) = Some k \<and>
    c_guid (client_at a (clients (server_side s))) = guid p \<and>
    outbox (peers s i) = [(master, lit ''authResponse'', response)] \<and>
    log s = [Drawn (get_challenge (replicate 8 0)), Signed k (get_challenge (replicate 8 0)),
      Drawn (get_challenge (replicate 8 1))]"
proof -
  let ?rnd = "replicate 8 0 :: byte list" and ?rnd2 = "replicate 8 1 :: byte list"
  let ?n = "get_challenge ?rnd"
  let ?c = "(update_client 0 p new_client)\<lparr>authentication_nonce := ?n\<rparr>"
  let ?s0 = "\<lparr>server_side = init_server,
      peers = (\<lambda>_. \<lparr>g_players = no_players, player_name = [], outbox = []\<rparr>), log = []\<rparr>"
  have rnd: "length ?rnd = challenge_size" "length ?rnd2 = challenge_size" "get_challenge ?rnd2 \<noteq> ?n"
    using get_challenge_inject [of ?rnd2 ?rnd] by (auto simp: challenge_size_def)
  have pub: "public_of L (own i) = k"
    using assms(1) by (simp add: public_of_def key_pair_def key_deserialize_Some)
  have len: "length ?n < 2 ^ 32" using length_get_challenge [OF rnd(1)] by simp
  have "client_at a (clients (server_side ?s0)) = new_client" by (simp add: init_server_def)
  from step_reported [OF system_reachable.start assms(4,5) this rnd(1), of L master own ids 0] obtain srv where
    asked: "system_reachable L master own ids (?s0\<lparr>server_side := srv, log := [Drawn ?n]\<rparr>)"
      "client_at a (clients srv) = ?c" by auto
  note answered = step_answered [OF asked(1) assms(6) len, where i = i]
  from step_accepted [OF answered assms(1), where n = ?n and c = ?c and a = a and rnd = ?rnd2 and now = 1] asked(2) assms(2,3,5) rnd pub
    get_challenge_nonempty [OF rnd(1)]
  show ?thesis by (auto simp: send_out_def)
qed


text \<open>C10: 
  The agreement does not name the endpoint: a signature covers neither the client's nor the
  server's address. Whoever can read the answer of an honest player can be authenticated as
  that player from any address, though the player has only ever answered the server.
\<close>

theorem relay_authenticates_any_endpoint:
  assumes "key_pair L (own i) k" and "\<forall>n n'. verify_message L k n' (sign_message L (own i) n) \<longrightarrow> sha512_digest L n = sha512_digest L n'"
    and "key_get_hash L k = guid p" and "valid_player p"
    and "is_supported a" and "is_supported master"
  shows "\<exists>s response. system_reachable L master own ids s \<and>
    public_key (client_at a (clients (server_side s))) = Some k \<and>
    c_guid (client_at a (clients (server_side s))) = guid p \<and>
    outbox (peers s i) = [(master, lit ''authResponse'', response)]"
  using relay_run [of L own i k p a master ids] assms by blast

section \<open>The examples\<close>

lemma toy_key_pair: "key_pair toy_lib [7] [7]"
proof -
  have "length (sign_message toy_lib [7] m) < 2 ^ 32" for m
    by (simp add: sign_message_def toy_key sha512_compute_def hex_or_raw_def) (simp add: toy_lib_def)
  then show ?thesis
    using toy_verify by (simp add: key_pair_def key_serialize_def bytes_or_empty_def toy_lib_def toy_import_def)
qed

lemma toy_signature_names_digest:
  "verify_message toy_lib [7] n' (sign_message toy_lib [7] n) \<Longrightarrow> sha512_digest toy_lib n = sha512_digest toy_lib n'"
  by (simp add: verify_message_def sign_message_def toy_key sha512_compute_def hex_or_raw_def) (simp add: toy_lib_def split: if_splits)

lemma demo_key_hash: "key_get_hash toy_lib [7] = guid demo_player"
  by (simp add: demo_player_def)

definition other_address :: address where
  "other_address = set_ipv4 [10, 0, 0, 2] new_address"

lemma other_address_supported: "is_supported other_address"
  by (simp add: other_address_def is_supported_def is_ipv4_def set_ipv4_fields)

theorem relay_authenticates_any_endpoint_witness:
  "\<exists>s response. system_reachable toy_lib demo_address (\<lambda>i. [7]) (\<lambda>i. 0) s \<and>
    public_key (client_at other_address (clients (server_side s))) = Some [7] \<and>
    c_guid (client_at other_address (clients (server_side s))) = guid demo_player \<and>
    outbox (peers s 0) = [(demo_address, lit ''authResponse'', response)]"
  using relay_authenticates_any_endpoint [of toy_lib "\<lambda>i. [7]" 0 "[7]" demo_player other_address demo_address "\<lambda>i. 0"]
    toy_key_pair demo_key_hash other_address_supported toy_signature_names_digest by simp

theorem authentication_agreement_witness:
  "\<exists>s n before after. system_reachable toy_lib demo_address (\<lambda>i. [7]) (\<lambda>i. 0) s \<and>
    log s = before @ Drawn n # after \<and> n \<notin> event_nonce ` set before \<and> Signed [7] n \<in> set after"
proof -
  obtain s where s: "system_reachable toy_lib demo_address (\<lambda>i. [7]) (\<lambda>i. 0) s"
      "public_key (client_at demo_address (clients (server_side s))) = Some [7]"
    and log: "log s = [Drawn (get_challenge (replicate 8 0)), Signed [7] (get_challenge (replicate 8 0)),
      Drawn (get_challenge (replicate 8 1))]"
    using relay_run [of toy_lib "\<lambda>i. [7]" 0 "[7]" demo_player demo_address demo_address "\<lambda>i. 0"]
      toy_key_pair demo_key_hash toy_signature_names_digest by auto
  have pub: "public_of toy_lib [7] = [7]"
    using toy_key_pair by (simp add: public_of_def key_pair_def key_deserialize_Some)
  have len: "length (get_challenge (replicate 8 x)) = 16" for x
    by (simp add: length_get_challenge challenge_size_def)
  have "inj_on (sha512_digest toy_lib) {n. length n = 16}"
    by (rule inj_onI) (simp add: toy_lib_def toy_digest_def)
  then have "no_collision toy_lib (log s)"
    unfolding no_collision_def by (rule inj_on_subset) (auto simp: log len)
  from authentication_agreement [where i = 0, OF s(1) _ this refl, of demo_address] s pub show ?thesis
    by auto
qed

end
