(* ===== verification/Script_Array.thy ===== *)
theory Script_Array
  imports W3m_Prelude
begin

text \<open>
  \<open>scripting::array\<close> (src/client/module/scripting.hpp): the array the game's scripts and the
  client share. It keeps its elements in memory of the game's allocator and builds and
  destroys them one by one. A block of memory lists its slots, \<open>None\<close> where no object lives;
  building in a slot of a live object, and freeing a block with live objects, loses objects
  (\<open>lost\<close> counts them); any other access outside the life of an object is undefined. \<open>mv\<close> is
  what remains in an object that was moved from.
\<close>

section \<open>Memory\<close>

record 'a script_heap =
  blocks :: "nat \<Rightarrow> 'a option list option"
  next_block :: nat
  refuse :: "nat \<Rightarrow> bool"
  lost :: nat

record raw_array =
  arr_values :: nat
  arr_length :: nat

definition null_array :: raw_array where
  "null_array = \<lparr>arr_values = 0, arr_length = 0\<rparr>"

text \<open>The allocator of the game gives a fresh block or refuses with a null pointer.\<close>

definition allocate_memory :: "nat \<Rightarrow> 'a script_heap \<Rightarrow> nat \<times> 'a script_heap" where
  "allocate_memory count h =
     (let n = next_block h; h' = h\<lparr>next_block := Suc n\<rparr> in
      if refuse h n then (0, h')
      else (n, h'\<lparr>blocks := (blocks h)(n \<mapsto> replicate count None)\<rparr>))"

definition live_objects :: "'a option list \<Rightarrow> nat" where
  "live_objects b = length (filter (\<lambda>o'. o' \<noteq> None) b)"

definition free_memory :: "nat \<Rightarrow> 'a script_heap \<Rightarrow> exn + 'a script_heap" where
  "free_memory p h =
     (if p = 0 then Inr h
      else case blocks h p of
        None \<Rightarrow> Inl Undefined_behaviour
      | Some b \<Rightarrow> Inr (h\<lparr>blocks := (blocks h)(p := None), lost := lost h + live_objects b\<rparr>))"

definition get_object :: "nat \<Rightarrow> nat \<Rightarrow> 'a script_heap \<Rightarrow> exn + 'a" where
  "get_object p i h =
     (case blocks h p of
        None \<Rightarrow> Inl Undefined_behaviour
      | Some b \<Rightarrow> if i < length b then (case b ! i of None \<Rightarrow> Inl Undefined_behaviour | Some x \<Rightarrow> Inr x)
                 else Inl Undefined_behaviour)"

definition put_slot :: "nat \<Rightarrow> nat \<Rightarrow> 'a option \<Rightarrow> 'a script_heap \<Rightarrow> 'a script_heap" where
  "put_slot p i v h =
     (case blocks h p of None \<Rightarrow> h | Some b \<Rightarrow> h\<lparr>blocks := (blocks h)(p \<mapsto> b[i := v])\<rparr>)"

definition assign_object :: "nat \<Rightarrow> nat \<Rightarrow> 'a \<Rightarrow> 'a script_heap \<Rightarrow> exn + 'a script_heap" where
  "assign_object p i x h = exn_bind (get_object p i h) (\<lambda>y. Inr (put_slot p i (Some x) h))"

definition destroy_object :: "nat \<Rightarrow> nat \<Rightarrow> 'a script_heap \<Rightarrow> exn + 'a script_heap" where
  "destroy_object p i h = exn_bind (get_object p i h) (\<lambda>y. Inr (put_slot p i None h))"

definition construct_object :: "nat \<Rightarrow> nat \<Rightarrow> 'a \<Rightarrow> 'a script_heap \<Rightarrow> exn + 'a script_heap" where
  "construct_object p i x h =
     (case blocks h p of
        None \<Rightarrow> Inl Undefined_behaviour
      | Some b \<Rightarrow>
          if i < length b
          then Inr ((put_slot p i (Some x) h)\<lparr>lost := lost h + (if b ! i = None then 0 else 1)\<rparr>)
          else Inl Undefined_behaviour)"

section \<open>The array\<close>

definition allocate_uninitialized :: "nat \<Rightarrow> 'a script_heap \<Rightarrow> exn + raw_array \<times> 'a script_heap" where
  "allocate_uninitialized count h =
     (if count mod 2 ^ 32 \<noteq> count then Inl (Runtime_error (lit ''Too many items''))
      else let (p, h') = allocate_memory count h in Inr (\<lparr>arr_values = p, arr_length = count\<rparr>, h'))"

definition array_at :: "raw_array \<Rightarrow> nat \<Rightarrow> 'a script_heap \<Rightarrow> exn + 'a" where
  "array_at a i h =
     (if arr_length a \<le> i then Inl (Runtime_error (lit ''Invalid array index''))
      else get_object (arr_values a) i h)"

definition array_set :: "raw_array \<Rightarrow> nat \<Rightarrow> 'a \<Rightarrow> 'a script_heap \<Rightarrow> exn + 'a script_heap" where
  "array_set a i x h =
     (if arr_length a \<le> i then Inl (Runtime_error (lit ''Invalid array index''))
      else assign_object (arr_values a) i x h)"

text \<open>\<open>std::move\<close> out of an element: the value, and the element as moving leaves it.\<close>

definition move_out :: "('a \<Rightarrow> 'a) \<Rightarrow> raw_array \<Rightarrow> nat \<Rightarrow> 'a script_heap \<Rightarrow> exn + 'a \<times> 'a script_heap" where
  "move_out mv a i h = exn_bind (array_at a i h) (\<lambda>x.
     exn_bind (array_set a i (mv x) h) (\<lambda>h'. Inr (x, h')))"

definition pop_back ::
    "('a \<Rightarrow> 'a) \<Rightarrow> raw_array \<Rightarrow> 'a script_heap \<Rightarrow> exn + 'a \<times> raw_array \<times> 'a script_heap" where
  "pop_back mv a h =
     (if arr_length a = 0 then Inl (Runtime_error (lit ''Array is empty''))
      else exn_bind (move_out mv a (arr_length a - 1) h) (\<lambda>(x, h1).
        exn_bind (destroy_object (arr_values a) (arr_length a - 1) h1) (\<lambda>h2.
          Inr (x, a\<lparr>arr_length := arr_length a - 1\<rparr>, h2))))"

lemma pop_back_shorter: "pop_back mv a h = Inr (x, a', h') \<Longrightarrow> arr_length a' < arr_length a"
  by (auto simp: pop_back_def exn_bind_eq_Inr split: if_splits)

function pop_until ::
    "('a \<Rightarrow> 'a) \<Rightarrow> nat \<Rightarrow> raw_array \<Rightarrow> 'a script_heap \<Rightarrow> exn + raw_array \<times> 'a script_heap" where
  "pop_until mv count a h =
     (if count < arr_length a
      then exn_bind (pop_back mv a h) (\<lambda>r. pop_until mv count (fst (snd r)) (snd (snd r)))
      else Inr (a, h))"
  by pat_completeness auto
termination
  by (relation "measure (\<lambda>(mv, count, a, h). arr_length a)") (auto dest: pop_back_shorter)

declare pop_until.simps [simp del]

definition array_clear :: "('a \<Rightarrow> 'a) \<Rightarrow> raw_array \<Rightarrow> 'a script_heap \<Rightarrow> exn + raw_array \<times> 'a script_heap" where
  "array_clear mv a h = exn_bind (pop_until mv 0 a h) (\<lambda>(a1, h1).
     exn_bind (free_memory (arr_values a1) h1) (\<lambda>h2. Inr (null_array, h2)))"

fun move_elements ::
    "('a \<Rightarrow> 'a) \<Rightarrow> raw_array \<Rightarrow> raw_array \<Rightarrow> nat \<Rightarrow> nat \<Rightarrow> 'a script_heap \<Rightarrow> exn + 'a script_heap" where
  "move_elements mv a new i 0 h = Inr h"
| "move_elements mv a new i (Suc n) h =
     exn_bind (move_out mv a i h) (\<lambda>(x, h1).
       exn_bind (construct_object (arr_values new) i x h1) (\<lambda>h2. move_elements mv a new (Suc i) n h2))"

fun fill_elements :: "raw_array \<Rightarrow> 'a \<Rightarrow> nat \<Rightarrow> nat \<Rightarrow> 'a script_heap \<Rightarrow> exn + 'a script_heap" where
  "fill_elements new x i 0 h = Inr h"
| "fill_elements new x i (Suc n) h =
     exn_bind (construct_object (arr_values new) i x h) (\<lambda>h1. fill_elements new x (Suc i) n h1)"

definition array_resize ::
    "('a \<Rightarrow> 'a) \<Rightarrow> nat \<Rightarrow> 'a \<Rightarrow> raw_array \<Rightarrow> 'a script_heap \<Rightarrow> exn + raw_array \<times> 'a script_heap" where
  "array_resize mv count x a h =
     exn_bind (pop_until mv count a h) (\<lambda>(a1, h1).
       if count \<le> arr_length a1 then Inr (a1, h1)
       else let old_size = arr_length a1 in
         exn_bind (allocate_uninitialized count h1) (\<lambda>(new, h2).
           exn_bind (move_elements mv a1 new 0 old_size h2) (\<lambda>h3.
             exn_bind (fill_elements new x (old_size + 1) (count - (old_size + 1)) h3) (\<lambda>h4.
               exn_bind (construct_object (arr_values new) old_size x h4) (\<lambda>h5.
                 exn_bind (array_clear mv a1 h5) (\<lambda>(a2, h6). Inr (new, h6)))))))"

definition array_push_back ::
    "('a \<Rightarrow> 'a) \<Rightarrow> 'a \<Rightarrow> raw_array \<Rightarrow> 'a script_heap \<Rightarrow> exn + raw_array \<times> 'a script_heap" where
  "array_push_back mv x a h = array_resize mv (arr_length a + 1) x a h"

text \<open>\<open>array(data, count)\<close>, and the constructors from a span and a vector.\<close>

fun construct_all :: "raw_array \<Rightarrow> nat \<Rightarrow> 'a list \<Rightarrow> 'a script_heap \<Rightarrow> exn + 'a script_heap" where
  "construct_all new i [] h = Inr h"
| "construct_all new i (x # xs) h =
     exn_bind (construct_object (arr_values new) i x h) (\<lambda>h1. construct_all new (Suc i) xs h1)"

definition array_of_list :: "'a list \<Rightarrow> 'a script_heap \<Rightarrow> exn + raw_array \<times> 'a script_heap" where
  "array_of_list data h =
     exn_bind (allocate_uninitialized (length data) h) (\<lambda>(new, h1).
       exn_bind (construct_all new 0 data h1) (\<lambda>h2. Inr (new, h2)))"

definition array_of_count :: "('a \<Rightarrow> 'a) \<Rightarrow> nat \<Rightarrow> 'a \<Rightarrow> 'a script_heap \<Rightarrow> exn + raw_array \<times> 'a script_heap" where
  "array_of_count mv count x h = array_resize mv count x null_array h"

text \<open>The elements between \<open>begin()\<close> and \<open>end()\<close>.\<close>

fun read_elements :: "raw_array \<Rightarrow> nat \<Rightarrow> nat \<Rightarrow> 'a script_heap \<Rightarrow> exn + 'a list" where
  "read_elements a i 0 h = Inr []"
| "read_elements a i (Suc n) h =
     exn_bind (get_object (arr_values a) i h) (\<lambda>x.
       exn_bind (read_elements a (Suc i) n h) (\<lambda>xs. Inr (x # xs)))"

definition to_vector :: "raw_array \<Rightarrow> 'a script_heap \<Rightarrow> exn + 'a list" where
  "to_vector a h = read_elements a 0 (arr_length a) h"

text \<open>Assignment to another object: the target, the source, and the memory afterwards.\<close>

definition array_move_assign ::
    "('a \<Rightarrow> 'a) \<Rightarrow> raw_array \<Rightarrow> raw_array \<Rightarrow> 'a script_heap \<Rightarrow> exn + raw_array \<times> raw_array \<times> 'a script_heap" where
  "array_move_assign mv this obj h = exn_bind (array_clear mv this h) (\<lambda>(a, h1). Inr (obj, null_array, h1))"

definition array_copy_assign ::
    "('a \<Rightarrow> 'a) \<Rightarrow> raw_array \<Rightarrow> raw_array \<Rightarrow> 'a script_heap \<Rightarrow> exn + raw_array \<times> 'a script_heap" where
  "array_copy_assign mv this obj h =
     exn_bind (to_vector obj h) (\<lambda>xs. exn_bind (array_of_list xs h) (\<lambda>(tmp, h1).
       exn_bind (array_move_assign mv this tmp h1) (\<lambda>(a, rest, h2). Inr (a, h2))))"

fun move_all :: "('a \<Rightarrow> 'a) \<Rightarrow> raw_array \<Rightarrow> nat \<Rightarrow> nat \<Rightarrow> 'a script_heap \<Rightarrow> exn + 'a list \<times> 'a script_heap" where
  "move_all mv a i 0 h = Inr ([], h)"
| "move_all mv a i (Suc n) h =
     exn_bind (move_out mv a i h) (\<lambda>(x, h1).
       exn_bind (move_all mv a (Suc i) n h1) (\<lambda>(xs, h2). Inr (x # xs, h2)))"

definition move_to_vector ::
    "('a \<Rightarrow> 'a) \<Rightarrow> raw_array \<Rightarrow> 'a script_heap \<Rightarrow> exn + 'a list \<times> raw_array \<times> 'a script_heap" where
  "move_to_vector mv a h =
     exn_bind (move_all mv a 0 (arr_length a) h) (\<lambda>(xs, h1).
       exn_bind (array_clear mv a h1) (\<lambda>(a', h2). Inr (xs, a', h2)))"

section \<open>The abstract list\<close>

text \<open>
  \<open>holds h a xs\<close>: the array stands for the list \<open>xs\<close>: its elements are alive at the start of
  its block, and nothing lives in the rest of the block.
\<close>

definition block_of :: "'a list \<Rightarrow> nat \<Rightarrow> 'a option list" where
  "block_of xs k = map Some xs @ replicate k None"

definition holds :: "'a script_heap \<Rightarrow> raw_array \<Rightarrow> 'a list \<Rightarrow> bool" where
  "holds h a xs \<longleftrightarrow> arr_length a = length xs \<and>
     (if arr_values a = 0 then xs = [] else \<exists>k. blocks h (arr_values a) = Some (block_of xs k))"

definition heap_ok :: "'a script_heap \<Rightarrow> bool" where
  "heap_ok h \<longleftrightarrow> 0 < next_block h \<and> (\<forall>p. p = 0 \<or> next_block h \<le> p \<longrightarrow> blocks h p = None)"

text \<open>Only the block at \<open>p\<close> may have changed, and no object was lost.\<close>

definition only_block :: "nat \<Rightarrow> 'a script_heap \<Rightarrow> 'a script_heap \<Rightarrow> bool" where
  "only_block p h h' \<longleftrightarrow> lost h' = lost h \<and> next_block h' = next_block h \<and> refuse h' = refuse h \<and>
     (\<forall>q. q \<noteq> p \<longrightarrow> blocks h' q = blocks h q)"

named_theorems slot \<open>reads and writes of the slots of a block\<close>

lemma only_block_refl [simp]: "only_block p h h"
  by (simp add: only_block_def)

lemma only_block_trans: "only_block p h h1 \<Longrightarrow> only_block p h1 h2 \<Longrightarrow> only_block p h h2"
  by (simp add: only_block_def)

lemma length_block_of [slot]: "length (block_of xs k) = length xs + k"
  by (simp add: block_of_def)

lemma block_of_live [slot]: "i < length xs \<Longrightarrow> block_of xs k ! i = Some (xs ! i)"
  by (simp add: block_of_def nth_append)

lemma block_of_dead [slot]: "length xs \<le> i \<Longrightarrow> i < length xs + k \<Longrightarrow> block_of xs k ! i = None"
  by (simp add: block_of_def nth_append)

lemma block_of_update [slot]: "i < length xs \<Longrightarrow> (block_of xs k)[i := Some x] = block_of (xs[i := x]) k"
  by (simp add: block_of_def list_update_append map_update)

lemma block_of_extend [slot]: "0 < k \<Longrightarrow> (block_of xs k)[length xs := Some x] = block_of (xs @ [x]) (k - 1)"
  by (cases k) (simp_all add: block_of_def list_update_append)

lemma block_of_shrink [slot]: "(block_of (xs @ [x]) k)[length xs := None] = block_of xs (Suc k)"
  by (simp add: block_of_def list_update_append)

lemma live_block_of [slot]: "live_objects (block_of xs k) = length xs"
  by (simp add: live_objects_def block_of_def filter_map o_def)

lemma blocks_put_slot [simp]:
  "blocks h p = Some b \<Longrightarrow> blocks (put_slot p i v h) = (blocks h)(p \<mapsto> b[i := v])"
  "lost (put_slot p i v h) = lost h" "next_block (put_slot p i v h) = next_block h"
  "refuse (put_slot p i v h) = refuse h"
  by (simp_all add: put_slot_def split: option.splits)

lemma only_block_put_slot [simp]: "only_block p h (put_slot p i v h)"
  by (auto simp: only_block_def put_slot_def split: option.splits)

lemma get_object_block:
  "blocks h p = Some (block_of xs k) \<Longrightarrow> i < length xs \<Longrightarrow> get_object p i h = Inr (xs ! i)"
  by (simp add: get_object_def slot)

lemma array_at_holds: "holds h a xs \<Longrightarrow> i < length xs \<Longrightarrow> array_at a i h = Inr (xs ! i)"
  by (auto simp: holds_def array_at_def get_object_block split: if_splits)

lemma move_out_holds:
  assumes "holds h a xs" and "i < length xs"
  shows "\<exists>h'. move_out mv a i h = Inr (xs ! i, h') \<and> holds h' a (xs[i := mv (xs ! i)]) \<and>
    only_block (arr_values a) h h'"
proof -
  from assms obtain k where b: "blocks h (arr_values a) = Some (block_of xs k)"
    and a: "arr_values a \<noteq> 0" "arr_length a = length xs"
    by (auto simp: holds_def split: if_splits)
  have "assign_object (arr_values a) i (mv (xs ! i)) h = Inr (put_slot (arr_values a) i (Some (mv (xs ! i))) h)"
    using get_object_block [OF b assms(2)] by (simp add: assign_object_def)
  moreover have "holds (put_slot (arr_values a) i (Some (mv (xs ! i))) h) a (xs[i := mv (xs ! i)])"
    using a b assms(2) by (auto simp: holds_def slot)
  ultimately show ?thesis using array_at_holds [OF assms] a assms(2)
    by (simp add: move_out_def array_set_def)
qed

lemma pop_back_holds:
  assumes "holds h a (xs @ [x])"
  shows "\<exists>h'. pop_back mv a h = Inr (x, a\<lparr>arr_length := length xs\<rparr>, h') \<and>
    holds h' (a\<lparr>arr_length := length xs\<rparr>) xs \<and> only_block (arr_values a) h h'"
proof -
  have len: "arr_length a = Suc (length xs)" and p: "arr_values a \<noteq> 0"
    using assms by (auto simp: holds_def split: if_splits)
  obtain h1 where m: "move_out mv a (length xs) h = Inr (x, h1)"
    and h1: "holds h1 a (xs @ [mv x])" and f: "only_block (arr_values a) h h1"
    using move_out_holds [OF assms, of "length xs" mv] by auto
  from h1 p obtain k where b: "blocks h1 (arr_values a) = Some (block_of (xs @ [mv x]) k)"
    by (auto simp: holds_def)
  then have "get_object (arr_values a) (length xs) h1 = Inr (mv x)"
    using get_object_block [OF b, of "length xs"] by simp
  then have "destroy_object (arr_values a) (length xs) h1 = Inr (put_slot (arr_values a) (length xs) None h1)"
    by (simp add: destroy_object_def)
  moreover have "holds (put_slot (arr_values a) (length xs) None h1) (a\<lparr>arr_length := length xs\<rparr>) xs"
    using p b by (auto simp: holds_def slot)
  ultimately show ?thesis
    using m len only_block_trans [OF f only_block_put_slot] by (simp add: pop_back_def)
qed

lemma pop_until_holds:
  assumes "holds h a xs"
  shows "\<exists>a' h'. pop_until mv count a h = Inr (a', h') \<and> arr_values a' = arr_values a \<and>
    holds h' a' (take count xs) \<and> only_block (arr_values a) h h'"
  using assms
proof (induction xs arbitrary: h a rule: rev_induct)
  case Nil
  then show ?case by (auto simp: pop_until.simps [of mv count a h] holds_def)
next
  case (snoc x xs)
  have len: "arr_length a = Suc (length xs)" using snoc.prems by (simp add: holds_def)
  show ?case
  proof (cases "count < arr_length a")
    case True
    obtain h1 where p: "pop_back mv a h = Inr (x, a\<lparr>arr_length := length xs\<rparr>, h1)"
      and h1: "holds h1 (a\<lparr>arr_length := length xs\<rparr>) xs" "only_block (arr_values a) h h1"
      using pop_back_holds [OF snoc.prems] by blast
    from snoc.IH [OF h1(1)] h1(2) p True len show ?thesis
      by (auto simp: pop_until.simps [of mv count a h] dest: only_block_trans)
  next
    case False
    with snoc.prems len show ?thesis by (simp add: pop_until.simps [of mv count a h])
  qed
qed

lemma clear_holds:
  assumes "holds h a xs" and "arr_values a = 0 \<longrightarrow> blocks h 0 = None"
  shows "\<exists>h'. array_clear mv a h = Inr (null_array, h') \<and> only_block (arr_values a) h h' \<and>
    blocks h' (arr_values a) = None"
proof -
  obtain a1 h1 where p: "pop_until mv 0 a h = Inr (a1, h1)" "arr_values a1 = arr_values a"
    "holds h1 a1 []" "only_block (arr_values a) h h1"
    using pop_until_holds [OF assms(1), of mv 0] by auto
  show ?thesis
  proof (cases "arr_values a = 0")
    case True
    then have "h1 = h"
      using assms(1) p(1) by (auto simp: holds_def pop_until.simps [of mv 0 a h])
    with True p assms(2) show ?thesis by (simp add: array_clear_def free_memory_def)
  next
    case False
    then obtain k where "blocks h1 (arr_values a1) = Some (block_of [] k)"
      using p by (auto simp: holds_def)
    with False p show ?thesis by (auto simp: array_clear_def free_memory_def slot only_block_def)
  qed
qed

section \<open>Building a block\<close>

lemma construct_next:
  assumes "blocks h p = Some (block_of xs k)" and "0 < k"
  shows "\<exists>h'. construct_object p (length xs) x h = Inr h' \<and> blocks h' p = Some (block_of (xs @ [x]) (k - 1)) \<and>
    only_block p h h'"
  using assms by (auto simp: construct_object_def slot only_block_def)

lemma construct_all_block:
  assumes "blocks h (arr_values new) = Some (block_of ys k)" and "length xs \<le> k"
  shows "\<exists>h'. construct_all new (length ys) xs h = Inr h' \<and>
    blocks h' (arr_values new) = Some (block_of (ys @ xs) (k - length xs)) \<and> only_block (arr_values new) h h'"
  using assms
proof (induction xs arbitrary: h ys k)
  case (Cons x xs)
  then have "0 < k" by simp
  from construct_next [OF Cons.prems(1) this, of x] obtain h1
    where c: "construct_object (arr_values new) (length ys) x h = Inr h1"
      and b: "blocks h1 (arr_values new) = Some (block_of (ys @ [x]) (k - 1))" "only_block (arr_values new) h h1"
    by blast
  have "length xs \<le> k - 1" using Cons.prems(2) by simp
  from Cons.IH [OF b(1) this] obtain h' where
    "construct_all new (Suc (length ys)) xs h1 = Inr h'"
    "blocks h' (arr_values new) = Some (block_of (ys @ x # xs) (k - length (x # xs)))"
    "only_block (arr_values new) h1 h'" by auto
  with c only_block_trans [OF b(2)] show ?case by simp
qed simp

lemma move_elements_block:
  assumes "holds h a zs" and "drop i zs = drop i xs" and "length zs = length xs" and "i + n = length xs"
    and "blocks h (arr_values new) = Some (block_of (take i xs) k)" and "n \<le> k"
    and "arr_values a \<noteq> arr_values new"
  shows "\<exists>h' zs'. move_elements mv a new i n h = Inr h' \<and> holds h' a zs' \<and> length zs' = length xs \<and>
    blocks h' (arr_values new) = Some (block_of xs (k - n)) \<and>
    lost h' = lost h \<and> next_block h' = next_block h \<and> refuse h' = refuse h \<and>
    (\<forall>q. q \<noteq> arr_values new \<and> q \<noteq> arr_values a \<longrightarrow> blocks h' q = blocks h q)"
  using assms
proof (induction n arbitrary: i h zs k)
  case (Suc n)
  then have i: "i < length zs" and at: "zs ! i = xs ! i"
    by (simp, metis (no_types) Suc.prems(2,3,4) add_lessD1 hd_drop_conv_nth less_add_Suc1 add_Suc_right)
  obtain h1 where m: "move_out mv a i h = Inr (xs ! i, h1)" and h1: "holds h1 a (zs[i := mv (xs ! i)])"
    and f1: "only_block (arr_values a) h h1"
    using move_out_holds [OF Suc.prems(1) i, of mv] at by auto
  have "blocks h1 (arr_values new) = Some (block_of (take i xs) k)"
    using f1 Suc.prems(5,7) by (simp add: only_block_def)
  moreover have "length (take i xs) = i" using i Suc.prems(3) by simp
  ultimately obtain h2 where c: "construct_object (arr_values new) i (xs ! i) h1 = Inr h2"
    and b: "blocks h2 (arr_values new) = Some (block_of (take i xs @ [xs ! i]) (k - 1))"
    and f2: "only_block (arr_values new) h1 h2"
    using construct_next [of h1 "arr_values new" "take i xs" k "xs ! i"] Suc.prems(6) by auto
  have "holds h2 a (zs[i := mv (xs ! i)])"
    using h1 f2 Suc.prems(7) by (auto simp: holds_def only_block_def)
  moreover have "drop (Suc i) (zs[i := mv (xs ! i)]) = drop (Suc i) xs"
    using Suc.prems(2) by (metis drop_Suc tl_drop drop_update_cancel lessI)
  moreover have "take i xs @ [xs ! i] = take (Suc i) xs"
    using i Suc.prems(3) by (simp add: take_Suc_conv_app_nth)
  moreover have "n \<le> k - 1" using Suc.prems(6) by simp
  ultimately obtain h' zs' where r: "move_elements mv a new (Suc i) n h2 = Inr h'" "holds h' a zs'"
    "length zs' = length xs" "blocks h' (arr_values new) = Some (block_of xs (k - 1 - n))"
    "lost h' = lost h2" "next_block h' = next_block h2" "refuse h' = refuse h2"
    "\<forall>q. q \<noteq> arr_values new \<and> q \<noteq> arr_values a \<longrightarrow> blocks h' q = blocks h2 q"
    using Suc.IH [of h2 "zs[i := mv (xs ! i)]" "Suc i" "k - 1"] Suc.prems(3,4,6,7) b by auto
  with m c f1 f2 show ?case by (intro exI [of _ h'] exI [of _ zs']) (auto simp: only_block_def)
qed auto

text \<open>The copies leave the slot of the moved element free until the end.\<close>

definition gap_block :: "'a list \<Rightarrow> 'a list \<Rightarrow> nat \<Rightarrow> 'a option list" where
  "gap_block xs ys k = map Some xs @ None # map Some ys @ replicate k None"

lemma gap_block_start: "0 < k \<Longrightarrow> block_of xs k = gap_block xs [] (k - 1)"
  by (cases k) (simp_all add: block_of_def gap_block_def)

lemma gap_block_extend:
  "0 < k \<Longrightarrow> (gap_block xs ys k)[Suc (length xs + length ys) := Some x] = gap_block xs (ys @ [x]) (k - 1)"
  by (cases k) (simp_all add: gap_block_def list_update_append)

lemma gap_block_close: "(gap_block xs ys k)[length xs := Some x] = block_of (xs @ x # ys) k"
  by (simp add: gap_block_def block_of_def list_update_append)

lemma gap_block_nth: "i < k \<Longrightarrow> gap_block xs ys k ! Suc (length xs + length ys + i) = None"
  "gap_block xs ys k ! length xs = None"
  by (simp_all add: gap_block_def nth_append)

lemma fill_elements_block:
  assumes "blocks h (arr_values new) = Some (gap_block xs ys k)" and "n \<le> k"
  shows "\<exists>h'. fill_elements new x (Suc (length xs + length ys)) n h = Inr h' \<and>
    blocks h' (arr_values new) = Some (gap_block xs (ys @ replicate n x) (k - n)) \<and> only_block (arr_values new) h h'"
  using assms
proof (induction n arbitrary: h ys k)
  case (Suc n)
  let ?i = "Suc (length xs + length ys)"
  have "?i < length (gap_block xs ys k)" using Suc.prems(2) by (simp add: gap_block_def)
  moreover have "gap_block xs ys k ! ?i = None" using gap_block_nth(1) [of 0 k xs ys] Suc.prems(2) by simp
  ultimately obtain h1 where c: "construct_object (arr_values new) ?i x h = Inr h1"
    and b: "blocks h1 (arr_values new) = Some (gap_block xs (ys @ [x]) (k - 1))" "only_block (arr_values new) h h1"
    using Suc.prems gap_block_extend [of k xs ys x] by (auto simp: construct_object_def only_block_def)
  have "n \<le> k - 1" using Suc.prems(2) by simp
  from Suc.IH [OF b(1) this] obtain h' where
    "fill_elements new x (Suc ?i) n h1 = Inr h'"
    "blocks h' (arr_values new) = Some (gap_block xs (ys @ replicate (Suc n) x) (k - Suc n))"
    "only_block (arr_values new) h1 h'" by auto
  with c only_block_trans [OF b(2)] show ?case by simp
qed simp

section \<open>The operations refine the list\<close>

text \<open>What every operation keeps: no object is lost, and only the blocks of the array change.\<close>

definition keeps_heap :: "nat set \<Rightarrow> 'a script_heap \<Rightarrow> 'a script_heap \<Rightarrow> bool" where
  "keeps_heap P h h' \<longleftrightarrow> heap_ok h' \<and> lost h' = lost h \<and> (\<forall>q. q \<notin> P \<longrightarrow> blocks h' q = blocks h q)"

lemma allocate_block:
  assumes "heap_ok h" and "count < 2 ^ 32" and "\<not> refuse h (next_block h)"
  shows "\<exists>new h'. allocate_uninitialized count h = Inr (new, h') \<and> arr_length new = count \<and>
    arr_values new = next_block h \<and> arr_values new \<noteq> 0 \<and> blocks h (next_block h) = None \<and>
    blocks h' (arr_values new) = Some (block_of [] count) \<and> lost h' = lost h \<and> refuse h' = refuse h \<and>
    next_block h' = Suc (next_block h) \<and> (\<forall>q. q \<noteq> arr_values new \<longrightarrow> blocks h' q = blocks h q)"
  using assms by (auto simp: allocate_uninitialized_def allocate_memory_def Let_def block_of_def heap_ok_def)

lemma resize_holds:
  assumes "heap_ok h" and "holds h a xs" and "count < 2 ^ 32" and "\<not> refuse h (next_block h)"
  shows "\<exists>a' h'. array_resize mv count x a h = Inr (a', h') \<and>
    holds h' a' (take count xs @ replicate (count - length xs) x) \<and>
    keeps_heap {arr_values a, arr_values a'} h h' \<and>
    (arr_values a' \<noteq> arr_values a \<longrightarrow> blocks h' (arr_values a) = None)"
proof -
  obtain a1 h1 where p: "pop_until mv count a h = Inr (a1, h1)" "arr_values a1 = arr_values a"
    "holds h1 a1 (take count xs)" and f1: "only_block (arr_values a) h h1"
    using pop_until_holds [OF assms(2)] by blast
  have old: "arr_values a < next_block h"
    using assms(1,2) by (auto simp: holds_def heap_ok_def not_less [symmetric] split: if_splits)
  have ok1: "heap_ok h1"
  proof (cases "arr_values a = 0")
    case True
    then have "h1 = h" using assms(2) p(1) by (auto simp: holds_def pop_until.simps [of mv count a h])
    then show ?thesis using assms(1) by simp
  next
    case False
    then show ?thesis using assms(1) f1 old by (auto simp: heap_ok_def only_block_def)
  qed
  have len1: "arr_length a1 = min (length xs) count" using p(3) by (simp add: holds_def)
  show ?thesis
  proof (cases "count \<le> arr_length a1")
    case True
    then have "array_resize mv count x a h = Inr (a1, h1)" "count - length xs = 0"
      using p(1) len1 by (simp_all add: array_resize_def)
    then show ?thesis using p f1 ok1 by (auto simp: keeps_heap_def only_block_def)
  next
    case False
    then have n: "length xs < count" "arr_length a1 = length xs" using len1 by simp_all
    then have holds1: "holds h1 a1 xs" using p(3) by simp
    have "next_block h1 = next_block h" "refuse h1 = refuse h" using f1 by (simp_all add: only_block_def)
    with allocate_block [OF ok1 assms(3)] assms(4) obtain new h2 where
      al: "allocate_uninitialized count h1 = Inr (new, h2)" "arr_length new = count"
        "arr_values new = next_block h" "arr_values new \<noteq> 0"
        "blocks h2 (arr_values new) = Some (block_of [] count)" "lost h2 = lost h1" "refuse h2 = refuse h1"
        "next_block h2 = Suc (next_block h1)" "\<forall>q. q \<noteq> arr_values new \<longrightarrow> blocks h2 q = blocks h1 q"
      by metis
    have differ: "arr_values a1 \<noteq> arr_values new" using old al(3) p(2) by simp
    have "holds h2 a1 xs" using holds1 al(9) differ by (auto simp: holds_def)
    with move_elements_block [of h2 a1 xs 0 xs "length xs" new count mv] al(5) n differ
    obtain h3 zs where mv: "move_elements mv a1 new 0 (length xs) h2 = Inr h3" "holds h3 a1 zs"
        "blocks h3 (arr_values new) = Some (block_of xs (count - length xs))"
        "lost h3 = lost h2" "next_block h3 = next_block h2" "refuse h3 = refuse h2"
        "\<forall>q. q \<noteq> arr_values new \<and> q \<noteq> arr_values a1 \<longrightarrow> blocks h3 q = blocks h2 q"
      by auto
    let ?rest = "count - Suc (length xs)"
    have "blocks h3 (arr_values new) = Some (gap_block xs [] ?rest)"
      using mv(3) gap_block_start [of "count - length xs" xs] n by simp
    from fill_elements_block [OF this, of ?rest x] obtain h4 where
      fl: "fill_elements new x (length xs + 1) ?rest h3 = Inr h4"
        "blocks h4 (arr_values new) = Some (gap_block xs (replicate ?rest x) 0)" and f4: "only_block (arr_values new) h3 h4"
      by auto
    obtain h5 where c: "construct_object (arr_values new) (length xs) x h4 = Inr h5"
      and b5: "blocks h5 (arr_values new) = Some (block_of (xs @ x # replicate ?rest x) 0)"
      and f5: "only_block (arr_values new) h4 h5"
      using fl(2) gap_block_close [of xs "replicate ?rest x" 0 x] gap_block_nth(2) [of xs "replicate ?rest x" 0]
      by (auto simp: construct_object_def only_block_def gap_block_def)
    have "holds h5 a1 zs" using mv(2) f4 f5 differ by (auto simp: holds_def only_block_def)
    moreover have "arr_values a1 = 0 \<longrightarrow> blocks h5 0 = None"
    proof
      assume z: "arr_values a1 = 0"
      then have "zs = []" "xs = []" using mv(2) holds1 by (simp_all add: holds_def)
      then have "blocks h3 0 = blocks h2 0" using mv(1) by simp
      then show "blocks h5 0 = None" using f4 f5 al(4,9) ok1 by (simp add: only_block_def heap_ok_def)
    qed
    ultimately obtain h6 where cl: "array_clear mv a1 h5 = Inr (null_array, h6)"
      and f6: "only_block (arr_values a1) h5 h6" and b6: "blocks h6 (arr_values a1) = None"
      using clear_holds [of h5 a1 zs mv] by auto
    have "array_resize mv count x a h = Inr (new, h6)"
      using p(1) False n al(1) mv(1) fl(1) c cl by (simp add: array_resize_def Let_def)
    moreover have "take count xs @ replicate (count - length xs) x = xs @ x # replicate ?rest x"
      using n by (simp add: replicate_Suc [symmetric] Suc_diff_Suc del: replicate_Suc)
    then have "holds h6 new (take count xs @ replicate (count - length xs) x)"
      using b5 f6 differ al(2,4) n by (auto simp: holds_def only_block_def)
    moreover have "keeps_heap {arr_values a, arr_values new} h h6"
    proof -
      have other: "blocks h6 q = blocks h q" if "q \<noteq> arr_values a" "q \<noteq> arr_values new" for q
        using that f1 al(9) mv(7) f4 f5 f6 p(2) by (simp add: only_block_def)
      moreover have "lost h6 = lost h" using f1 al(6) mv(4) f4 f5 f6 by (simp add: only_block_def)
      moreover have "heap_ok h6"
      proof -
        have nb: "next_block h6 = Suc (next_block h)"
          using f1 al(8) mv(5) f4 f5 f6 by (simp add: only_block_def)
        have "blocks h6 q = None" if "q = 0 \<or> Suc (next_block h) \<le> q" for q
        proof (cases "q = arr_values a")
          case True
          then show ?thesis using b6 p(2) by simp
        next
          case False
          moreover have "q \<noteq> arr_values new" using that al(3,4) by auto
          ultimately have "blocks h6 q = blocks h q" by (rule other)
          with that assms(1) show ?thesis by (auto simp: heap_ok_def)
        qed
        then show ?thesis using nb by (simp add: heap_ok_def)
      qed
      ultimately show ?thesis by (simp add: keeps_heap_def)
    qed
    moreover have "blocks h6 (arr_values a) = None" using b6 p(2) by simp
    ultimately show ?thesis by blast
  qed
qed

text \<open>C24: resizing the array is resizing the list, for every count: elements are dropped at the end or
  copies of the new one appended; each object is destroyed exactly once, no object is lost, and
  no memory but the array's own block changes, the old one being returned when it was replaced.\<close>

theorem resize_refines_list:
  assumes "heap_ok h" and "holds h a xs" and "count < 2 ^ 32" and "\<not> refuse h (next_block h)"
  shows "\<exists>a' h'. array_resize mv count x a h = Inr (a', h') \<and>
    holds h' a' (take count xs @ replicate (count - length xs) x) \<and>
    keeps_heap {arr_values a, arr_values a'} h h' \<and>
    (arr_values a' \<noteq> arr_values a \<longrightarrow> blocks h' (arr_values a) = None)"
  by (rule resize_holds [OF assms])

text \<open>Appending, reading out, copying and moving are the operations of the list.\<close>

lemma push_back_refines:
  assumes "heap_ok h" and "holds h a xs" and "Suc (length xs) < 2 ^ 32" and "\<not> refuse h (next_block h)"
  shows "\<exists>a' h'. array_push_back mv x a h = Inr (a', h') \<and> holds h' a' (xs @ [x]) \<and>
    keeps_heap {arr_values a, arr_values a'} h h'"
proof -
  have len: "arr_length a = length xs" using assms(2) by (simp add: holds_def)
  obtain a' h' where "array_resize mv (Suc (length xs)) x a h = Inr (a', h')"
    "holds h' a' (xs @ [x])" "keeps_heap {arr_values a, arr_values a'} h h'"
    using resize_holds [OF assms(1,2,3,4), of mv x] by (auto simp: Suc_diff_le)
  then show ?thesis by (auto simp: array_push_back_def len)
qed

lemma read_elements_holds:
  "holds h a xs \<Longrightarrow> i + n = length xs \<Longrightarrow> read_elements a i n h = Inr (drop i xs)"
proof (induction n arbitrary: i)
  case (Suc n)
  then have i: "i < length xs" by simp
  then have "get_object (arr_values a) i h = Inr (xs ! i)"
    using array_at_holds [OF Suc.prems(1) i] Suc.prems(1) by (simp add: array_at_def holds_def)
  with Suc i show ?case by (simp add: Cons_nth_drop_Suc)
qed simp

lemma to_vector_holds: "holds h a xs \<Longrightarrow> to_vector a h = Inr xs"
  using read_elements_holds [of h a xs 0 "length xs"] by (simp add: to_vector_def holds_def)

lemma array_of_list_holds:
  assumes "heap_ok h" and "length xs < 2 ^ 32" and "\<not> refuse h (next_block h)"
  shows "\<exists>a h'. array_of_list xs h = Inr (a, h') \<and> holds h' a xs \<and> arr_values a = next_block h \<and>
    keeps_heap {arr_values a} h h' \<and> next_block h' = Suc (next_block h)"
proof -
  obtain new h1 where al: "allocate_uninitialized (length xs) h = Inr (new, h1)" "arr_length new = length xs"
    "arr_values new = next_block h" "arr_values new \<noteq> 0"
    "blocks h1 (arr_values new) = Some (block_of [] (length xs))" "lost h1 = lost h"
    "next_block h1 = Suc (next_block h)" "\<forall>q. q \<noteq> arr_values new \<longrightarrow> blocks h1 q = blocks h q"
    using allocate_block [OF assms] by metis
  from construct_all_block [OF al(5), of xs] obtain h2 where
    c: "construct_all new 0 xs h1 = Inr h2" "blocks h2 (arr_values new) = Some (block_of xs 0)"
      "only_block (arr_values new) h1 h2" by auto
  have "array_of_list xs h = Inr (new, h2)" using al(1) c(1) by (simp add: array_of_list_def)
  moreover have "holds h2 new xs" using al c(2) by (auto simp: holds_def)
  moreover have "heap_ok h2" using assms(1) al(3,4,7,8) c(3) by (auto simp: heap_ok_def only_block_def)
  ultimately show ?thesis using al c(3) by (auto simp: keeps_heap_def only_block_def)
qed

lemma keeps_heap_clear:
  assumes "heap_ok h" and "holds h a xs"
  shows "\<exists>h'. array_clear mv a h = Inr (null_array, h') \<and> keeps_heap {arr_values a} h h' \<and>
    blocks h' (arr_values a) = None \<and> next_block h' = next_block h \<and> refuse h' = refuse h"
proof -
  obtain h' where c: "array_clear mv a h = Inr (null_array, h')" "only_block (arr_values a) h h'"
    "blocks h' (arr_values a) = None"
    using clear_holds [OF assms(2), of mv] assms(1) by (auto simp: heap_ok_def)
  have "blocks h' p = None" if "p = 0 \<or> next_block h \<le> p" for p
    using that c(2,3) assms(1) by (cases "p = arr_values a") (auto simp: heap_ok_def only_block_def)
  with c assms(1) show ?thesis by (auto simp: keeps_heap_def heap_ok_def only_block_def)
qed

lemma move_all_holds:
  assumes "holds h a zs" and "drop i zs = drop i xs" and "length zs = length xs" and "i + n = length xs"
  shows "\<exists>h' zs'. move_all mv a i n h = Inr (drop i xs, h') \<and> holds h' a zs' \<and> only_block (arr_values a) h h'"
  using assms
proof (induction n arbitrary: i h zs)
  case (Suc n)
  then have i: "i < length zs" by simp
  have at: "zs ! i = xs ! i" using Suc.prems(2,3) i by (metis hd_drop_conv_nth)
  obtain h1 where m: "move_out mv a i h = Inr (xs ! i, h1)" "holds h1 a (zs[i := mv (xs ! i)])"
    "only_block (arr_values a) h h1"
    using move_out_holds [OF Suc.prems(1) i, of mv] at by auto
  have "drop (Suc i) (zs[i := mv (xs ! i)]) = drop (Suc i) xs"
    using Suc.prems(2) by (metis drop_Suc tl_drop drop_update_cancel lessI)
  from Suc.IH [OF m(2) this] Suc.prems(3,4)
  obtain h' zs' where "move_all mv a (Suc i) n h1 = Inr (drop (Suc i) xs, h')" "holds h' a zs'"
    "only_block (arr_values a) h1 h'" by auto
  moreover have "drop i xs = xs ! i # drop (Suc i) xs" using i Suc.prems(3) by (simp add: Cons_nth_drop_Suc)
  ultimately show ?case using m only_block_trans [OF m(3)] by auto
qed auto

text \<open>Taking the elements out gives the list, whatever moving leaves behind in an element, and the
  array is empty afterwards with its memory returned and no object lost.\<close>

theorem move_to_vector_empties:
  assumes "heap_ok h" and "holds h a xs"
  shows "\<exists>h'. move_to_vector mv a h = Inr (xs, null_array, h') \<and> keeps_heap {arr_values a} h h' \<and>
    blocks h' (arr_values a) = None"
proof -
  obtain h1 zs where m: "move_all mv a 0 (arr_length a) h = Inr (xs, h1)" "holds h1 a zs"
    and f: "only_block (arr_values a) h h1"
    using move_all_holds [OF assms(2), of 0 xs "length xs" mv] assms(2) by (auto simp: holds_def)
  have "heap_ok h1"
  proof -
    have "arr_values a \<noteq> 0 \<Longrightarrow> arr_values a < next_block h"
      using assms by (auto simp: holds_def heap_ok_def not_less [symmetric])
    moreover have "arr_values a = 0 \<Longrightarrow> h1 = h" using assms(2) m(1) by (simp add: holds_def)
    ultimately show ?thesis using f assms(1) by (cases "arr_values a = 0") (auto simp: heap_ok_def only_block_def)
  qed
  from keeps_heap_clear [OF this m(2), of mv] m(1) f show ?thesis
    by (auto simp: move_to_vector_def keeps_heap_def only_block_def)
qed

text \<open>Assigning a copy makes the target stand for the same list as the source, in memory of its own:
  the source and its block stay as they are, and the target's old block is returned.\<close>

theorem copy_assign_is_deep:
  assumes "heap_ok h" and "holds h this ys" and "holds h obj xs" and "length xs < 2 ^ 32"
    and "\<not> refuse h (next_block h)"
    and "arr_values obj \<noteq> 0 \<longrightarrow> arr_values this \<noteq> arr_values obj"
  shows "\<exists>a' h'. array_copy_assign mv this obj h = Inr (a', h') \<and> holds h' a' xs \<and> holds h' obj xs \<and>
    arr_values a' \<noteq> arr_values obj \<and> keeps_heap {arr_values this, arr_values a'} h h'"
proof -
  obtain tmp h1 where t: "array_of_list xs h = Inr (tmp, h1)" "holds h1 tmp xs" "arr_values tmp = next_block h"
    "keeps_heap {arr_values tmp} h h1"
    using array_of_list_holds [OF assms(1,4,5)] by blast
  have fresh: "arr_values q \<noteq> next_block h" if "holds h q zs" for q zs
    using that assms(1) by (auto simp: holds_def heap_ok_def split: if_splits)
  have "holds h1 this ys"
    using assms(2) fresh [OF assms(2)] t(3,4) by (auto simp: holds_def keeps_heap_def)
  moreover have "heap_ok h1" using t(4) by (simp add: keeps_heap_def)
  ultimately obtain h2 where c: "array_clear mv this h1 = Inr (null_array, h2)" "keeps_heap {arr_values this} h1 h2"
    using keeps_heap_clear by blast
  have "array_copy_assign mv this obj h = Inr (tmp, h2)"
    using to_vector_holds [OF assms(3)] t(1) c(1) by (simp add: array_copy_assign_def array_move_assign_def)
  moreover have "holds h2 tmp xs"
    using t(2,3) c(2) fresh [OF assms(2)] by (auto simp: holds_def keeps_heap_def)
  moreover have "holds h2 obj xs"
    using assms(3,6) c(2) t(3,4) fresh [OF assms(3)] by (auto simp: holds_def keeps_heap_def split: if_splits)
  ultimately show ?thesis using t(3,4) c(2) fresh [OF assms(3)] by (auto simp: keeps_heap_def)
qed

section \<open>An example\<close>

definition demo_heap :: "nat script_heap" where
  "demo_heap = \<lparr>blocks = [1 \<mapsto> [Some 5, Some 6, None]], next_block = 2, refuse = (\<lambda>n. False), lost = 0\<rparr>"

definition demo_array :: raw_array where
  "demo_array = \<lparr>arr_values = 1, arr_length = 2\<rparr>"

lemma demo_array_holds: "heap_ok demo_heap" "holds demo_heap demo_array [5, 6]"
  "\<not> refuse demo_heap (next_block demo_heap)"
proof -
  have "blocks demo_heap 1 = Some (block_of [5, 6] 1)" by (simp add: demo_heap_def block_of_def)
  then show "holds demo_heap demo_array [5, 6]" by (auto simp: holds_def demo_array_def)
qed (simp_all add: heap_ok_def demo_heap_def)

theorem resize_refines_list_witness:
  "\<exists>a' h'. array_resize (\<lambda>x. 0) 4 7 demo_array demo_heap = Inr (a', h') \<and> holds h' a' [5, 6, 7, 7]"
proof -
  have "(4 :: nat) < 2 ^ 32" by simp
  from resize_refines_list [OF demo_array_holds(1,2) this demo_array_holds(3), of "\<lambda>x. 0" 7]
  show ?thesis by (auto simp: eval_nat_numeral)
qed

theorem move_to_vector_empties_witness:
  "\<exists>h'. move_to_vector (\<lambda>x. 0) demo_array demo_heap = Inr ([5, 6], null_array, h') \<and> blocks h' 1 = None"
  using move_to_vector_empties [OF demo_array_holds(1,2), of "\<lambda>x. 0"] by (auto simp: demo_array_def)

theorem copy_assign_is_deep_witness:
  "\<exists>a' h'. array_copy_assign (\<lambda>x. 0) null_array demo_array demo_heap = Inr (a', h') \<and> holds h' a' [5, 6] \<and>
     holds h' demo_array [5, 6] \<and> arr_values a' \<noteq> 1"
proof -
  have "holds demo_heap null_array []" by (simp add: holds_def null_array_def)
  from copy_assign_is_deep [OF demo_array_holds(1) this demo_array_holds(2) _ demo_array_holds(3), of "\<lambda>x. 0"]
  show ?thesis by (auto simp: demo_array_def null_array_def)
qed

end
