(* ===== verification/File_System.thy ===== *)
theory File_System
  imports W3m_Prelude
begin

text \<open>
  \<open>utils::io\<close> (src/common/utils/io.cpp) on a model of what it uses of \<open>std::filesystem\<close>,
  the file streams and \<open>MoveFileW\<close>. A path is the list of its components below the root, as
  written; the system resolves \<open>.\<close> and \<open>..\<close> in the text of the path, as Windows does. The
  file system lists its nodes in the order a directory iterator reports them. A file that
  is in use (a running executable) can be read and renamed, not written or removed.
\<close>

section \<open>Paths\<close>

type_synonym path = "byte list list"

definition is_separator :: "byte \<Rightarrow> bool" where
  "is_separator b \<longleftrightarrow> b = 0x2F \<or> b = 0x5C"

fun components_from :: "byte list \<Rightarrow> byte list \<Rightarrow> path" where
  "components_from acc [] = (if acc = [] then [] else [rev acc])"
| "components_from acc (b # bs) =
     (if is_separator b then (if acc = [] then [] else [rev acc]) @ components_from [] bs
      else components_from (b # acc) bs)"

definition components :: "byte list \<Rightarrow> path" where
  "components s = components_from [] s"

definition is_absolute :: "byte list \<Rightarrow> bool" where
  "is_absolute s \<longleftrightarrow> (s \<noteq> [] \<and> is_separator (hd s)) \<or> (1 < length s \<and> s ! 1 = 0x3A)"

text \<open>\<open>operator/\<close>: an absolute right operand replaces the left one.\<close>

definition path_append :: "path \<Rightarrow> byte list \<Rightarrow> path" where
  "path_append base name = (if is_absolute name then components name else base @ components name)"

definition dot :: "byte list" where "dot = lit ''.''"
definition dotdot :: "byte list" where "dotdot = lit ''..''"

fun full_from :: "path \<Rightarrow> path \<Rightarrow> path" where
  "full_from acc [] = acc"
| "full_from acc (c # cs) =
     full_from (if c = dot then acc else if c = dotdot then butlast acc else acc @ [c]) cs"

definition full :: "path \<Rightarrow> path" where "full p = full_from [] p"

text \<open>
  \<open>replace_extension\<close>: what follows the last dot of the file name goes, unless that dot is
  its first character.
\<close>

definition stem :: "byte list \<Rightarrow> byte list" where
  "stem s = (let r = dropWhile (\<lambda>b. b \<noteq> 0x2E) (rev s) in
     if length r \<le> 1 \<or> s = dotdot then s else rev (tl r))"

definition replace_extension :: "byte list \<Rightarrow> path \<Rightarrow> path" where
  "replace_extension ext p = (if p = [] then [ext] else butlast p @ [stem (last p) @ ext])"

text \<open>\<open>std::filesystem::relative\<close> on resolved paths; the empty result is \<open>.\<close>.\<close>

fun relative_from :: "path \<Rightarrow> path \<Rightarrow> path" where
  "relative_from (a # as) (b # bs) =
     (if a = b then relative_from as bs else replicate (Suc (length bs)) dotdot @ a # as)"
| "relative_from [] (b # bs) = replicate (Suc (length bs)) dotdot"
| "relative_from as [] = as"

definition path_relative :: "path \<Rightarrow> path \<Rightarrow> path" where
  "path_relative file base =
     (let r = relative_from (full file) (full base) in if r = [] then [dot] else r)"

section \<open>Nodes\<close>

datatype node = File (content: "byte list") (in_use: bool) | Directory

type_synonym file_system = "(path \<times> node) list"

definition node_at :: "file_system \<Rightarrow> path \<Rightarrow> node option" where
  "node_at fs p = (if full p = [] then Some Directory else map_of fs (full p))"

definition put_node :: "path \<Rightarrow> node \<Rightarrow> file_system \<Rightarrow> file_system" where
  "put_node p n fs = (if map_of fs (full p) = None then fs @ [(full p, n)]
     else map (\<lambda>(q, m). (q, if q = full p then n else m)) fs)"

definition drop_node :: "path \<Rightarrow> file_system \<Rightarrow> file_system" where
  "drop_node p fs = filter (\<lambda>(q, m). q \<noteq> full p) fs"

definition children :: "file_system \<Rightarrow> path \<Rightarrow> path list" where
  "children fs p = filter (\<lambda>q. q \<noteq> [] \<and> butlast q = full p) (map fst fs)"

definition below :: "path \<Rightarrow> path \<Rightarrow> bool" where
  "below p q \<longleftrightarrow> length (full p) < length q \<and> take (length (full p)) q = full p"

definition descendants :: "file_system \<Rightarrow> path \<Rightarrow> path list" where
  "descendants fs p = filter (below p) (map fst fs)"

section \<open>Operations\<close>

definition io_remove_file :: "path \<Rightarrow> file_system \<Rightarrow> bool \<times> file_system" where
  "io_remove_file p fs =
     (case node_at fs p of
        None \<Rightarrow> (False, fs)
      | Some (File c used) \<Rightarrow> if used then (False, fs) else (True, drop_node p fs)
      | Some Directory \<Rightarrow>
          if children fs p \<noteq> [] \<or> full p = [] then (False, fs) else (True, drop_node p fs))"

text \<open>The Windows branch of \<open>move_file\<close>: \<open>MoveFileW\<close> does not replace an existing target.\<close>

definition io_move_file :: "path \<Rightarrow> path \<Rightarrow> file_system \<Rightarrow> bool \<times> file_system" where
  "io_move_file src target fs =
     (case (node_at fs src, node_at fs target, node_at fs (butlast (full target))) of
        (Some n, None, Some Directory) \<Rightarrow>
          if full src = [] \<or> below src (full target) then (False, fs)
          else (True, map (\<lambda>(q, m).
             (if q = full src \<or> below src q then full target @ drop (length (full src)) q else q, m)) fs)
      | _ \<Rightarrow> (False, fs))"

definition io_file_exists :: "path \<Rightarrow> file_system \<Rightarrow> bool" where
  "io_file_exists p fs = (case node_at fs p of Some (File c used) \<Rightarrow> True | _ \<Rightarrow> False)"

text \<open>\<open>create_directories\<close>: stops at the first component that is not a directory.\<close>

fun create_dirs :: "path \<Rightarrow> path \<Rightarrow> bool \<times> file_system \<Rightarrow> bool \<times> bool \<times> file_system" where
  "create_dirs done_part [] (created, fs) = (True, created, fs)"
| "create_dirs done_part (c # cs) (created, fs) =
     (let p = done_part @ [c] in
      case node_at fs p of
        None \<Rightarrow> create_dirs p cs (True, put_node p Directory fs)
      | Some Directory \<Rightarrow> create_dirs p cs (created, fs)
      | Some (File x used) \<Rightarrow> (False, created, fs))"

definition io_create_directory :: "path \<Rightarrow> file_system \<Rightarrow> bool \<times> file_system" where
  "io_create_directory p fs =
     (let (no_error, created, fs') = create_dirs [] (full p) (False, fs) in (created \<and> no_error, fs'))"

definition io_write_file :: "path \<Rightarrow> byte list \<Rightarrow> bool \<Rightarrow> file_system \<Rightarrow> bool \<times> file_system" where
  "io_write_file file data at_end fs =
     (let fs1 = (if butlast file \<noteq> [] then snd (io_create_directory (butlast file) fs) else fs) in
      case (node_at fs1 file, node_at fs1 (butlast (full file))) of
        (Some Directory, _) \<Rightarrow> (False, fs1)
      | (Some (File c used), _) \<Rightarrow>
          if used then (False, fs1)
          else (True, put_node file (File (if at_end then c @ data else data) False) fs1)
      | (None, Some Directory) \<Rightarrow> (True, put_node file (File data False) fs1)
      | (None, _) \<Rightarrow> (False, fs1))"

text \<open>
  \<open>read_file\<close>: the buffer is resized to the size as an \<open>uint32_t\<close>, the read takes the
  whole size: for a file of 4 GiB or more it leaves the buffer.
\<close>

definition io_read_file :: "path \<Rightarrow> file_system \<Rightarrow> exn + byte list option" where
  "io_read_file file fs =
     (case node_at fs file of
        Some (File c used) \<Rightarrow>
          if length c mod 2 ^ 32 < length c then Inl Undefined_behaviour else Inr (Some c)
      | _ \<Rightarrow> Inr None)"

definition io_read_file_or_empty :: "path \<Rightarrow> file_system \<Rightarrow> exn + byte list" where
  "io_read_file_or_empty file fs =
     exn_bind (io_read_file file fs) (\<lambda>r. Inr (case r of None \<Rightarrow> [] | Some c \<Rightarrow> c))"

definition io_file_size :: "path \<Rightarrow> file_system \<Rightarrow> nat" where
  "io_file_size file fs = (case node_at fs file of Some (File c used) \<Rightarrow> length c | _ \<Rightarrow> 0)"

definition io_directory_exists :: "path \<Rightarrow> file_system \<Rightarrow> bool" where
  "io_directory_exists p fs = (node_at fs p = Some Directory)"

definition io_directory_is_empty :: "path \<Rightarrow> file_system \<Rightarrow> bool" where
  "io_directory_is_empty p fs =
     (case node_at fs p of
        None \<Rightarrow> False
      | Some (File c used) \<Rightarrow> c = []
      | Some Directory \<Rightarrow> children fs p = [])"

definition io_list_files :: "path \<Rightarrow> bool \<Rightarrow> file_system \<Rightarrow> path list" where
  "io_list_files p recursive fs =
     (if node_at fs p \<noteq> Some Directory then []
      else if recursive then descendants fs p else children fs p)"

text \<open>\<open>std::filesystem::remove_all\<close>: everything below goes, except what is in use.\<close>

definition remove_all :: "path \<Rightarrow> file_system \<Rightarrow> file_system" where
  "remove_all p fs =
     (let keeps = (\<lambda>(q, m). case m of File c used \<Rightarrow> used \<and> (q = full p \<or> below p q) | Directory \<Rightarrow> False)
      in filter (\<lambda>(q, m). \<not> (q = full p \<or> below p q) \<or>
           (\<exists>x \<in> set fs. keeps x \<and> take (length q) (fst x) = q)) fs)"

section \<open>Nodes after an operation\<close>

lemma node_at_full: "full p = full q \<Longrightarrow> node_at fs p = node_at fs q"
  by (simp add: node_at_def)

lemma node_at_root: "full p = [] \<Longrightarrow> node_at fs p = Some Directory"
  by (simp add: node_at_def)

lemma map_of_replace:
  "map_of (map (\<lambda>(q, m). (q, if q = k then n else m)) fs) x =
     (if x = k then map_option (\<lambda>m. n) (map_of fs x) else map_of fs x)"
  by (induction fs) auto

lemma node_at_put:
  "node_at (put_node p n fs) q =
     (if full q = [] then Some Directory else if full q = full p then Some n else node_at fs q)"
  by (auto simp: node_at_def put_node_def map_of_replace map_add_def split: option.splits)

lemma create_dirs_node:
  assumes "create_dirs pre cs (created, fs) = (ok, created', fs')"
  shows "node_at fs' q = node_at fs q \<or> node_at fs q = None \<and> node_at fs' q = Some Directory \<and>
    (\<exists>n. 0 < n \<and> n \<le> length cs \<and> full q = full (pre @ take n cs))"
  using assms
proof (induction cs arbitrary: pre created fs)
  case (Cons c cs)
  have later: ?case if "create_dirs (pre @ [c]) cs (b, fs1) = (ok, created', fs')" "node_at fs1 q = node_at fs q" for b fs1
  proof -
    from Cons.IH [OF that(1)] show ?thesis
    proof (elim disjE conjE exE)
      fix n
      assume "node_at fs1 q = None" "node_at fs' q = Some Directory" "0 < n" "n \<le> length cs"
        "full q = full ((pre @ [c]) @ take n cs)"
      then have "node_at fs q = None \<and> node_at fs' q = Some Directory \<and> 0 < Suc n \<and>
          Suc n \<le> length (c # cs) \<and> full q = full (pre @ take (Suc n) (c # cs))"
        using that(2) by simp
      then show ?thesis by blast
    qed (simp add: that(2))
  qed
  show ?case
  proof (cases "node_at fs (pre @ [c])")
    case None
    then have rest: "create_dirs (pre @ [c]) cs (True, put_node (pre @ [c]) Directory fs) = (ok, created', fs')"
      using Cons.prems by (simp add: Let_def)
    show ?thesis
    proof (cases "full q = full (pre @ [c])")
      case True
      then have "node_at fs q = None" using None node_at_full [of q "pre @ [c]" fs] by simp
      moreover have "node_at (put_node (pre @ [c]) Directory fs) q = Some Directory"
        using True by (simp add: node_at_put)
      then have "node_at fs' q = Some Directory" using Cons.IH [OF rest] by simp
      ultimately have "node_at fs q = None \<and> node_at fs' q = Some Directory \<and> 0 < Suc 0 \<and>
          Suc 0 \<le> length (c # cs) \<and> full q = full (pre @ take (Suc 0) (c # cs))"
        using True by simp
      then show ?thesis by blast
    next
      case False
      have "node_at (put_node (pre @ [c]) Directory fs) q = node_at fs q"
        using False by (cases "full q = []") (simp_all add: node_at_put node_at_root)
      with rest show ?thesis by (rule later)
    qed
  next
    case (Some n)
    then show ?thesis using Cons.prems later [of created fs] by (cases n) (simp_all add: Let_def)
  qed
qed simp

text \<open>What \<open>write_file\<close> does to the disk: directories may appear, and the file when it succeeds.\<close>

lemma create_directory_node:
  "node_at (snd (io_create_directory p fs)) q = node_at fs q \<or>
   node_at fs q = None \<and> node_at (snd (io_create_directory p fs)) q = Some Directory \<and>
     (\<exists>n. 0 < n \<and> n \<le> length (full p) \<and> full q = full (take n (full p)))"
proof -
  obtain ok created fs' where c: "create_dirs [] (full p) (False, fs) = (ok, created, fs')"
    by (metis prod_cases3)
  from create_dirs_node [OF c] c show ?thesis by (simp add: io_create_directory_def)
qed

lemma write_file_cases:
  assumes "io_write_file file data False fs = (ok, fs')"
    and "fs1 = (if butlast file \<noteq> [] then snd (io_create_directory (butlast file) fs) else fs)"
  shows "(\<not> ok \<and> fs' = fs1) \<or>
    (ok \<and> full file \<noteq> [] \<and> fs' = put_node file (File data False) fs1 \<and> node_at fs1 file \<noteq> Some Directory)"
proof -
  note unf = assms(1) [unfolded io_write_file_def Let_def assms(2) [symmetric]]
  consider "node_at fs1 file = None" | "node_at fs1 file = Some Directory"
    | x u where "node_at fs1 file = Some (File x u)"
    by (metis node.exhaust option.exhaust)
  then show ?thesis
  proof cases
    case 1
    then have "full file \<noteq> []" by (auto simp: node_at_root)
    with 1 unf show ?thesis by (auto split: option.splits node.splits)
  next
    case 2
    with unf show ?thesis by simp
  next
    case 3
    then have "full file \<noteq> []" by (auto simp: node_at_root)
    with 3 unf show ?thesis by (auto split: if_splits)
  qed
qed

lemma write_file_node:
  assumes "io_write_file file data False fs = (ok, fs')"
  shows "(ok \<and> full q = full file \<and> node_at fs' q = Some (File data False)) \<or>
    node_at fs' q = node_at fs q \<or>
    node_at fs q = None \<and> node_at fs' q = Some Directory \<and>
      (\<exists>n. 0 < n \<and> n \<le> length (full (butlast file)) \<and> full q = full (take n (full (butlast file))))"
proof -
  let ?fs1 = "if butlast file \<noteq> [] then snd (io_create_directory (butlast file) fs) else fs"
  have "(ok \<and> full q = full file \<and> node_at fs' q = Some (File data False)) \<or> node_at fs' q = node_at ?fs1 q"
  proof (cases "ok \<and> full q \<noteq> []")
    case True
    with write_file_cases [OF assms refl] have "fs' = put_node file (File data False) ?fs1" by blast
    with True show ?thesis by (simp only: node_at_put) simp
  next
    case False
    then show ?thesis using write_file_cases [OF assms refl] by (auto simp only: node_at_root)
  qed
  then show ?thesis
  proof
    assume fs1: "node_at fs' q = node_at ?fs1 q"
    show ?thesis
    proof (cases "butlast file = []")
      case True
      then show ?thesis using fs1 by simp
    next
      case False
      then have "node_at fs' q = node_at (snd (io_create_directory (butlast file) fs)) q"
        using fs1 by simp
      then show ?thesis using create_directory_node [of "butlast file" fs q] by (simp only:) blast
    qed
  qed blast
qed

lemma write_file_written:
  assumes "io_write_file file data False fs = (True, fs')"
  shows "node_at fs' file = Some (File data False)"
  using write_file_cases [OF assms refl] by (auto simp: node_at_put)

text \<open>A file renamed to a free name in the same directory.\<close>

lemma map_of_rename:
  "(\<forall>q \<in> fst ` set fs. f q = x \<longleftrightarrow> q = y) \<Longrightarrow> map_of (map (\<lambda>(q, m). (f q, m)) fs) x = map_of fs y"
  by (induction fs) auto

lemma map_of_rename_None:
  "(\<forall>q \<in> fst ` set fs. f q \<noteq> x) \<Longrightarrow> map_of (map (\<lambda>(q, m). (f q, m)) fs) x = None"
  by (induction fs) auto

lemma move_file_sibling:
  assumes "node_at fs src = Some n" and "node_at fs target = None"
    and "node_at fs (butlast (full target)) = Some Directory"
    and "butlast (full target) = butlast (full src)" and "full src \<noteq> []"
  shows "\<exists>fs'. io_move_file src target fs = (True, fs') \<and> node_at fs' target = Some n \<and>
    node_at fs' src = None \<and> (\<forall>q. length (full q) < length (full src) \<longrightarrow> node_at fs' q = node_at fs q)"
proof -
  have target: "full target \<noteq> []" using assms(2) by (auto simp: node_at_def)
  have len: "length (full target) = length (full src)"
    using arg_cong [OF assms(4), of length] target assms(5) by (simp add: length_butlast) 
      (metis Suc_pred length_greater_0_conv)
  have free: "full target \<notin> fst ` set fs"
    using assms(2) target by (simp add: node_at_def map_of_eq_None_iff)
  have differ: "full target \<noteq> full src"
    using assms(1,2) node_at_full [of target src fs] by auto
  define f where "f q = (if q = full src \<or> below src q then full target @ drop (length (full src)) q else q)" for q
  have under: "length (f q) = length q" "length (full src) < length q" if "below src q" for q
    using that len by (auto simp: f_def below_def)
  have to_target: "f q = full target \<longleftrightarrow> q = full src" if "q \<in> fst ` set fs" for q
  proof (cases "below src q")
    case True
    from under [OF True] len show ?thesis by auto
  next
    case False
    have "q \<noteq> full target" using that free by blast
    with False show ?thesis by (simp add: f_def)
  qed
  have not_src: "f q \<noteq> full src" for q
  proof (cases "below src q")
    case True
    from under [OF True] show ?thesis by auto
  qed (use differ in \<open>simp add: f_def\<close>)
  have "io_move_file src target fs = (True, map (\<lambda>(q, m). (f q, m)) fs)"
    using assms len by (simp add: io_move_file_def below_def f_def case_prod_unfold)
  moreover have "map_of (map (\<lambda>(q, m). (f q, m)) fs) (full target) = map_of fs (full src)"
    using to_target by (intro map_of_rename) simp
  moreover have "map_of (map (\<lambda>(q, m). (f q, m)) fs) (full src) = None"
    using not_src by (intro map_of_rename_None) simp
  moreover have "map_of (map (\<lambda>(q, m). (f q, m)) fs) x = map_of fs x" if "length x < length (full src)" for x
  proof (intro map_of_rename ballI)
    fix q
    show "f q = x \<longleftrightarrow> q = x"
    proof (cases "below src q")
      case True
      from under [OF True] that show ?thesis by auto
    qed (use that len in \<open>auto simp: f_def\<close>)
  qed
  ultimately show ?thesis using assms(1,5) target by (simp add: node_at_def)
qed

lemma move_file_blocked:
  "node_at fs src = None \<or> node_at fs target \<noteq> None \<Longrightarrow> io_move_file src target fs = (False, fs)"
  by (auto simp: io_move_file_def split: option.splits node.splits)

end
