(* ===== verification/Script_String.thy ===== *)
theory Script_String
  imports Script_Array String_Utils File_System
begin

text \<open>
  \<open>scripting::string\<close> (src/client/module/scripting.hpp, scripting.cpp): an array of 16-bit
  code units that ends with a zero, or is empty; the registration and the dispatch of
  script functions; and the list of script files (scripting_filesystem.cpp). Code units are
  moved by copying. The functions of the game are parameters.
\<close>

section \<open>Strings\<close>

type_synonym string_heap = "u16 script_heap"

definition unit_move :: "u16 \<Rightarrow> u16" where "unit_move x = x"

fun assign_units :: "raw_array \<Rightarrow> nat \<Rightarrow> u16 list \<Rightarrow> string_heap \<Rightarrow> exn + string_heap" where
  "assign_units a i [] h = Inr h"
| "assign_units a i (c # cs) h = exn_bind (array_set a i c h) (\<lambda>h1. assign_units a (Suc i) cs h1)"

definition string_of_wide :: "u16 list \<Rightarrow> string_heap \<Rightarrow> exn + raw_array \<times> string_heap" where
  "string_of_wide str h =
     exn_bind (array_resize unit_move (length str + 1) 0 null_array h) (\<lambda>(a, h1).
       exn_bind (assign_units a 0 str h1) (\<lambda>h2. Inr (a, h2)))"

text \<open>The assignment of a \<open>char\<close> to a \<open>wchar_t\<close> extends its sign.\<close>

definition string_of_narrow :: "byte list \<Rightarrow> string_heap \<Rightarrow> exn + raw_array \<times> string_heap" where
  "string_of_narrow str h =
     exn_bind (array_resize unit_move (length str + 1) 0 null_array h) (\<lambda>(a, h1).
       exn_bind (assign_units a 0 (widen str) h1) (\<lambda>h2. Inr (a, h2)))"

definition assign_narrow :: "byte list \<Rightarrow> raw_array \<Rightarrow> string_heap \<Rightarrow> exn + raw_array \<times> string_heap" where
  "assign_narrow str this h = exn_bind (string_of_narrow str h) (\<lambda>(tmp, h1).
     exn_bind (array_move_assign unit_move this tmp h1) (\<lambda>(a, rest, h2). Inr (a, h2)))"

definition assign_wide :: "u16 list \<Rightarrow> raw_array \<Rightarrow> string_heap \<Rightarrow> exn + raw_array \<times> string_heap" where
  "assign_wide str this h = exn_bind (string_of_wide str h) (\<lambda>(tmp, h1).
     exn_bind (array_move_assign unit_move this tmp h1) (\<lambda>(a, rest, h2). Inr (a, h2)))"

definition to_view :: "raw_array \<Rightarrow> string_heap \<Rightarrow> exn + u16 list" where
  "to_view a h = (if arr_length a = 0 then Inr [] else read_elements a 0 (arr_length a - 1) h)"

definition to_wstring :: "raw_array \<Rightarrow> string_heap \<Rightarrow> exn + u16 list" where
  "to_wstring a h = to_view a h"

definition to_narrow :: "raw_array \<Rightarrow> string_heap \<Rightarrow> exn + byte list" where
  "to_narrow a h = exn_bind (to_view a h) (\<lambda>v. Inr (narrow v))"

text \<open>The comparison of two strings is a \<open>memcmp\<close> of the whole arrays.\<close>

definition string_equal :: "raw_array \<Rightarrow> raw_array \<Rightarrow> string_heap \<Rightarrow> exn + bool" where
  "string_equal a b h =
     (if arr_length a \<noteq> arr_length b then Inr False
      else exn_bind (to_vector a h) (\<lambda>xs. exn_bind (to_vector b h) (\<lambda>ys. Inr (xs = ys))))"

fun units_equal :: "raw_array \<Rightarrow> nat \<Rightarrow> u16 list \<Rightarrow> string_heap \<Rightarrow> exn + bool" where
  "units_equal a i [] h = exn_bind (array_at a i h) (\<lambda>x. Inr (x = 0))"
| "units_equal a i (c # cs) h =
     exn_bind (array_at a i h) (\<lambda>x. if x \<noteq> c then Inr False else units_equal a (Suc i) cs h)"

definition equal_narrow :: "raw_array \<Rightarrow> byte list \<Rightarrow> string_heap \<Rightarrow> exn + bool" where
  "equal_narrow a obj h =
     (if arr_length a = 0 \<and> obj = [] then Inr True
      else if length obj + 1 \<noteq> arr_length a then Inr False
      else units_equal a 0 (widen obj) h)"

definition equal_wide :: "raw_array \<Rightarrow> u16 list \<Rightarrow> string_heap \<Rightarrow> exn + bool" where
  "equal_wide a obj h =
     (if arr_length a = 0 \<and> obj = [] then Inr True
      else if length obj + 1 \<noteq> arr_length a then Inr False
      else exn_bind (to_view a h) (\<lambda>v.
        if v \<noteq> obj then Inr False else exn_bind (array_at a (length obj) h) (\<lambda>x. Inr (x = 0))))"

section \<open>Script functions\<close>

text \<open>
  The stream of opcodes of a script: the byte at \<open>some_stack\<close> selects the function of the
  game that evaluates the next argument and moves the pointer past it.
\<close>

record script_context =
  opcodes :: "nat \<Rightarrow> byte"
  some_stack :: nat

type_synonym 'v opcode_table = "byte \<Rightarrow> script_context \<Rightarrow> (exn + 'v) \<times> script_context"

definition read_script_argument ::
    "'v opcode_table \<Rightarrow> script_context \<Rightarrow> (exn + 'v) \<times> script_context" where
  "read_script_argument T ctx =
     T (opcodes ctx (some_stack ctx)) (ctx\<lparr>some_stack := Suc (some_stack ctx)\<rparr>)"

fun read_arguments :: "'v opcode_table \<Rightarrow> nat \<Rightarrow> script_context \<Rightarrow> (exn + 'v list) \<times> script_context" where
  "read_arguments T 0 ctx = (Inr [], ctx)"
| "read_arguments T (Suc n) ctx =
     (case read_script_argument T ctx of
        (Inl e, ctx1) \<Rightarrow> (Inl e, ctx1)
      | (Inr v, ctx1) \<Rightarrow>
          (case read_arguments T n ctx1 of
             (Inl e, ctx2) \<Rightarrow> (Inl e, ctx2)
           | (Inr vs, ctx2) \<Rightarrow> (Inr (v # vs), ctx2)))"

text \<open>An exception is written to the debugger; the result is stored if there is a place for it.\<close>

record 'v dispatch_result =
  stored :: "'v option"
  debug_output :: "exn option"
  context_after :: script_context

definition dispatcher_function ::
    "'v opcode_table \<Rightarrow> nat \<Rightarrow> ('v list \<Rightarrow> exn + 'v option) \<Rightarrow> bool \<Rightarrow> script_context \<Rightarrow> 'v dispatch_result" where
  "dispatcher_function T arity f has_return_value ctx =
     (let (args, ctx1) = read_arguments T arity ctx;
          r = exn_bind args f;
          done_ctx = ctx1\<lparr>some_stack := Suc (some_stack ctx1)\<rparr>
      in case r of
           Inl e \<Rightarrow> \<lparr>stored = None, debug_output = Some e, context_after = done_ctx\<rparr>
         | Inr v \<Rightarrow> \<lparr>stored = (if has_return_value then v else None), debug_output = None,
                     context_after = done_ctx\<rparr>)"

text \<open>Functions are registered with the game once it registers its own.\<close>

record 'f registrations =
  pending :: "(u16 list \<times> 'f) list"
  known :: "(int \<times> 'f) list"

definition register_script_function :: "u16 list \<Rightarrow> 'f \<Rightarrow> 'f registrations \<Rightarrow> 'f registrations" where
  "register_script_function name f r = r\<lparr>pending := pending r @ [(name, f)]\<rparr>"

definition perform_registration ::
    "(u16 list \<Rightarrow> int) \<Rightarrow> (nat \<Rightarrow> bool) \<Rightarrow> u16 list \<Rightarrow> 'f \<Rightarrow> 'f registrations \<Rightarrow> exn + 'f registrations" where
  "perform_registration name_id memory name f r =
     (if memory (length (known r)) then Inr (r\<lparr>known := known r @ [(name_id name, f)]\<rparr>)
      else Inl Undefined_behaviour)"

fun perform_registrations ::
    "(u16 list \<Rightarrow> int) \<Rightarrow> (nat \<Rightarrow> bool) \<Rightarrow> (u16 list \<times> 'f) list \<Rightarrow> 'f registrations \<Rightarrow> exn + 'f registrations" where
  "perform_registrations name_id memory [] r = Inr r"
| "perform_registrations name_id memory ((name, f) # es) r =
     exn_bind (perform_registration name_id memory name f r) (perform_registrations name_id memory es)"

definition register_script_functions_stub ::
    "(u16 list \<Rightarrow> int) \<Rightarrow> (nat \<Rightarrow> bool) \<Rightarrow> 'f registrations \<Rightarrow> exn + 'f registrations" where
  "register_script_functions_stub name_id memory r =
     exn_bind (perform_registrations name_id memory (pending r) r) (\<lambda>r'. Inr (r'\<lparr>pending := []\<rparr>))"

section \<open>Script files\<close>

text \<open>
  The scripts of the game as the strings they hold. \<open>extension\<close> is the file name from its
  last dot on; the text of a path joins its components with backslashes.
\<close>

definition path_extension :: "path \<Rightarrow> byte list" where
  "path_extension p =
     (let s = (if p = [] then [] else last p); st = stem s in drop (length st) s)"

definition path_wstring :: "path \<Rightarrow> u16 list" where
  "path_wstring p = widen (join 0x5C p)"

definition collect_custom_scripts_files :: "path \<Rightarrow> file_system \<Rightarrow> path list" where
  "collect_custom_scripts_files base fs =
     filter (\<lambda>p. io_file_exists p fs \<and> path_extension p = lit ''.ws'') (io_list_files base True fs)"

definition collect_custom_scripts :: "path \<Rightarrow> file_system \<Rightarrow> u16 list list" where
  "collect_custom_scripts base fs =
     map (\<lambda>p. to_lower_wide (path_wstring (full p))) (collect_custom_scripts_files base fs)"

definition scripts_separator :: "u16 list" where
  "scripts_separator = widen (0x5C # lit ''scripts'' @ [0x5C])"

definition remove_overridden_by :: "u16 list \<Rightarrow> u16 list list \<Rightarrow> u16 list list" where
  "remove_overridden_by custom_script base_scripts =
     (case str_find custom_script scripts_separator 0 of
        None \<Rightarrow> base_scripts
      | Some pos \<Rightarrow>
          filter (\<lambda>b. \<not> ends_with b (drop (pos + length scripts_separator) custom_script)) base_scripts)"

fun remove_overriden_base_scripts :: "u16 list list \<Rightarrow> u16 list list \<Rightarrow> u16 list list" where
  "remove_overriden_base_scripts base_scripts [] = base_scripts"
| "remove_overriden_base_scripts base_scripts (c # cs) =
     remove_overriden_base_scripts (remove_overridden_by c base_scripts) cs"

definition add_scripts_from_folder :: "path \<Rightarrow> file_system \<Rightarrow> u16 list list \<Rightarrow> u16 list list" where
  "add_scripts_from_folder base fs scripts =
     (let custom = collect_custom_scripts base fs in
      if custom = [] then scripts else remove_overriden_base_scripts scripts custom @ custom)"

definition collect_script ::
    "(u16 list list \<Rightarrow> u16 list list) \<Rightarrow> path \<Rightarrow> path \<Rightarrow> file_system \<Rightarrow> u16 list list \<Rightarrow> u16 list list" where
  "collect_script game_collect appdata game_folder fs scripts =
     add_scripts_from_folder (path_append game_folder (lit ''data'')) fs
       (add_scripts_from_folder (path_append appdata (lit ''data'')) fs (game_collect scripts))"

section \<open>Properties of strings\<close>

lemma array_set_holds:
  assumes "holds h a xs" and "i < length xs"
  shows "\<exists>h'. array_set a i x h = Inr h' \<and> holds h' a (xs[i := x]) \<and> only_block (arr_values a) h h'"
proof -
  from assms obtain k where b: "blocks h (arr_values a) = Some (block_of xs k)"
    and a: "arr_values a \<noteq> 0" "arr_length a = length xs"
    by (auto simp: holds_def split: if_splits)
  have "array_set a i x h = Inr (put_slot (arr_values a) i (Some x) h)"
    using get_object_block [OF b assms(2)] a assms(2) by (simp add: array_set_def assign_object_def)
  moreover have "holds (put_slot (arr_values a) i (Some x) h) a (xs[i := x])"
    using a b assms(2) by (auto simp: holds_def slot)
  ultimately show ?thesis by simp
qed

lemma assign_units_holds:
  assumes "holds h a (ys @ zs @ ws)" and "length zs = length cs"
  shows "\<exists>h'. assign_units a (length ys) cs h = Inr h' \<and> holds h' a (ys @ cs @ ws) \<and> only_block (arr_values a) h h'"
  using assms
proof (induction cs arbitrary: h ys zs)
  case (Cons c cs)
  obtain z zs' where z: "zs = z # zs'" "length zs' = length cs" using Cons.prems(2) by (cases zs) auto
  have "holds h a (ys @ z # zs' @ ws)" using Cons.prems(1) z(1) by simp
  moreover have "length ys < length (ys @ z # zs' @ ws)" by simp
  ultimately have "\<exists>h1. array_set a (length ys) c h = Inr h1 \<and>
      holds h1 a ((ys @ z # zs' @ ws)[length ys := c]) \<and> only_block (arr_values a) h h1"
    by (rule array_set_holds)
  moreover have "(ys @ z # zs' @ ws)[length ys := c] = (ys @ [c]) @ zs' @ ws" by simp
  ultimately obtain h1 where s: "array_set a (length ys) c h = Inr h1" "holds h1 a ((ys @ [c]) @ zs' @ ws)"
    "only_block (arr_values a) h h1" by metis
  from Cons.IH [OF s(2) z(2)] obtain h' where h': "assign_units a (length (ys @ [c])) cs h1 = Inr h'"
    "holds h' a ((ys @ [c]) @ cs @ ws)" "only_block (arr_values a) h1 h'" by blast
  from h'(1) s(1) have "assign_units a (length ys) (c # cs) h = Inr h'" by simp
  moreover have "holds h' a (ys @ (c # cs) @ ws)" using h'(2) by simp
  moreover have "only_block (arr_values a) h h'" by (rule only_block_trans [OF s(3) h'(3)])
  ultimately show ?case by blast
qed simp

lemma keeps_heap_only_block:
  assumes "keeps_heap P h h1" and "only_block p h1 h'" and "p \<in> P" and "p \<noteq> 0" and "p < next_block h1"
  shows "keeps_heap P h h'"
  using assms by (auto simp: keeps_heap_def only_block_def heap_ok_def)

lemma narrow_widen [simp]: "narrow (widen s) = s"
proof -
  have "ucast (scast b :: u16) = b" for b :: byte
    by transfer (simp add: take_bit_signed_take_bit)
  then show ?thesis by (simp add: narrow_def widen_def o_def)
qed

lemma units_equal_holds:
  assumes "holds h a (ys @ cs @ [0])"
  shows "units_equal a (length ys) cs h = Inr True"
  using assms
proof (induction cs arbitrary: ys)
  case Nil
  have "length ys < length (ys @ [0 :: u16])" by simp
  with Nil have "array_at a (length ys) h = Inr ((ys @ [0]) ! length ys)"
    unfolding append_Nil by (rule array_at_holds)
  then show ?case by simp
next
  case (Cons c cs)
  have "length ys < length (ys @ (c # cs) @ [0])" by simp
  with Cons.prems have "array_at a (length ys) h = Inr ((ys @ (c # cs) @ [0]) ! length ys)"
    by (rule array_at_holds)
  moreover have "holds h a ((ys @ [c]) @ cs @ [0])" using Cons.prems by simp
  then have "units_equal a (length (ys @ [c])) cs h = Inr True" by (rule Cons.IH)
  ultimately show ?case by simp
qed

lemma to_view_holds: "holds h a (ws @ [0]) \<Longrightarrow> to_view a h = Inr ws"
proof -
  assume a: "holds h a (ws @ [0])"
  have "read_elements a i n h = Inr (take n (drop i (ws @ [0])))" if "i + n \<le> length ws" for i n
    using that
  proof (induction n arbitrary: i)
    case (Suc n)
    then have i: "i < length (ws @ [0])" by simp
    have "get_object (arr_values a) i h = Inr ((ws @ [0]) ! i)"
      using array_at_holds [OF a i] a i by (simp add: array_at_def holds_def)
    moreover have "take (Suc n) (drop i (ws @ [0])) = (ws @ [0]) ! i # take n (drop (Suc i) (ws @ [0]))"
      using i by (metis Cons_nth_drop_Suc take_Suc_Cons)
    ultimately show ?case using Suc by simp
  qed simp
  from this [of 0 "length ws"] a show ?thesis by (simp add: to_view_def holds_def)
qed

lemma string_of_narrow_holds:
  assumes "heap_ok h" and "length s + 1 < 2 ^ 32" and "\<not> refuse h (next_block h)"
  shows "\<exists>a h'. string_of_narrow s h = Inr (a, h') \<and> holds h' a (widen s @ [0]) \<and> keeps_heap {0, arr_values a} h h'"
proof -
  have "holds h null_array []" by (simp add: holds_def null_array_def)
  from resize_holds [OF assms(1) this assms(2,3), of unit_move 0] obtain a h1 where
    r: "array_resize unit_move (length s + 1) 0 null_array h = Inr (a, h1)"
      "holds h1 a ([] @ replicate (length s) 0 @ [0])" "keeps_heap {0, arr_values a} h h1"
    by (auto simp: null_array_def replicate_append_same simp flip: replicate_Suc)
  have "length (replicate (length s) (0 :: u16)) = length (widen s)" by (simp add: widen_def)
  from assign_units_holds [OF r(2) this] obtain h' where
    w: "assign_units a 0 (widen s) h1 = Inr h'" "holds h' a (widen s @ [0])" "only_block (arr_values a) h1 h'"
    by auto
  have "arr_values a \<noteq> 0" using w(2) by (auto simp: holds_def split: if_splits)
  moreover have "heap_ok h1" using r(3) by (simp add: keeps_heap_def)
  ultimately have "arr_values a < next_block h1"
    using r(2) by (auto simp: holds_def heap_ok_def not_less [symmetric])
  with \<open>arr_values a \<noteq> 0\<close> have "keeps_heap {0, arr_values a} h h'"
    using keeps_heap_only_block [OF r(3) w(3)] by simp
  with r(1) w show ?thesis by (auto simp: string_of_narrow_def)
qed

text \<open>A narrow string of any bytes, zeros included, becomes a terminated script string that compares
  equal to it and converts back to exactly it; no object is lost and no other memory changes.\<close>

theorem script_string_roundtrip:
  assumes "heap_ok h" and "length s + 1 < 2 ^ 32" and "\<not> refuse h (next_block h)"
  shows "\<exists>a h'. string_of_narrow s h = Inr (a, h') \<and> holds h' a (widen s @ [0]) \<and>
    to_narrow a h' = Inr s \<and> equal_narrow a s h' = Inr True \<and> keeps_heap {0, arr_values a} h h'"
proof -
  obtain a h' where s: "string_of_narrow s h = Inr (a, h')" "holds h' a (widen s @ [0])" "keeps_heap {0, arr_values a} h h'"
    using string_of_narrow_holds [OF assms] by blast
  have "arr_length a = length s + 1" using s(2) by (simp add: holds_def widen_def)
  then have "equal_narrow a s h' = Inr True"
    using units_equal_holds [of h' a "[]" "widen s"] s(2) by (simp add: equal_narrow_def)
  with s to_view_holds [OF s(2)] show ?thesis by (auto simp: to_narrow_def)
qed

definition empty_heap :: string_heap where
  "empty_heap = \<lparr>blocks = (\<lambda>p. None), next_block = 1, refuse = (\<lambda>n. False), lost = 0\<rparr>"

lemma empty_heap_ok: "heap_ok empty_heap" "\<not> refuse empty_heap (next_block empty_heap)"
  by (simp_all add: heap_ok_def empty_heap_def)

theorem script_string_roundtrip_witness:
  "\<exists>a h'. string_of_narrow [0x61, 0, 0xE4] empty_heap = Inr (a, h') \<and> to_narrow a h' = Inr [0x61, 0, 0xE4]"
proof -
  have "length [0x61, 0, 0xE4 :: byte] + 1 < 2 ^ 32" by simp
  from script_string_roundtrip [OF empty_heap_ok(1) this empty_heap_ok(2)] show ?thesis by blast
qed

text \<open>Two strings that both equal the empty text can differ from each other: the default string has
  no element, the one made of an empty text has the terminator.\<close>

theorem empty_strings_differ:
  assumes "heap_ok h" and "\<not> refuse h (next_block h)"
  shows "\<exists>a h'. string_of_narrow [] h = Inr (a, h') \<and> equal_narrow a [] h' = Inr True \<and>
    equal_narrow null_array [] h' = Inr True \<and> to_view a h' = to_view null_array h' \<and>
    string_equal null_array a h' = Inr False"
proof -
  have "length ([] :: byte list) + 1 < 2 ^ 32" by simp
  from script_string_roundtrip [OF assms(1) this assms(2)] obtain a h' where
    a: "string_of_narrow [] h = Inr (a, h')" "holds h' a ([] @ [0])" "equal_narrow a [] h' = Inr True"
    by (auto simp: widen_def)
  have "arr_length a = 1" using a(2) by (simp add: holds_def)
  with a to_view_holds [OF a(2)] show ?thesis
    by (auto simp: equal_narrow_def string_equal_def null_array_def to_view_def)
qed

theorem empty_strings_differ_witness:
  "\<exists>a h'. string_of_narrow [] empty_heap = Inr (a, h') \<and> string_equal null_array a h' = Inr False"
  using empty_strings_differ [OF empty_heap_ok] by blast

section \<open>Properties of the script functions and files\<close>

text \<open>A registration registers every pending function once, in order, and leaves none pending.\<close>

lemma perform_registrations_all:
  "(\<forall>n. memory n) \<Longrightarrow> perform_registrations name_id memory es r =
     Inr (r\<lparr>known := known r @ map (\<lambda>(name, f). (name_id name, f)) es\<rparr>)"
  by (induction es arbitrary: r) (auto simp: perform_registration_def)

lemma stub_registers_all:
  "(\<forall>n. memory n) \<Longrightarrow> register_script_functions_stub name_id memory r =
     Inr (r\<lparr>known := known r @ map (\<lambda>(name, f). (name_id name, f)) (pending r), pending := []\<rparr>)"
  by (simp add: register_script_functions_stub_def perform_registrations_all)

definition overrides :: "u16 list \<Rightarrow> u16 list \<Rightarrow> bool" where
  "overrides custom_script base_script \<longleftrightarrow>
     (case str_find custom_script scripts_separator 0 of
        None \<Rightarrow> False
      | Some pos \<Rightarrow> ends_with base_script (drop (pos + length scripts_separator) custom_script))"

lemma remove_overridden_by_filter:
  "remove_overridden_by c base_scripts = filter (\<lambda>b. \<not> overrides c b) base_scripts"
  by (auto simp: remove_overridden_by_def overrides_def split: option.splits)

text \<open>The scripts of a folder replace exactly the base scripts one of them overrides: the others stay
  in their order, and the custom ones follow, in the order they were found.\<close>

theorem add_scripts_replaces_overridden:
  "add_scripts_from_folder base fs scripts =
     filter (\<lambda>b. \<forall>c \<in> set (collect_custom_scripts base fs). \<not> overrides c b) scripts @
     collect_custom_scripts base fs"
proof -
  have "remove_overriden_base_scripts bs cs = filter (\<lambda>b. \<forall>c \<in> set cs. \<not> overrides c b) bs" for bs cs
    by (induction cs arbitrary: bs) (simp_all add: remove_overridden_by_filter conj_commute)
  then show ?thesis by (simp add: add_scripts_from_folder_def Let_def)
qed

text \<open>The comparison does not stop at the end of a name: \<open>a.ws\<close> also replaces \<open>extra.ws\<close>.\<close>

lemma unrelated_script_overridden:
  "overrides (widen (lit [CHR 0x5C] @ lit ''scripts'' @ lit [CHR 0x5C] @ lit ''a.ws'')) (widen (lit ''extra.ws''))"
  by (simp add: overrides_def scripts_separator_def str_find_def ends_with_def lit_def widen_def)

end
