(* ===== verification/Properties.thy ===== *)
theory Properties
  imports File_System
begin

text \<open>
  The stored settings (src/common/utils/properties.cpp): a JSON document that is read from a
  file, changed by name and written back at every change. Parsing and printing are those of
  rapidjson, which is not part of the repository, as parameters. What the code relies on, and
  gets wrong, is who owns the strings: \<open>Parse\<close> copies the text into the document, while the
  constructor and \<open>SetString\<close> with a pointer and a length keep the pointer. A string of the
  document is therefore \<open>Owned\<close> or \<open>Borrowed\<close>, and a heap maps the addresses of the live
  buffers to their bytes.
\<close>

section \<open>Model\<close>

type_synonym string_heap = "nat \<rightharpoonup> byte list"

datatype json_string = Owned "byte list" | Borrowed nat nat

text \<open>Of the values only strings and numbers are looked into; the others are kept as their text.\<close>

datatype json_value =
    Json_null
  | Json_int int
  | Json_double u64
  | Json_string json_string
  | Json_other "byte list"

type_synonym json_members = "(json_string \<times> json_value) list"

record json_lib =
  json_parse :: "byte list \<Rightarrow> json_members option"
  json_pretty :: "json_members \<Rightarrow> byte list"

record properties =
  properties_path :: path
  document :: json_members

text \<open>A pointer and a length are read as long as the buffer lives.\<close>

fun fetch_string :: "string_heap \<Rightarrow> json_string \<Rightarrow> exn + byte list" where
  "fetch_string h (Owned s) = Inr s"
| "fetch_string h (Borrowed a n) =
     (case h a of
        None \<Rightarrow> Inl Undefined_behaviour
      | Some s \<Rightarrow> if n \<le> length s then Inr (take n s) else Inl Undefined_behaviour)"

fun json_length :: "json_string \<Rightarrow> nat" where
  "json_length (Owned s) = length s"
| "json_length (Borrowed a n) = n"

definition c_text :: "byte list \<Rightarrow> byte list" where "c_text s = takeWhile (\<lambda>b. b \<noteq> 0) s"

text \<open>\<open>FindMember\<close>: the lengths are compared first, the bytes only when they agree.\<close>

definition name_equal :: "string_heap \<Rightarrow> json_string \<Rightarrow> byte list \<Rightarrow> exn + bool" where
  "name_equal h k name =
     (if json_length k \<noteq> length name then Inr False
      else exn_bind (fetch_string h k) (\<lambda>s. Inr (s = name)))"

fun find_member :: "string_heap \<Rightarrow> byte list \<Rightarrow> json_members \<Rightarrow> exn + nat option" where
  "find_member h name [] = Inr None"
| "find_member h name ((k, v) # ms) =
     exn_bind (name_equal h k name) (\<lambda>same.
       if same then Inr (Some 0)
       else exn_bind (find_member h name ms) (\<lambda>r. Inr (map_option Suc r)))"

definition open_properties :: "json_lib \<Rightarrow> path \<Rightarrow> file_system \<Rightarrow> exn + properties" where
  "open_properties L path fs =
     exn_bind (io_read_file path fs) (\<lambda>data.
       Inr \<lparr>properties_path = path,
         document = (case data of
             None \<Rightarrow> []
           | Some text \<Rightarrow> (case json_parse L text of None \<Rightarrow> [] | Some ms \<Rightarrow> ms))\<rparr>)"

text \<open>What the writer reads of the document, with every string in place.\<close>

definition fetch_value :: "string_heap \<Rightarrow> json_value \<Rightarrow> exn + json_value" where
  "fetch_value h v =
     (case v of Json_string s \<Rightarrow> exn_bind (fetch_string h s) (\<lambda>t. Inr (Json_string (Owned t))) | _ \<Rightarrow> Inr v)"

fun fetch_members :: "string_heap \<Rightarrow> json_members \<Rightarrow> exn + json_members" where
  "fetch_members h [] = Inr []"
| "fetch_members h ((k, v) # ms) =
     exn_bind (fetch_string h k) (\<lambda>k'.
     exn_bind (fetch_value h v) (\<lambda>v'.
     exn_bind (fetch_members h ms) (\<lambda>ms'. Inr ((Owned k', v') # ms'))))"

definition save :: "json_lib \<Rightarrow> string_heap \<Rightarrow> properties \<Rightarrow> file_system \<Rightarrow> exn + file_system" where
  "save L h p fs =
     exn_bind (fetch_members h (document p)) (\<lambda>ms.
       Inr (snd (io_write_file (properties_path p) (json_pretty L ms) False fs)))"

text \<open>A \<open>std::string\<close> argument is its address and its bytes; the heap holds what else is alive.\<close>

type_synonym string_ref = "nat \<times> byte list"

definition create_member :: "string_heap \<Rightarrow> string_ref \<Rightarrow> properties \<Rightarrow> exn + properties" where
  "create_member h name p =
     exn_bind (find_member h (c_text (snd name)) (document p)) (\<lambda>r.
       Inr (case r of
           Some i \<Rightarrow> p
         | None \<Rightarrow> p\<lparr>document := document p @ [(Borrowed (fst name) (length (snd name) mod 2 ^ 32), Json_null)]\<rparr>))"

definition remove_property :: "string_heap \<Rightarrow> string_ref \<Rightarrow> properties \<Rightarrow> exn + properties" where
  "remove_property h name p =
     exn_bind (find_member (h(fst name \<mapsto> snd name)) (c_text (snd name)) (document p)) (\<lambda>r.
       Inr (case r of
           None \<Rightarrow> p
         | Some i \<Rightarrow> p\<lparr>document := butlast ((document p)[i := last (document p)])\<rparr>))"

text \<open>The value under a name, for the three functions that read one.\<close>

definition property_value :: "string_heap \<Rightarrow> string_ref \<Rightarrow> properties \<Rightarrow> exn + json_value option" where
  "property_value h name p =
     exn_bind (find_member (h(fst name \<mapsto> snd name)) (c_text (snd name)) (document p)) (\<lambda>r.
       Inr (map_option (\<lambda>i. snd (document p ! i)) r))"

definition get_string :: "string_heap \<Rightarrow> string_ref \<Rightarrow> properties \<Rightarrow> exn + byte list option" where
  "get_string h name p =
     exn_bind (property_value h name p) (\<lambda>r.
       case r of
         Some (Json_string s) \<Rightarrow> exn_bind (fetch_string h s) (\<lambda>t. Inr (Some t))
       | _ \<Rightarrow> Inr None)"

definition get_int64 :: "string_heap \<Rightarrow> string_ref \<Rightarrow> properties \<Rightarrow> exn + u64 option" where
  "get_int64 h name p =
     exn_bind (property_value h name p) (\<lambda>r.
       Inr (case r of
           Some (Json_int n) \<Rightarrow> if - (2 ^ 63) \<le> n \<and> n < 2 ^ 63 then Some (of_int n) else None
         | _ \<Rightarrow> None))"

definition get_double :: "string_heap \<Rightarrow> string_ref \<Rightarrow> properties \<Rightarrow> exn + u64 option" where
  "get_double h name p =
     exn_bind (property_value h name p) (\<lambda>r.
       Inr (case r of Some (Json_double d) \<Rightarrow> Some d | _ \<Rightarrow> None))"

text \<open>
  \<open>set\<close>: the member is made when there is none, looked up again, given its value, and the
  document saved. \<open>operator[]\<close> has no meaning for a name that is not found, which a name
  with a zero byte is.
\<close>

definition set_property ::
    "json_lib \<Rightarrow> string_heap \<Rightarrow> string_ref \<Rightarrow> json_value \<Rightarrow> properties \<Rightarrow> file_system \<Rightarrow>
     exn + properties \<times> file_system" where
  "set_property L h name v p fs =
     exn_bind (create_member h name p) (\<lambda>p1.
     exn_bind (find_member h (c_text (snd name)) (document p1)) (\<lambda>r.
       case r of
         None \<Rightarrow> Inl Undefined_behaviour
       | Some i \<Rightarrow>
           let p2 = p1\<lparr>document := (document p1)[i := (fst (document p1 ! i), v)]\<rparr> in
           exn_bind (save L h p2 fs) (\<lambda>fs'. Inr (p2, fs'))))"

definition set_string ::
    "json_lib \<Rightarrow> string_heap \<Rightarrow> string_ref \<Rightarrow> string_ref \<Rightarrow> properties \<Rightarrow> file_system \<Rightarrow>
     exn + properties \<times> file_system" where
  "set_string L h name text p fs =
     set_property L (h(fst name \<mapsto> snd name, fst text \<mapsto> snd text)) name
       (Json_string (Borrowed (fst text) (length (snd text) mod 2 ^ 32))) p fs"

definition set_int64 ::
    "json_lib \<Rightarrow> string_heap \<Rightarrow> string_ref \<Rightarrow> u64 \<Rightarrow> properties \<Rightarrow> file_system \<Rightarrow>
     exn + properties \<times> file_system" where
  "set_int64 L h name n p fs =
     set_property L (h(fst name \<mapsto> snd name)) name (Json_int (sint n)) p fs"

definition set_double ::
    "json_lib \<Rightarrow> string_heap \<Rightarrow> string_ref \<Rightarrow> u64 \<Rightarrow> properties \<Rightarrow> file_system \<Rightarrow>
     exn + properties \<times> file_system" where
  "set_double L h name d p fs =
     set_property L (h(fst name \<mapsto> snd name)) name (Json_double d) p fs"

section \<open>Reading the document\<close>

text \<open>The document with every string in place, as the abstract settings: lookups, updates.\<close>

fun key_index :: "byte list \<Rightarrow> json_members \<Rightarrow> nat option" where
  "key_index name [] = None"
| "key_index name ((k, v) # ms) = (if k = Owned name then Some 0 else map_option Suc (key_index name ms))"

definition set_member :: "byte list \<Rightarrow> json_value \<Rightarrow> json_members \<Rightarrow> json_members" where
  "set_member name v ms =
     (case key_index name ms of None \<Rightarrow> ms @ [(Owned name, v)] | Some i \<Rightarrow> ms[i := (Owned name, v)])"

lemma fetch_string_length: "fetch_string h k = Inr s \<Longrightarrow> json_length k = length s"
  by (cases k) (auto split: option.splits if_splits)

lemma fetch_string_error: "fetch_string h k = Inl e \<Longrightarrow> e = Undefined_behaviour"
  by (cases k) (auto split: option.splits if_splits)

lemma fetch_value_error: "fetch_value h v = Inl e \<Longrightarrow> e = Undefined_behaviour"
  by (cases v) (auto simp: fetch_value_def exn_bind_eq_Inl dest: fetch_string_error)

lemma fetch_value_idem: "fetch_value h v = Inr v' \<Longrightarrow> fetch_value h2 v' = Inr v'"
  by (auto simp: fetch_value_def exn_bind_eq_Inr split: json_value.splits)

lemma fetch_members_error: "fetch_members h ms = Inl e \<Longrightarrow> e = Undefined_behaviour"
  by (induction h ms rule: fetch_members.induct)
    (auto simp: exn_bind_eq_Inl dest: fetch_string_error fetch_value_error)

lemma fetch_members_idem: "fetch_members h ms = Inr ms' \<Longrightarrow> fetch_members h2 ms' = Inr ms'"
  by (induction h ms arbitrary: ms' rule: fetch_members.induct)
    (auto simp: exn_bind_eq_Inr dest: fetch_value_idem)

lemma fetch_members_length: "fetch_members h ms = Inr ms' \<Longrightarrow> length ms' = length ms"
  by (induction h ms arbitrary: ms' rule: fetch_members.induct) (auto simp: exn_bind_eq_Inr)

lemma fetch_members_snoc:
  "fetch_members h ms = Inr ms' \<Longrightarrow> fetch_string h k = Inr k' \<Longrightarrow> fetch_value h v = Inr v' \<Longrightarrow>
   fetch_members h (ms @ [(k, v)]) = Inr (ms' @ [(Owned k', v')])"
  by (induction h ms arbitrary: ms' rule: fetch_members.induct) (auto simp: exn_bind_eq_Inr)

lemma fetch_members_update:
  "fetch_members h ms = Inr ms' \<Longrightarrow> i < length ms \<Longrightarrow> fetch_value h v = Inr v' \<Longrightarrow>
   fetch_members h (ms[i := (fst (ms ! i), v)]) = Inr (ms'[i := (fst (ms' ! i), v')])"
proof (induction h ms arbitrary: ms' i rule: fetch_members.induct)
  case (2 h k u ms)
  then show ?case by (cases i) (auto simp: exn_bind_eq_Inr)
qed simp

lemma find_member_live:
  "fetch_members h ms = Inr ms' \<Longrightarrow> find_member h name ms = Inr (key_index name ms')"
proof (induction h ms arbitrary: ms' rule: fetch_members.induct)
  case (2 h k v ms)
  then obtain k' v' rest where parts: "fetch_string h k = Inr k'" "fetch_members h ms = Inr rest"
    "ms' = (Owned k', v') # rest"
    by (auto simp: exn_bind_eq_Inr)
  with 2(1) [of k' v' rest] 2(2) show ?case
    by (auto simp: name_equal_def exn_bind_eq_Inr fetch_string_length [OF parts(1)])
qed simp

lemma key_index_found:
  "key_index name ms = Some i \<Longrightarrow> i < length ms \<and> fst (ms ! i) = Owned name"
  by (induction name ms arbitrary: i rule: key_index.induct) (auto split: if_splits)

lemma key_index_lookup: "map_option (\<lambda>i. snd (ms ! i)) (key_index name ms) = map_of ms (Owned name)"
  by (induction name ms rule: key_index.induct) (auto simp: option.map_comp o_def)

lemma key_index_none: "key_index name ms = None \<longleftrightarrow> map_of ms (Owned name) = None"
  using key_index_lookup [of ms name] by (metis option.map_disc_iff)

lemma key_index_snoc:
  "key_index name ms = None \<Longrightarrow> key_index name (ms @ [(Owned name, v)]) = Some (length ms)"
  by (induction name ms rule: key_index.induct) (auto split: if_splits)

lemma lookup_set_member:
  "map_of (set_member name v ms) (Owned other) = (if other = name then Some v else map_of ms (Owned other))"
proof (cases "key_index name ms")
  case None
  then show ?thesis
    using key_index_none [of name ms] by (auto simp: set_member_def map_add_def split: option.splits)
next
  case (Some i)
  then have "map_of (ms[i := (Owned name, v)]) (Owned other) = (if other = name then Some v else map_of ms (Owned other))"
  proof (induction name ms arbitrary: i rule: key_index.induct)
    case (2 name k u ms)
    then show ?case by (cases "k = Owned name") (auto split: option.splits)
  qed simp
  with Some show ?thesis by (simp add: set_member_def)
qed

section \<open>Setting\<close>

text \<open>While every string of the document lives, a set is the update of the settings and a save.\<close>

lemma create_member_live:
  assumes "fetch_members h (document p) = Inr ms" and "h (fst name) = Some (snd name)"
    and "0 \<notin> set (snd name)" and "length (snd name) < 2 ^ 32"
  shows "\<exists>p1 ms1. create_member h name p = Inr p1 \<and> properties_path p1 = properties_path p \<and>
    fetch_members h (document p1) = Inr ms1 \<and>
    (case key_index (snd name) ms of
       None \<Rightarrow> ms1 = ms @ [(Owned (snd name), Json_null)]
     | Some i \<Rightarrow> ms1 = ms)"
proof -
  have "c_text (snd name) = snd name"
    using assms(3) by (auto simp: c_text_def takeWhile_eq_all_conv)
  with assms show ?thesis
    using fetch_members_snoc [OF assms(1), of "Borrowed (fst name) (length (snd name))" "snd name" Json_null Json_null]
    by (auto simp: create_member_def find_member_live fetch_value_def split: option.splits)
qed

lemma set_property_live:
  assumes "fetch_members h (document p) = Inr ms" and "h (fst name) = Some (snd name)"
    and "0 \<notin> set (snd name)" and "length (snd name) < 2 ^ 32" and "fetch_value h v = Inr v'"
  shows "\<exists>p'. set_property L h name v p fs = Inr (p',
      snd (io_write_file (properties_path p) (json_pretty L (set_member (snd name) v' ms)) False fs)) \<and>
    fetch_members h (document p') = Inr (set_member (snd name) v' ms) \<and>
    properties_path p' = properties_path p"
proof -
  have cname: "c_text (snd name) = snd name"
    using assms(3) by (auto simp: c_text_def takeWhile_eq_all_conv)
  obtain p1 ms1 where p1: "create_member h name p = Inr p1" "properties_path p1 = properties_path p"
      "fetch_members h (document p1) = Inr ms1"
    and ms1: "case key_index (snd name) ms of None \<Rightarrow> ms1 = ms @ [(Owned (snd name), Json_null)] | Some i \<Rightarrow> ms1 = ms"
    using create_member_live [OF assms(1-4)] by blast
  obtain i where i: "key_index (snd name) ms1 = Some i"
      and after: "ms1[i := (Owned (snd name), v')] = set_member (snd name) v' ms"
    using ms1 key_index_snoc [of "snd name" ms Json_null]
    by (cases "key_index (snd name) ms") (auto simp: set_member_def)
  note found = key_index_found [OF i]
  let ?p2 = "p1\<lparr>document := (document p1)[i := (fst (document p1 ! i), v)]\<rparr>"
  have "fetch_members h (document ?p2) = Inr (set_member (snd name) v' ms)"
    using fetch_members_update [OF p1(3) _ assms(5), of i] found fetch_members_length [OF p1(3)] after by simp
  with p1 show ?thesis
    by (simp add: set_property_def cname find_member_live [OF p1(3)] i Let_def save_def)
qed

text \<open>An opened document owns its strings.\<close>

definition owned_document :: "json_members \<Rightarrow> bool" where
  "owned_document ms \<longleftrightarrow> fetch_members Map.empty ms = Inr ms"

lemma owned_live: "owned_document ms \<Longrightarrow> fetch_members h ms = Inr ms"
  unfolding owned_document_def by (rule fetch_members_idem)

lemma owned_lookup:
  assumes "owned_document (document q)" and "0 \<notin> set (snd name)"
  shows "property_value h name q = Inr (map_of (document q) (Owned (snd name)))"
proof -
  have "c_text (snd name) = snd name"
    using assms(2) by (auto simp: c_text_def takeWhile_eq_all_conv)
  then show ?thesis
    by (simp add: property_value_def find_member_live [OF owned_live [OF assms(1)]] key_index_lookup)
qed

lemma open_after_write:
  assumes "fst (io_write_file path text False fs)" and "length text < 2 ^ 32"
    and "json_parse L text = Some ms"
  shows "open_properties L path (snd (io_write_file path text False fs)) =
    Inr \<lparr>properties_path = path, document = ms\<rparr>"
proof -
  obtain fs' where "io_write_file path text False fs = (True, fs')"
    using assms(1) by (cases "io_write_file path text False fs") auto
  from write_file_written [OF this] this assms(2,3) show ?thesis
    by (simp add: open_properties_def io_read_file_def)
qed

section \<open>Properties\<close>


definition demo_settings :: "json_members" where
  "demo_settings = [(Owned (lit ''a''), Json_int 5), (Owned (lit ''b''), Json_string (Owned (lit ''x'')))]"

definition demo_json :: json_lib where
  "demo_json = \<lparr>json_parse = (\<lambda>t. if t = [1] then Some (set_member (lit ''c'') (Json_string (Owned (lit ''y''))) demo_settings)
       else None), json_pretty = (\<lambda>ms. [1])\<rparr>"


section \<open>Settings whose strings are gone\<close>

lemma find_member_error: "find_member h name ms = Inl e \<Longrightarrow> e = Undefined_behaviour"
  by (induction h name ms rule: find_member.induct)
    (auto simp: exn_bind_eq_Inl name_equal_def dest: fetch_string_error split: if_splits)

lemma find_member_found:
  "find_member h name ms = Inr (Some i) \<Longrightarrow>
     i < length ms \<and> name_equal h (fst (ms ! i)) name = Inr True"
  by (induction h name ms arbitrary: i rule: find_member.induct)
    (auto simp: exn_bind_eq_Inr split: if_splits)

lemma fetch_members_all: "fetch_members h ms = Inr ms' \<Longrightarrow> (k, v) \<in> set ms \<Longrightarrow> \<exists>v'. fetch_value h v = Inr v'"
  by (induction h ms arbitrary: ms' rule: fetch_members.induct) (auto simp: exn_bind_eq_Inr)

lemma save_dead:
  assumes "(k, Json_string (Borrowed a n)) \<in> set (document p)" and "h a = None"
  shows "save L h p fs = Inl Undefined_behaviour"
proof (cases "fetch_members h (document p)")
  case (Inl e)
  then show ?thesis using fetch_members_error [OF Inl] by (simp add: save_def)
next
  case (Inr ms)
  from fetch_members_all [OF Inr assms(1)] assms(2) show ?thesis by (simp add: fetch_value_def)
qed

text \<open>A set that does not reach a member with a dead text saves the dead text.\<close>

lemma set_property_dead:
  assumes "document p ! i = (k, Json_string (Borrowed a n))" and "i < length (document p)"
    and "h a = None" and "name_equal h k (c_text (snd name)) \<noteq> Inr True"
  shows "set_property L h name v p fs = Inl Undefined_behaviour"
proof (cases "create_member h name p")
  case (Inl e)
  then show ?thesis
    by (auto simp: set_property_def create_member_def exn_bind_eq_Inl dest: find_member_error)
next
  case (Inr p1)
  then have doc: "document p1 ! i = document p ! i" "i < length (document p1)"
    using assms(2) by (auto simp: create_member_def exn_bind_eq_Inr nth_append split: option.splits)
  show ?thesis
  proof (cases "find_member h (c_text (snd name)) (document p1)")
    case (Inl e)
    then show ?thesis using Inr find_member_error [OF Inl] by (simp add: set_property_def)
  next
    case found: (Inr r)
    show ?thesis
    proof (cases r)
      case None
      with Inr found show ?thesis by (simp add: set_property_def)
    next
      case (Some j)
      with found have "name_equal h (fst (document p1 ! j)) (c_text (snd name)) = Inr True"
        using find_member_found by simp
      then have "j \<noteq> i" using assms(1,4) doc(1) by auto
      let ?p2 = "p1\<lparr>document := (document p1)[j := (fst (document p1 ! j), v)]\<rparr>"
      have "document ?p2 ! i = (k, Json_string (Borrowed a n))" "i < length (document ?p2)"
        using \<open>j \<noteq> i\<close> doc assms(1) by simp_all
      then have "(k, Json_string (Borrowed a n)) \<in> set (document ?p2)"
        by (metis nth_mem)
      then have "save L h ?p2 fs = Inl Undefined_behaviour"
        using save_dead [of k a n ?p2 h] assms(3) by blast
      with Inr found Some show ?thesis by (simp add: set_property_def Let_def)
    qed
  qed
qed

lemma owned_key: "owned_document ms \<Longrightarrow> i < length ms \<Longrightarrow> \<exists>x. fst (ms ! i) = Owned x"
proof (unfold owned_document_def, induction ms arbitrary: i)
  case (Cons m ms)
  then show ?case by (cases m; cases i) (auto simp: exn_bind_eq_Inr)
qed simp

lemma set_string_borrows:
  assumes "owned_document (document p)" and "0 \<notin> set name" and "length name < 2 ^ 32"
    and "set_string L h (na, name) (ta, text) p fs = Inr (p', fs')"
  shows "\<exists>i k. i < length (document p') \<and>
    document p' ! i = (k, Json_string (Borrowed ta (length text mod 2 ^ 32))) \<and>
    (k = Owned name \<or> k = Borrowed na (length name))"
proof -
  let ?h = "h(na \<mapsto> name, ta \<mapsto> text)"
  let ?v = "Json_string (Borrowed ta (length text mod 2 ^ 32))"
  have cname: "c_text name = name"
    using assms(2) by (auto simp: c_text_def takeWhile_eq_all_conv)
  obtain p1 i where p1: "create_member ?h (na, name) p = Inr p1"
      "find_member ?h name (document p1) = Inr (Some i)"
      "p' = p1\<lparr>document := (document p1)[i := (fst (document p1 ! i), ?v)]\<rparr>"
    using assms(4)
    by (auto simp: set_string_def set_property_def cname exn_bind_eq_Inr Let_def split: option.splits)
  note found = find_member_found [OF p1(2)]
  have "fst (document p1 ! i) = Owned name \<or> fst (document p1 ! i) = Borrowed na (length name)"
  proof (cases "i < length (document p)")
    case True
    then have "document p1 ! i = document p ! i"
      using p1(1) by (auto simp: create_member_def exn_bind_eq_Inr nth_append split: option.splits)
    with owned_key [OF assms(1) True] found show ?thesis
      by (auto simp: name_equal_def split: if_splits)
  next
    case False
    with found p1(1) assms(3) show ?thesis
      by (auto simp: create_member_def exn_bind_eq_Inr nth_append less_Suc_eq split: option.splits)
  qed
  with found p1(3) show ?thesis by auto
qed

text \<open>C23: 
  The first setting of a run keeps pointers to the name and the text its caller passed. Once
  those strings are gone, setting another name writes memory that is no longer theirs, and
  so does the number or the string that is set then.
\<close>

theorem second_setting_saves_dead_text:
  assumes "owned_document (document p)" and "0 \<notin> set name" and "length name < 2 ^ 32"
    and "set_string L h (na, name) (ta, text) p fs = Inr (p', fs')"
    and "h2 na = None" and "h2 ta = None"
    and "na \<notin> {fst name2, fst text2}" and "ta \<notin> {fst name2, fst text2}" and "c_text (snd name2) \<noteq> name"
  shows "set_string L h2 name2 text2 p' fs2 = Inl Undefined_behaviour \<and>
    set_int64 L h2 name2 number p' fs2 = Inl Undefined_behaviour"
proof -
  obtain i k where i: "document p' ! i = (k, Json_string (Borrowed ta (length text mod 2 ^ 32)))"
      "i < length (document p')" and k: "k = Owned name \<or> k = Borrowed na (length name)"
    using set_string_borrows [OF assms(1-4)] by blast
  have dead: "set_property L h3 name2 v p' fs2 = Inl Undefined_behaviour" if "h3 na = None" "h3 ta = None" for h3 v
  proof -
    have "name_equal h3 k (c_text (snd name2)) \<noteq> Inr True"
      using k assms(9) that(1) by (auto simp: name_equal_def)
    with set_property_dead [OF i, where h = h3 and name = name2] that(2) show ?thesis by blast
  qed
  show ?thesis
    unfolding set_string_def set_int64_def using assms(5-8) by (intro conjI dead) simp_all
qed

theorem second_setting_saves_dead_text_witness:
  "\<exists>p' fs'. set_string demo_json Map.empty (1, lit ''c'') (2, lit ''y'')
      \<lparr>properties_path = [lit ''f''], document = demo_settings\<rparr> [] = Inr (p', fs') \<and>
    set_string demo_json Map.empty (3, lit ''b'') (4, lit ''z'') p' [] = Inl Undefined_behaviour"
proof -
  let ?p = "\<lparr>properties_path = [lit ''f''], document = demo_settings\<rparr>"
  have owned: "owned_document (document ?p)"
    by (simp add: owned_document_def demo_settings_def fetch_value_def)
  have names: "0 \<notin> set (lit ''c'')" "length (lit ''c'') < 2 ^ 32" "c_text (snd (3 :: nat, lit ''b'')) \<noteq> lit ''c''"
    by (simp_all add: lit_def c_text_def)
  have "fetch_value (Map.empty(1 \<mapsto> lit ''c'', 2 \<mapsto> lit ''y'')) (Json_string (Borrowed 2 (length (lit ''y'') mod 2 ^ 32))) =
      Inr (Json_string (Owned (lit ''y'')))"
    by (simp add: fetch_value_def lit_def)
  from set_property_live [where name = "(1, lit ''c'')", OF owned_live [OF owned] _ _ _ this, of demo_json "[]"] names
  obtain p' fs' where first: "set_string demo_json Map.empty (1, lit ''c'') (2, lit ''y'') ?p [] = Inr (p', fs')"
    by (auto simp: set_string_def)
  from second_setting_saves_dead_text [OF owned names(1,2) first, of Map.empty "(3, lit ''b'')" "(4, lit ''z'')" "[]"]
    names(3)
  have "set_string demo_json Map.empty (3, lit ''b'') (4, lit ''z'') p' [] = Inl Undefined_behaviour" by simp
  with first show ?thesis by blast
qed

end
