(* ===== verification/Player_Name.thy ===== *)
theory Player_Name
  imports Properties String_Utils
begin

text \<open>
  The player's name (src/client/module/scripting_experiments.cpp): it is read from the settings,
  or taken from Steam or the system at the first start and stored. The literal \<open>player_name\<close>
  becomes a temporary string at each call; its address and those of the other strings are
  arguments, as in \<open>Properties\<close>. What Steam and the system answer are parameters. The name
  that is in use is kept for the run of the program.
\<close>

section \<open>Model\<close>

definition name_key :: "byte list" where "name_key = lit ''player_name''"

text \<open>\<open>utils::nt::get_user_name\<close>: the system counts the terminator.\<close>

definition get_user_name :: "(byte list \<times> nat) option \<Rightarrow> byte list" where
  "get_user_name answer = (case answer of None \<Rightarrow> [] | Some (buffer, n) \<Rightarrow> take (n - 1) buffer)"

text \<open>Steam's answer: an exception of the call, a null pointer, or a C string.\<close>

definition get_default_player_name :: "exn + byte list option \<Rightarrow> byte list \<Rightarrow> exn + byte list" where
  "get_default_player_name steam user =
     exn_bind steam (\<lambda>steam_name. Inr (case steam_name of Some s \<Rightarrow> c_text s | None \<Rightarrow> user))"

definition set_stored_player_name ::
    "json_lib \<Rightarrow> string_heap \<Rightarrow> nat \<Rightarrow> string_ref \<Rightarrow> properties \<Rightarrow> file_system \<Rightarrow>
     exn + properties \<times> file_system" where
  "set_stored_player_name L h key new p fs = set_string L h (key, name_key) new p fs"

definition get_stored_player_name :: "string_heap \<Rightarrow> nat \<Rightarrow> properties \<Rightarrow> exn + byte list option" where
  "get_stored_player_name h key p = get_string h (key, name_key) p"

definition load_player_name ::
    "json_lib \<Rightarrow> string_heap \<Rightarrow> nat \<Rightarrow> nat \<Rightarrow> exn + byte list option \<Rightarrow> byte list \<Rightarrow>
     properties \<Rightarrow> file_system \<Rightarrow> exn + byte list \<times> properties \<times> file_system" where
  "load_player_name L h key stored steam user p fs =
     exn_bind (get_stored_player_name h key p) (\<lambda>stored_name.
       case stored_name of
         Some n \<Rightarrow> Inr (n, p, fs)
       | None \<Rightarrow>
           exn_bind (get_default_player_name steam user) (\<lambda>n.
           exn_bind (set_stored_player_name L h key (stored, n) p fs) (\<lambda>(p', fs').
             Inr (n, p', fs'))))"

text \<open>The static variable is initialised by its first use; an exception leaves it for the next one.\<close>

definition get_player_name ::
    "json_lib \<Rightarrow> string_heap \<Rightarrow> nat \<Rightarrow> nat \<Rightarrow> exn + byte list option \<Rightarrow> byte list \<Rightarrow>
     byte list option \<Rightarrow> properties \<Rightarrow> file_system \<Rightarrow> exn + byte list \<times> properties \<times> file_system" where
  "get_player_name L h key stored steam user current p fs =
     (case current of
        Some n \<Rightarrow> Inr (n, p, fs)
      | None \<Rightarrow> load_player_name L h key stored steam user p fs)"

text \<open>\<open>update_player_name\<close>, from the text the script's string was converted to: what is in use then.\<close>

definition rename_player ::
    "json_lib \<Rightarrow> string_heap \<Rightarrow> nat \<Rightarrow> string_ref \<Rightarrow> properties \<Rightarrow> file_system \<Rightarrow>
     exn + byte list \<times> properties \<times> file_system" where
  "rename_player L h key new p fs =
     exn_bind (set_stored_player_name L h key new p fs) (\<lambda>(p', fs'). Inr (snd new, p', fs'))"

section \<open>Properties\<close>

lemma name_key_plain: "0 \<notin> set name_key" "length name_key < 2 ^ 32" "c_text name_key = name_key"
  by (simp_all add: name_key_def lit_def c_text_def)

text \<open>What the settings hold under the name after a text was set.\<close>

lemma stored_name_set:
  assumes "fetch_members (h(key \<mapsto> name_key, at \<mapsto> n)) (document p) = Inr ms" and "key \<noteq> at"
    and "length n < 2 ^ 32"
  shows "\<exists>p'. set_stored_player_name L h key (at, n) p fs = Inr (p', snd (io_write_file (properties_path p)
      (json_pretty L (set_member name_key (Json_string (Owned n)) ms)) False fs)) \<and>
    owned_document (set_member name_key (Json_string (Owned n)) ms)"
  using set_property_live [where name = "(key, name_key)" and v = "Json_string (Borrowed at (length n))" and
      v' = "Json_string (Owned n)", OF assms(1), of L fs] assms(2,3) name_key_plain
  by (auto simp: set_stored_player_name_def set_string_def fetch_value_def owned_document_def
      intro: fetch_members_idem)

lemma stored_name_owned:
  "owned_document (document q) \<Longrightarrow>
     get_stored_player_name h key q = (case map_of (document q) (Owned name_key) of
       Some (Json_string s) \<Rightarrow> exn_bind (fetch_string h s) (\<lambda>t. Inr (Some t)) | _ \<Rightarrow> Inr None)"
  using owned_lookup [of q "(key, name_key)" h] name_key_plain(1)
  by (simp add: get_stored_player_name_def get_string_def split: option.splits)

definition first_settings :: properties where
  "first_settings = \<lparr>properties_path = [lit ''f''], document = []\<rparr>"

definition remember_json :: json_lib where
  "remember_json = \<lparr>json_parse = (\<lambda>t. if t = [1] then Some (set_member name_key (Json_string (Owned (lit ''Geralt''))) [])
       else None), json_pretty = (\<lambda>ms. [1])\<rparr>"

text \<open>
  The name of the first start is remembered: the next start uses it, whatever Steam and the
  system say then, and writes nothing.
\<close>

theorem name_is_remembered:
  assumes "owned_document (document p)" and "map_of (document p) (Owned name_key) = None"
    and "get_default_player_name steam user = Inr n" and "length n < 2 ^ 32" and "key \<noteq> at"
    and "after = set_member name_key (Json_string (Owned n)) (document p)"
    and "json_parse L (json_pretty L after) = Some after" and "length (json_pretty L after) < 2 ^ 32"
    and "fst (io_write_file (properties_path p) (json_pretty L after) False fs)"
  shows "\<exists>p' fs' q. load_player_name L h key at steam user p fs = Inr (n, p', fs') \<and>
    open_properties L (properties_path p) fs' = Inr q \<and>
    load_player_name L h2 key2 at2 steam2 user2 q fs' = Inr (n, q, fs')"
proof -
  note live = owned_live [OF assms(1)]
  obtain p' where set: "set_stored_player_name L h key (at, n) p fs =
      Inr (p', snd (io_write_file (properties_path p) (json_pretty L after) False fs))"
    and owned: "owned_document after"
    using stored_name_set [OF live assms(5,4)] unfolding assms(6) by blast
  have "get_stored_player_name h key p = Inr None"
    using stored_name_owned [OF assms(1)] assms(2) by simp
  then have first: "load_player_name L h key at steam user p fs =
      Inr (n, p', snd (io_write_file (properties_path p) (json_pretty L after) False fs))"
    using set assms(3) by (simp add: load_player_name_def)
  let ?q = "\<lparr>properties_path = properties_path p, document = after\<rparr>"
  have "map_of (document ?q) (Owned name_key) = Some (Json_string (Owned n))"
    by (simp add: assms(6) lookup_set_member)
  moreover have "owned_document (document ?q)"
    using owned by simp
  ultimately have "get_stored_player_name h2 key2 ?q = Inr (Some n)"
    using stored_name_owned [of ?q] by simp
  then show ?thesis
    using first open_after_write [OF assms(9,8,7)] by (auto simp: load_player_name_def)
qed

theorem name_is_remembered_witness:
  "\<exists>p' fs' q. load_player_name remember_json Map.empty 1 2 (Inr (Some (lit ''Geralt''))) [] first_settings [] =
      Inr (lit ''Geralt'', p', fs') \<and>
    open_properties remember_json (properties_path first_settings) fs' = Inr q \<and>
    load_player_name remember_json Map.empty 1 2 (Inr (Some (lit ''Ciri''))) [] q fs' = Inr (lit ''Geralt'', q, fs')"
proof -
  let ?after = "set_member name_key (Json_string (Owned (lit ''Geralt''))) (document first_settings)"
  have "owned_document (document first_settings)" "map_of (document first_settings) (Owned name_key) = None"
    by (simp_all add: first_settings_def owned_document_def)
  moreover have "get_default_player_name (Inr (Some (lit ''Geralt''))) [] = Inr (lit ''Geralt'')"
    "length (lit ''Geralt'') < 2 ^ 32"
    by (simp_all add: get_default_player_name_def c_text_def lit_def)
  moreover have "json_parse remember_json (json_pretty remember_json ?after) = Some ?after"
    "length (json_pretty remember_json ?after) < 2 ^ 32"
    by (simp_all add: remember_json_def first_settings_def)
  moreover have "fst (io_write_file (properties_path first_settings) (json_pretty remember_json ?after) False [])"
    by (simp add: first_settings_def io_write_file_def node_at_def put_node_def lit_def full_def dot_def dotdot_def Let_def)
  ultimately show ?thesis
    using name_is_remembered [OF _ _ _ _ _ refl, of first_settings] by auto
qed

text \<open>
  In the run in which the path of the game is chosen and stored, the strings of that setting are
  gone when the name is first needed: storing the name then writes dead memory.
\<close>

lemma first_run_saves_dead_path:
  assumes "owned_document (document p)" and "0 \<notin> set path_key" and "length path_key < 2 ^ 32"
    and "set_string L h (a1, path_key) (a2, path) p fs = Inr (p', fs')"
    and "h2 a1 = None" and "h2 a2 = None" and "{a1, a2} \<inter> {key, at} = {}" and "path_key \<noteq> name_key"
    and "get_default_player_name steam user = Inr n"
    and "get_stored_player_name h2 key p' = Inr None"
  shows "load_player_name L h2 key at steam user p' fs' = Inl Undefined_behaviour"
proof -
  obtain i k where i: "document p' ! i = (k, Json_string (Borrowed a2 (length path mod 2 ^ 32)))"
      "i < length (document p')" and k: "k = Owned path_key \<or> k = Borrowed a1 (length path_key)"
    using set_string_borrows [OF assms(1-4)] by blast
  let ?h = "h2(key \<mapsto> name_key, at \<mapsto> n)"
  have dead: "?h a1 = None" "?h a2 = None" using assms(5-7) by auto
  have "name_equal ?h k (c_text (snd (key, name_key))) \<noteq> Inr True"
    using k assms(8) dead(1) name_key_plain(3) by (auto simp: name_equal_def)
  from set_property_dead [OF i, of ?h "(key, name_key)"] dead(2) this
  have "set_stored_player_name L h2 key (at, n) p' fs' = Inl Undefined_behaviour"
    by (simp add: set_stored_player_name_def set_string_def)
  then show ?thesis using assms(9,10) by (simp add: load_player_name_def)
qed

end
