(* ===== verification/Script_Calls.thy ===== *)
theory Script_Calls
  imports Script_String Client_Session Player_Name
begin

text \<open>
  The functions the scripts call (src/client/module/scripting_experiments.cpp): their
  registration, and a call from a script through the dispatcher with the types of both sides.
  The script's declarations are those of src/data/scripts/local/w3mp.ws. A value that has
  not the type the C++ function reads is \<open>Undefined_behaviour\<close>, as is an object that does not
  exist. How the game evaluates an argument is the table of opcodes.
\<close>

section \<open>Model\<close>

datatype script_type = T_state | T_players | T_npc | T_agent | T_string | T_float | T_int

type_synonym object_ref = nat

text \<open>An object is given by a handle, which may be null or hold no object (\<open>None\<close>).\<close>

datatype script_value =
    V_state w3m_state
  | V_players "w3m_player list"
  | V_npc "object_ref option"
  | V_agent "object_ref option"
  | V_string script_string
  | V_float f32
  | V_int u32

datatype experiment_function =
    Store_player_state | Get_player_states | Set_display_name | Update_player_name
  | Get_move_type | Set_speed | Debug_print

fun parameter_types :: "experiment_function \<Rightarrow> script_type list" where
  "parameter_types Store_player_state = [T_state]"
| "parameter_types Get_player_states = []"
| "parameter_types Set_display_name = [T_npc, T_string]"
| "parameter_types Update_player_name = [T_string]"
| "parameter_types Get_move_type = [T_agent]"
| "parameter_types Set_speed = [T_agent, T_float]"
| "parameter_types Debug_print = [T_string]"

fun return_type :: "experiment_function \<Rightarrow> script_type option" where
  "return_type Get_player_states = Some T_players"
| "return_type Get_move_type = Some T_int"
| "return_type _ = None"

text \<open>The state the functions work on: the session, the settings, the objects of the game.\<close>

record script_state =
  exp_session :: session
  exp_properties :: properties
  exp_files :: file_system
  npcs :: "object_ref \<rightharpoonup> script_string"
  agents :: "object_ref \<rightharpoonup> moving_agent"
  printed :: "byte list list"
  game_events :: "int list"

record experiment_env =
  env_fpu :: fpu
  env_master :: address
  env_guid :: u64
  env_abs_to_rel :: "moving_agent \<Rightarrow> f32 \<Rightarrow> f32"
  env_json :: json_lib
  env_heap :: "nat \<rightharpoonup> byte list"
  env_key :: nat
  env_text :: nat
  env_name_id :: "u16 list \<Rightarrow> int"

definition set_display_name :: "object_ref option \<Rightarrow> script_string \<Rightarrow> script_state \<Rightarrow> exn option \<times> script_state" where
  "set_display_name npc n st =
     (case npc of
        None \<Rightarrow> (None, st)
      | Some a \<Rightarrow> if npcs st a = None then (Some Undefined_behaviour, st)
                  else (None, st\<lparr>npcs := (npcs st)(a \<mapsto> n)\<rparr>))"

text \<open>What is printed ends at the first zero.\<close>

definition debug_print :: "script_string \<Rightarrow> script_state \<Rightarrow> script_state" where
  "debug_print str st = st\<lparr>printed := printed st @ [c_text (string_to_bytes str)]\<rparr>"

definition rename_from_script :: "experiment_env \<Rightarrow> script_string \<Rightarrow> script_state \<Rightarrow> exn option \<times> script_state" where
  "rename_from_script E wide_name st =
     (case rename_player (env_json E) (env_heap E) (env_key E) (env_text E, string_to_bytes wide_name)
         (exp_properties st) (exp_files st) of
        Inl e \<Rightarrow> (Some e, st)
      | Inr (n, p, fs) \<Rightarrow>
          (None, st\<lparr>exp_session := update_player_name wide_name (exp_session st), exp_properties := p, exp_files := fs\<rparr>))"

text \<open>An agent by its handle, for the two functions about one.\<close>

definition agent_at :: "object_ref option \<Rightarrow> script_state \<Rightarrow> exn + moving_agent option" where
  "agent_at h st =
     (case h of None \<Rightarrow> Inr None
      | Some a \<Rightarrow> (case agents st a of None \<Rightarrow> Inl Undefined_behaviour | Some m \<Rightarrow> Inr (Some m)))"

definition from_exception :: "exn option \<times> script_state \<Rightarrow> (exn + script_value option) \<times> script_state" where
  "from_exception r = (case fst r of Some e \<Rightarrow> Inl e | None \<Rightarrow> Inr None, snd r)"

definition store_from_script :: "experiment_env \<Rightarrow> w3m_state \<Rightarrow> script_state \<Rightarrow> exn option \<times> script_state" where
  "store_from_script E w st =
     (let (s, e) = store_player_state (env_fpu E) (env_master E) (env_guid E) w (exp_session st)
      in (e, st\<lparr>exp_session := s\<rparr>))"

definition poll_from_script :: "experiment_env \<Rightarrow> script_state \<Rightarrow> w3m_player list \<times> script_state" where
  "poll_from_script E st =
     (let (ps, g) = get_player_states (env_fpu E) (g_players (exp_session st))
      in (ps, st\<lparr>exp_session := (exp_session st)\<lparr>g_players := g\<rparr>\<rparr>))"

definition speed_from_script ::
    "experiment_env \<Rightarrow> object_ref option \<Rightarrow> f32 \<Rightarrow> script_state \<Rightarrow> exn option \<times> script_state" where
  "speed_from_script E h x st =
     (case agent_at h st of
        Inl e \<Rightarrow> (Some e, st)
      | Inr a \<Rightarrow> (None, case (h, set_speed (env_abs_to_rel E) a x) of
            (Some p, Some m) \<Rightarrow> st\<lparr>agents := (agents st)(p \<mapsto> m)\<rparr> | _ \<Rightarrow> st))"

definition mistyped :: "script_state \<Rightarrow> (exn + script_value option) \<times> script_state" where
  "mistyped st = (Inl Undefined_behaviour, st)"

fun call_function ::
    "experiment_env \<Rightarrow> experiment_function \<Rightarrow> script_value list \<Rightarrow> script_state \<Rightarrow>
     (exn + script_value option) \<times> script_state" where
  "call_function E Store_player_state vs st =
     (case vs of [V_state w] \<Rightarrow> from_exception (store_from_script E w st) | _ \<Rightarrow> mistyped st)"
| "call_function E Get_player_states vs st =
     (case vs of
        [] \<Rightarrow> (let (ps, st') = poll_from_script E st in (Inr (Some (V_players ps)), st'))
      | _ \<Rightarrow> mistyped st)"
| "call_function E Set_display_name vs st =
     (case vs of [V_npc npc, V_string n] \<Rightarrow> from_exception (set_display_name npc n st) | _ \<Rightarrow> mistyped st)"
| "call_function E Update_player_name vs st =
     (case vs of [V_string n] \<Rightarrow> from_exception (rename_from_script E n st) | _ \<Rightarrow> mistyped st)"
| "call_function E Get_move_type vs st =
     (case vs of
        [V_agent h] \<Rightarrow> (exn_bind (agent_at h st) (\<lambda>a. Inr (Some (V_int (get_move_type a)))), st)
      | _ \<Rightarrow> mistyped st)"
| "call_function E Set_speed vs st =
     (case vs of [V_agent h, V_float x] \<Rightarrow> from_exception (speed_from_script E h x st) | _ \<Rightarrow> mistyped st)"
| "call_function E Debug_print vs st =
     (case vs of [V_string n] \<Rightarrow> (Inr None, debug_print n st) | _ \<Rightarrow> mistyped st)"

text \<open>A call from a script, through the dispatcher of the function.\<close>

definition dispatch_call ::
    "experiment_env \<Rightarrow> script_value opcode_table \<Rightarrow> experiment_function \<Rightarrow> bool \<Rightarrow> script_context \<Rightarrow>
     script_state \<Rightarrow> script_value Script_String.dispatch_result \<times> script_state" where
  "dispatch_call E T f has_return_value ctx st =
     (dispatcher_function T (length (parameter_types f)) (\<lambda>vs. fst (call_function E f vs st)) has_return_value ctx,
      case fst (read_arguments T (length (parameter_types f)) ctx) of
        Inl e \<Rightarrow> st
      | Inr vs \<Rightarrow> snd (call_function E f vs st))"

text \<open>The functions \<open>post_load\<close> registers, in its order.\<close>

definition wide_name :: "string \<Rightarrow> u16 list" where "wide_name s = widen (lit s)"

definition experiment_functions :: "(u16 list \<times> experiment_function) list" where
  "experiment_functions =
     [(wide_name ''W3mStorePlayerState'', Store_player_state),
      (wide_name ''W3mGetPlayerStates'', Get_player_states),
      (wide_name ''W3mSetNpcDisplayName'', Set_display_name),
      (wide_name ''W3mUpdatePlayerName'', Update_player_name),
      (wide_name ''W3mGetMoveType'', Get_move_type),
      (wide_name ''W3mSetSpeed'', Set_speed),
      (wide_name ''W3mPrint'', Debug_print)]"

definition register_experiments :: "experiment_function registrations \<Rightarrow> experiment_function registrations" where
  "register_experiments r = fold (\<lambda>(n, f). register_script_function n f) experiment_functions r"

text \<open>The declarations of the script file.\<close>

definition script_imports :: "(u16 list \<times> script_type list \<times> script_type option) list" where
  "script_imports =
     [(wide_name ''W3mPrint'', [T_string], None),
      (wide_name ''W3mSetNpcDisplayName'', [T_npc, T_string], None),
      (wide_name ''W3mStorePlayerState'', [T_state], None),
      (wide_name ''W3mGetPlayerStates'', [], Some T_players),
      (wide_name ''W3mUpdatePlayerName'', [T_string], None),
      (wide_name ''W3mGetMoveType'', [T_agent], Some T_int),
      (wide_name ''W3mSetSpeed'', [T_agent, T_float], None)]"

text \<open>The call of a function of the game by its name, and the hook that makes it when a saved game is ready.\<close>

definition register_name_string :: "experiment_env \<Rightarrow> u16 list \<Rightarrow> int" where
  "register_name_string E n = env_name_id E n"

definition call_game_function :: "experiment_env \<Rightarrow> u16 list \<Rightarrow> script_state \<Rightarrow> script_state" where
  "call_game_function E n st = st\<lparr>game_events := game_events st @ [register_name_string E n]\<rparr>"

definition LOAD_ReadyToLoad :: u64 where "LOAD_ReadyToLoad = 2"

definition get_load_game_progress_stub :: "experiment_env \<Rightarrow> u64 \<Rightarrow> script_state \<Rightarrow> u64 \<times> script_state" where
  "get_load_game_progress_stub E progress st =
     (progress, if progress = LOAD_ReadyToLoad then call_game_function E (wide_name ''StartMultiplayer'') st else st)"

section \<open>Types\<close>

text \<open>A value of a type, with the objects of the game alive and lengths the game can count.\<close>

fun has_type :: "script_state \<Rightarrow> script_value \<Rightarrow> script_type \<Rightarrow> bool" where
  "has_type st (V_state w) t = (t = T_state)"
| "has_type st (V_players ps) t = (t = T_players)"
| "has_type st (V_npc h) t = (t = T_npc \<and> (\<forall>a. h = Some a \<longrightarrow> npcs st a \<noteq> None))"
| "has_type st (V_agent h) t = (t = T_agent \<and> (\<forall>a. h = Some a \<longrightarrow> agents st a \<noteq> None))"
| "has_type st (V_string s) t = (t = T_string \<and> length s < 2 ^ 32)"
| "has_type st (V_float x) t = (t = T_float)"
| "has_type st (V_int x) t = (t = T_int)"

text \<open>The stream evaluates to values of the types, one after the other, and ends at \<open>ctx'\<close>.\<close>

fun delivers ::
    "script_value opcode_table \<Rightarrow> script_state \<Rightarrow> script_type list \<Rightarrow> script_context \<Rightarrow> script_context \<Rightarrow> bool" where
  "delivers T st [] ctx ctx' = (ctx' = ctx)"
| "delivers T st (t # ts) ctx ctx' =
     (case read_script_argument T ctx of
        (Inr v, ctx1) \<Rightarrow> has_type st v t \<and> delivers T st ts ctx1 ctx'
      | _ \<Rightarrow> False)"

text \<open>The strings of the settings that a rename reads are alive.\<close>

definition settings_live :: "experiment_env \<Rightarrow> script_state \<Rightarrow> bool" where
  "settings_live E st \<longleftrightarrow> owned_document (document (exp_properties st)) \<and> env_key E \<noteq> env_text E"

lemma delivered_arguments:
  "delivers T st ts ctx ctx' \<Longrightarrow>
     \<exists>vs. read_arguments T (length ts) ctx = (Inr vs, ctx') \<and> list_all2 (has_type st) vs ts"
proof (induction T st ts ctx ctx' rule: delivers.induct)
  case (2 T st t ts ctx ctx')
  then obtain v ctx1 where v: "read_script_argument T ctx = (Inr v, ctx1)" "has_type st v t"
      "delivers T st ts ctx1 ctx'" by (auto split: prod.splits sum.splits)
  with 2(1) [OF v(1) [symmetric]] show ?case by (fastforce simp: v(1))
qed simp

lemma imports_are_registered:
  "(n, ts, ret) \<in> set script_imports \<Longrightarrow>
     \<exists>f. (n, f) \<in> set experiment_functions \<and> parameter_types f = ts \<and> return_type f = ret"
  by (auto simp: script_imports_def experiment_functions_def)

lemma register_experiments_pending:
  "pending (register_experiments r) = pending r @ experiment_functions"
  by (simp add: register_experiments_def experiment_functions_def register_script_function_def)

lemma c_string_split: "\<exists>r. (u :: byte list) @ [0] = takeWhile (\<lambda>b. b \<noteq> 0) u @ 0 # r"
proof (cases "0 \<in> set u")
  case True
  then have "dropWhile (\<lambda>b. b \<noteq> 0) u \<noteq> []" by (simp add: dropWhile_eq_Nil_conv)
  then obtain x xs where d: "dropWhile (\<lambda>b. b \<noteq> 0) u = x # xs" by (cases "dropWhile (\<lambda>b. b \<noteq> 0) u") auto
  with hd_dropWhile [of "\<lambda>b. b \<noteq> 0" u] have "x = 0" by simp
  with d takeWhile_dropWhile_id [of "\<lambda>b. b \<noteq> 0" u] show ?thesis by (metis append.assoc append_Cons)
next
  case False
  then have u: "takeWhile (\<lambda>b. b \<noteq> 0) u = u" by (auto simp: takeWhile_eq_all_conv)
  show ?thesis unfolding u by auto
qed

lemma own_player_ok: "\<exists>p. own_player F own u w = Inr p"
proof -
  obtain r where "u @ [0] = takeWhile (\<lambda>b. b \<noteq> 0) u @ 0 # r" using c_string_split by blast
  moreover have "0 \<notin> set (takeWhile (\<lambda>b. b \<noteq> 0) u)" by (auto dest: set_takeWhileD)
  ultimately show ?thesis
    using str_copy_terminated [of "takeWhile (\<lambda>b. b \<noteq> 0) u" name_size "name zero_player" r]
    by (simp add: own_player_def zero_player_def name_size_def)
qed

definition same_game_objects :: "script_state \<Rightarrow> script_state \<Rightarrow> bool" where
  "same_game_objects st st' \<longleftrightarrow> dom (npcs st') = dom (npcs st) \<and> dom (agents st') = dom (agents st)"

lemma call_function_typed:
  assumes "list_all2 (has_type st) vs (parameter_types f)"
    and "f = Update_player_name \<Longrightarrow> settings_live E st"
  shows "\<exists>r st'. call_function E f vs st = (Inr r, st') \<and> same_game_objects st st' \<and>
    (case return_type f of None \<Rightarrow> r = None | Some t \<Rightarrow> \<exists>v. r = Some v \<and> has_type st' v t)"
proof (cases f)
  case Store_player_state
  with assms(1) obtain w where "vs = [V_state w]"
    by (auto simp: list_all2_Cons2 elim: has_type.elims)
  with Store_player_state own_player_ok [of "env_fpu E" "env_guid E" "player_name (exp_session st)" w]
  show ?thesis
    by (auto simp: from_exception_def store_from_script_def store_player_state_def same_game_objects_def)
next
  case Get_player_states
  with assms(1) show ?thesis by (auto simp: poll_from_script_def same_game_objects_def split: prod.splits)
next
  case Set_display_name
  with assms(1) obtain h n where "vs = [V_npc h, V_string n]" "\<forall>a. h = Some a \<longrightarrow> npcs st a \<noteq> None"
    by (auto simp: list_all2_Cons2 elim!: has_type.elims)
  with Set_display_name show ?thesis
    by (auto simp: from_exception_def set_display_name_def same_game_objects_def split: option.splits)
next
  case Update_player_name
  with assms(1) obtain n where vs: "vs = [V_string n]" "length n < 2 ^ 32"
    by (auto simp: list_all2_Cons2 elim: has_type.elims)
  have owned: "owned_document (document (exp_properties st))" and keys: "env_key E \<noteq> env_text E"
      and len: "length (string_to_bytes n) < 2 ^ 32"
    using assms(2) Update_player_name vs by (auto simp: settings_live_def string_to_bytes_def narrow_def)
  obtain p' fs' where "set_stored_player_name (env_json E) (env_heap E) (env_key E) (env_text E, string_to_bytes n)
      (exp_properties st) (exp_files st) = Inr (p', fs')"
    using stored_name_set [OF owned_live [OF owned] keys len] by blast
  with Update_player_name vs show ?thesis
    by (simp add: from_exception_def rename_from_script_def rename_player_def same_game_objects_def)
next
  case Get_move_type
  with assms(1) obtain h where "vs = [V_agent h]" "\<forall>a. h = Some a \<longrightarrow> agents st a \<noteq> None"
    by (auto simp: list_all2_Cons2 elim!: has_type.elims)
  with Get_move_type show ?thesis
    by (auto simp: agent_at_def same_game_objects_def split: option.splits)
next
  case Set_speed
  with assms(1) obtain h x where "vs = [V_agent h, V_float x]" "\<forall>a. h = Some a \<longrightarrow> agents st a \<noteq> None"
    by (auto simp: list_all2_Cons2 elim!: has_type.elims)
  with Set_speed show ?thesis
    by (auto simp: from_exception_def speed_from_script_def agent_at_def same_game_objects_def split: option.splits)
next
  case Debug_print
  with assms(1) obtain n where "vs = [V_string n]"
    by (auto simp: list_all2_Cons2 elim: has_type.elims)
  with Debug_print show ?thesis by (simp add: debug_print_def same_game_objects_def)
qed

section \<open>Calls from the scripts\<close>


text \<open>A game with one opcode, \<open>7\<close>, which pushes a number, and one agent.\<close>

definition demo_opcodes :: "script_value opcode_table" where
  "demo_opcodes op ctx = (Inr (if op = 7 then V_float 0 else V_agent (Some 1)), ctx)"

definition demo_agent :: moving_agent where
  "demo_agent = \<lparr>m_relativeMoveSpeed = 0, m_moveType = 0, m_desiredAbsoluteSpeed = 0, m_gameplayRelativeMoveSpeed = 0,
     m_currentSpeedVal = 0, m_lastRelMovementSpeed = 0\<rparr>"

definition demo_script_state :: script_state where
  "demo_script_state = \<lparr>exp_session = \<lparr>g_players = no_players, player_name = [], outbox = []\<rparr>,
     exp_properties = first_settings, exp_files = [], npcs = Map.empty, agents = [1 \<mapsto> demo_agent],
     printed = [], game_events = []\<rparr>"

definition demo_experiment_env :: experiment_env where
  "demo_experiment_env = \<lparr>env_fpu = raw_fpu, env_master = new_address, env_guid = 5, env_abs_to_rel = (\<lambda>a x. x),
     env_json = remember_json, env_heap = Map.empty, env_key = 1, env_text = 2, env_name_id = (\<lambda>n. 0)\<rparr>"

definition demo_context :: script_context where
  "demo_context = \<lparr>opcodes = (\<lambda>i. if i = 0 then 6 else 7), some_stack = 0\<rparr>"


text \<open>A second start of the session's state machine is asked for at every poll of a loaded game.\<close>

lemma ready_game_starts_multiplayer:
  "get_load_game_progress_stub E LOAD_ReadyToLoad st =
     (LOAD_ReadyToLoad, call_game_function E (wide_name ''StartMultiplayer'') st)"
  "progress \<noteq> LOAD_ReadyToLoad \<Longrightarrow> get_load_game_progress_stub E progress st = (progress, st)"
  by (simp_all add: get_load_game_progress_stub_def)

end
