(* ===== verification/Script_World.thy ===== *)
theory Script_World
  imports Script_Calls
begin

text \<open>
  The scripts' side of the client (src/data/scripts/local/w3mp.ws): the state machine that
  reports the player's own state and keeps one actor of the game for each other player. The
  scripts reach the client only through the functions of \<open>Script_Calls\<close>. What the game
  computes (a heading, a distance of two heights, the speed of an agent) and the objects it
  creates are parameters. A frame of the state machine does not sleep, so it is one step.
\<close>

section \<open>Model\<close>

datatype move_type = MT_Walk | MT_Run | MT_FastRun | MT_Sprint | MT_AbsSpeed

definition convert_to_move_type :: "u32 \<Rightarrow> move_type" where
  "convert_to_move_type m =
     (if m = 0 then MT_Walk else if m = 1 then MT_Run else if m = 2 then MT_FastRun
      else if m = 3 then MT_Sprint else if m = 4 then MT_AbsSpeed else MT_Walk)"

text \<open>The name an actor shows and its agent's speeds belong to the objects the client changes.\<close>

record actor =
  actor_position :: vector
  actor_rotation :: euler_angles
  actor_velocity :: vector
  actor_move :: move_type
  actor_heading :: f32
  actor_agent :: object_ref

record game_world =
  side :: script_state
  actors :: "object_ref \<rightharpoonup> actor"
  the_player :: object_ref
  machine :: "object_ref list option"

text \<open>\<open>created w\<close> are the objects of the next actor: itself and its agent.\<close>

record game_engine =
  created :: "game_world \<Rightarrow> object_ref \<times> object_ref"
  same_height :: "f32 \<Rightarrow> f32 \<Rightarrow> bool"
  heading_of :: "euler_angles \<Rightarrow> f32"
  speed_of :: "moving_agent \<Rightarrow> f32"
  new_agent :: moving_agent

text \<open>\<open>InitializeMultiplayer\<close>: a second call finds the state machine.\<close>

definition initialize_multiplayer :: "game_world \<Rightarrow> game_world" where
  "initialize_multiplayer w = (if machine w = None then w\<lparr>machine := Some []\<rparr> else w)"

definition others :: "game_world \<Rightarrow> object_ref list" where
  "others w = (case machine w of None \<Rightarrow> [] | Some ps \<Rightarrow> ps)"

definition transmit_player_state :: "experiment_env \<Rightarrow> game_engine \<Rightarrow> object_ref \<Rightarrow> game_world \<Rightarrow> game_world" where
  "transmit_player_state E G a w =
     (case actors w a of
        None \<Rightarrow> w
      | Some x \<Rightarrow>
          (let agent = agents (side w) (actor_agent x);
               state = \<lparr>w_angles = actor_rotation x, w_position = actor_position x,
                 w_velocity = actor_velocity x,
                 w_speed = (case agent of None \<Rightarrow> 0 | Some m \<Rightarrow> speed_of G m),
                 w_move_type = get_move_type agent\<rparr>
           in w\<lparr>side := snd (store_from_script E state (side w))\<rparr>))"

definition transmit_current_player_state :: "experiment_env \<Rightarrow> game_engine \<Rightarrow> game_world \<Rightarrow> game_world" where
  "transmit_current_player_state E G w = transmit_player_state E G (the_player w) w"

text \<open>The height of the actor is kept when the new one is close to it.\<close>

fun target_position :: "game_engine \<Rightarrow> vector \<Rightarrow> vector \<Rightarrow> vector" where
  "target_position G (ax, ay, az, aw) (x, y, z, w) = (x, y, if same_height G az z then az else z, w)"

definition apply_player_state ::
    "experiment_env \<Rightarrow> game_engine \<Rightarrow> object_ref \<Rightarrow> w3m_player \<Rightarrow> game_world \<Rightarrow> game_world" where
  "apply_player_state E G a player w =
     (case (w_state player, actors w a) of
        (st # _, Some x) \<Rightarrow>
          (let s1 = snd (set_display_name (Some a) (w_name player) (side w));
               x' = x\<lparr>actor_position := target_position G (actor_position x) (w_position st),
                 actor_rotation := w_angles st, actor_move := convert_to_move_type (w_move_type st),
                 actor_velocity := w_velocity st, actor_heading := heading_of G (w_angles st)\<rparr>;
               s2 = snd (speed_from_script E (Some (actor_agent x)) (w_speed st) s1)
           in w\<lparr>side := s2, actors := (actors w)(a \<mapsto> x')\<rparr>)
      | _ \<Rightarrow> w)"

definition default_name :: script_string where "default_name = script_string_of (lit ''W3M Player'')"

text \<open>A new actor stands where the player is and has its agent; its items have no part in the rest.\<close>

definition create_new_player_entity :: "game_engine \<Rightarrow> game_world \<Rightarrow> object_ref \<times> game_world" where
  "create_new_player_entity G w =
     (let (a, m) = created G w;
          (p, r) = (case actors w (the_player w) of
              None \<Rightarrow> ((0, 0, 0, 0), (0, 0, 0)) | Some x \<Rightarrow> (actor_position x, actor_rotation x));
          x = \<lparr>actor_position = p, actor_rotation = r, actor_velocity = (0, 0, 0, 0), actor_move = MT_Walk,
            actor_heading = 0, actor_agent = m\<rparr>
      in (a, w\<lparr>actors := (actors w)(a \<mapsto> x),
           side := snd (set_display_name (Some a) default_name
             ((side w)\<lparr>npcs := (npcs (side w))(a \<mapsto> []), agents := (agents (side w))(m \<mapsto> new_agent G)\<rparr>))\<rparr>))"

definition destroy_entity :: "object_ref \<Rightarrow> game_world \<Rightarrow> game_world" where
  "destroy_entity a w =
     (case actors w a of
        None \<Rightarrow> w
      | Some x \<Rightarrow> w\<lparr>actors := (actors w)(a := None),
          side := (side w)\<lparr>npcs := (npcs (side w))(a := None), agents := (agents (side w))(actor_agent x := None)\<rparr>\<rparr>)"

text \<open>The two loops of \<open>AdjustPlayers\<close>; \<open>Remove\<close> takes the first entry that is the actor.\<close>

fun remove_players :: "nat \<Rightarrow> game_world \<Rightarrow> game_world" where
  "remove_players 0 w = w"
| "remove_players (Suc n) w =
     (let current_player = last (others w) in
      remove_players n (destroy_entity current_player (w\<lparr>machine := Some (remove1 current_player (others w))\<rparr>)))"

fun add_players :: "game_engine \<Rightarrow> nat \<Rightarrow> game_world \<Rightarrow> game_world" where
  "add_players G 0 w = w"
| "add_players G (Suc n) w =
     (let (current_player, w') = create_new_player_entity G w in
      add_players G n (w'\<lparr>machine := Some (others w' @ [current_player])\<rparr>))"

definition adjust_players :: "game_engine \<Rightarrow> nat \<Rightarrow> game_world \<Rightarrow> game_world" where
  "adjust_players G n w =
     (let w1 = remove_players (length (others w) - n) w in add_players G (n - length (others w1)) w1)"

fun apply_states ::
    "experiment_env \<Rightarrow> game_engine \<Rightarrow> (object_ref \<times> w3m_player) list \<Rightarrow> game_world \<Rightarrow> game_world" where
  "apply_states E G [] w = w"
| "apply_states E G ((a, p) # ps) w = apply_states E G ps (apply_player_state E G a p w)"

definition update_other_players :: "experiment_env \<Rightarrow> game_engine \<Rightarrow> game_world \<Rightarrow> game_world" where
  "update_other_players E G w =
     (let (player_states, s) = poll_from_script E (side w);
          w1 = adjust_players G (length player_states) (w\<lparr>side := s\<rparr>)
      in apply_states E G (zip (others w1) player_states) w1)"

definition run_multiplayer_frame :: "experiment_env \<Rightarrow> game_engine \<Rightarrow> game_world \<Rightarrow> game_world" where
  "run_multiplayer_frame E G w =
     (if machine w = None then w else update_other_players E G (transmit_current_player_state E G w))"

section \<open>The actors of the state machine\<close>

text \<open>
  Each other player has an actor of its own, with a name and an agent of its own, and none of
  them is the player's.
\<close>

definition actor_alive :: "game_world \<Rightarrow> object_ref \<Rightarrow> bool" where
  "actor_alive w a \<longleftrightarrow> (\<exists>x. actors w a = Some x \<and> agents (side w) (actor_agent x) \<noteq> None) \<and> npcs (side w) a \<noteq> None"

definition agents_apart :: "game_world \<Rightarrow> bool" where
  "agents_apart w \<longleftrightarrow> (\<forall>a b x y. actors w a = Some x \<longrightarrow> actors w b = Some y \<longrightarrow>
     actor_agent x = actor_agent y \<longrightarrow> a = b)"

definition world_ok :: "game_world \<Rightarrow> bool" where
  "world_ok w \<longleftrightarrow> distinct (others w) \<and> (\<forall>a \<in> set (others w). actor_alive w a) \<and>
     agents_apart w \<and> the_player w \<notin> set (others w) \<and> finite (dom (actors w))"

definition creates_fresh :: "game_engine \<Rightarrow> bool" where
  "creates_fresh G \<longleftrightarrow> (\<forall>w a m. finite (dom (actors w)) \<longrightarrow> created G w = (a, m) \<longrightarrow>
     actors w a = None \<and> a \<noteq> the_player w \<and> a \<notin> set (others w) \<and>
     (\<forall>b x. actors w b = Some x \<longrightarrow> actor_agent x \<noteq> m))"

text \<open>What the parts of a frame leave alone: all but the actors they work on.\<close>

definition same_for :: "object_ref set \<Rightarrow> game_world \<Rightarrow> game_world \<Rightarrow> bool" where
  "same_for A w w' \<longleftrightarrow> the_player w' = the_player w \<and> exp_session (side w') = exp_session (side w) \<and>
     (finite (dom (actors w)) \<longrightarrow> finite (dom (actors w'))) \<and>
     (\<forall>a \<in> A. actors w' a = actors w a \<and> npcs (side w') a = npcs (side w) a \<and>
        (\<forall>x. actors w a = Some x \<longrightarrow> agents (side w') (actor_agent x) = agents (side w) (actor_agent x)))"

lemma same_for_refl [simp]: "same_for A w w"
  by (simp add: same_for_def)

lemma same_for_trans: "same_for A w w1 \<Longrightarrow> same_for A w1 w2 \<Longrightarrow> same_for A w w2"
  by (simp add: same_for_def)

lemma same_for_mono: "same_for A w w' \<Longrightarrow> B \<subseteq> A \<Longrightarrow> same_for B w w'"
  by (auto simp: same_for_def)

lemma alive_same: "same_for A w w' \<Longrightarrow> a \<in> A \<Longrightarrow> actor_alive w a \<Longrightarrow> actor_alive w' a"
  by (auto simp: same_for_def actor_alive_def)

lemma others_machine [simp]: "others (w\<lparr>machine := Some xs\<rparr>) = xs"
  by (simp add: others_def)

lemma others_side [simp]: "others (w\<lparr>side := s\<rparr>) = others w"
  by (simp add: others_def)

lemma destroy_last:
  assumes "world_ok w" and "others w = xs @ [a]"
  shows "world_ok (destroy_entity a (w\<lparr>machine := Some xs\<rparr>))"
    and "others (destroy_entity a (w\<lparr>machine := Some xs\<rparr>)) = xs"
    and "same_for (- {a}) w (destroy_entity a (w\<lparr>machine := Some xs\<rparr>))"
proof -
  from assms obtain x where x: "actors w a = Some x" by (auto simp: world_ok_def actor_alive_def)
  let ?w = "destroy_entity a (w\<lparr>machine := Some xs\<rparr>)"
  have apart: "agents_apart w" using assms(1) by (simp add: world_ok_def)
  have o: "others ?w = xs" by (simp add: destroy_entity_def x others_def)
  have same: "same_for (- {a}) w ?w"
    using apart x by (auto simp: same_for_def destroy_entity_def agents_apart_def)
  have "agents_apart ?w"
    using apart by (auto simp: agents_apart_def destroy_entity_def x split: if_splits)
  moreover have "\<forall>b \<in> set xs. actor_alive ?w b"
  proof
    fix b assume "b \<in> set xs"
    with assms have "b \<in> - {a}" "actor_alive w b" by (auto simp: world_ok_def)
    then show "actor_alive ?w b" by (rule alive_same [OF same])
  qed
  ultimately show "world_ok ?w" using assms same by (auto simp: world_ok_def o same_for_def)
  show "others ?w = xs" by (rule o)
  show "same_for (- {a}) w ?w" by (rule same)
qed

lemma remove_players_ok:
  "world_ok w \<Longrightarrow> n \<le> length (others w) \<Longrightarrow>
   world_ok (remove_players n w) \<and> others (remove_players n w) = take (length (others w) - n) (others w) \<and>
   same_for (set (take (length (others w) - n) (others w))) w (remove_players n w)"
proof (induction n arbitrary: w)
  case (Suc n)
  then obtain xs a where xs: "others w = xs @ [a]" by (metis Suc_le_length_iff append_butlast_last_id list.distinct(1))
  with Suc.prems have "a \<notin> set xs" by (auto simp: world_ok_def)
  then have r: "remove1 a (others w) = xs" by (simp add: xs remove1_append)
  let ?w = "destroy_entity a (w\<lparr>machine := Some xs\<rparr>)"
  note d = destroy_last [OF Suc.prems(1) xs]
  have step: "remove_players (Suc n) w = remove_players n ?w" by (simp add: Let_def xs r [unfolded xs])
  have tk: "take (length (others w) - Suc n) (others w) = take (length xs - n) xs" by (simp add: xs)
  have "set (take (length xs - n) xs) \<subseteq> - {a}" using \<open>a \<notin> set xs\<close> by (auto dest: in_set_takeD)
  with d(3) have "same_for (set (take (length xs - n) xs)) w ?w" by (rule same_for_mono)
  with Suc.IH [of ?w] d Suc.prems(2) xs show ?case
    unfolding step tk by (auto intro: same_for_trans)
qed simp

lemma create_one:
  assumes "world_ok w" and "creates_fresh G" and "create_new_player_entity G w = (a, w')" and "machine w \<noteq> None"
  shows "world_ok (w'\<lparr>machine := Some (others w' @ [a])\<rparr>)"
    and "others (w'\<lparr>machine := Some (others w' @ [a])\<rparr>) = others w @ [a]"
    and "same_for (set (others w)) w (w'\<lparr>machine := Some (others w' @ [a])\<rparr>)"
proof -
  obtain b m where b: "created G w = (b, m)" by fastforce
  obtain p r where pr: "(case actors w (the_player w) of
      None \<Rightarrow> ((0, 0, 0, 0), (0, 0, 0)) | Some x \<Rightarrow> (actor_position x, actor_rotation x)) = (p, r)"
    by (rule prod.exhaust)
  let ?x = "\<lparr>actor_position = p, actor_rotation = r, actor_velocity = (0, 0, 0, 0), actor_move = MT_Walk,
      actor_heading = 0, actor_agent = m\<rparr>"
  have a: "a = b" and w': "w' = w\<lparr>actors := (actors w)(a \<mapsto> ?x),
      side := (side w)\<lparr>npcs := (npcs (side w))(a \<mapsto> default_name), agents := (agents (side w))(m \<mapsto> new_agent G)\<rparr>\<rparr>"
    using assms(3) by (auto simp: create_new_player_entity_def b pr set_display_name_def)
  have fin: "finite (dom (actors w))" using assms(1) by (simp add: world_ok_def)
  have fresh: "actors w a = None" "a \<noteq> the_player w" "a \<notin> set (others w)"
      "\<And>b x. actors w b = Some x \<Longrightarrow> actor_agent x \<noteq> m"
    using assms(2) fin b unfolding creates_fresh_def a by metis+
  let ?w = "w'\<lparr>machine := Some (others w' @ [a])\<rparr>"
  have o: "others w' = others w" by (simp add: w' others_def)
  have same: "same_for (set (others w)) w ?w"
    using fresh by (auto simp: same_for_def w' fin)
  have "agents_apart ?w"
    using assms(1) fresh by (auto simp: world_ok_def agents_apart_def w' split: if_splits)
  moreover have "actor_alive ?w a" by (simp add: actor_alive_def w')
  moreover have "actor_alive ?w c" if "c \<in> set (others w)" for c
    using assms(1) that alive_same [OF same that] by (simp add: world_ok_def)
  ultimately show "world_ok ?w"
    using assms(1) fresh same by (auto simp: world_ok_def o same_for_def)
  show "others ?w = others w @ [a]" by (simp add: o)
  show "same_for (set (others w)) w ?w" by (rule same)
qed

lemma add_players_ok:
  "world_ok w \<Longrightarrow> creates_fresh G \<Longrightarrow> machine w \<noteq> None \<Longrightarrow>
   world_ok (add_players G n w) \<and> machine (add_players G n w) \<noteq> None \<and>
   (\<exists>new. others (add_players G n w) = others w @ new \<and> length new = n) \<and>
   same_for (set (others w)) w (add_players G n w)"
proof (induction n arbitrary: w)
  case (Suc n)
  obtain a w1 where a: "create_new_player_entity G w = (a, w1)" by fastforce
  let ?w = "w1\<lparr>machine := Some (others w1 @ [a])\<rparr>"
  note c = create_one [OF Suc.prems(1,2) a Suc.prems(3)]
  have m: "machine ?w \<noteq> None" by simp
  from Suc.IH [OF c(1) Suc.prems(2) m] obtain new where
    rest: "world_ok (add_players G n ?w)" "machine (add_players G n ?w) \<noteq> None"
      "others (add_players G n ?w) = others w @ a # new" "length new = n"
      "same_for (set (others w @ [a])) ?w (add_players G n ?w)"
    unfolding c(2) by auto
  have "same_for (set (others w)) ?w (add_players G n ?w)" using rest(5) by (rule same_for_mono) auto
  with c(3) have "same_for (set (others w)) w (add_players G n ?w)" by (rule same_for_trans)
  moreover have "add_players G (Suc n) w = add_players G n ?w" by (simp add: a)
  ultimately show ?case using rest by auto
qed simp

lemma remove_players_machine: "machine w \<noteq> None \<Longrightarrow> machine (remove_players n w) \<noteq> None"
  by (induction n w rule: remove_players.induct)
    (auto simp: Let_def destroy_entity_def split: option.splits)

lemma adjust_players_ok:
  assumes "world_ok w" and "creates_fresh G" and "machine w \<noteq> None"
  shows "world_ok (adjust_players G n w) \<and> length (others (adjust_players G n w)) = n \<and>
    machine (adjust_players G n w) \<noteq> None \<and>
    take n (others w) = take (length (others w)) (others (adjust_players G n w)) \<and>
    same_for (set (take n (others w))) w (adjust_players G n w)"
proof -
  let ?k = "length (others w) - n"
  let ?w1 = "remove_players ?k w"
  have "take (length (others w) - ?k) (others w) = take n (others w)"
    by (cases "n \<le> length (others w)") simp_all
  then have r: "world_ok ?w1" "others ?w1 = take n (others w)" "same_for (set (take n (others w))) w ?w1"
    using remove_players_ok [OF assms(1), of ?k] by simp_all
  from add_players_ok [OF r(1) assms(2) remove_players_machine [OF assms(3)], of "n - length (others ?w1)"]
  obtain new where a: "world_ok (adjust_players G n w)" "others (adjust_players G n w) = take n (others w) @ new"
      "length new = n - length (take n (others w))" "machine (adjust_players G n w) \<noteq> None"
      "same_for (set (take n (others w))) ?w1 (adjust_players G n w)"
    by (auto simp: adjust_players_def Let_def r(2))
  have "same_for (set (take n (others w))) w (adjust_players G n w)" using r(3) a(5) by (rule same_for_trans)
  with a show ?thesis by (cases "n \<le> length (others w)") auto
qed

section \<open>A frame\<close>

text \<open>What an actor shows of a player whose state came with it.\<close>

fun near :: "game_engine \<Rightarrow> vector \<Rightarrow> vector \<Rightarrow> bool" where
  "near G (ax, ay, az, aw) (x, y, z, w) = (ax = x \<and> ay = y \<and> aw = w \<and> (az = z \<or> same_height G az z))"

definition displays :: "game_engine \<Rightarrow> game_world \<Rightarrow> object_ref \<Rightarrow> w3m_player \<Rightarrow> bool" where
  "displays G w a player \<longleftrightarrow> (\<exists>st rest x m. w_state player = st # rest \<and> actors w a = Some x \<and>
     agents (side w) (actor_agent x) = Some m \<and> npcs (side w) a = Some (w_name player) \<and>
     near G (actor_position x) (w_position st) \<and> actor_rotation x = w_angles st \<and>
     actor_velocity x = w_velocity st \<and> actor_move x = convert_to_move_type (w_move_type st) \<and>
     actor_heading x = heading_of G (w_angles st) \<and> m_desiredAbsoluteSpeed m = w_speed st)"

lemma near_target: "near G (target_position G p t) t"
  by (cases p; cases t) auto

lemma displays_same: "same_for A w w' \<Longrightarrow> a \<in> A \<Longrightarrow> displays G w a p \<Longrightarrow> displays G w' a p"
  by (fastforce simp: same_for_def displays_def)

lemma apply_player_state_ok:
  assumes "actor_alive w a" and "agents_apart w"
  shows "same_for (- {a}) w (apply_player_state E G a p w)"
    and "machine (apply_player_state E G a p w) = machine w"
    and "actor_alive (apply_player_state E G a p w) a" and "agents_apart (apply_player_state E G a p w)"
    and "w_state p \<noteq> [] \<Longrightarrow> displays G (apply_player_state E G a p w) a p"
    and "w_state p = [] \<Longrightarrow> apply_player_state E G a p w = w"
    and "the_player (apply_player_state E G a p w) = the_player w"
proof -
  from assms(1) obtain x m where x: "actors w a = Some x" "agents (side w) (actor_agent x) = Some m"
      and n: "npcs (side w) a \<noteq> None" by (auto simp: actor_alive_def)
  show "w_state p = [] \<Longrightarrow> apply_player_state E G a p w = w" by (simp add: apply_player_state_def)
  have *: "same_for (- {a}) w (apply_player_state E G a p w) \<and> machine (apply_player_state E G a p w) = machine w \<and>
      actor_alive (apply_player_state E G a p w) a \<and> agents_apart (apply_player_state E G a p w) \<and>
      (w_state p \<noteq> [] \<longrightarrow> displays G (apply_player_state E G a p w) a p) \<and>
      the_player (apply_player_state E G a p w) = the_player w"
  proof (cases "w_state p")
    case Nil
    with assms show ?thesis by (simp add: apply_player_state_def)
  next
    case (Cons st rest)
    obtain m' where speed: "set_speed (env_abs_to_rel E) (Some m) (w_speed st) = Some m'"
        and m': "m_desiredAbsoluteSpeed m' = w_speed st"
      by (auto simp: set_speed_def Let_def)
    let ?x = "x\<lparr>actor_position := target_position G (actor_position x) (w_position st),
      actor_rotation := w_angles st, actor_move := convert_to_move_type (w_move_type st),
      actor_velocity := w_velocity st, actor_heading := heading_of G (w_angles st)\<rparr>"
    have w': "apply_player_state E G a p w = w\<lparr>side := (side w)\<lparr>npcs := (npcs (side w))(a \<mapsto> w_name p),
        agents := (agents (side w))(actor_agent x \<mapsto> m')\<rparr>, actors := (actors w)(a \<mapsto> ?x)\<rparr>"
      using n x speed
      by (auto simp: apply_player_state_def Cons set_display_name_def speed_from_script_def agent_at_def Let_def)
    have "agents_apart (apply_player_state E G a p w)"
      using assms(2) x by (auto simp: agents_apart_def w')
    moreover have "same_for (- {a}) w (apply_player_state E G a p w)"
      using assms(2) x by (auto simp: agents_apart_def same_for_def w')
    moreover have "displays G (apply_player_state E G a p w) a p"
      using m' by (simp add: displays_def w' Cons near_target)
    ultimately show ?thesis by (simp add: w' actor_alive_def)
  qed
  then show "same_for (- {a}) w (apply_player_state E G a p w)" "machine (apply_player_state E G a p w) = machine w"
    "actor_alive (apply_player_state E G a p w) a" "agents_apart (apply_player_state E G a p w)"
    "w_state p \<noteq> [] \<Longrightarrow> displays G (apply_player_state E G a p w) a p"
    "the_player (apply_player_state E G a p w) = the_player w" by simp_all
qed

lemma apply_states_ok:
  "distinct (map fst ps) \<Longrightarrow> \<forall>a \<in> fst ` set ps. actor_alive w a \<Longrightarrow> agents_apart w \<Longrightarrow>
   same_for (- fst ` set ps) w (apply_states E G ps w) \<and> machine (apply_states E G ps w) = machine w \<and>
   (\<forall>a \<in> fst ` set ps. actor_alive (apply_states E G ps w) a) \<and> agents_apart (apply_states E G ps w) \<and>
   (\<forall>(a, p) \<in> set ps. if w_state p \<noteq> [] then displays G (apply_states E G ps w) a p
      else same_for {a} w (apply_states E G ps w))"
proof (induction E G ps w rule: apply_states.induct)
  case (2 E G a p ps w)
  let ?w = "apply_player_state E G a p w"
  have alive: "actor_alive w a" and notin: "a \<notin> fst ` set ps" and apart: "agents_apart w"
    using 2(2-4) by auto
  note a = apply_player_state_ok [OF alive apart, where E = E and G = G and p = p]
  have "\<forall>b \<in> fst ` set ps. actor_alive ?w b"
  proof
    fix b assume b: "b \<in> fst ` set ps"
    with notin 2(3) have "b \<in> - {a}" "actor_alive w b" by auto
    then show "actor_alive ?w b" by (rule alive_same [OF a(1)])
  qed
  with 2(1,2) a(4) have ih: "same_for (- fst ` set ps) ?w (apply_states E G ps ?w)"
    "machine (apply_states E G ps ?w) = machine ?w"
    "\<forall>a \<in> fst ` set ps. actor_alive (apply_states E G ps ?w) a" "agents_apart (apply_states E G ps ?w)"
    "\<forall>(b, q) \<in> set ps. if w_state q \<noteq> [] then displays G (apply_states E G ps ?w) b q
      else same_for {b} ?w (apply_states E G ps ?w)" by auto
  have a_in: "a \<in> - fst ` set ps" using notin by simp
  have here: "if w_state p \<noteq> [] then displays G (apply_states E G ps ?w) a p
      else same_for {a} w (apply_states E G ps ?w)"
    using displays_same [OF ih(1) a_in] a(5,6) same_for_mono [OF ih(1), of "{a}"] a_in by auto
  have there: "if w_state q \<noteq> [] then displays G (apply_states E G ps ?w) b q
      else same_for {b} w (apply_states E G ps ?w)" if "(b, q) \<in> set ps" for b q
  proof -
    have "b \<noteq> a" using notin that by force
    then have "same_for {b} w ?w" using same_for_mono [OF a(1), of "{b}"] by simp
    with ih(5) that same_for_trans show ?thesis by (fastforce split: if_splits)
  qed
  have "same_for (- fst ` set ((a, p) # ps)) w ?w" "same_for (- fst ` set ((a, p) # ps)) ?w (apply_states E G ps ?w)"
    by (rule same_for_mono [OF a(1)], auto, rule same_for_mono [OF ih(1)], auto)
  then have "same_for (- fst ` set ((a, p) # ps)) w (apply_states E G ps ?w)" by (rule same_for_trans)
  moreover have "actor_alive (apply_states E G ps ?w) a" by (rule alive_same [OF ih(1) a_in a(3)])
  ultimately show ?case using ih(2,3,4) a(2) here there by (auto simp: case_prod_beta)
qed simp

lemma map_fst_zip_take: "length xs = length ys \<Longrightarrow> map fst (zip xs ys) = xs"
  by simp

lemma world_ok_session:
  "world_ok (w\<lparr>side := (side w)\<lparr>exp_session := s\<rparr>\<rparr>) = world_ok w"
  by (simp add: world_ok_def actor_alive_def agents_apart_def others_def)

lemma update_other_players_ok:
  assumes "world_ok w" and "creates_fresh G" and "machine w \<noteq> None"
    and "poll_from_script E (side w) = (ps, s)" and "w' = update_other_players E G w"
  shows "world_ok w'" and "length (others w') = length ps"
    and "take (length ps) (others w) = take (length (others w)) (others w')"
    and "\<forall>i < length ps. w_state (ps ! i) \<noteq> [] \<longrightarrow> displays G w' (others w' ! i) (ps ! i)"
    and "\<forall>i < length ps. i < length (others w) \<longrightarrow> w_state (ps ! i) = [] \<longrightarrow>
      actors w' (others w ! i) = actors w (others w ! i) \<and> npcs (side w') (others w ! i) = npcs (side w) (others w ! i)"
    and "exp_session (side w') = exp_session s" and "machine w' \<noteq> None" and "the_player w' = the_player w"
proof -
  let ?w0 = "w\<lparr>side := s\<rparr>" and ?w1 = "adjust_players G (length ps) (w\<lparr>side := s\<rparr>)"
  have s: "s = (side w)\<lparr>exp_session := exp_session s\<rparr>"
    using assms(4) by (auto simp: poll_from_script_def split: prod.splits)
  have w0: "world_ok ?w0" "machine ?w0 \<noteq> None" "others ?w0 = others w"
    using assms(1,3) world_ok_session [where w = w and s = "exp_session s"] s by (simp_all add: others_def)
  have side_w: "npcs s = npcs (side w)" using s by (metis script_state.select_convs(4) script_state.surjective script_state.update_convs(1))
  have a: "world_ok ?w1" "length (others ?w1) = length ps" "machine ?w1 \<noteq> None"
      "take (length ps) (others w) = take (length (others w)) (others ?w1)"
      "same_for (set (take (length ps) (others w))) ?w0 ?w1"
    using adjust_players_ok [OF w0(1) assms(2) w0(2), of "length ps"] unfolding w0(3) by blast+
  let ?z = "zip (others ?w1) ps"
  have fst_z: "map fst ?z = others ?w1" using a(2) by simp
  then have set_z: "fst ` set ?z = set (others ?w1)" by (metis list.set_map)
  have w': "w' = apply_states E G ?z ?w1"
    by (simp add: assms(5) update_other_players_def assms(4) Let_def)
  have "distinct (map fst ?z)" "\<forall>x \<in> fst ` set ?z. actor_alive ?w1 x" "agents_apart ?w1"
    using a(1) unfolding fst_z set_z by (simp_all add: world_ok_def)
  from apply_states_ok [OF this, where E = E and G = G] have
    p: "same_for (- set (others ?w1)) ?w1 w'" "machine w' = machine ?w1"
      "\<forall>x \<in> set (others ?w1). actor_alive w' x" "agents_apart w'"
      "\<forall>(x, q) \<in> set ?z. if w_state q \<noteq> [] then displays G w' x q else same_for {x} ?w1 w'"
    unfolding w' [symmetric] set_z by simp_all
  have o: "others w' = others ?w1" using p(2) by (simp add: others_def)
  show "world_ok w'" using a(1) p o by (auto simp: world_ok_def same_for_def)
  show "length (others w') = length ps" "take (length ps) (others w) = take (length (others w)) (others w')"
    using a o by simp_all
  show "machine w' \<noteq> None" using p(2) a(3) by simp
  show "exp_session (side w') = exp_session s" "the_player w' = the_player w"
    using a(5) p(1) by (simp_all add: same_for_def)
  have in_z: "(others ?w1 ! i, ps ! i) \<in> set ?z" if "i < length ps" for i
    using that a(2) by (auto simp: set_zip)
  show "\<forall>i < length ps. w_state (ps ! i) \<noteq> [] \<longrightarrow> displays G w' (others w' ! i) (ps ! i)"
    using in_z p(5) unfolding o by (fastforce split: if_splits)
  show "\<forall>i < length ps. i < length (others w) \<longrightarrow> w_state (ps ! i) = [] \<longrightarrow>
      actors w' (others w ! i) = actors w (others w ! i) \<and> npcs (side w') (others w ! i) = npcs (side w) (others w ! i)"
  proof (intro allI impI)
    fix i assume i: "i < length ps" "i < length (others w)" "w_state (ps ! i) = []"
    have "others w ! i = others ?w1 ! i"
      using a(4) i by (metis nth_take)
    moreover from in_z [OF i(1)] p(5) i(3) have "same_for {others ?w1 ! i} ?w1 w'" by (fastforce split: if_splits)
    moreover have "others w ! i \<in> set (take (length ps) (others w))"
      using i by (metis in_set_conv_nth length_take min_less_iff_conj nth_take)
    ultimately show "actors w' (others w ! i) = actors w (others w ! i) \<and>
        npcs (side w') (others w ! i) = npcs (side w) (others w ! i)"
      using a(5) side_w by (auto simp: same_for_def)
  qed
qed

lemma frame_effects:
  assumes "world_ok w" and "creates_fresh G" and "machine w \<noteq> None" and "actors w (the_player w) = Some me"
    and "fst (get_player_states (env_fpu E) (g_players (exp_session (side w)))) = ps"
    and "w' = run_multiplayer_frame E G w"
  shows "world_ok w' \<and> length (others w') = length ps \<and>
    take (length ps) (others w) = take (length (others w)) (others w') \<and>
    (\<forall>i < length ps. w_state (ps ! i) \<noteq> [] \<longrightarrow> displays G w' (others w' ! i) (ps ! i)) \<and>
    (\<forall>i < length ps. i < length (others w) \<longrightarrow> w_state (ps ! i) = [] \<longrightarrow>
       actors w' (others w ! i) = actors w (others w ! i) \<and> npcs (side w') (others w ! i) = npcs (side w) (others w ! i)) \<and>
    (\<exists>p. outbox (exp_session (side w')) = outbox (exp_session (side w)) @ [(env_master E, lit ''state'', state_message p)] \<and>
       guid p = env_guid E \<and> position (pstate p) = vector_to_vec4 (env_fpu E) (actor_position me))"
proof -
  obtain st where st: "w_position st = actor_position me" and
    t: "transmit_current_player_state E G w = w\<lparr>side := snd (store_from_script E st (side w))\<rparr>"
    by (simp add: transmit_current_player_state_def transmit_player_state_def assms(4) Let_def)
      (metis w3m_state.select_convs(2))
  obtain p where p: "own_player (env_fpu E) (env_guid E) (player_name (exp_session (side w))) st = Inr p"
    using own_player_ok by blast
  let ?s = "send_out (env_master E) ''state'' (state_message p) (exp_session (side w))"
  let ?w = "w\<lparr>side := (side w)\<lparr>exp_session := ?s\<rparr>\<rparr>"
  have w: "transmit_current_player_state E G w = ?w"
    by (simp add: t store_from_script_def store_player_state_def p)
  have "fst (poll_from_script E (side ?w)) = ps"
    using assms(5) by (auto simp: poll_from_script_def send_out_def split: prod.splits)
  then obtain s where poll: "poll_from_script E (side ?w) = (ps, s)" by (cases "poll_from_script E (side ?w)") simp
  have "outbox (exp_session s) = outbox ?s"
    using poll by (auto simp: poll_from_script_def split: prod.splits)
  moreover have "guid p = env_guid E" "position (pstate p) = vector_to_vec4 (env_fpu E) (actor_position me)"
    using p st by (auto simp: own_player_def exn_bind_eq_Inr)
  moreover have w': "w' = update_other_players E G ?w"
    using assms(3,6) w by (auto simp: run_multiplayer_frame_def)
  have ok: "world_ok ?w" "machine ?w \<noteq> None" "others ?w = others w"
    using assms(1,3) by (simp_all add: world_ok_session others_def)
  note u = update_other_players_ok [OF ok(1) assms(2) ok(2) poll w']
  ultimately show ?thesis
    using u by (auto simp: send_out_def)
qed

text \<open>C28: 
  In a frame the own state is sent once, to the master server, and afterwards there is exactly
  one actor for each other player the client knows. The actor at a player's place in the list
  shows the name and the state of that player if the state is new, and is as it was before if
  it is not. Actors keep their places, surplus ones are destroyed from the end, and no two share
  an object.
\<close>

theorem frame_displays_new_states:
  assumes "world_ok w" and "creates_fresh G" and "machine w \<noteq> None" and "actors w (the_player w) = Some me"
    and "fst (get_player_states (env_fpu E) (g_players (exp_session (side w)))) = ps"
    and "w' = run_multiplayer_frame E G w"
  shows "world_ok w' \<and> length (others w') = length ps \<and>
    take (length ps) (others w) = take (length (others w)) (others w') \<and>
    (\<forall>i < length ps. w_state (ps ! i) \<noteq> [] \<longrightarrow> displays G w' (others w' ! i) (ps ! i)) \<and>
    (\<forall>i < length ps. i < length (others w) \<longrightarrow> w_state (ps ! i) = [] \<longrightarrow>
       actors w' (others w ! i) = actors w (others w ! i) \<and> npcs (side w') (others w ! i) = npcs (side w) (others w ! i)) \<and>
    (\<exists>p. outbox (exp_session (side w')) = outbox (exp_session (side w)) @ [(env_master E, lit ''state'', state_message p)] \<and>
       guid p = env_guid E \<and> position (pstate p) = vector_to_vec4 (env_fpu E) (actor_position me))"
  by (rule frame_effects [OF assms])

text \<open>A second start of the game's session finds the state machine of the first.\<close>

lemma initialize_once: "initialize_multiplayer (initialize_multiplayer w) = initialize_multiplayer w"
  by (simp add: initialize_multiplayer_def)

text \<open>
  The actors are found by their place in the list and not by their player: when the first of
  two players leaves and the other has nothing new, the actor of the one who left is kept,
  with its name and place, and the actor of the one who stayed is destroyed.
\<close>

lemma leaving_player_keeps_actor:
  assumes "world_ok w" and "creates_fresh G" and "others w = [a, b]"
    and "poll_from_script E (side w) = ([p], s)" and "w_state p = []"
  shows "others (update_other_players E G w) = [a] \<and>
    actors (update_other_players E G w) a = actors w a \<and>
    npcs (side (update_other_players E G w)) a = npcs (side w) a"
proof -
  have m: "machine w \<noteq> None" using assms(3) by (auto simp: others_def split: option.splits)
  note u = update_other_players_ok [OF assms(1,2) m assms(4) refl]
  have "others (update_other_players E G w) = [a]"
    using u(2,3) assms(3) by (cases "others (update_other_players E G w)") auto
  with u(5) assms(3,5) show ?thesis by simp
qed

section \<open>A concrete game\<close>

text \<open>References are counted up; the only actor at the start is the player's.\<close>

definition demo_engine :: game_engine where
  "demo_engine = \<lparr>created = (\<lambda>w. (Suc (Max (insert (the_player w) (dom (actors w) \<union> set (others w)))),
       Suc (Max (insert 0 {actor_agent x | x. x \<in> ran (actors w)})))),
     same_height = (\<lambda>x y. x = y), heading_of = (\<lambda>a. 0), speed_of = m_currentSpeedVal, new_agent = demo_agent\<rparr>"

lemma demo_engine_fresh: "creates_fresh demo_engine"
proof -
  have less: "Suc (Max A) \<notin> A" if "finite A" for A :: "nat set"
    using Max_ge [OF that, of "Suc (Max A)"] by auto
  show ?thesis
    unfolding creates_fresh_def
  proof (intro allI impI)
    fix w a m assume fin: "finite (dom (actors w))" and c: "created demo_engine w = (a, m)"
    let ?A = "insert (the_player w) (dom (actors w) \<union> set (others w))"
    let ?M = "insert 0 {actor_agent x | x. x \<in> ran (actors w)}"
    have "finite ?A" using fin by simp
    moreover have "{actor_agent x | x. x \<in> ran (actors w)} = actor_agent ` ran (actors w)" by auto
    then have "finite ?M" using finite_ran [OF fin] by simp
    ultimately have "a \<notin> ?A" "m \<notin> ?M"
      using c less [of ?A] less [of ?M] by (auto simp only: demo_engine_def game_engine.select_convs prod.inject)
    then show "actors w a = None \<and> a \<noteq> the_player w \<and> a \<notin> set (others w) \<and>
        (\<forall>b x. actors w b = Some x \<longrightarrow> actor_agent x \<noteq> m)"
      by (auto simp: domIff ran_def)
  qed
qed

definition demo_actor :: actor where
  "demo_actor = \<lparr>actor_position = (0, 0, 0, 0), actor_rotation = (0, 0, 0), actor_velocity = (0, 0, 0, 0),
     actor_move = MT_Walk, actor_heading = 0, actor_agent = 1\<rparr>"

definition demo_world :: game_world where
  "demo_world = \<lparr>side = demo_script_state\<lparr>exp_session := \<lparr>g_players =
       \<lparr>infos = [zero_player\<lparr>pstate := zero_state\<lparr>state_id := 1\<rparr>\<rparr>], state_ids = Map.empty\<rparr>, player_name = [], outbox = []\<rparr>\<rparr>,
     actors = [1 \<mapsto> demo_actor], the_player = 1, machine = Some []\<rparr>"

theorem frame_displays_new_states_witness:
  "\<exists>a. others (run_multiplayer_frame demo_experiment_env demo_engine demo_world) = [a] \<and>
     npcs (side (run_multiplayer_frame demo_experiment_env demo_engine demo_world)) a = Some (convert_name (name zero_player))"
proof -
  let ?E = demo_experiment_env and ?w' = "run_multiplayer_frame demo_experiment_env demo_engine demo_world"
  have ok: "world_ok demo_world"
    by (simp add: world_ok_def demo_world_def others_def agents_apart_def)
  have machine: "machine demo_world \<noteq> None" by (simp add: demo_world_def)
  have me: "actors demo_world (the_player demo_world) = Some demo_actor" by (simp add: demo_world_def)
  let ?p = "convert_player (env_fpu ?E) (zero_player\<lparr>pstate := zero_state\<lparr>state_id := 1\<rparr>\<rparr>) True"
  have poll: "fst (get_player_states (env_fpu ?E) (g_players (exp_session (side demo_world)))) = [?p]"
    by (simp add: get_player_states_def demo_world_def zero_player_def Let_def)
  note f = frame_displays_new_states [OF ok demo_engine_fresh machine me poll refl]
  from f obtain a where a: "others ?w' = [a]" by (auto simp: length_Suc_conv)
  with f have "displays demo_engine ?w' a ?p" by (auto simp: convert_player_def)
  with a show ?thesis by (auto simp: displays_def convert_player_def zero_player_def)
qed

end
