(* ===== verification/Relay.thy ===== *)
theory Relay
  imports Agreement Script_World
begin

text \<open>
  The broadcast from end to end, over the server (\<open>Server_Properties\<close>), the client
  (\<open>Client_Session\<close>) and its scripts (\<open>Script_World\<close>): what one client reports, what the server
  makes of it, what another client receives, and what its game shows.
\<close>

section \<open>The broadcast from end to end\<close>

lemma length_states_message:
  "list_all valid_player ps \<Longrightarrow>
     length (make_packet (lit ''states'') 32 (states_message ps)) = 19 + 176 * length ps"
  using playerc.length_concat_enc
  by (simp add: make_packet_def magic_def states_message_def serializer_defs player_size_def)

lemma client_stores_states:
  assumes "addr_eq (address_of_in sa) master" and "list_all valid_player ps" and "length ps \<le> 46"
    and "length sa \<le> get_max_size"
  shows "receive_socket_data (client_callbacks L k master own)
      (Some (sa, make_packet (lit ''states'') 32 (states_message ps))) s =
    (True, s\<lparr>g_players := \<lparr>infos = filter (\<lambda>p. guid p \<noteq> own) ps,
       state_ids = (state_ids (g_players s)) |` {g. g \<noteq> own \<and> g \<in> guid ` set ps}\<rparr>\<rparr>, Handled)"
proof -
  let ?packet = "make_packet (lit ''states'') 32 (states_message ps)"
  have "length ?packet \<le> receive_buffer_size"
    using assms(3) by (simp add: length_states_message [OF assms(2)] receive_buffer_size_def)
  then have "socket_receive (Some (sa, ?packet)) new_address = Some (address_of_in sa, ?packet)"
    using assms(4) by (simp add: socket_receive_small address_of_in_def)
  moreover have "store_players own ps (g_players s) = \<lparr>infos = filter (\<lambda>p. guid p \<noteq> own) ps,
       state_ids = (state_ids (g_players s)) |` {g. g \<noteq> own \<and> g \<in> guid ` set ps}\<rparr>"
  proof -
    have "guid ` {p \<in> set ps. guid p \<noteq> own} = {g. g \<noteq> own \<and> g \<in> guid ` set ps}" by auto
    then show ?thesis
      using store_players_infos [of own ps] store_players_ids [of own ps "g_players s"]
      by (cases "store_players own ps (g_players s)") (metis players.select_convs)
  qed
  moreover have "length ps < 2 ^ 32" using assms(3) by simp
  ultimately show ?thesis
    using client_handles_states [OF assms(1,2) _ is_divider_space]
    by (simp add: receive_socket_data_def)
qed

text \<open>A broadcast of at most 46 players fits the receive buffer: a client that gets it from the
  server's endpoint then knows exactly those players without itself, in the order sent.\<close>

theorem broadcast_is_received:
  assumes "addr_eq (address_of_in sa) master" and "list_all valid_player ps" and "length ps \<le> 46"
    and "length sa \<le> get_max_size"
  shows "receive_socket_data (client_callbacks L k master own)
      (Some (sa, make_packet (lit ''states'') 32 (states_message ps))) s =
    (True, s\<lparr>g_players := \<lparr>infos = filter (\<lambda>p. guid p \<noteq> own) ps,
       state_ids = (state_ids (g_players s)) |` {g. g \<noteq> own \<and> g \<in> guid ` set ps}\<rparr>\<rparr>, Handled)"
  by (rule client_stores_states [OF assms])

lemma demo_sockaddr: "addr_eq (address_of_in (take 16 (storage demo_address))) demo_address"
proof -
  have v4: "sa_family demo_address = AF_INET" by (simp add: demo_address_def set_ipv4_fields)
  have ok: "addr_ok demo_address" by (simp add: demo_address_def)
  have "bytes_u16 (peek 0 2 (storage demo_address)) = AF_INET"
    using v4 by (simp add: sa_family_def)
  then have "set_address (storage demo_address) (int (get_size demo_address)) new_address =
      Inr (address_of_in (take 16 (storage demo_address)))"
    using ok v4
    by (simp add: set_address_def get_size_def size_defs address_of_in_def addr_ok_def)
  then show ?thesis
    using set_address_self [OF ok new_address_ok demo_address_supported] v4
    by (auto simp: addr_eq_iff endpoint_of_def is_ipv4_def)
qed

theorem broadcast_is_received_witness:
  "receive_socket_data (client_callbacks toy_lib [7] demo_address 5)
      (Some (take 16 (storage demo_address),
        make_packet (lit ''states'') 32 (states_message [zero_player, zero_player\<lparr>guid := 5\<rparr>])))
      \<lparr>g_players = no_players, player_name = [], outbox = []\<rparr> =
    (True, \<lparr>g_players = \<lparr>infos = [zero_player], state_ids = Map.empty\<rparr>, player_name = [],
       outbox = []\<rparr>, Handled)"
proof -
  have "valid_player (zero_player\<lparr>guid := 5\<rparr>)" "guid zero_player = 0"
    by (simp_all add: valid_player_def zero_player_def)
  then show ?thesis
    by (subst broadcast_is_received [OF demo_sockaddr])
       (simp_all add: no_players_def get_max_size_def storage_size_def)
qed



section \<open>What is reported is told\<close>

definition sent_state :: "fpu \<Rightarrow> w3m_state \<Rightarrow> player_state" where
  "sent_state F st = zero_state\<lparr>angles := euler_to_vec3 F (w_angles st), position := vector_to_vec4 F (w_position st),
     velocity := vector_to_vec4 F (w_velocity st), speed := w_speed st, move_type := w_move_type st\<rparr>"

lemma own_player_sent:
  "own_player F own u st = Inr \<lparr>guid = own, name = padded_name (takeWhile (\<lambda>b. b \<noteq> 0) u), pstate = sent_state F st\<rparr>"
proof -
  obtain r where r: "u @ [0] = takeWhile (\<lambda>b. b \<noteq> 0) u @ 0 # r" using c_string_split by blast
  have "0 \<notin> set (takeWhile (\<lambda>b. b \<noteq> 0) u)" by (auto dest: set_takeWhileD)
  from str_copy_name [OF this, of r] show ?thesis by (simp add: own_player_def r [symmetric] sent_state_def)
qed

lemma takeWhile_padded: "0 \<notin> set n \<Longrightarrow> takeWhile (\<lambda>b. b \<noteq> 0) (padded_name n) = take 63 n"
proof -
  assume "0 \<notin> set n"
  then have "\<And>b. b \<in> set (take 63 n) \<Longrightarrow> b \<noteq> 0" by (metis in_set_takeD)
  then show ?thesis by (simp add: padded_name_def takeWhile_append2)
qed

lemma padded_take: "padded_name (take 63 n) = padded_name n"
  by (simp add: padded_name_def)

lemma convert_name_padded: "0 \<notin> set n \<Longrightarrow> convert_name (padded_name n) = script_string_of (take 63 n)"
  using takeWhile_padded [of n] take_strnlen [of "padded_name n" 64] by (simp add: convert_name_def)

text \<open>Converting to \<open>double\<close> and back loses nothing.\<close>

lemma convert_sent:
  assumes "\<And>x. d2f F (f2d F x) = x" and "0 \<notin> set n"
  shows "convert_player F \<lparr>guid = g, name = padded_name n, pstate = (sent_state F st)\<lparr>state_id := k\<rparr>\<rparr> True =
    \<lparr>w_guid = g, w_name = script_string_of (take 63 n), w_state = [st]\<rparr>"
proof -
  have "vec3_to_euler F (euler_to_vec3 F a) = a" for a by (cases a) (simp add: assms(1))
  moreover have "vec4_to_vector F (vector_to_vec4 F v) = v" for v by (cases v) (simp add: assms(1))
  ultimately show ?thesis by (simp add: convert_player_def convert_name_padded [OF assms(2)] sent_state_def)
qed

lemma state_is_broadcast:
  assumes "server_reachable L s" and "valid_player p" and "is_supported source"
    and "is_authenticated (client_at source (clients s))" and "length rnd = challenge_size"
    and "now' - now \<le> timeout_ns"
  shows "\<exists>s' cs effs states dest.
    handle_data (server_callbacks L now rnd) source
      (make_packet (lit ''state'') 32 (state_message p)) s = (s', Handled) \<and>
    run_frame now' (clients s') = (cs, effs, None) \<and> addr_eq dest source \<and>
    Send dest (lit ''states'') (states_message states) \<in> set effs \<and>
    \<lparr>guid = guid p, name = padded_name (takeWhile (\<lambda>b. b \<noteq> 0) (name p)),
     pstate = (pstate p)\<lparr>state_id := c_state_id (client_at source (clients s)) + 1\<rparr>\<rparr> \<in> set states \<and>
    list_all valid_player states \<and> (\<forall>d m. Send d (lit ''states'') m \<in> set effs \<longrightarrow> m = states_message states)"
proof -
  let ?c = "client_at source (clients s)"
  let ?u = "update_client now p ?c"
  let ?s' = "s\<lparr>clients := put_client source ?u (clients s), effects := effects s @ []\<rparr>"
  have "handle_player_state now rnd (clients s) source (state_message p) =
      (put_client source ?u (clients s), [], None)"
    using assms(4) by (simp add: state_message_def handle_state_message [OF assms(2)])
  from dispatch_handled [OF server_callback_commands(3) server_commands_plain(3) is_divider_space this]
  have step: "handle_data (server_callbacks L now rnd) source
      (make_packet (lit ''state'') 32 (state_message p)) s = (?s', Handled)" .
  have reach: "server_reachable L ?s'"
    using server_reachable.step [OF assms(1) server_step.packet [OF assms(5) step]] .
  have found: "um_find addr_eq source (clients s) = Some ?c"
    using assms(4) by (auto simp: client_at_def um_at_def split: option.splits)
  obtain dest where dest: "(dest, ?u) \<in> set (put_client source ?u (clients s))" "addr_eq dest source"
  proof -
    obtain xs k ys where "um_replace addr_eq source ?u (clients s) = xs @ (k, ?u) # ys"
        "addr_eq k source"
      using um_replace_split [OF found, of ?u] by blast
    with found that [of k] show ?thesis by (simp add: put_client_def um_put_def)
  qed
  let ?live = "filter (\<lambda>n. now' - last_packet (snd n) \<le> timeout_ns) (clients ?s')"
  have live: "(dest, ?u) \<in> set (authenticated_clients ?live)"
    using dest(1) assms(4,6) by (simp add: authenticated_clients_def) (simp add: update_client_def)
  have u: "public_player ?u = \<lparr>guid = guid p, name = padded_name (takeWhile (\<lambda>b. b \<noteq> 0) (name p)),
     pstate = (pstate p)\<lparr>state_id := c_state_id ?c + 1\<rparr>\<rparr>"
    using assms(2) by (simp add: public_player_def update_client_def take_strnlen valid_player_def)
  show ?thesis
    by (intro exI conjI, rule step, rule run_frame_effects [OF reach refl], rule dest(2))
       (use live in \<open>force simp flip: u\<close>, use live in \<open>force simp flip: u\<close>, simp add: list_all_iff, auto)
qed

text \<open>What a client reports of itself is what the others are told: in a reachable state an
  authenticated client's state packet, followed within 20 seconds by a frame, puts into the
  broadcast the identity, the name up to 63 bytes and the state it sent, numbered by the server;
  the sender is among those it goes to.\<close>

theorem reported_state_is_broadcast:
  assumes "server_reachable L s" and "valid_player p" and "is_supported source"
    and "is_authenticated (client_at source (clients s))" and "length rnd = challenge_size"
    and "now' - now \<le> timeout_ns"
  shows "\<exists>s' cs effs states dest.
    handle_data (server_callbacks L now rnd) source
      (make_packet (lit ''state'') 32 (state_message p)) s = (s', Handled) \<and>
    run_frame now' (clients s') = (cs, effs, None) \<and> addr_eq dest source \<and>
    Send dest (lit ''states'') (states_message states) \<in> set effs \<and>
    \<lparr>guid = guid p, name = padded_name (takeWhile (\<lambda>b. b \<noteq> 0) (name p)),
     pstate = (pstate p)\<lparr>state_id := c_state_id (client_at source (clients s)) + 1\<rparr>\<rparr> \<in> set states"
  using state_is_broadcast [OF assms] by blast

theorem reported_state_is_broadcast_witness:
  "\<exists>s s' cs effs states dest. clients s = demo_table \<and>
    handle_data (server_callbacks toy_lib 3 demo_random) demo_address
      (make_packet (lit ''state'') 32 (state_message zero_player)) s = (s', Handled) \<and>
    run_frame 4 (clients s') = (cs, effs, None) \<and> addr_eq dest demo_address \<and>
    Send dest (lit ''states'') (states_message states) \<in> set effs \<and>
    \<lparr>guid = guid zero_player, name = padded_name (takeWhile (\<lambda>b. b \<noteq> 0) (name zero_player)),
     pstate = (pstate zero_player)\<lparr>state_id := c_state_id demo_client + 1\<rparr>\<rparr> \<in> set states"
proof -
  obtain effs where r: "server_reachable toy_lib \<lparr>clients = demo_table, effects = effs\<rparr>"
    using demo_reachable by blast
  have at: "client_at demo_address demo_table = demo_client" by (simp add: demo_table_def)
  then have "is_authenticated (client_at demo_address (clients \<lparr>clients = demo_table, effects = effs\<rparr>))"
    by (simp add: demo_client_def is_authenticated_def)
  moreover have "(4 :: int) - 3 \<le> timeout_ns" by (simp add: timeout_ns_def)
  ultimately show ?thesis
    using reported_state_is_broadcast [OF r valid_zero_player demo_address_supported _
        demo_random_length, of 4 3]
    by - (rule exI [of _ "\<lparr>clients = demo_table, effects = effs\<rparr>"], simp add: at)
qed

section \<open>What is reported is shown\<close>

lemma frame_shows_player:
  assumes "world_ok w" and "creates_fresh G" and "machine w \<noteq> None" and "actors w (the_player w) \<noteq> None"
    and "g_players (exp_session (side w)) = g" and "distinct (map guid (infos g))" and "q \<in> set (infos g)"
    and "last_id (state_ids g) (guid q) < state_id (pstate q)"
  shows "\<exists>x \<in> set (others (run_multiplayer_frame E G w)).
    displays G (run_multiplayer_frame E G w) x (convert_player (env_fpu E) q True)"
proof -
  let ?w = "run_multiplayer_frame E G w"
  obtain me where me: "actors w (the_player w) = Some me" using assms(4) by blast
  obtain i where i: "i < length (infos g)" "infos g ! i = q" using assms(7) by (metis in_set_conv_nth)
  let ?ps = "map (\<lambda>p. convert_player (env_fpu E) p (last_id (state_ids g) (guid p) < state_id (pstate p))) (infos g)"
  have ps: "fst (get_player_states (env_fpu E) (g_players (exp_session (side w)))) = ?ps"
    unfolding assms(5) using poll_delivers_new_states [OF assms(6), THEN conjunct1] .
  note f = frame_effects [OF assms(1-3) me ps refl]
  have at: "?ps ! i = convert_player (env_fpu E) q True" using i assms(8) by simp
  have "w_state (convert_player (env_fpu E) q True) \<noteq> []" by (simp add: convert_player_def)
  moreover have "i < length ?ps" using i by simp
  with f have "w_state (?ps ! i) \<noteq> [] \<longrightarrow> displays G ?w (others ?w ! i) (?ps ! i)" by blast
  ultimately have "displays G ?w (others ?w ! i) (convert_player (env_fpu E) q True)" unfolding at by blast
  moreover have "others ?w ! i \<in> set (others ?w)" using f i(1) by simp
  ultimately show ?thesis by blast
qed

lemma broadcast_is_shown:
  assumes "list_all valid_player states" and "length states \<le> 46" and "distinct (map guid states)"
    and "q \<in> set states" and "guid q \<noteq> other" and "creates_fresh G"
    and "addr_eq (address_of_in sa) master" and "length sa \<le> get_max_size"
    and "last_id (state_ids (g_players b)) (guid q) < state_id (pstate q)"
  shows "\<exists>b'. receive_socket_data (client_callbacks L k master other)
      (Some (sa, make_packet (lit ''states'') 32 (states_message states))) b = (True, b', Handled) \<and>
    (\<forall>w. world_ok w \<and> machine w \<noteq> None \<and> actors w (the_player w) \<noteq> None \<and> exp_session (side w) = b' \<longrightarrow>
      (\<exists>x \<in> set (others (run_multiplayer_frame E G w)).
        displays G (run_multiplayer_frame E G w) x (convert_player (env_fpu E) q True)))"
proof -
  let ?g = "\<lparr>infos = filter (\<lambda>p. guid p \<noteq> other) states,
       state_ids = (state_ids (g_players b)) |` {g. g \<noteq> other \<and> g \<in> guid ` set states}\<rparr>"
  have "last_id (state_ids ?g) (guid q) \<le> last_id (state_ids (g_players b)) (guid q)"
    by (simp add: last_id_def restrict_map_def)
  from this assms(9) have new: "last_id (state_ids ?g) (guid q) < state_id (pstate q)"
    by (rule order.strict_trans1)
  have "distinct (map guid (infos ?g))" "q \<in> set (infos ?g)"
    using distinct_map_filter [OF assms(3)] assms(4,5) by simp_all
  note shown = frame_shows_player [OF _ assms(6) _ _ _ this new]
  show ?thesis
    by (intro exI conjI allI impI, rule client_stores_states [OF assms(7,1,2,8)], rule shown) simp_all
qed


definition demo_w3m_state :: w3m_state where
  "demo_w3m_state = \<lparr>w_angles = (1, 2, 3), w_position = (4, 5, 6, 7), w_velocity = (8, 9, 10, 11), w_speed = 12, w_move_type = 3\<rparr>"

definition demo_sender :: session where
  "demo_sender = \<lparr>g_players = no_players, player_name = lit ''Ciri'', outbox = []\<rparr>"


end
