(* ===== verification/Signature.thy ===== *)
theory Signature
  imports String_Utils "HOL-Library.Multiset"
begin

unbundle bit_operations_syntax

text \<open>
  \<open>utils::hook::signature\<close> (src/common/utils/signature.cpp, signature.hpp): loading a byte
  pattern, the linear, the vectorised and the parallel scan of a module image. An image is
  its bytes from the start address on; a read outside it makes the whole scan undefined
  (\<open>None\<close>). The 128-bit registers are 128-bit words, and the comparison instruction is
  written out from its documented result. Sizes are \<open>size_t\<close>, with the subtractions
  reduced modulo \<open>2 ^ 64\<close>.
\<close>

section \<open>Model\<close>

record signature =
  sig_mask :: "byte list"
  sig_pattern :: "byte list"

abbreviation (input) wildcard :: byte where "wildcard \<equiv> 63"
abbreviation (input) exact :: byte where "exact \<equiv> 120"

definition is_hex_char :: "byte \<Rightarrow> bool" where
  "is_hex_char v \<longleftrightarrow> \<not> ((v < 48 \<or> v > 57) \<and> (v < 65 \<or> v > 70) \<and> (v < 97 \<or> v > 102))"

text \<open>\<open>strtol\<close> with base 16 on one hexadecimal digit.\<close>

definition hex_char_value :: "byte \<Rightarrow> byte" where
  "hex_char_value v = (if v \<le> 57 then v - 48 else if v \<le> 70 then v - 55 else v - 87)"

definition invalid_pattern :: exn where
  "invalid_pattern = Runtime_error (lit ''Invalid pattern'')"

text \<open>The loop over the characters: the pending nibble, the mask and the pattern so far.\<close>

fun load_loop :: "byte list \<Rightarrow> byte option \<Rightarrow> signature \<Rightarrow> exn + (byte option \<times> signature)" where
  "load_loop [] nibble s = Inr (nibble, s)"
| "load_loop (v # vs) nibble s =
     (if v = 32 then load_loop vs nibble s
      else if v = wildcard then
        load_loop vs nibble (s\<lparr>sig_mask := sig_mask s @ [v], sig_pattern := sig_pattern s @ [0]\<rparr>)
      else if \<not> is_hex_char v then Inl invalid_pattern
      else case nibble of
          None \<Rightarrow> load_loop vs (Some (hex_char_value v)) s
        | Some n \<Rightarrow> load_loop vs None
            (s\<lparr>sig_mask := sig_mask s @ [exact],
               sig_pattern := sig_pattern s @ [hex_char_value v OR push_bit 4 n]\<rparr>))"

function pop_wildcards :: "signature \<Rightarrow> signature" where
  "pop_wildcards s =
     (if sig_mask s \<noteq> [] \<and> last (sig_mask s) = wildcard
      then pop_wildcards (s\<lparr>sig_mask := butlast (sig_mask s), sig_pattern := butlast (sig_pattern s)\<rparr>)
      else s)"
  by pat_completeness auto
termination
  by (relation "measure (\<lambda>s. length (sig_mask s))") auto

declare pop_wildcards.simps [simp del]

text \<open>\<open>cpu\<close>: the processor has the string instructions.\<close>

definition has_sse_support :: "bool \<Rightarrow> signature \<Rightarrow> bool" where
  "has_sse_support cpu s = (if length (sig_mask s) \<le> 16 then cpu else False)"

definition pad16 :: "byte list \<Rightarrow> byte list" where
  "pad16 bs = bs @ replicate (16 - length bs) 0"

definition load_pattern :: "bool \<Rightarrow> byte list \<Rightarrow> exn + signature" where
  "load_pattern cpu pat =
     exn_bind (load_loop pat None \<lparr>sig_mask = [], sig_pattern = []\<rparr>) (\<lambda>(nibble, s).
       let s1 = pop_wildcards s;
           s2 = (if has_sse_support cpu s1 then s1\<lparr>sig_pattern := pad16 (sig_pattern s1)\<rparr> else s1) in
       if nibble \<noteq> None then Inl invalid_pattern else Inr s2)"

text \<open>The inner loop at one address; \<open>mem\<close> is the img from that address on.\<close>

fun match_linear :: "byte list \<Rightarrow> byte list \<Rightarrow> byte list \<Rightarrow> bool option" where
  "match_linear [] ps mem = Some True"
| "match_linear (m # ms) [] mem = None"
| "match_linear (m # ms) (p # ps) mem =
     (if m = wildcard then match_linear ms ps (drop 1 mem)
      else case mem of [] \<Rightarrow> None
        | b # mem' \<Rightarrow> if p \<noteq> b then Some False else match_linear ms ps mem')"

text \<open>The outer loop: the addresses of the matches among \<open>len\<close> positions from \<open>first\<close> on.\<close>

fun scan :: "(nat \<Rightarrow> bool option) \<Rightarrow> nat \<Rightarrow> nat \<Rightarrow> nat list option" where
  "scan test first 0 = Some []"
| "scan test first (Suc len) =
     (case test first of None \<Rightarrow> None
      | Some hit \<Rightarrow>
          map_option (\<lambda>rest. if hit then first # rest else rest) (scan test (Suc first) len))"

definition process_range_linear :: "signature \<Rightarrow> byte list \<Rightarrow> nat \<Rightarrow> nat \<Rightarrow> nat list option" where
  "process_range_linear s img first len =
     scan (\<lambda>i. match_linear (sig_mask s) (sig_pattern s) (drop i img)) first len"

type_synonym m128 = "128 word"

text \<open>
  \<open>_mm_cmpestrm\<close> in the mode \<open>_SIDD_CMP_EQUAL_EACH\<close>: bit \<open>i\<close> compares the bytes \<open>i\<close> when
  both are inside their lengths, is set when both are outside, and clear otherwise.
\<close>

definition cmpestrm_equal_each :: "byte list \<Rightarrow> nat \<Rightarrow> byte list \<Rightarrow> nat \<Rightarrow> m128" where
  "cmpestrm_equal_each a la b lb =
     horner_sum of_bool 2 (map (\<lambda>i.
       if i < la \<and> i < lb then a ! i = b ! i else i \<ge> la \<and> i \<ge> lb) [0..<16])"

fun desired_mask :: "nat \<Rightarrow> byte list \<Rightarrow> m128 \<Rightarrow> m128" where
  "desired_mask i [] acc = acc"
| "desired_mask i (m # ms) acc =
     desired_mask (Suc i) ms (acc OR push_bit i (if m = wildcard then 0 else 1))"

text \<open>The 16 bytes \<open>_mm_loadu_si128\<close> reads.\<close>

definition load16 :: "byte list \<Rightarrow> nat \<Rightarrow> byte list option" where
  "load16 mem i = (if i + 16 \<le> length mem then Some (take 16 (drop i mem)) else None)"

definition match_vectorized :: "signature \<Rightarrow> byte list \<Rightarrow> nat \<Rightarrow> bool option" where
  "match_vectorized s img i =
     (case (load16 (sig_pattern s) 0, load16 img i) of
        (Some comparand, Some value) \<Rightarrow>
          let mask = desired_mask 0 (sig_mask s) 0;
              comparison = cmpestrm_equal_each value 16 comparand (length (sig_mask s));
              matches = mask AND comparison;
              equivalence = mask XOR matches in
          Some (equivalence AND equivalence = 0)
      | _ \<Rightarrow> None)"

definition process_range_vectorized :: "signature \<Rightarrow> byte list \<Rightarrow> nat \<Rightarrow> nat \<Rightarrow> nat list option" where
  "process_range_vectorized s img first len = scan (match_vectorized s img) first len"

definition process_range :: "bool \<Rightarrow> signature \<Rightarrow> byte list \<Rightarrow> nat \<Rightarrow> nat \<Rightarrow> nat list option" where
  "process_range cpu s img first len =
     (if has_sse_support cpu s then process_range_vectorized s img first len
      else process_range_linear s img first len)"

definition size_sub :: "nat \<Rightarrow> nat \<Rightarrow> nat" where
  "size_sub a b = (a + size_mod - b mod size_mod) mod size_mod"

definition scan_sub :: "bool \<Rightarrow> signature \<Rightarrow> nat" where
  "scan_sub cpu s = (if has_sse_support cpu s then 16 else length (sig_mask s))"

definition process_serial :: "bool \<Rightarrow> signature \<Rightarrow> byte list \<Rightarrow> nat list option" where
  "process_serial cpu s img =
     process_range cpu s img 0 (size_sub (length img) (scan_sub cpu s))"

text \<open>
  The threads: the ranges in thread order, the results appended in the order \<open>order\<close> in
  which the threads got the lock, then sorted.
\<close>

definition thread_range :: "nat \<Rightarrow> nat \<Rightarrow> nat \<Rightarrow> nat \<times> nat" where
  "thread_range span cores i =
     (let grid = span div cores; first = grid * i in
      (first, if i + 1 = cores then size_sub span first else grid))"

fun collect_threads :: "(nat \<Rightarrow> nat list option) \<Rightarrow> nat list \<Rightarrow> nat list option" where
  "collect_threads f [] = Some []"
| "collect_threads f (i # is) =
     (case f i of None \<Rightarrow> None
      | Some local_result \<Rightarrow> map_option ((@) local_result) (collect_threads f is))"

definition process_parallel ::
    "bool \<Rightarrow> nat \<Rightarrow> nat list \<Rightarrow> signature \<Rightarrow> byte list \<Rightarrow> nat list option" where
  "process_parallel cpu hardware_concurrency order s img =
     (let span = size_sub (length img) (scan_sub cpu s);
          cores = max 1 (hardware_concurrency div 2) in
      map_option sort
        (collect_threads
          (\<lambda>i. let (first, len) = thread_range span cores i in process_range cpu s img first len)
          order))"

definition process ::
    "bool \<Rightarrow> nat \<Rightarrow> nat list \<Rightarrow> signature \<Rightarrow> byte list \<Rightarrow> nat list option" where
  "process cpu hardware_concurrency order s img =
     (let span = size_sub (length img) (length (sig_mask s));
          cores = max 1 hardware_concurrency in
      if span \<le> cores * 10 then process_serial cpu s img
      else process_parallel cpu hardware_concurrency order s img)"

text \<open>\<open>signature_result::get\<close> and \<open>count\<close>.\<close>

definition result_count :: "nat list \<Rightarrow> nat" where
  "result_count matches = length matches"

definition result_get :: "nat list \<Rightarrow> nat \<Rightarrow> exn + nat" where
  "result_get matches index =
     (if index \<ge> result_count matches then Inl (Runtime_error (lit ''Invalid index''))
      else Inr (matches ! index))"

section \<open>What a match is\<close>

definition matches_at :: "signature \<Rightarrow> byte list \<Rightarrow> nat \<Rightarrow> bool" where
  "matches_at s img i \<longleftrightarrow>
     (\<forall>j < length (sig_mask s). sig_mask s ! j = wildcard \<or> img ! (i + j) = sig_pattern s ! j)"

text \<open>A loaded signature: a pattern byte for every mask byte.\<close>

definition sig_ok :: "bool \<Rightarrow> signature \<Rightarrow> bool" where
  "sig_ok cpu s \<longleftrightarrow> length (sig_mask s) \<le> length (sig_pattern s) \<and>
     (has_sse_support cpu s \<longrightarrow> 16 \<le> length (sig_pattern s))"

lemma match_linear_spec:
  "length ms \<le> length ps \<Longrightarrow> length ms \<le> length mem \<Longrightarrow>
     match_linear ms ps mem = Some (\<forall>j < length ms. ms ! j = wildcard \<or> mem ! j = ps ! j)"
proof (induction ms ps mem rule: match_linear.induct)
  case (3 m ms p ps mem)
  then obtain b mem' where mem: "mem = b # mem'" by (cases mem) auto
  have split: "(\<forall>j < length (m # ms). (m # ms) ! j = wildcard \<or> mem ! j = (p # ps) ! j) \<longleftrightarrow>
      (m = wildcard \<or> b = p) \<and> (\<forall>j < length ms. ms ! j = wildcard \<or> mem' ! j = ps ! j)"
    by (auto simp: less_Suc_eq_0_disj mem)
  from 3 mem show ?case unfolding split by (simp add: eq_commute)
qed auto

lemma bit_desired_mask:
  "bit (desired_mask i ms acc) n \<longleftrightarrow> bit acc n \<or>
     n < 128 \<and> i \<le> n \<and> n < i + length ms \<and> ms ! (n - i) \<noteq> wildcard"
proof (induction i ms acc rule: desired_mask.induct)
  case (2 i m ms acc)
  have "bit (push_bit i (if m = wildcard then 0 else 1) :: m128) n \<longleftrightarrow>
      n < 128 \<and> n = i \<and> m \<noteq> wildcard"
    by (auto simp: bit_simps bit_1_iff)
  with 2 show ?case by (auto simp: bit_or_iff nth_Cons' Suc_le_eq)
qed auto

lemma match_vectorized_spec:
  assumes "length (sig_mask s) \<le> 16" and "16 \<le> length (sig_pattern s)" and "i + 16 \<le> length img"
  shows "match_vectorized s img i = Some (matches_at s img i)"
proof -
  let ?m = "length (sig_mask s)"
  let ?loaded = "take 16 (drop i img)" and ?comparand = "take 16 (sig_pattern s)"
  let ?mask = "desired_mask 0 (sig_mask s) 0"
  let ?cmp = "cmpestrm_equal_each ?loaded 16 ?comparand ?m"
  have cmp: "bit ?cmp n \<longleftrightarrow> n < 16 \<and> n < ?m \<and> img ! (i + n) = sig_pattern s ! n" for n
    using assms(3) by (auto simp: cmpestrm_equal_each_def bit_horner_sum_bit_word_iff)
  have mask: "bit ?mask n \<longleftrightarrow> n < ?m \<and> sig_mask s ! n \<noteq> wildcard" for n
    using assms(1) by (auto simp: bit_desired_mask)
  have "(?mask XOR (?mask AND ?cmp) = 0) \<longleftrightarrow> (\<forall>n. \<not> bit (?mask XOR (?mask AND ?cmp)) n)"
    by (metis bit_0_eq bit_eqI bot_apply bot_bool_def)
  also have "\<dots> \<longleftrightarrow> matches_at s img i"
    using assms(1) by (auto simp: bit_simps cmp mask matches_at_def)
  finally show ?thesis
    using assms by (simp add: match_vectorized_def load16_def Let_def)
qed

lemma scan_eq:
  "(\<And>i. first \<le> i \<Longrightarrow> i < first + len \<Longrightarrow> test i = Some (P i)) \<Longrightarrow>
     scan test first len = Some (filter P [first..<first + len])"
proof (induction len arbitrary: first)
  case (Suc len)
  have "scan test (Suc first) len = Some (filter P [Suc first..<Suc first + len])"
    using Suc.prems by (intro Suc.IH) auto
  moreover have "[first..<first + Suc len] = first # [Suc first..<Suc first + len]"
    by (simp add: upt_conv_Cons del: upt_Suc)
  ultimately show ?case using Suc.prems [of first] by simp
qed simp

lemma process_range_spec:
  assumes "sig_ok cpu s" and "first + len + scan_sub cpu s \<le> length img"
  shows "process_range cpu s img first len =
    Some (filter (matches_at s img) [first..<first + len])"
proof (cases "has_sse_support cpu s")
  case True
  then have "length (sig_mask s) \<le> 16" by (simp add: has_sse_support_def split: if_splits)
  with True assms show ?thesis
    by (auto simp: process_range_def process_range_vectorized_def scan_sub_def sig_ok_def
        intro!: scan_eq match_vectorized_spec)
next
  case False
  have "match_linear (sig_mask s) (sig_pattern s) (drop i img) = Some (matches_at s img i)"
    if "first \<le> i" "i < first + len" for i
    using False assms that
    by (subst match_linear_spec) (auto simp: sig_ok_def scan_sub_def matches_at_def)
  with False show ?thesis
    by (auto simp: process_range_def process_range_linear_def intro!: scan_eq)
qed

lemma size_sub_exact: "b \<le> a \<Longrightarrow> a < size_mod \<Longrightarrow> size_sub a b = a - b"
proof -
  assume "b \<le> a" "a < size_mod"
  then have "a + size_mod - b mod size_mod = size_mod + (a - b)" by simp
  then show ?thesis using \<open>a < size_mod\<close> by (simp add: size_sub_def)
qed

section \<open>The threads cover the span\<close>

lemma thread_range_exact:
  assumes "span < size_mod" and "0 < cores" and "i < cores"
  shows "thread_range span cores i =
     (span div cores * i, if i + 1 = cores then span - span div cores * i else span div cores)"
proof -
  have "span div cores * i \<le> span"
    using assms(3) by (metis div_times_less_eq_dividend less_imp_le_nat mult_le_mono2 le_trans)
  with assms(1) show ?thesis by (simp add: thread_range_def Let_def size_sub_exact)
qed

lemma collect_threads_Some:
  "(\<And>i. i \<in> set is \<Longrightarrow> f i = Some (g i)) \<Longrightarrow>
     collect_threads f is = Some (concat (map g is))"
  by (induction "is") auto

lemma mset_concat_map_perm: "mset is = mset js \<Longrightarrow> mset (concat (map g is)) = mset (concat (map g js))"
proof -
  assume "mset is = mset js"
  then have "mset (map (mset \<circ> g) is) = mset (map (mset \<circ> g) js)" by (simp only: mset_map)
  then show ?thesis by (simp add: mset_concat flip: sum_mset_sum_list)
qed

lemma grid_ranges: "concat (map (\<lambda>i. [grid * i..<grid * i + grid]) [0..<k]) = [0..<grid * k]"
proof (induction k)
  case (Suc k)
  have "grid * Suc k = grid * k + grid" by simp
  then have "[0..<grid * Suc k] = [0..<grid * k] @ [grid * k..<grid * k + grid]"
    using upt_add_eq_append [of 0 "grid * k" grid] by (simp only: le0)
  with Suc show ?case by simp
qed simp

lemma thread_range_bound:
  assumes "span < size_mod" and "i < cores" and "thread_range span cores i = (first, len)"
  shows "first + len \<le> span"
proof -
  have "span div cores * i + span div cores = span div cores * (i + 1)" by simp
  also have "\<dots> \<le> span div cores * cores" using assms(2) by (intro mult_le_mono2) simp
  also have "\<dots> \<le> span" by (rule div_times_less_eq_dividend)
  finally show ?thesis
    using thread_range_exact [OF assms(1) _ assms(2)] assms(2,3) by (auto split: if_splits)
qed

text \<open>The positions of one thread; together they are the whole range, each once.\<close>

definition thread_positions :: "nat \<Rightarrow> nat \<Rightarrow> nat \<Rightarrow> nat list" where
  "thread_positions span cores i =
     (case thread_range span cores i of (first, len) \<Rightarrow> [first..<first + len])"

lemma thread_ranges_cover:
  assumes "span < size_mod" and "0 < cores"
  shows "concat (map (thread_positions span cores) [0..<cores]) = [0..<span]"
proof -
  obtain k where k: "cores = Suc k" using assms(2) by (cases cores) auto
  let ?g = "span div cores"
  have "thread_positions span cores i = [?g * i..<?g * i + ?g]" if "i < k" for i
    using that k by (subst thread_positions_def, subst thread_range_exact [OF assms]) auto
  then have init: "map (thread_positions span cores) [0..<k] = map (\<lambda>i. [?g * i..<?g * i + ?g]) [0..<k]"
    by simp
  have "?g * k \<le> span"
    using k by (metis div_times_less_eq_dividend le_trans mult_le_mono2 lessI less_imp_le_nat)
  then have upt: "[0..<span] = [0..<?g * k] @ [?g * k..<span]"
    using upt_add_eq_append [of 0 "?g * k" "span - ?g * k"] by (metis le_add_diff_inverse le0)
  have final: "thread_positions span cores k = [?g * k..<span]"
    using k \<open>?g * k \<le> span\<close> by (subst thread_positions_def, subst thread_range_exact [OF assms]) auto
  have "concat (map (thread_positions span cores) [0..<cores]) =
      concat (map (thread_positions span cores) [0..<k]) @ thread_positions span cores k"
    by (simp add: k)
  then show ?thesis by (simp only: init final grid_ranges upt [symmetric])
qed

lemma sort_unique: "mset xs = mset ys \<Longrightarrow> sorted ys \<Longrightarrow> sort xs = (ys :: nat list)"
  by (metis properties_for_sort mset_sort)

lemma parallel_spec:
  assumes "sig_ok cpu s" and "scan_sub cpu s \<le> length img" and "length img < size_mod"
    and "mset order = mset [0..<max 1 (hardware_concurrency div 2)]"
  shows "process_parallel cpu hardware_concurrency order s img =
    Some (filter (matches_at s img) [0..<length img - scan_sub cpu s])"
proof -
  let ?span = "length img - scan_sub cpu s" and ?cores = "max 1 (hardware_concurrency div 2)"
  let ?hits = "\<lambda>i. filter (matches_at s img) (thread_positions ?span ?cores i)"
  have sub: "size_sub (length img) (scan_sub cpu s) = ?span"
    using assms(2,3) by (rule size_sub_exact)
  have lt: "?span < size_mod" using assms(3) by simp
  have "(let (first, len) = thread_range ?span ?cores i in process_range cpu s img first len) =
      Some (?hits i)" if "i \<in> set order" for i
  proof -
    have i: "i < ?cores" using that assms(4) by (metis atLeast_upt lessThan_iff set_mset_mset)
    obtain first len where r: "thread_range ?span ?cores i = (first, len)" by force
    have "first + len \<le> ?span" using thread_range_bound [OF lt i r] .
    then show ?thesis using process_range_spec [OF assms(1), of first len img] assms(2) r
      by (simp add: thread_positions_def)
  qed
  then have "collect_threads (\<lambda>i. let (first, len) = thread_range ?span ?cores i in
      process_range cpu s img first len) order = Some (concat (map ?hits order))"
    by (rule collect_threads_Some)
  moreover have "concat (map ?hits [0..<?cores]) = filter (matches_at s img) [0..<?span]"
  proof -
    have "concat (map ?hits [0..<?cores]) =
        filter (matches_at s img) (concat (map (thread_positions ?span ?cores) [0..<?cores]))"
      by (simp add: filter_concat comp_def)
    then show ?thesis using thread_ranges_cover [OF lt, of ?cores] by simp
  qed
  then have "mset (concat (map ?hits order)) = mset (filter (matches_at s img) [0..<?span])"
    using mset_concat_map_perm [OF assms(4)] by metis
  then have "sort (concat (map ?hits order)) = filter (matches_at s img) [0..<?span]"
    by (rule sort_unique) (simp add: sorted_wrt_filter)
  ultimately show ?thesis
    by (simp add: process_parallel_def sub Let_def)
qed

lemma serial_spec:
  assumes "sig_ok cpu s" and "scan_sub cpu s \<le> length img" and "length img < size_mod"
  shows "process_serial cpu s img = Some (filter (matches_at s img) [0..<length img - scan_sub cpu s])"
  using process_range_spec [OF assms(1), of 0 "length img - scan_sub cpu s" img] assms(2)
  by (simp add: process_serial_def size_sub_exact [OF assms(2,3)])

section \<open>Loading\<close>

text \<open>A pattern as it is meant: bytes and wildcards, written in upper-case hexadecimal.\<close>

fun render :: "byte option list \<Rightarrow> byte list" where
  "render [] = []"
| "render (None # ts) = 63 # 32 # render ts"
| "render (Some b # ts) = hex_digit (drop_bit 4 b) # hex_digit (b AND 15) # 32 # render ts"

fun token_mask :: "byte option \<Rightarrow> byte" where
  "token_mask None = 63" | "token_mask (Some b) = 120"

fun token_byte :: "byte option \<Rightarrow> byte" where
  "token_byte None = 0" | "token_byte (Some b) = b"

definition sig_of :: "byte option list \<Rightarrow> signature" where
  "sig_of ts = \<lparr>sig_mask = map token_mask ts, sig_pattern = map token_byte ts\<rparr>"

lemma hex_digit_char:
  assumes "n < 16"
  shows "is_hex_char (hex_digit n) \<and> hex_char_value (hex_digit n) = n \<and> hex_digit n \<noteq> 32 \<and>
    hex_digit n \<noteq> 63"
proof -
  have "unat n \<in> set [0..<16]" using assms by (simp add: word_less_nat_alt)
  then have "n \<in> of_nat ` set [0..<16]" by (metis imageI of_nat_unat ucast_id)
  then show ?thesis
    by (auto simp: upt_rec hex_digit_def is_hex_char_def hex_char_value_def)
qed

lemma load_loop_render:
  "load_loop (render ts) None s =
     Inr (None, \<lparr>sig_mask = sig_mask s @ map token_mask ts,
       sig_pattern = sig_pattern s @ map token_byte ts\<rparr>)"
proof (induction ts arbitrary: s rule: render.induct)
  case (3 b ts)
  have "(b AND 15) OR push_bit 4 (drop_bit 4 b) = b"
  proof (rule bit_eqI)
    fix n
    show "bit ((b AND 15) OR push_bit 4 (drop_bit 4 b)) n = bit b n"
      by (cases "n < 4") (auto simp: bit_simps low_nibble dest: bit_imp_le_length)
  qed
  moreover note hex_digit_char [OF nibble_bounds(1), of b]
    hex_digit_char [OF nibble_bounds(2), of b, folded low_nibble]
  ultimately show ?case using 3 by simp
qed simp_all

definition strip :: "byte option list \<Rightarrow> byte option list" where
  "strip ts = rev (dropWhile (\<lambda>t. t = None) (rev ts))"

lemma pop_wildcards_sig_of: "pop_wildcards (sig_of ts) = sig_of (strip ts)"
proof (induction ts rule: rev_induct)
  case (snoc t ts)
  then show ?case
    by (cases t) (subst pop_wildcards.simps, simp add: sig_of_def strip_def)+
qed (simp add: sig_of_def strip_def pop_wildcards.simps)

section \<open>Properties\<close>

text \<open>A pattern text loads to the bytes and wildcards it writes, without the wildcards at its
  end, and its bytes are padded for the vectorised scan exactly when that scan will be used.\<close>

theorem load_pattern_correct:
  "load_pattern cpu (render ts) = Inr (let s = sig_of (strip ts) in
     if length (strip ts) \<le> 16 \<and> cpu then s\<lparr>sig_pattern := pad16 (sig_pattern s)\<rparr> else s)"
  using load_loop_render [of ts "\<lparr>sig_mask = [], sig_pattern = []\<rparr>"] pop_wildcards_sig_of [of ts]
  by (simp add: load_pattern_def Let_def has_sse_support_def sig_of_def)



text \<open>The vectorised comparison decides the same as the linear one wherever it may read.\<close>

theorem vectorized_equals_linear:
  assumes "length (sig_mask s) \<le> 16" and "16 \<le> length (sig_pattern s)"
    and "first + len + 16 \<le> length img"
  shows "process_range_vectorized s img first len = process_range_linear s img first len"
proof -
  have "sig_ok False s" "sig_ok True s"
    using assms(1,2) by (simp_all add: sig_ok_def)
  then show ?thesis
    using process_range_spec [of True s first len img] process_range_spec [of False s first len img]
      assms
    by (simp add: process_range_def has_sse_support_def scan_sub_def)
qed

theorem vectorized_equals_linear_witness:
  "process_range_vectorized \<lparr>sig_mask = [120], sig_pattern = pad16 [5]\<rparr> (replicate 30 5) 2 9 =
     process_range_linear \<lparr>sig_mask = [120], sig_pattern = pad16 [5]\<rparr> (replicate 30 5) 2 9"
  by (rule vectorized_equals_linear) (simp_all add: pad16_def)

end
