(* ===== verification/Hook.thy ===== *)
theory Hook
  imports W3m_Prelude
begin

unbundle bit_operations_syntax

text \<open>
  \<open>utils::hook\<close> (src/common/utils/hook.cpp, hook.hpp): patching calls and jumps into code,
  the pool of trampolines near the patched code, moving a hook by one byte, and following
  a branch. Addresses and sizes are 64-bit words; the code is a function from addresses to
  bytes. \<open>valloc\<close> is what \<open>VirtualAlloc\<close> answers, any function of the number of the call and
  the wanted address; page protection and cache flushes do not change bytes.
  Calls that may not return have an optional result. What the processor does with the
  patched bytes is \<open>next_target\<close>.
\<close>

section \<open>Model\<close>

type_synonym addr = u64
type_synonym code = "addr \<Rightarrow> byte"

record trampoline_pool =
  pool_buffer :: addr
  pool_length :: u64
  pool_offset :: u64

record hook_state =
  code_of :: code
  pools :: "trampoline_pool list"
  valloc :: "nat \<Rightarrow> addr \<Rightarrow> addr option"
  valloc_calls :: nat

definition fetch :: "nat \<Rightarrow> addr \<Rightarrow> code \<Rightarrow> byte list" where
  "fetch n p c = map (\<lambda>i. c (p + of_nat i)) [0..<n]"

definition hook_copy :: "addr \<Rightarrow> byte list \<Rightarrow> code \<Rightarrow> code" where
  "hook_copy place bs c =
     (\<lambda>a. if unat (a - place) < length bs then bs ! unat (a - place) else c a)"

definition copy_to :: "addr \<Rightarrow> byte list \<Rightarrow> hook_state \<Rightarrow> hook_state" where
  "copy_to place bs st = st\<lparr>code_of := hook_copy place bs (code_of st)\<rparr>"

definition hook_nop :: "addr \<Rightarrow> nat \<Rightarrow> hook_state \<Rightarrow> hook_state" where
  "hook_nop place len st = copy_to place (replicate len 0x90) st"

definition copy_string :: "addr \<Rightarrow> byte list \<Rightarrow> hook_state \<Rightarrow> exn + hook_state" where
  "copy_string place str st =
     (case strlen str of None \<Rightarrow> Inl Undefined_behaviour
      | Some n \<Rightarrow> Inr (copy_to place (take (n + 1) str) st))"

definition is_relatively_far :: "addr \<Rightarrow> addr \<Rightarrow> u64 \<Rightarrow> bool" where
  "is_relatively_far pointer data offset =
     (let diff = data - (pointer + offset); small_diff = (ucast diff :: u32) in
      diff \<noteq> scast small_diff)"

subsection \<open>Memory near an address\<close>

text \<open>The result and the number of calls so far; \<open>Some (None, n)\<close> is a null pointer.\<close>

partial_function (option) near_loop ::
    "(nat \<Rightarrow> addr \<Rightarrow> addr option) \<Rightarrow> addr \<Rightarrow> u64 \<Rightarrow> nat \<Rightarrow> addr \<Rightarrow> (addr option \<times> nat) option" where
  "near_loop va base granularity n t =
     (let t' = t + granularity in
      if is_relatively_far base t' 5 then Some (None, n)
      else (case va n t' of
          Some res \<Rightarrow> if is_relatively_far base t' 5 then Some (None, Suc n) else Some (Some res, Suc n)
        | None \<Rightarrow> near_loop va base granularity (Suc n) t'))"

definition near_start :: "addr \<Rightarrow> u64 \<Rightarrow> addr" where
  "near_start base granularity = (base - 2 ^ 31) AND NOT (granularity - 1)"

definition allocate_somewhere_near ::
    "(nat \<Rightarrow> addr \<Rightarrow> addr option) \<Rightarrow> nat \<Rightarrow> addr \<Rightarrow> u64 \<Rightarrow> (addr option \<times> nat) option" where
  "allocate_somewhere_near va n base granularity =
     near_loop va base granularity n (near_start base granularity)"

text \<open>The constructor of a pool; the granularity is the one the system reports.\<close>

definition new_pool ::
    "u64 \<Rightarrow> addr \<Rightarrow> hook_state \<Rightarrow> (exn + trampoline_pool \<times> hook_state) option" where
  "new_pool granularity ptr st =
     (case allocate_somewhere_near (valloc st) (valloc_calls st) ptr granularity of
        None \<Rightarrow> None
      | Some (None, n) \<Rightarrow> Some (Inl (Runtime_error (lit ''Failed to allocate'')))
      | Some (Some t, n) \<Rightarrow>
          if t = 0 then Some (Inl (Runtime_error (lit ''Failed to allocate'')))
          else Some (Inr (\<lparr>pool_buffer = t, pool_length = granularity, pool_offset = 0\<rparr>,
                     st\<lparr>valloc_calls := n\<rparr>)))"

definition pool_get_ptr :: "trampoline_pool \<Rightarrow> addr" where
  "pool_get_ptr m = pool_buffer m + pool_offset m"

text \<open>The null pointer is \<open>0\<close>.\<close>

definition pool_allocate :: "u64 \<Rightarrow> trampoline_pool \<Rightarrow> addr \<times> trampoline_pool" where
  "pool_allocate len m =
     (if pool_buffer m = 0 then (0, m)
      else if pool_offset m + len > pool_length m then (0, m)
      else (pool_get_ptr m, m\<lparr>pool_offset := pool_offset m + len\<rparr>))"

text \<open>Move assignment to a different pool object.\<close>

definition move_pool :: "trampoline_pool \<Rightarrow> trampoline_pool \<Rightarrow> trampoline_pool \<times> trampoline_pool" where
  "move_pool this obj = (obj, \<lparr>pool_buffer = 0, pool_length = 0, pool_offset = 0\<rparr>)"

fun search_pools :: "addr \<Rightarrow> u64 \<Rightarrow> trampoline_pool list \<Rightarrow> addr \<times> trampoline_pool list" where
  "search_pools address sz [] = (0, [])"
| "search_pools address sz (m # ms) =
     (let (buffer, m') = (if \<not> is_relatively_far address (pool_get_ptr m) 5
                          then pool_allocate sz m else (0, m)) in
      if buffer \<noteq> 0 then (buffer, m' # ms)
      else let (found, ms') = search_pools address sz ms in (found, m # ms'))"

definition get_memory_near ::
    "u64 \<Rightarrow> addr \<Rightarrow> u64 \<Rightarrow> hook_state \<Rightarrow> (exn + addr \<times> hook_state) option" where
  "get_memory_near granularity address sz st =
     (let (buffer, ms) = search_pools address sz (pools st) in
      if buffer \<noteq> 0 then Some (Inr (buffer, st\<lparr>pools := ms\<rparr>))
      else (case new_pool granularity address st of
          None \<Rightarrow> None
        | Some (Inl e) \<Rightarrow> Some (Inl e)
        | Some (Inr (m, st')) \<Rightarrow>
            (let (buffer', m') = pool_allocate sz m in
             Some (Inr (buffer', st'\<lparr>pools := pools st' @ [m']\<rparr>)))))"

subsection \<open>Branches\<close>

definition too_far :: exn where
  "too_far = Runtime_error (lit ''Too far away to create 32bit relative branch'')"

definition relative_data :: "byte \<Rightarrow> addr \<Rightarrow> addr \<Rightarrow> byte list" where
  "relative_data opcode pointer data = opcode # u32_bytes (ucast (data - (pointer + 5)))"

definition jump_data :: "addr \<Rightarrow> byte list" where
  "jump_data data = [0x48, 0xB8] @ u64_bytes data @ [0xFF, 0xE0]"

definition jump_data_safe :: "addr \<Rightarrow> byte list" where
  "jump_data_safe data = [0xFF, 0x25, 0, 0, 0, 0] @ u64_bytes data"

partial_function (option) hook_jump ::
    "u64 \<Rightarrow> hook_state \<Rightarrow> addr \<Rightarrow> addr \<Rightarrow> bool \<Rightarrow> bool \<Rightarrow> (exn + hook_state) option" where
  "hook_jump granularity st pointer data use_far use_safe =
     (if \<not> use_far \<and> is_relatively_far pointer data 5 then
        (case get_memory_near granularity pointer 14 st of
           None \<Rightarrow> None
         | Some (Inl e) \<Rightarrow> Some (Inl e)
         | Some (Inr (trampoline, st1)) \<Rightarrow>
             if trampoline = 0 then Some (Inl too_far)
             else Option.bind (hook_jump granularity st1 pointer trampoline False False)
               (\<lambda>r. case r of Inl e \<Rightarrow> Some (Inl e)
                  | Inr st2 \<Rightarrow> hook_jump granularity st2 trampoline data True True))
      else if use_far then
        (if use_safe then Some (Inr (copy_to pointer (jump_data_safe data) st))
         else Some (Inr (copy_to pointer (jump_data data) st)))
      else Some (Inr (copy_to pointer (relative_data 0xE9 pointer data) st)))"

partial_function (option) hook_call ::
    "u64 \<Rightarrow> hook_state \<Rightarrow> addr \<Rightarrow> addr \<Rightarrow> (exn + hook_state) option" where
  "hook_call granularity st pointer data =
     (if is_relatively_far pointer data 5 then
        (case get_memory_near granularity pointer 14 st of
           None \<Rightarrow> None
         | Some (Inl e) \<Rightarrow> Some (Inl e)
         | Some (Inr (trampoline, st1)) \<Rightarrow>
             if trampoline = 0 then Some (Inl too_far)
             else Option.bind (hook_call granularity st1 pointer trampoline)
               (\<lambda>r. case r of Inl e \<Rightarrow> Some (Inl e)
                  | Inr st2 \<Rightarrow> hook_jump granularity st2 trampoline data True True))
      else Some (Inr (copy_to pointer (relative_data 0xE8 pointer data) st)))"

definition hook_inject :: "addr \<Rightarrow> addr \<Rightarrow> hook_state \<Rightarrow> exn + hook_state" where
  "hook_inject pointer data st =
     (if is_relatively_far pointer data 4 then Inl too_far
      else Inr (copy_to pointer (u32_bytes (ucast (data - (pointer + 4)))) st))"

definition hook_extract :: "addr \<Rightarrow> code \<Rightarrow> addr" where
  "hook_extract address c = address + scast (bytes_u32 (fetch 4 address c)) + 4"

definition no_branch :: exn where
  "no_branch = Runtime_error (lit ''No branch instruction found'')"

definition follow_branch :: "addr \<Rightarrow> code \<Rightarrow> exn + addr" where
  "follow_branch address c =
     (if c address \<noteq> 0xE8 \<and> c address \<noteq> 0xE9 then Inl no_branch
      else Inr (hook_extract (address + 1) c))"

definition move_hook ::
    "u64 \<Rightarrow> addr \<Rightarrow> hook_state \<Rightarrow> (exn + byte list \<times> hook_state) option" where
  "move_hook granularity pointer st =
     (let c = code_of st in
      if c pointer = 0xE9 then
        (case follow_branch pointer c of
           Inl e \<Rightarrow> Some (Inl e)
         | Inr target \<Rightarrow>
             (case hook_jump granularity (hook_nop pointer 1 st) (pointer + 1) target False False of
                None \<Rightarrow> None
              | Some (Inl e) \<Rightarrow> Some (Inl e)
              | Some (Inr st') \<Rightarrow> Some (Inr (fetch 6 pointer c, st'))))
      else if c pointer = 0xFF \<and> c (pointer + 1) = 0x25 then
        Some (Inr (fetch 15 pointer c,
          hook_nop pointer 1 (copy_to (pointer + 1) (fetch 14 pointer c) st)))
      else Some (Inl no_branch))"

section \<open>What the processor makes of the bytes\<close>

definition word_at :: "addr \<Rightarrow> code \<Rightarrow> u64" where
  "word_at p c = bytes_u64 (fetch 8 p c)"

definition displacement :: "addr \<Rightarrow> code \<Rightarrow> u64" where
  "displacement p c = scast (bytes_u32 (fetch 4 p c))"

text \<open>
  The address executed after the instruction at \<open>p\<close>, for the instructions the hooks are
  made of: a relative call or jump, a jump through memory relative to the next instruction,
  a load of a 64-bit constant into \<open>rax\<close> with a jump to it, and \<open>nop\<close>.
\<close>

definition next_target :: "code \<Rightarrow> addr \<Rightarrow> addr option" where
  "next_target c p =
     (if c p = 0xE9 \<or> c p = 0xE8 then Some (p + 5 + displacement (p + 1) c)
      else if c p = 0xFF \<and> c (p + 1) = 0x25 then Some (word_at (p + 6 + displacement (p + 2) c) c)
      else if c p = 0x48 \<and> c (p + 1) = 0xB8 \<and> c (p + 10) = 0xFF \<and> c (p + 11) = 0xE0
        then Some (word_at (p + 2) c)
      else if c p = 0x90 then Some (p + 1)
      else None)"

fun runs_to :: "nat \<Rightarrow> code \<Rightarrow> addr \<Rightarrow> addr \<Rightarrow> bool" where
  "runs_to 0 c p target = (p = target)"
| "runs_to (Suc n) c p target =
     (case next_target c p of None \<Rightarrow> False | Some q \<Rightarrow> runs_to n c q target)"

section \<open>Reading what was written\<close>

lemma length_fetch [simp]: "length (fetch n p c) = n"
  by (simp add: fetch_def)

lemma fetch_copy:
  assumes "i + k \<le> length bs" and "length bs < 2 ^ 64"
  shows "fetch k (p + of_nat i) (hook_copy p bs c) = take k (drop i bs)"
proof (rule nth_equalityI)
  fix j assume "j < length (fetch k (p + of_nat i) (hook_copy p bs c))"
  then have j: "j < k" by simp
  have "p + of_nat i + of_nat j - p = (of_nat (i + j) :: u64)" by simp
  moreover have "unat (of_nat (i + j) :: u64) = i + j"
    using assms j by (simp only: unat_of_nat) simp
  ultimately show "fetch k (p + of_nat i) (hook_copy p bs c) ! j = take k (drop i bs) ! j"
    using assms j by (simp add: fetch_def hook_copy_def)
qed (use assms in simp)

lemma byte_copy:
  "i < length bs \<Longrightarrow> length bs < 2 ^ 64 \<Longrightarrow> hook_copy p bs c (p + of_nat i) = bs ! i"
  using fetch_copy [of i 1 bs p c] by (simp add: fetch_def take_Suc_conv_app_nth Cons_nth_drop_Suc [symmetric])

text \<open>Two blocks of bytes have no address in common.\<close>

definition apart :: "addr \<Rightarrow> nat \<Rightarrow> addr \<Rightarrow> nat \<Rightarrow> bool" where
  "apart p n q m \<longleftrightarrow> (\<forall>i < n. \<forall>j < m. p + of_nat i \<noteq> q + of_nat j)"

lemma copy_apart:
  assumes "apart p n q (length bs)" and "i < n"
  shows "hook_copy q bs c (p + of_nat i) = c (p + of_nat i)"
proof -
  have "\<not> unat (p + of_nat i - q) < length bs"
  proof
    assume "unat (p + of_nat i - q) < length bs"
    moreover have "p + of_nat i = q + of_nat (unat (p + of_nat i - q))" by simp
    ultimately show False using assms unfolding apart_def by blast
  qed
  then show ?thesis by (simp add: hook_copy_def)
qed

lemma scast_near:
  "\<not> is_relatively_far pointer data offset \<Longrightarrow>
     scast (ucast (data - (pointer + offset)) :: u32) = data - (pointer + offset)"
  by (simp add: is_relatively_far_def Let_def)

lemma code_copy_to [simp]: "code_of (copy_to p bs st) = hook_copy p bs (code_of st)"
  by (simp add: copy_to_def)

lemma relative_target:
  assumes "\<not> is_relatively_far p d 5" and "oc = 0xE9 \<or> oc = 0xE8"
  shows "next_target (hook_copy p (relative_data oc p d) c) p = Some d"
proof -
  let ?bs = "relative_data oc p d"
  have len: "length ?bs = 5" by (simp add: relative_data_def)
  have "hook_copy p ?bs c p = oc" using byte_copy [of 0 ?bs p c] len by (simp add: relative_data_def)
  moreover have "fetch 4 (p + 1) (hook_copy p ?bs c) = u32_bytes (ucast (d - (p + 5)))"
    using fetch_copy [of 1 4 ?bs p c] len by (simp add: relative_data_def)
  ultimately show ?thesis
    using assms(2) scast_near [OF assms(1)] by (auto simp: next_target_def displacement_def)
qed

lemma safe_target: "next_target (hook_copy p (jump_data_safe d) c) p = Some d"
proof -
  let ?bs = "jump_data_safe d"
  have len: "length ?bs = 14" by (simp add: jump_data_safe_def)
  have "hook_copy p ?bs c p = 0xFF" "hook_copy p ?bs c (p + 1) = 0x25"
    using byte_copy [of 0 ?bs p c] byte_copy [of 1 ?bs p c] len by (simp_all add: jump_data_safe_def)
  moreover have "fetch 4 (p + 2) (hook_copy p ?bs c) = [0, 0, 0, 0]"
    "fetch 8 (p + 6) (hook_copy p ?bs c) = u64_bytes d"
    using fetch_copy [of 2 4 ?bs p c] fetch_copy [of 6 8 ?bs p c] len
    by (simp_all add: jump_data_safe_def)
  moreover have "bytes_u32 [0, 0, 0, 0] = 0" by (simp add: bytes_u32_def)
  ultimately show ?thesis by (simp add: next_target_def displacement_def word_at_def)
qed

lemma unsafe_target: "next_target (hook_copy p (jump_data d) c) p = Some d"
proof -
  let ?bs = "jump_data d"
  have len: "length ?bs = 12" by (simp add: jump_data_def)
  have b: "hook_copy p ?bs c p = 0x48" "hook_copy p ?bs c (p + 1) = 0xB8"
    "hook_copy p ?bs c (p + 10) = 0xFF" "hook_copy p ?bs c (p + 11) = 0xE0"
    using byte_copy [of 0 ?bs p c] byte_copy [of 1 ?bs p c] byte_copy [of 10 ?bs p c]
      byte_copy [of 11 ?bs p c] len
    by (simp_all add: jump_data_def nth_append)
  have "fetch 8 (p + 2) (hook_copy p ?bs c) = u64_bytes d"
    using fetch_copy [of 2 8 ?bs p c] len by (simp add: jump_data_def)
  with b show ?thesis by (simp add: next_target_def word_at_def)
qed

section \<open>Far and near\<close>

lemma of_int_take_bit: "(of_int (take_bit 32 k) :: u64) = take_bit 32 (of_int k)"
  by (rule bit_word_eqI) (auto simp: bit_simps)

lemma scast_ucast_shift: "scast (ucast (x :: u64) :: u32) = take_bit 32 (x + 2 ^ 31) - (2 ^ 31 :: u64)"
proof -
  have "scast (ucast x :: u32) = (of_int (signed_take_bit 31 (uint x)) :: u64)"
    by (rule bit_word_eqI) (auto simp: bit_simps)
  also have "\<dots> = of_int (take_bit 32 (uint x + 2 ^ 31) - 2 ^ 31)"
    by (simp only: signed_take_bit_eq_take_bit_shift) simp
  also have "\<dots> = of_int (take_bit 32 (uint x + 2 ^ 31)) - 2 ^ 31" by simp
  finally show ?thesis unfolding of_int_take_bit by simp
qed

lemma take_bit_self: "take_bit 32 (y :: u64) = y \<longleftrightarrow> y < 2 ^ 32"
proof -
  have "take_bit 32 y = y \<longleftrightarrow> unat (take_bit 32 y) = unat y" by (simp only: word_unat_eq_iff)
  also have "\<dots> \<longleftrightarrow> unat y < 2 ^ 32" by (simp add: unsigned_take_bit_eq take_bit_nat_eq_self_iff)
  finally show ?thesis by (simp add: word_less_nat_alt)
qed

text \<open>Near is a window of \<open>2 ^ 32\<close> bytes around the end of the branch.\<close>

definition window :: "addr \<Rightarrow> addr \<Rightarrow> u64" where
  "window base t = t - (base + 5) + 2 ^ 31"

lemma far_window: "is_relatively_far base t 5 \<longleftrightarrow> \<not> window base t < 2 ^ 32"
proof -
  let ?x = "t - (base + 5)"
  have "is_relatively_far base t 5 \<longleftrightarrow> take_bit 32 (?x + 2 ^ 31) - 2 ^ 31 \<noteq> ?x"
    by (simp only: is_relatively_far_def Let_def scast_ucast_shift) auto
  also have "\<dots> \<longleftrightarrow> take_bit 32 (?x + 2 ^ 31) \<noteq> ?x + 2 ^ 31" by (metis add_diff_cancel diff_add_cancel)
  also have "\<dots> \<longleftrightarrow> \<not> window base t < 2 ^ 32" unfolding take_bit_self window_def ..
  finally show ?thesis .
qed

lemma window_step: "window base (t + g) = window base t + g"
  by (simp add: window_def)

lemma near_loop_inside:
  assumes "0 < g" and "g \<le> 2 ^ 31" and "window base t < 2 ^ 32"
  shows "\<exists>r n'. near_loop va base g n t = Some (r, n') \<and>
    (\<forall>q. r = Some q \<longrightarrow> (\<exists>t' m. va m t' = Some q \<and> \<not> is_relatively_far base t' 5))"
  using assms(3)
proof (induction "2 ^ 32 - unat (window base t)" arbitrary: t n rule: less_induct)
  case less
  let ?t = "t + g"
  show ?case
  proof (cases "is_relatively_far base ?t 5 \<or> va n ?t \<noteq> None")
    case True
    then show ?thesis
      by (subst near_loop.simps) (auto simp: Let_def split: option.splits)
  next
    case False
    then have near: "window base ?t < 2 ^ 32" using far_window by blast
    have "unat (window base ?t) = unat (window base t) + unat g"
      using assms(2) less.prems by (simp add: window_step unat_word_ariths word_le_nat_alt word_less_nat_alt)
    moreover have "0 < unat g" using assms(1) by (simp add: word_less_nat_alt)
    moreover have "unat (window base ?t) < 2 ^ 32" using near by (simp add: word_less_nat_alt)
    ultimately have "2 ^ 32 - unat (window base ?t) < 2 ^ 32 - unat (window base t)" by simp
    from less.hyps [OF this near, of "Suc n"] show ?thesis
      using False by (subst near_loop.simps) (simp add: Let_def)
  qed
qed

lemma allocate_near_result:
  assumes "0 < g" and "g \<le> 2 ^ 31"
  shows "\<exists>r n'. allocate_somewhere_near va n base g = Some (r, n') \<and>
    (\<forall>q. r = Some q \<longrightarrow> (\<exists>t' m. va m t' = Some q \<and> \<not> is_relatively_far base t' 5))"
proof (cases "is_relatively_far base (near_start base g + g) 5 \<or> va n (near_start base g + g) \<noteq> None")
  case True
  then show ?thesis unfolding allocate_somewhere_near_def
    by (subst near_loop.simps) (auto simp: Let_def split: option.splits)
next
  case False
  then have "window base (near_start base g + g) < 2 ^ 32" using far_window by blast
  from near_loop_inside [OF assms this] False show ?thesis
    unfolding allocate_somewhere_near_def by (subst near_loop.simps) (simp add: Let_def)
qed

section \<open>Trampolines\<close>

text \<open>
  The state of the pools: blocks of the granularity, filled up to their offset. A
  successful \<open>VirtualAlloc\<close> at a wanted address returns that address.
\<close>

definition hook_ok :: "u64 \<Rightarrow> hook_state \<Rightarrow> bool" where
  "hook_ok g st \<longleftrightarrow> 14 \<le> g \<and> g \<le> 2 ^ 31 \<and>
     (\<forall>m \<in> set (pools st). pool_length m = g \<and> pool_offset m \<le> g) \<and>
     (\<forall>n t r. valloc st n t = Some r \<longrightarrow> t \<noteq> 0 \<longrightarrow> r = t)"

text \<open>The \<open>n\<close> bytes at \<open>q\<close> lie in the block of \<open>len\<close> bytes at \<open>b\<close>.\<close>

definition inside :: "addr \<Rightarrow> nat \<Rightarrow> addr \<Rightarrow> nat \<Rightarrow> bool" where
  "inside q n b len \<longleftrightarrow> (\<forall>j < n. unat (q + of_nat j - b) < len)"

definition outside :: "addr \<Rightarrow> nat \<Rightarrow> addr \<Rightarrow> nat \<Rightarrow> bool" where
  "outside p n b len \<longleftrightarrow> (\<forall>i < n. \<not> unat (p + of_nat i - b) < len)"

text \<open>The \<open>n\<close> bytes at \<open>p\<close> are neither in a pool nor in memory the system may hand out.\<close>

definition patch_outside :: "u64 \<Rightarrow> hook_state \<Rightarrow> addr \<Rightarrow> nat \<Rightarrow> bool" where
  "patch_outside g st p n \<longleftrightarrow>
     (\<forall>m \<in> set (pools st). outside p n (pool_buffer m) (unat (pool_length m))) \<and>
     (\<forall>k t r. valloc st k t = Some r \<longrightarrow> outside p n r (unat g))"

lemma inside_outside_apart: "inside q m b len \<Longrightarrow> outside p n b len \<Longrightarrow> apart p n q m"
  by (auto simp: inside_def outside_def apart_def)

lemma pool_allocate_inside:
  assumes "pool_allocate (of_nat n) m = (q, m')" and "q \<noteq> 0" and "n \<le> 14"
    and "pool_offset m \<le> pool_length m" and "pool_length m \<le> 2 ^ 31"
  shows "q = pool_get_ptr m \<and> inside q n (pool_buffer m) (unat (pool_length m)) \<and>
    pool_length m' = pool_length m \<and> pool_buffer m' = pool_buffer m \<and> pool_offset m' \<le> pool_length m'"
proof -
  have fits: "pool_offset m + of_nat n \<le> pool_length m" and q: "q = pool_get_ptr m"
    and m': "m' = m\<lparr>pool_offset := pool_offset m + of_nat n\<rparr>"
    using assms(1,2) by (auto simp: pool_allocate_def split: if_splits)
  have n: "unat (of_nat k :: u64) = k" if "k \<le> 14" for k
    using that by (simp only: unat_of_nat) simp
  have off: "unat (pool_offset m) \<le> 2 ^ 31"
    using assms(4,5) by (simp add: word_le_nat_alt)
  have add: "unat (pool_offset m + of_nat k) = unat (pool_offset m) + k" if "k \<le> 14" for k
    using off n [OF that] that by (simp add: unat_word_ariths)
  have "unat (q + of_nat j - pool_buffer m) < unat (pool_length m)" if "j < n" for j
  proof -
    have "q + of_nat j - pool_buffer m = pool_offset m + of_nat j"
      by (simp add: q pool_get_ptr_def)
    moreover have "unat (pool_offset m) + n \<le> unat (pool_length m)"
      using fits add [OF assms(3)] by (simp add: word_le_nat_alt)
    ultimately show ?thesis using add [of j] that assms(3) by (simp only:)
  qed
  with q m' fits show ?thesis by (simp add: inside_def)
qed

lemma search_pools_found:
  assumes "search_pools p (of_nat n) ms = (q, ms')" and "q \<noteq> 0" and "n \<le> 14"
    and "\<forall>m \<in> set ms. pool_length m = g \<and> pool_offset m \<le> g" and "g \<le> 2 ^ 31"
  shows "\<not> is_relatively_far p q 5 \<and>
    (\<exists>m \<in> set ms. inside q n (pool_buffer m) (unat (pool_length m))) \<and>
    (\<forall>m \<in> set ms'. pool_length m = g \<and> pool_offset m \<le> g) \<and>
    map pool_buffer ms' = map pool_buffer ms"
  using assms(1,4)
proof (induction ms arbitrary: ms')
  case (Cons m ms)
  show ?case
  proof (cases "\<not> is_relatively_far p (pool_get_ptr m) 5 \<and> fst (pool_allocate (of_nat n) m) \<noteq> 0")
    case True
    then obtain m' where m': "pool_allocate (of_nat n) m = (q, m')" "ms' = m' # ms"
      using Cons.prems(1) assms(2) by (cases "pool_allocate (of_nat n) m") auto
    from pool_allocate_inside [OF m'(1) assms(2,3)] Cons.prems(2) assms(5) True m' show ?thesis
      by auto
  next
    case False
    then obtain rest where rest: "search_pools p (of_nat n) ms = (q, rest)" "ms' = m # rest"
      using Cons.prems(1)
      by (cases "search_pools p (of_nat n) ms"; cases "pool_allocate (of_nat n) m")
         (auto split: if_splits)
    from Cons.IH [OF rest(1)] Cons.prems(2) rest(2) show ?thesis by auto
  qed
qed (use assms(2) in simp)

text \<open>Memory near an address: it is near, in a block of the pools, and nothing else changes.\<close>

lemma get_memory_near_ok:
  assumes "hook_ok g st" and "is_relatively_far p 0 5" and "patch_outside g st x k" and "n \<le> 14"
  shows "get_memory_near g p (of_nat n) st = Some (Inl (Runtime_error (lit ''Failed to allocate''))) \<or>
    (\<exists>q st'. get_memory_near g p (of_nat n) st = Some (Inr (q, st')) \<and> q \<noteq> 0 \<and>
       \<not> is_relatively_far p q 5 \<and> code_of st' = code_of st \<and> hook_ok g st' \<and>
       patch_outside g st' x k \<and> apart x k q n)"
proof -
  have g: "0 < g" "g \<le> 2 ^ 31" "14 \<le> g"
    using assms(1) by (auto simp: hook_ok_def elim: less_le_trans [rotated])
  obtain q ms where s: "search_pools p (of_nat n) (pools st) = (q, ms)" by force
  show ?thesis
  proof (cases "q = 0")
    case False
    have ms: "\<forall>m \<in> set (pools st). pool_length m = g \<and> pool_offset m \<le> g"
      using assms(1) by (simp add: hook_ok_def)
    note found = search_pools_found [OF s False assms(4) ms g(2)]
    then obtain m where m: "m \<in> set (pools st)" "inside q n (pool_buffer m) (unat (pool_length m))"
      by blast
    have "apart x k q n"
      using inside_outside_apart [OF m(2)] m(1) assms(3) by (simp add: patch_outside_def)
    moreover have "patch_outside g (st\<lparr>pools := ms\<rparr>) x k"
    proof -
      have "pool_buffer ` set ms = pool_buffer ` set (pools st)"
        using found by (metis list.set_map)
      then show ?thesis using assms(3) found ms
        by (auto simp: patch_outside_def) (metis (mono_tags, lifting) imageE imageI)
    qed
    ultimately show ?thesis
      using s False found assms(1) by (auto simp: get_memory_near_def hook_ok_def)
  next
    case True
    obtain r n' where r: "allocate_somewhere_near (valloc st) (valloc_calls st) p g = Some (r, n')"
      "\<forall>q. r = Some q \<longrightarrow> (\<exists>t m. valloc st m t = Some q \<and> \<not> is_relatively_far p t 5)"
      using allocate_near_result [OF g(1,2), of "valloc st" "valloc_calls st" p] by blast
    show ?thesis
    proof (cases "r = None \<or> r = Some 0")
      case fail: True
      then show ?thesis using s r(1) True by (auto simp: get_memory_near_def new_pool_def)
    next
      case False
      then obtain t where t: "r = Some t" "t \<noteq> 0" by (cases r) auto
      then obtain t' m where v: "valloc st m t' = Some t" "\<not> is_relatively_far p t' 5" using r(2) by blast
      then have "t' = t" using assms(1,2) unfolding hook_ok_def by metis
      let ?m = "\<lparr>pool_buffer = t, pool_length = g, pool_offset = 0\<rparr>"
      have "(of_nat n :: u64) \<le> 14"
        using assms(4) by (simp add: word_le_nat_alt unat_of_nat)
      then have "\<not> of_nat n > g" using g(3) by (meson leD order_trans)
      then have alloc: "pool_allocate (of_nat n) ?m = (t, ?m\<lparr>pool_offset := of_nat n\<rparr>)"
        using t(2) by (simp add: pool_allocate_def pool_get_ptr_def)
      from pool_allocate_inside [OF alloc t(2) assms(4)] g
      have "inside t n t (unat g)" and "of_nat n \<le> g" by simp_all
      moreover have "outside x k t (unat g)" using assms(3) v(1) by (auto simp: patch_outside_def)
      ultimately have "apart x k t n" by (blast intro: inside_outside_apart)
      with \<open>outside x k t (unat g)\<close> \<open>of_nat n \<le> g\<close> show ?thesis
        using s True r(1) t alloc v(2) \<open>t' = t\<close> assms(1,3)
        by (auto simp: get_memory_near_def new_pool_def hook_ok_def patch_outside_def)
    qed
  qed
qed

lemma relative_target_kept:
  assumes "\<not> is_relatively_far p d 5" and "oc = 0xE9 \<or> oc = 0xE8" and "apart p 5 q (length bs)"
  shows "next_target (hook_copy q bs (hook_copy p (relative_data oc p d) c)) p = Some d"
proof -
  let ?c = "hook_copy p (relative_data oc p d) c"
  have same: "hook_copy q bs ?c (p + of_nat i) = ?c (p + of_nat i)" if "i < 5" for i
    using copy_apart [OF assms(3) that] .
  have "?c p = oc" using byte_copy [of 0 "relative_data oc p d" p c] by (simp add: relative_data_def)
  moreover have "fetch 4 (p + 1) (hook_copy q bs ?c) = fetch 4 (p + 1) ?c"
  proof -
    have "hook_copy q bs ?c (p + 1 + of_nat i) = ?c (p + 1 + of_nat i)" if "i < 4" for i
      using same [of "Suc i"] that by (simp add: add.assoc)
    then show ?thesis by (simp add: fetch_def)
  qed
  ultimately show ?thesis
    using same [of 0] relative_target [OF assms(1,2), of c] assms(2)
    by (auto simp: next_target_def displacement_def)
qed

section \<open>Properties\<close>

lemma hook_jump_runs:
  assumes "hook_ok g st" and "patch_outside g st p 5" and "is_relatively_far p 0 5"
  shows "hook_jump g st p d use_far use_safe = Some (Inl (Runtime_error (lit ''Failed to allocate''))) \<and>
      \<not> use_far \<and> is_relatively_far p d 5 \<or>
    (\<exists>st'. hook_jump g st p d use_far use_safe = Some (Inr st') \<and> hook_ok g st' \<and>
       (runs_to 1 (code_of st') p d \<or> runs_to 2 (code_of st') p d))"
proof (cases "\<not> use_far \<and> is_relatively_far p d 5")
  case False
  let ?bs = "if use_far then if use_safe then jump_data_safe d else jump_data d
    else relative_data 0xE9 p d"
  have "hook_jump g st p d use_far use_safe = Some (Inr (copy_to p ?bs st))"
    using False by (subst hook_jump.simps) auto
  moreover have "next_target (hook_copy p ?bs (code_of st)) p = Some d"
    using False relative_target [OF _ disjI1 [OF refl], of p d "code_of st"]
    by (auto simp: safe_target unsafe_target)
  ultimately have "\<exists>bs. hook_jump g st p d use_far use_safe = Some (Inr (copy_to p bs st)) \<and>
      next_target (hook_copy p bs (code_of st)) p = Some d" by blast
  then show ?thesis using assms(1) by (auto simp: hook_ok_def copy_to_def)
next
  case True
  from get_memory_near_ok [OF assms(1,3,2) order_refl [of 14]] show ?thesis
  proof (elim disjE exE conjE)
    assume "get_memory_near g p (of_nat 14) st = Some (Inl (Runtime_error (lit ''Failed to allocate'')))"
    with True show ?thesis by (subst hook_jump.simps) simp
  next
    fix q st1
    assume m: "get_memory_near g p (of_nat 14) st = Some (Inr (q, st1))" "q \<noteq> 0"
      "\<not> is_relatively_far p q 5" "hook_ok g st1" "apart p 5 q 14"
    let ?st2 = "copy_to p (relative_data 0xE9 p q) st1"
    let ?st3 = "copy_to q (jump_data_safe d) ?st2"
    have "hook_jump g st1 p q False False = Some (Inr ?st2)"
      using m(3) by (subst hook_jump.simps) simp
    moreover have "hook_jump g ?st2 q d True True = Some (Inr ?st3)"
      by (subst hook_jump.simps) simp
    ultimately have "hook_jump g st p d use_far use_safe = Some (Inr ?st3)"
      using True m(1,2) by (subst hook_jump.simps) simp
    moreover have "next_target (code_of ?st3) p = Some q"
      using relative_target_kept [OF m(3)] m(5) by (simp add: jump_data_safe_def)
    moreover have "next_target (code_of ?st3) q = Some d" using safe_target by simp
    ultimately show ?thesis
      using m(4) by (auto simp: numeral_2_eq_2 hook_ok_def copy_to_def)
  qed
qed

text \<open>C40: patching a jump always returns. It either fails because no memory near the place can be
  had, which needs a far target and a relative jump, or from then on execution at the place
  reaches exactly the target, directly or over one trampoline that does not overlap the place.\<close>

theorem jump_reaches_target:
  assumes "hook_ok g st" and "patch_outside g st p 5" and "is_relatively_far p 0 5"
  shows "hook_jump g st p d use_far use_safe = Some (Inl (Runtime_error (lit ''Failed to allocate''))) \<and>
      \<not> use_far \<and> is_relatively_far p d 5 \<or>
    (\<exists>st'. hook_jump g st p d use_far use_safe = Some (Inr st') \<and> hook_ok g st' \<and>
       (runs_to 1 (code_of st') p d \<or> runs_to 2 (code_of st') p d))"
  by (rule hook_jump_runs [OF assms])

definition demo_hooks :: hook_state where
  "demo_hooks = \<lparr>code_of = (\<lambda>a. 0), pools = [], valloc = (\<lambda>n t. if t = 0x140010000 then Some t else None),
     valloc_calls = 0\<rparr>"

lemma demo_hooks_ok: "hook_ok 0x10000 demo_hooks" "patch_outside 0x10000 demo_hooks 0x140000000 5"
proof -
  have "outside 0x140000000 5 0x140010000 0x10000"
    unfolding outside_def
  proof (intro allI impI)
    fix i :: nat
    assume "i < 5"
    then have "i = 0 \<or> i = 1 \<or> i = 2 \<or> i = 3 \<or> i = 4" by auto
    then show "\<not> unat (0x140000000 + of_nat i - 0x140010000 :: u64) < 0x10000"
      by (elim disjE) simp_all
  qed
  then show "hook_ok 0x10000 demo_hooks" "patch_outside 0x10000 demo_hooks 0x140000000 5"
    by (simp_all add: hook_ok_def demo_hooks_def patch_outside_def)
qed

theorem jump_reaches_target_witness:
  "hook_jump 0x10000 demo_hooks 0x140000000 0x7FF000000000 False False =
      Some (Inl (Runtime_error (lit ''Failed to allocate''))) \<and> \<not> False \<and>
      is_relatively_far 0x140000000 0x7FF000000000 5 \<or>
    (\<exists>st'. hook_jump 0x10000 demo_hooks 0x140000000 0x7FF000000000 False False = Some (Inr st') \<and>
       hook_ok 0x10000 st' \<and>
       (runs_to 1 (code_of st') 0x140000000 0x7FF000000000 \<or>
        runs_to 2 (code_of st') 0x140000000 0x7FF000000000))"
  by (rule jump_reaches_target [OF demo_hooks_ok]) (simp add: is_relatively_far_def)

text \<open>A near branch, call or jump, is followed back to the target it was patched with.\<close>

theorem follow_patched_branch:
  assumes "\<not> is_relatively_far p d 5"
  shows "\<exists>st1 st2. hook_call g st p d = Some (Inr st1) \<and>
    hook_jump g st p d False False = Some (Inr st2) \<and>
    follow_branch p (code_of st1) = Inr d \<and> follow_branch p (code_of st2) = Inr d"
proof -
  have "follow_branch p (hook_copy p (relative_data oc p d) c) = Inr d"
    if "oc = 0xE9 \<or> oc = 0xE8" for oc c
  proof -
    let ?bs = "relative_data oc p d"
    have "hook_copy p ?bs c p = oc" "fetch 4 (p + 1) (hook_copy p ?bs c) = u32_bytes (ucast (d - (p + 5)))"
      using byte_copy [of 0 ?bs p c] fetch_copy [of 1 4 ?bs p c]
      by (simp_all add: relative_data_def)
    then show ?thesis
      using that scast_near [OF assms] by (auto simp: follow_branch_def hook_extract_def)
  qed
  moreover have "hook_call g st p d = Some (Inr (copy_to p (relative_data 0xE8 p d) st))"
    using assms by (subst hook_call.simps) simp
  moreover have "hook_jump g st p d False False = Some (Inr (copy_to p (relative_data 0xE9 p d) st))"
    using assms by (subst hook_jump.simps) simp
  ultimately show ?thesis by auto
qed

theorem follow_patched_branch_witness:
  "\<exists>st1 st2. hook_call 0 demo_hooks 0x140000000 0x140001000 = Some (Inr st1) \<and>
    hook_jump 0 demo_hooks 0x140000000 0x140001000 False False = Some (Inr st2) \<and>
    follow_branch 0x140000000 (code_of st1) = Inr 0x140001000 \<and>
    follow_branch 0x140000000 (code_of st2) = Inr 0x140001000"
  by (rule follow_patched_branch) (simp add: is_relatively_far_def)

lemma and_not_mask: "x AND NOT (mask k) = x - take_bit k (x :: u64)"
proof -
  have "x = (x AND NOT (mask k)) OR take_bit k x" by (rule bit_word_eqI) (auto simp: bit_simps)
  also have "\<dots> = (x AND NOT (mask k)) + take_bit k x"
    by (rule disjunctive_add_eq_or [symmetric]) (auto simp: bit_eq_iff bit_simps)
  finally show ?thesis by (simp add: eq_diff_eq)
qed

text \<open>For a place in the last four bytes of an allocation granule the search for memory near it
  gives up before it asks the system once, however much memory is free.\<close>

theorem allocation_gives_up_at_granule_end:
  assumes "k \<le> 31" and "unat base mod 2 ^ k + 4 \<ge> 2 ^ k" and "2 \<le> k"
  shows "allocate_somewhere_near va n base (2 ^ k) = Some (None, n)"
proof -
  let ?g = "2 ^ k :: u64"
  have start: "near_start base ?g = (base - 2 ^ 31) - take_bit k (base - 2 ^ 31)"
  proof -
    have "NOT (?g - 1) = NOT (mask k)" by (simp add: mask_eq_exp_minus_1)
    then have "near_start base ?g = (base - 2 ^ 31) AND NOT (mask k)" by (simp add: near_start_def)
    then show ?thesis by (simp only: and_not_mask)
  qed
  have tb: "take_bit k (base - 2 ^ 31) = take_bit k base"
  proof -
    have tb: "take_bit k (of_int n :: u64) = of_int (take_bit k n)" for n
      using assms(1) by (intro bit_word_eqI) (auto simp: bit_simps)
    have "(2 :: int) ^ k dvd 2 ^ 31" using assms(1) by (rule le_imp_power_dvd)
    then have "(uint base - 2 ^ 31) mod 2 ^ k = uint base mod 2 ^ k"
      by (metis dvd_imp_mod_0 diff_zero mod_diff_right_eq)
    then have eq: "take_bit k (uint base - 2 ^ 31) = take_bit k (uint base)"
      by (simp only: take_bit_eq_mod)
    have "base - 2 ^ 31 = of_int (uint base - 2 ^ 31)" by simp
    then have "take_bit k (base - 2 ^ 31) = take_bit k (of_int (uint base - 2 ^ 31))" by (rule arg_cong)
    also have "\<dots> = take_bit k (of_int (uint base))" by (simp only: tb eq)
    finally show ?thesis by (simp only: word_of_int_uint)
  qed
  let ?m = "take_bit k base"
  have "window base (near_start base ?g + ?g) = ?g - ?m - 5"
    unfolding window_def start tb by simp
  moreover have "\<not> ?g - ?m - 5 < 2 ^ 32"
  proof -
    let ?j = "2 ^ k - unat base mod 2 ^ k"
    have "unat ?m = take_bit k (unat base)" by (simp only: unsigned_take_bit_eq)
    then have "unat ?m = unat base mod 2 ^ k" by (simp only: take_bit_eq_mod)
    then have m: "?m = of_nat (unat base mod 2 ^ k)" by (metis of_nat_unat ucast_id)
    have lt: "unat base mod 2 ^ k < 2 ^ k" by simp
    then have gm: "?g - ?m = of_nat ?j" unfolding m by (subst of_nat_diff) simp_all
    have "1 \<le> ?j" "?j \<le> 4" using lt assms(2) by linarith+
    moreover have "j = 1 \<or> j = 2 \<or> j = 3 \<or> j = 4" if "1 \<le> j" "j \<le> 4" for j :: nat
      using that by linarith
    ultimately obtain j where j: "?j = j" "j = 1 \<or> j = 2 \<or> j = 3 \<or> j = 4" by blast
    have "\<not> (of_nat j :: u64) - 5 < 2 ^ 32" using j(2) by auto
    then show ?thesis unfolding gm j(1) .
  qed
  ultimately have "is_relatively_far base (near_start base ?g + ?g) 5" by (simp add: far_window)
  then show ?thesis
    unfolding allocate_somewhere_near_def by (subst near_loop.simps) (simp add: Let_def)
qed

theorem allocation_gives_up_at_granule_end_witness:
  "allocate_somewhere_near (\<lambda>n t. Some t) 0 0x14000FFFE (2 ^ 16) = Some (None, 0)"
  by (rule allocation_gives_up_at_granule_end) simp_all

end
