(* ===== verification/Detour.thy ===== *)
theory Detour
  imports Hook
begin

unbundle bit_operations_syntax

text \<open>
  \<open>utils::hook::detour\<close> (src/common/utils/hook.cpp, hook.hpp): the object that owns one hook
  of MinHook, with the option of moving the hook's jump by one byte and back. MinHook is a
  record of its functions on its own state and the code; a result is optional because
  patching a jump is.
\<close>

section \<open>Model\<close>

record 'm minhook =
  mh_create :: "addr \<Rightarrow> addr \<Rightarrow> 'm \<times> code \<Rightarrow> addr option \<times> 'm \<times> code"
  mh_enable :: "addr \<Rightarrow> 'm \<times> code \<Rightarrow> 'm \<times> code"
  mh_disable :: "addr \<Rightarrow> 'm \<times> code \<Rightarrow> 'm \<times> code"
  mh_remove :: "addr \<Rightarrow> 'm \<times> code \<Rightarrow> 'm \<times> code"

record detour =
  place :: addr
  original :: addr
  moved_data :: "byte list"

type_synonym 'm world = "'m \<times> hook_state"

definition new_detour :: detour where
  "new_detour = \<lparr>place = 0, original = 0, moved_data = []\<rparr>"

definition on_code :: "('m \<times> code \<Rightarrow> 'm \<times> code) \<Rightarrow> 'm world \<Rightarrow> 'm world" where
  "on_code f w = (case f (fst w, code_of (snd w)) of (m, c) \<Rightarrow> (m, (snd w)\<lparr>code_of := c\<rparr>))"

definition detour_un_move :: "detour \<Rightarrow> 'm world \<Rightarrow> 'm world" where
  "detour_un_move d w =
     (if moved_data d \<noteq> [] then (fst w, copy_to (place d) (moved_data d) (snd w)) else w)"

definition detour_move ::
    "u64 \<Rightarrow> detour \<Rightarrow> 'm world \<Rightarrow> (exn + detour \<times> 'm world) option" where
  "detour_move g d w =
     (case move_hook g (place d) (snd w) of
        None \<Rightarrow> None
      | Some (Inl e) \<Rightarrow> Some (Inl e)
      | Some (Inr (bs, st)) \<Rightarrow> Some (Inr (d\<lparr>moved_data := bs\<rparr>, (fst w, st))))"

definition detour_enable ::
    "u64 \<Rightarrow> 'm minhook \<Rightarrow> detour \<Rightarrow> 'm world \<Rightarrow> (exn + detour \<times> 'm world) option" where
  "detour_enable g M d w =
     (let w1 = on_code (mh_enable M (place d)) w in
      if moved_data d \<noteq> [] then detour_move g d w1 else Some (Inr (d, w1)))"

definition detour_disable :: "'m minhook \<Rightarrow> detour \<Rightarrow> 'm world \<Rightarrow> 'm world" where
  "detour_disable M d w = on_code (mh_disable M (place d)) (detour_un_move d w)"

definition detour_clear :: "'m minhook \<Rightarrow> detour \<Rightarrow> 'm world \<Rightarrow> detour \<times> 'm world" where
  "detour_clear M d w =
     (let w1 = (if place d \<noteq> 0 then on_code (mh_remove M (place d)) (detour_un_move d w) else w) in
      (new_detour, w1))"

text \<open>
  \<open>create\<close>: the exception's text names the place; the model keeps its fixed part. The detour
  keeps the place when the creation fails.
\<close>

definition detour_create ::
    "u64 \<Rightarrow> 'm minhook \<Rightarrow> addr \<Rightarrow> addr \<Rightarrow> detour \<Rightarrow> 'm world \<Rightarrow>
     (exn + detour \<times> 'm world) option" where
  "detour_create g M p target d w =
     (let (d1, w1) = detour_clear M d w; d2 = d1\<lparr>place := p\<rparr> in
      case mh_create M p target (fst w1, code_of (snd w1)) of
        (None, m, c) \<Rightarrow> Some (Inl (Runtime_error (lit ''Unable to create hook at location: '')))
      | (Some orig, m, c) \<Rightarrow>
          detour_enable g M (d2\<lparr>original := orig\<rparr>) (m, (snd w1)\<lparr>code_of := c\<rparr>))"

text \<open>Move assignment to a different object, and the accessors.\<close>

definition detour_assign_move ::
    "'m minhook \<Rightarrow> detour \<Rightarrow> detour \<Rightarrow> 'm world \<Rightarrow> detour \<times> detour \<times> 'm world" where
  "detour_assign_move M this other w =
     (let (this1, w1) = detour_clear M this w in (other, new_detour, w1))"

definition detour_get_place :: "detour \<Rightarrow> addr" where "detour_get_place d = place d"
definition detour_get_original :: "detour \<Rightarrow> addr" where "detour_get_original d = original d"

section \<open>Restoring bytes\<close>

lemma copy_fetch_undo:
  assumes "\<And>a. \<not> unat (a - p) < n \<Longrightarrow> c' a = c a"
  shows "hook_copy p (fetch n p c) c' = c"
proof
  fix a
  show "hook_copy p (fetch n p c) c' a = c a"
    using assms [of a] by (simp add: hook_copy_def fetch_def)
qed

lemma copy_elsewhere: "\<not> unat (a - p) < length bs \<Longrightarrow> hook_copy p bs c a = c a"
  by (simp add: hook_copy_def)

lemma unat_shift:
  fixes a p :: u64
  assumes "\<not> unat (a - p) < Suc n" and "n < 2 ^ 32"
  shows "\<not> unat (a - (p + 1)) < n"
proof -
  have "a - p \<noteq> 0" using assms(1) by auto
  then have "unat (a - p - 1) = unat (a - p) - 1" by (rule unat_minus_one)
  then have "unat (a - (p + 1)) = unat (a - p) - 1" by (simp only: diff_diff_add)
  with assms(1) show ?thesis by linarith
qed

section \<open>Properties\<close>

text \<open>Moving a hook is undone by writing the saved bytes back: the code is as it was before,
  everywhere, for both forms of jump a hook starts with, unless a trampoline had to be made.\<close>

theorem move_hook_undone:
  assumes "move_hook g p st = Some (Inr (bs, st'))"
    and "code_of st p = 0xE9 \<Longrightarrow>
       \<not> is_relatively_far (p + 1) (hook_extract (p + 1) (code_of st)) 5"
  shows "code_of (copy_to p bs st') = code_of st"
proof (cases "code_of st p = 0xE9")
  case True
  let ?t = "hook_extract (p + 1) (code_of st)"
  have "hook_jump g (hook_nop p 1 st) (p + 1) ?t False False =
      Some (Inr (copy_to (p + 1) (relative_data 0xE9 (p + 1) ?t) (hook_nop p 1 st)))"
    using assms(2) [OF True] by (subst hook_jump.simps) simp
  then have bs: "bs = fetch 6 p (code_of st)"
    and st': "st' = copy_to (p + 1) (relative_data 0xE9 (p + 1) ?t) (hook_nop p 1 st)"
    using assms(1) True by (simp_all add: move_hook_def Let_def follow_branch_def)
  have "code_of st' a = code_of st a" if "\<not> unat (a - p) < 6" for a
  proof -
    have "\<not> unat (a - (p + 1)) < 5" using unat_shift [of a p 5] that by simp
    then show ?thesis using that by (simp add: st' hook_nop_def copy_elsewhere relative_data_def)
  qed
  then show ?thesis unfolding bs code_copy_to by (rule copy_fetch_undo)
next
  case False
  then have bs: "bs = fetch 15 p (code_of st)"
    and st': "st' = hook_nop p 1 (copy_to (p + 1) (fetch 14 p (code_of st)) st)"
    using assms(1) by (auto simp: move_hook_def Let_def split: if_splits)
  have "code_of st' a = code_of st a" if "\<not> unat (a - p) < 15" for a
  proof -
    have "\<not> unat (a - (p + 1)) < 14" using unat_shift [of a p 14] that by simp
    then show ?thesis using that by (simp add: st' hook_nop_def copy_elsewhere)
  qed
  then show ?thesis unfolding bs code_copy_to by (rule copy_fetch_undo)
qed

text \<open>An example: a place that starts with a relative jump to itself.\<close>

definition looping_code :: hook_state where
  "looping_code = \<lparr>code_of = hook_copy 0x140001000 (relative_data 0xE9 0x140001000 0x140001000) (\<lambda>a. 0), pools = [],
     valloc = (\<lambda>n t. None), valloc_calls = 0\<rparr>"

lemma looping_code_facts:
  "code_of looping_code 0x140001000 = 0xE9" "hook_extract 0x140001001 (code_of looping_code) = 0x140001000"
proof -
  let ?bs = "relative_data 0xE9 0x140001000 0x140001000"
  have near: "\<not> is_relatively_far 0x140001000 0x140001000 5" by (simp add: is_relatively_far_def)
  show "code_of looping_code 0x140001000 = 0xE9"
    using byte_copy [of 0 ?bs "0x140001000" "\<lambda>a. 0"] by (simp add: looping_code_def relative_data_def)
  have "fetch 4 (0x140001000 + 1) (code_of looping_code) = u32_bytes (ucast (0x140001000 - (0x140001000 + 5) :: u64))"
    using fetch_copy [of 1 4 ?bs "0x140001000" "\<lambda>a. 0"] by (simp add: looping_code_def relative_data_def)
  then show "hook_extract 0x140001001 (code_of looping_code) = 0x140001000"
    using scast_near [OF near] by (simp add: hook_extract_def)
qed

theorem move_hook_undone_witness:
  "\<exists>bs st'. move_hook 0 0x140001000 looping_code = Some (Inr (bs, st')) \<and>
     code_of (copy_to 0x140001000 bs st') = code_of looping_code"
proof -
  note facts = looping_code_facts
  have near: "\<not> is_relatively_far 0x140001001 0x140001000 5" by (simp add: is_relatively_far_def)
  then have "\<exists>st'. move_hook 0 0x140001000 looping_code =
      Some (Inr (fetch 6 0x140001000 (code_of looping_code), st'))"
    using facts by (simp add: move_hook_def Let_def follow_branch_def) (subst hook_jump.simps, simp)
  then show ?thesis using move_hook_undone near facts by fastforce
qed

text \<open>A moved hook still runs: execution at the place passes one \<open>nop\<close> and then reaches the
  target the hook's jump had, for a relative jump directly or over a trampoline.\<close>

theorem moved_hook_runs:
  assumes "move_hook g p st = Some (Inr (bs, st'))"
    and "hook_ok g st" and "patch_outside g st (p + 1) 5" and "is_relatively_far (p + 1) 0 5"
    and "next_target (code_of st) p = Some t"
    and "code_of st p = 0xE9 \<or> displacement (p + 2) (code_of st) = 0"
  shows "runs_to 1 (code_of st') (p + 1) t \<or> runs_to 2 (code_of st') (p + 1) t"
proof (cases "code_of st p = 0xE9")
  case True
  have t: "t = hook_extract (p + 1) (code_of st)"
    using assms(5) True by (simp add: next_target_def displacement_def hook_extract_def ac_simps)
  have nop: "hook_ok g (hook_nop p 1 st)" "patch_outside g (hook_nop p 1 st) (p + 1) 5"
    using assms(2,3) by (simp_all add: hook_nop_def copy_to_def hook_ok_def patch_outside_def)
  from hook_jump_runs [OF nop assms(4), of t False False]
  show ?thesis using assms(1) True t by (auto simp: move_hook_def Let_def follow_branch_def)
next
  case False
  let ?c = "code_of st"
  have ff: "?c p = 0xFF" "?c (p + 1) = 0x25"
    and st': "st' = hook_nop p 1 (copy_to (p + 1) (fetch 14 p ?c) st)"
    using assms(1) False by (auto simp: move_hook_def Let_def split: if_splits)
  have disp: "displacement (p + 2) ?c = 0" using assms(6) False by simp
  have t: "t = word_at (p + 6) ?c" using assms(5) ff disp by (simp add: next_target_def)
  let ?c1 = "hook_copy (p + 1) (fetch 14 p ?c) ?c"
  have shifted: "fetch k (p + 1 + of_nat i) (code_of st') = fetch k (p + of_nat i) ?c"
    if "i + k \<le> 14" for i k
  proof -
    have moved: "code_of st' (p + 1 + of_nat j) = ?c1 (p + 1 + of_nat j)" if "j < 14" for j
    proof -
      have "(p + 1 + of_nat j) - p = (of_nat (Suc j) :: u64)" by simp
      moreover have "unat (of_nat (Suc j) :: u64) = Suc j"
        using that by (simp only: unat_of_nat) simp
      ultimately have "\<not> unat (p + 1 + of_nat j - p) < 1" by (simp only:)
      then show ?thesis by (simp add: st' hook_nop_def copy_elsewhere)
    qed
    have "code_of st' (p + 1 + of_nat i + of_nat x) = ?c1 (p + 1 + of_nat i + of_nat x)"
      if "x < k" for x
    proof -
      have "i + x < 14" using \<open>i + k \<le> 14\<close> that by simp
      from moved [OF this] show ?thesis by (simp only: of_nat_add add.assoc)
    qed
    then have "fetch k (p + 1 + of_nat i) (code_of st') = fetch k (p + 1 + of_nat i) ?c1"
      by (simp add: fetch_def)
    also have "\<dots> = take k (drop i (fetch 14 p ?c))"
      using that by (intro fetch_copy) simp_all
    also have "\<dots> = fetch k (p + of_nat i) ?c"
      using that by (intro nth_equalityI) (simp_all add: fetch_def add.assoc)
    finally show ?thesis .
  qed
  have at: "p + 1 + of_nat 1 = p + 2" "p + 1 + of_nat 2 = p + 3" "p + 1 + of_nat 6 = p + 7"
    by (simp_all add: ac_simps)
  have "code_of st' (p + 1) = 0xFF" using shifted [of 0 1] ff by (simp add: fetch_def)
  moreover have "code_of st' (p + 2) = 0x25"
    using shifted [of 1 1] ff unfolding at by (simp add: fetch_def)
  moreover have "displacement (p + 3) (code_of st') = 0"
    using shifted [of 2 4] disp unfolding at by (simp add: displacement_def)
  moreover have "word_at (p + 7) (code_of st') = t"
    using shifted [of 6 8] t unfolding at by (simp add: word_at_def)
  ultimately have "next_target (code_of st') (p + 1) = Some t"
    by (simp add: next_target_def add.commute [of p 2] add.commute [of p 3] add.commute [of p 7])
  then show ?thesis by simp
qed

text \<open>The jump of the example runs to itself, and nothing of it can be allocated over.\<close>

lemma looping_code_hooks:
  "hook_ok 0x10000 looping_code" "patch_outside 0x10000 looping_code p n"
  "next_target (code_of looping_code) 0x140001000 = Some 0x140001000"
proof -
  show "hook_ok 0x10000 looping_code" "patch_outside 0x10000 looping_code p n"
    by (simp_all add: hook_ok_def patch_outside_def looping_code_def)
  have "(0x140001000 :: u64) + 1 = 0x140001001" by simp
  then have "0x140001000 + 5 + displacement (0x140001000 + 1) (code_of looping_code) = 0x140001000"
    using looping_code_facts(2) by (simp only: displacement_def hook_extract_def) (simp add: algebra_simps)
  then show "next_target (code_of looping_code) 0x140001000 = Some 0x140001000"
    using looping_code_facts(1) by (simp only: next_target_def) simp
qed

theorem moved_hook_runs_witness:
  "\<exists>bs st'. move_hook 0x10000 0x140001000 looping_code = Some (Inr (bs, st')) \<and>
     (runs_to 1 (code_of st') (0x140001000 + 1) 0x140001000 \<or> runs_to 2 (code_of st') (0x140001000 + 1) 0x140001000)"
proof -
  have near: "\<not> is_relatively_far 0x140001001 0x140001000 5" by (simp add: is_relatively_far_def)
  then obtain bs st' where m: "move_hook 0x10000 0x140001000 looping_code = Some (Inr (bs, st'))"
    using looping_code_facts
    by (simp add: move_hook_def Let_def follow_branch_def) (subst (asm) hook_jump.simps, simp)
  have "is_relatively_far (0x140001000 + 1) 0 5" by (simp add: is_relatively_far_def)
  from moved_hook_runs [OF m looping_code_hooks(1,2) this looping_code_hooks(3)] m
    looping_code_facts(1)
  show ?thesis by blast
qed

text \<open>A moved hook that is disabled and then cleared leaves the jump of the hook behind: clearing
  writes the saved jump back a second time, although MinHook has already restored the place.\<close>

theorem disabled_detour_clear_rewrites_jump:
  assumes "moved_data d \<noteq> []" and "place d \<noteq> 0" and "length (moved_data d) < 2 ^ 64"
    and "\<And>m c. snd (mh_remove M (place d) (m, c)) = c"
  shows "fetch (length (moved_data d)) (place d)
      (code_of (snd (snd (detour_clear M d (detour_disable M d w))))) = moved_data d"
proof -
  have "code_of (snd (snd (detour_clear M d w'))) =
      hook_copy (place d) (moved_data d) (code_of (snd w'))" for w'
    using assms(1,2,4)
    by (simp add: detour_clear_def detour_un_move_def on_code_def Let_def case_prod_unfold)
  then show ?thesis
    using fetch_copy [of 0 "length (moved_data d)" "moved_data d" "place d"] assms(3) by simp
qed

definition quiet_minhook :: "unit minhook" where
  "quiet_minhook = \<lparr>mh_create = (\<lambda>p t mc. (Some 0, mc)), mh_enable = (\<lambda>p mc. mc),
     mh_disable = (\<lambda>p mc. (fst mc, hook_copy p [0x55, 0x48] (snd mc))), mh_remove = (\<lambda>p mc. mc)\<rparr>"

theorem disabled_detour_clear_rewrites_jump_witness:
  "fetch (length (moved_data \<lparr>place = 0x140001000, original = 0, moved_data = [0xE9, 1, 0, 0, 0, 0]\<rparr>))
     (place \<lparr>place = 0x140001000, original = 0, moved_data = [0xE9, 1, 0, 0, 0, 0]\<rparr>)
     (code_of (snd (snd (detour_clear quiet_minhook
       \<lparr>place = 0x140001000, original = 0, moved_data = [0xE9, 1, 0, 0, 0, 0]\<rparr>
       (detour_disable quiet_minhook
         \<lparr>place = 0x140001000, original = 0, moved_data = [0xE9, 1, 0, 0, 0, 0]\<rparr> ((), looping_code)))))) =
   moved_data \<lparr>place = 0x140001000, original = 0, moved_data = [0xE9, 1, 0, 0, 0, 0]\<rparr>"
  by (rule disabled_detour_clear_rewrites_jump) (simp_all add: quiet_minhook_def)

end
