(* ===== verification/Assembler.thy ===== *)
theory Assembler
  imports W3m_Prelude
begin

unbundle bit_operations_syntax

text \<open>
  \<open>utils::hook::assembler\<close> (src/common/utils/hook.cpp, hook.hpp): the instruction sequences
  that save and restore all registers and that align the stack around a call, and a small
  machine that runs them. The stack is a map from addresses to 64-bit cells: every access
  of these sequences is eight bytes wide and a multiple of eight below or above the
  initial \<open>rsp\<close>, so cells never overlap. Of the flags only ZF (bit 6) is determined; what
  arithmetic leaves in the others is the argument \<open>af\<close>.
\<close>

section \<open>Machine\<close>

datatype reg = RAX | RCX | RDX | RBX | RSP | RBP | RSI | RDI
  | R8 | R9 | R10 | R11 | R12 | R13 | R14 | R15

record cpu =
  regs :: "reg \<Rightarrow> u64"
  rflags :: u64
  stack :: "u64 \<Rightarrow> u64"

datatype instr =
    Push reg
  | Pop reg
  | Pushfq
  | Popfq
  | Sub_imm reg u64
  | Add_imm reg u64
  | Test_imm reg u64
  | Mov_load reg reg u64
  | Mov_store reg u64 reg
  | Lea reg reg u64
  | Jnz nat
  | Jmp nat
  | Bind nat
  | Call "cpu \<Rightarrow> cpu"

definition set_zf :: "(u64 \<Rightarrow> u64) \<Rightarrow> u64 \<Rightarrow> u64" where
  "set_zf af res = (if res = 0 then set_bit 6 (af res) else unset_bit 6 (af res))"

definition set_reg :: "reg \<Rightarrow> u64 \<Rightarrow> cpu \<Rightarrow> cpu" where
  "set_reg r v s = s\<lparr>regs := (regs s)(r := v)\<rparr>"

definition push_value :: "u64 \<Rightarrow> cpu \<Rightarrow> cpu" where
  "push_value v s = (let sp = regs s RSP - 8 in
     (set_reg RSP sp s)\<lparr>stack := (stack s)(sp := v)\<rparr>)"

text \<open>\<open>push rsp\<close> stores the value before the push; \<open>pop rsp\<close> ends with the popped value.\<close>

fun exec :: "(u64 \<Rightarrow> u64) \<Rightarrow> instr \<Rightarrow> cpu \<Rightarrow> cpu" where
  "exec af (Push r) s = push_value (regs s r) s"
| "exec af (Pop r) s = (let v = stack s (regs s RSP) in set_reg r v (set_reg RSP (regs s RSP + 8) s))"
| "exec af Pushfq s = push_value (rflags s) s"
| "exec af Popfq s = (set_reg RSP (regs s RSP + 8) s)\<lparr>rflags := stack s (regs s RSP)\<rparr>"
| "exec af (Sub_imm r n) s = (set_reg r (regs s r - n) s)\<lparr>rflags := set_zf af (regs s r - n)\<rparr>"
| "exec af (Add_imm r n) s = (set_reg r (regs s r + n) s)\<lparr>rflags := set_zf af (regs s r + n)\<rparr>"
| "exec af (Test_imm r n) s = s\<lparr>rflags := set_zf af (regs s r AND n)\<rparr>"
| "exec af (Mov_load r b off) s = set_reg r (stack s (regs s b + off)) s"
| "exec af (Mov_store b off r) s = s\<lparr>stack := (stack s)(regs s b + off := regs s r)\<rparr>"
| "exec af (Lea r b off) s = set_reg r (regs s b + off) s"
| "exec af (Jnz l) s = s"
| "exec af (Jmp l) s = s"
| "exec af (Bind l) s = s"
| "exec af (Call f) s = f s"

text \<open>Jumps go forward, to the place their label is bound.\<close>

fun after_label :: "nat \<Rightarrow> instr list \<Rightarrow> instr list" where
  "after_label l [] = []"
| "after_label l (i # is) = (if i = Bind l then is else after_label l is)"

lemma length_after_label [termination_simp]: "length (after_label l is) \<le> length is"
  by (induction "is") auto

fun run :: "(u64 \<Rightarrow> u64) \<Rightarrow> instr list \<Rightarrow> cpu \<Rightarrow> cpu" where
  "run af [] s = s"
| "run af (Jnz l # is) s = (if bit (rflags s) 6 then run af is s else run af (after_label l is) s)"
| "run af (Jmp l # is) s = run af (after_label l is) s"
| "run af (i # is) s = run af is (exec af i s)"

section \<open>The emitted sequences\<close>

definition pushaq :: "instr list" where
  "pushaq = [Pushfq, Push RAX, Push RCX, Push RDX, Push RBX, Push RSP, Push RBP, Push RSI, Push RDI,
     Push R8, Push R9, Push R10, Push R11, Push R12, Push R13, Push R14, Push R15, Sub_imm RSP 8]"

definition popaq :: "instr list" where
  "popaq = [Add_imm RSP 8, Pop R15, Pop R14, Pop R13, Pop R12, Pop R11, Pop R10, Pop R9, Pop R8,
     Pop RDI, Pop RSI, Pop RBP, Pop RSP, Pop RBX, Pop RDX, Pop RCX, Pop RAX, Popfq]"

text \<open>\<open>new_label\<close> numbers the labels; the count is threaded through.\<close>

definition prepare_stack_for_call :: "nat \<Rightarrow> instr list \<times> nat" where
  "prepare_stack_for_call n =
     (let reserve_callee_space = n; stack_unaligned = n + 1 in
      ([Test_imm RSP 0xF, Jnz stack_unaligned,
        Sub_imm RSP 8, Push RSP,
        Push RAX, Mov_load RAX RSP 8, Add_imm RAX 8, Mov_store RSP 8 RAX, Pop RAX,
        Jmp reserve_callee_space,
        Bind stack_unaligned, Push RSP,
        Bind reserve_callee_space, Sub_imm RSP 0x40], n + 2))"

definition restore_stack_after_call :: "instr list" where
  "restore_stack_after_call = [Lea RSP RSP 0x40, Pop RSP]"

definition call_aligned :: "nat \<Rightarrow> (cpu \<Rightarrow> cpu) \<Rightarrow> instr list \<times> nat" where
  "call_aligned n target =
     (let (prepare, n') = prepare_stack_for_call n in
      (prepare @ [Call target] @ restore_stack_after_call, n'))"

section \<open>Properties\<close>

lemmas machine_defs = set_reg_def push_value_def Let_def

text \<open>Restoring all registers after saving them gives back every register, the stack pointer
  and the flags, whatever the code in between did to the registers and flags, as long as it left
  the stack pointer and the saved cells alone.\<close>

theorem popaq_restores_pushaq:
  assumes "s1 = run af pushaq s" and "regs s2 RSP = regs s1 RSP"
    and "\<And>k. 1 \<le> k \<Longrightarrow> k \<le> 17 \<Longrightarrow> stack s2 (regs s RSP - 8 * k) = stack s1 (regs s RSP - 8 * k)"
  shows "regs (run af popaq s2) = regs s \<and> rflags (run af popaq s2) = rflags s"
proof -
  define b where "b = regs s RSP"
  have sp: "regs s2 RSP = b - 144"
    using assms(1,2) by (simp add: pushaq_def machine_defs b_def)
  have saved: "stack s1 (b - 8) = rflags s" "stack s1 (b - 16) = regs s RAX"
    "stack s1 (b - 24) = regs s RCX" "stack s1 (b - 32) = regs s RDX" "stack s1 (b - 40) = regs s RBX"
    "stack s1 (b - 48) = b - 40" "stack s1 (b - 56) = regs s RBP" "stack s1 (b - 64) = regs s RSI"
    "stack s1 (b - 72) = regs s RDI" "stack s1 (b - 80) = regs s R8" "stack s1 (b - 88) = regs s R9"
    "stack s1 (b - 96) = regs s R10" "stack s1 (b - 104) = regs s R11" "stack s1 (b - 112) = regs s R12"
    "stack s1 (b - 120) = regs s R13" "stack s1 (b - 128) = regs s R14" "stack s1 (b - 136) = regs s R15"
    using assms(1) by (simp_all add: pushaq_def machine_defs b_def)
  have same: "stack s2 (b - 8 * k) = stack s1 (b - 8 * k)" if "1 \<le> k" "k \<le> 17" for k
    using assms(3) [OF that] by (simp add: b_def)
  note cells = same [of 1] same [of 2] same [of 3] same [of 4] same [of 5] same [of 6] same [of 7]
    same [of 8] same [of 9] same [of 10] same [of 11] same [of 12] same [of 13] same [of 14]
    same [of 15] same [of 16] same [of 17]
  have "regs (run af popaq s2) r = regs s r" for r
    using cells saved sp by (cases r) (simp_all add: popaq_def machine_defs b_def)
  moreover have "rflags (run af popaq s2) = rflags s"
    using cells saved sp by (simp add: popaq_def machine_defs)
  ultimately show ?thesis by auto
qed

theorem popaq_restores_pushaq_witness:
  "regs (run (\<lambda>x. x) popaq (run (\<lambda>x. x) pushaq \<lparr>regs = (\<lambda>r. if r = RSP then 0x1000 else 7), rflags = 3, stack = (\<lambda>a. 0)\<rparr>)) =
     (\<lambda>r. if r = RSP then 0x1000 else 7)"
  using popaq_restores_pushaq [OF refl refl refl, of "\<lambda>x. x"
    "\<lparr>regs = (\<lambda>r. if r = RSP then 0x1000 else 7), rflags = 3, stack = (\<lambda>a. 0)\<rparr>"] by simp

lemma take_bit_of_int: "n \<le> 64 \<Longrightarrow> take_bit n (of_int k :: u64) = of_int (take_bit n k)"
  by (intro bit_word_eqI) (auto simp: bit_simps)

lemma take_bit_diff_word:
  assumes "n \<le> 64"
  shows "take_bit n (a - b) = take_bit n (take_bit n a - take_bit n (b :: u64))"
proof -
  note tb = take_bit_of_int [OF assms]
  have a: "take_bit n a = of_int (take_bit n (uint a))" and b: "take_bit n b = of_int (take_bit n (uint b))"
    using tb [of "uint a"] tb [of "uint b"] by (simp_all only: word_of_int_uint)
  have "take_bit n (take_bit n a - take_bit n b) =
      take_bit n (of_int (take_bit n (uint a) - take_bit n (uint b)))"
    unfolding a b by (simp only: of_int_diff)
  also have "\<dots> = of_int (take_bit n (uint a - uint b))"
    unfolding tb by (simp only: take_bit_diff)
  also have "\<dots> = take_bit n (of_int (uint a - uint b))" by (simp only: tb)
  finally show ?thesis by simp
qed

lemma half_aligned:
  assumes "take_bit 3 (b :: u64) = 0" and "take_bit 4 b \<noteq> 0"
  shows "take_bit 4 b = 8"
proof -
  have low: "\<not> bit b n" if "n < 3" for n
    using that assms(1) by (metis bit_take_bit_iff bit_0_eq bot_apply bot_bool_def)
  have "bit b 3"
  proof (rule ccontr)
    assume "\<not> bit b 3"
    with low have "\<not> bit (take_bit 4 b) n" for n
      by (cases "n = 3"; cases "n < 3") (simp_all add: bit_take_bit_iff)
    then show False using assms(2) by (metis bit_word_eqI bit_0_eq bot_apply bot_bool_def)
  qed
  show ?thesis
  proof (rule bit_word_eqI)
    show "bit (take_bit 4 b) n = bit (8 :: u64) n" if "n < LENGTH(64)" for n
    proof -
      have eight: "(8 :: u64) = 2 ^ 3" by simp
      have "bit (8 :: u64) n \<longleftrightarrow> n = 3" unfolding eight bit_exp_iff using that by auto
      then show ?thesis using low [of n] \<open>bit b 3\<close>
        by (cases "n = 3"; cases "n < 3") (simp_all add: bit_take_bit_iff)
    qed
  qed
qed

text \<open>Where the stack pointer is at the call, and where the old one is kept.\<close>

definition call_rsp :: "u64 \<Rightarrow> u64" where
  "call_rsp b = (if b AND 0xF = 0 then b - 80 else b - 72)"

lemma run_prepare:
  "regs (run af (fst (prepare_stack_for_call n)) s) = (regs s)(RSP := call_rsp (regs s RSP))"
  "stack (run af (fst (prepare_stack_for_call n)) s) (call_rsp (regs s RSP) + 0x40) = regs s RSP"
  by (simp_all add: prepare_stack_for_call_def machine_defs set_zf_def bit_set_bit_iff
      bit_unset_bit_iff call_rsp_def fun_eq_iff)

lemma run_append_call:
  "run af (fst (prepare_stack_for_call n) @ rest) s =
     run af rest (run af (fst (prepare_stack_for_call n)) s)"
  by (simp add: prepare_stack_for_call_def Let_def)

lemma call_rsp_aligned:
  assumes "take_bit 3 b = 0"
  shows "call_rsp b AND 0xF = 0"
proof -
  have low: "x AND 0xF = take_bit 4 x" for x :: u64 by (simp add: take_bit_eq_mask mask_eq_exp_minus_1)
  show ?thesis
  proof (cases "take_bit 4 b = 0")
    case True
    have "take_bit 4 (80 :: u64) = 0" by simp
    then have "take_bit 4 (b - 80) = 0" using True take_bit_diff_word [of 4 b 80] by simp
    with True show ?thesis by (simp add: call_rsp_def low)
  next
    case False
    have "take_bit 4 (72 :: u64) = 8" by simp
    then have "take_bit 4 (b - 72) = 0"
      using half_aligned [OF assms False] take_bit_diff_word [of 4 b 72] by simp
    with False show ?thesis by (simp add: call_rsp_def low)
  qed
qed

text \<open>An aligned call, from any stack pointer that is a multiple of eight, calls its target with
  the stack aligned to 16 bytes and every other register as it was, and gives the stack pointer
  back afterwards, if the target keeps it and the cell above its own stack area.\<close>

theorem call_aligned_correct:
  assumes "take_bit 3 (regs s RSP) = 0"
    and "s1 = run af (fst (prepare_stack_for_call n)) s"
    and "regs (target s1) RSP = regs s1 RSP"
    and "stack (target s1) (regs s1 RSP + 0x40) = stack s1 (regs s1 RSP + 0x40)"
  shows "regs s1 RSP AND 0xF = 0 \<and> regs s1 = (regs s)(RSP := regs s1 RSP) \<and>
    regs (run af (fst (call_aligned n target)) s) = (regs (target s1))(RSP := regs s RSP)"
proof -
  let ?sp = "call_rsp (regs s RSP)"
  have r1: "regs s1 = (regs s)(RSP := ?sp)" and cell: "stack s1 (?sp + 0x40) = regs s RSP"
    using run_prepare [of af n s] assms(2) by simp_all
  have "run af (fst (call_aligned n target)) s = run af restore_stack_after_call (target s1)"
    using run_append_call [of af n "Call target # restore_stack_after_call" s] assms(2)
    by (simp add: call_aligned_def Let_def case_prod_unfold)
  moreover have "regs (run af restore_stack_after_call (target s1)) = (regs (target s1))(RSP := regs s RSP)"
    using assms(3,4) r1 cell by (simp add: restore_stack_after_call_def machine_defs)
  ultimately show ?thesis using call_rsp_aligned [OF assms(1)] r1 by simp
qed

theorem call_aligned_correct_witness:
  "regs (run (\<lambda>x. x) (fst (call_aligned 0 (\<lambda>s. set_reg RAX 1 s)))
      \<lparr>regs = (\<lambda>r. 0x1008), rflags = 0, stack = (\<lambda>a. 0)\<rparr>) = (\<lambda>r. if r = RAX then 1 else 0x1008)"
proof -
  let ?s = "\<lparr>regs = (\<lambda>r. 0x1008), rflags = 0, stack = (\<lambda>a. 0)\<rparr>"
  obtain s1 where s1: "s1 = run (\<lambda>x. x) (fst (prepare_stack_for_call 0)) ?s" by blast
  have "take_bit 3 (regs ?s RSP) = 0" by simp
  from call_aligned_correct [OF this s1, of "set_reg RAX 1"]
  have r: "regs s1 = (regs ?s)(RSP := regs s1 RSP)"
    "regs (run (\<lambda>x. x) (fst (call_aligned 0 (set_reg RAX 1))) ?s) = (regs (set_reg RAX 1 s1))(RSP := 0x1008)"
    by (simp_all add: set_reg_def)
  have "regs (set_reg RAX 1 s1) = (regs s1)(RAX := 1)" by (simp add: set_reg_def)
  also have "\<dots> = (regs ?s)(RSP := regs s1 RSP, RAX := 1)" using r(1) by simp
  finally show ?thesis using r(2) by (simp add: fun_eq_iff)
qed

end
