(* ===== verification/Http.thy ===== *)
theory Http
  imports Address
begin

text \<open>
  \<open>utils::http\<close> (src/client/utils/http.cpp). libcurl is a function from the request and the
  number of the attempt to what the transfer does: the calls of the two callbacks in their
  order, whether it ends with \<open>CURLE_OK\<close>, and the response code. The callback of the caller
  is an operation on a state of the caller that may throw.
\<close>

section \<open>Model\<close>

datatype transfer_event = Progress u64 | Received "byte list"

record transfer =
  events :: "transfer_event list"
  curle_ok :: bool
  response_code :: nat

type_synonym headers = "(byte list \<times> byte list) list"
type_synonym curl = "byte list \<Rightarrow> byte list list \<Rightarrow> byte list option \<Rightarrow> (nat \<Rightarrow> transfer) option"
type_synonym 's callback = "(u64 \<Rightarrow> 's \<Rightarrow> exn option \<times> 's) option"

text \<open>\<open>progress_callback\<close>: the exception of the caller's function is kept in the helper.\<close>

definition progress_callback :: "'s callback \<Rightarrow> u64 \<Rightarrow> 's \<Rightarrow> exn option \<times> 's" where
  "progress_callback cb dlnow s = (case cb of None \<Rightarrow> (None, s) | Some f \<Rightarrow> f dlnow s)"

definition write_callback :: "byte list \<Rightarrow> byte list \<Rightarrow> byte list" where
  "write_callback contents buffer = buffer @ contents"

text \<open>\<open>curl_easy_perform\<close>: a progress callback that returns -1 aborts the transfer.\<close>

fun perform_events ::
    "'s callback \<Rightarrow> transfer_event list \<Rightarrow> byte list \<Rightarrow> 's \<Rightarrow> exn option \<times> byte list \<times> 's" where
  "perform_events cb [] buffer s = (None, buffer, s)"
| "perform_events cb (Progress n # es) buffer s =
     (case progress_callback cb n s of
        (Some e, s') \<Rightarrow> (Some e, buffer, s')
      | (None, s') \<Rightarrow> perform_events cb es buffer s')"
| "perform_events cb (Received d # es) buffer s = perform_events cb es (write_callback d buffer) s"

definition bad_status :: "nat \<Rightarrow> byte list \<Rightarrow> exn" where
  "bad_status code url = Runtime_error
     (lit ''Bad status code '' @ decimal code @ lit '' met while trying to download file '' @ url)"

fun attempts ::
    "(nat \<Rightarrow> transfer) \<Rightarrow> 's callback \<Rightarrow> byte list \<Rightarrow> nat \<Rightarrow> nat \<Rightarrow> byte list \<Rightarrow> 's \<Rightarrow>
     (exn + byte list option) \<times> 's" where
  "attempts T cb url i 0 buffer s = (Inr None, s)"
| "attempts T cb url i (Suc n) buffer s =
     (let (thrown, buffer', s') = perform_events cb (events (T i)) buffer s;
          http_code = response_code (T i)
      in if thrown = None \<and> curle_ok (T i)
         then (if 200 \<le> http_code then (Inr (Some buffer'), s') else (Inl (bad_status http_code url), s'))
         else case thrown of
           Some e \<Rightarrow> (Inl e, s')
         | None \<Rightarrow> if 0 < http_code then (Inr None, s') else attempts T cb url (Suc i) n buffer' s')"

definition perform_request ::
    "curl \<Rightarrow> byte list \<Rightarrow> byte list option \<Rightarrow> headers \<Rightarrow> 's callback \<Rightarrow> u32 \<Rightarrow> 's \<Rightarrow>
     (exn + byte list option) \<times> 's" where
  "perform_request C url post_body hs cb retries s =
     (case C url (map (\<lambda>(k, v). k @ lit '': '' @ v) hs) post_body of
        None \<Rightarrow> (Inr None, s)
      | Some T \<Rightarrow> attempts T cb url 0 (unat (retries + 1)) [] s)"

definition post_data ::
    "curl \<Rightarrow> byte list \<Rightarrow> byte list \<Rightarrow> headers \<Rightarrow> 's callback \<Rightarrow> u32 \<Rightarrow> 's \<Rightarrow>
     (exn + byte list option) \<times> 's" where
  "post_data C url post_body hs cb retries s = perform_request C url (Some post_body) hs cb retries s"

definition get_data ::
    "curl \<Rightarrow> byte list \<Rightarrow> headers \<Rightarrow> 's callback \<Rightarrow> u32 \<Rightarrow> 's \<Rightarrow> (exn + byte list option) \<times> 's" where
  "get_data C url hs cb retries s = perform_request C url None hs cb retries s"

section \<open>What a request returns\<close>

definition received :: "transfer_event list \<Rightarrow> byte list" where
  "received es = concat (map (\<lambda>e. case e of Received d \<Rightarrow> d | Progress n \<Rightarrow> []) es)"

text \<open>
  libcurl hands data to the write callback only once the server has sent a response, so a
  transfer without a response code delivers nothing.
\<close>

definition curl_ok :: "curl \<Rightarrow> bool" where
  "curl_ok C \<longleftrightarrow> (\<forall>url hs body T i. C url hs body = Some T \<longrightarrow>
     response_code (T i) = 0 \<longrightarrow> received (events (T i)) = [])"

lemma received_simps [simp]:
  "received [] = []"
  "received (Progress n # es) = received es"
  "received (Received d # es) = d @ received es"
  by (simp_all add: received_def)

lemma perform_events_complete:
  "perform_events cb es buffer s = (None, buffer', s') \<Longrightarrow> buffer' = buffer @ received es"
  by (induction cb es buffer s rule: perform_events.induct)
     (auto simp: write_callback_def split: prod.splits option.splits)

lemma attempts_body:
  assumes "\<And>i. response_code (T i) = 0 \<Longrightarrow> received (events (T i)) = []"
    and "attempts T cb url i n [] s = (Inr (Some body), s')"
  shows "\<exists>k < n. curle_ok (T (i + k)) \<and> 200 \<le> response_code (T (i + k)) \<and>
    body = received (events (T (i + k)))"
  using assms(2)
proof (induction n arbitrary: i s)
  case (Suc n)
  obtain thrown buffer s1 where p: "perform_events cb (events (T i)) [] s = (thrown, buffer, s1)"
    by (metis prod_cases3)
  show ?case
  proof (cases "thrown = None \<and> curle_ok (T i)")
    case True
    with Suc.prems p perform_events_complete [of cb "events (T i)" "[]" s buffer s1]
    show ?thesis by (intro exI [of _ 0]) (auto simp: Let_def split: if_splits)
  next
    case False
    with Suc.prems p have n: "thrown = None" "response_code (T i) = 0"
      and rest: "attempts T cb url (Suc i) n buffer s1 = (Inr (Some body), s')"
      by (auto simp: Let_def split: option.splits if_splits)
    with p perform_events_complete [of cb "events (T i)" "[]" s buffer s1] assms(1) [of i]
    have "buffer = []" by simp
    with Suc.IH rest obtain k where "k < n" "curle_ok (T (Suc i + k))"
      "200 \<le> response_code (T (Suc i + k))" "body = received (events (T (Suc i + k)))"
      by blast
    then show ?thesis by (intro exI [of _ "Suc k"]) simp
  qed
qed simp

text \<open>A request returns the body of exactly one response that libcurl completed with a success
  status, never the pieces of several attempts; and it makes at most three attempts by default.\<close>

theorem get_data_returns_one_response:
  assumes "curl_ok C" and "get_data C url hs cb 2 s = (Inr (Some body), s')"
  shows "\<exists>T. \<exists>k < 3. C url (map (\<lambda>(n, v). n @ lit '': '' @ v) hs) None = Some T \<and>
    curle_ok (T k) \<and> 200 \<le> response_code (T k) \<and> body = received (events (T k))"
proof -
  obtain T where T: "C url (map (\<lambda>(n, v). n @ lit '': '' @ v) hs) None = Some T"
    and a: "attempts T cb url 0 3 [] s = (Inr (Some body), s')"
    using assms(2) by (auto simp: get_data_def perform_request_def split: option.splits)
  have "\<And>i. response_code (T i) = 0 \<Longrightarrow> received (events (T i)) = []"
    using assms(1) T by (auto simp: curl_ok_def)
  from attempts_body [OF this a] T show ?thesis by auto
qed

definition demo_curl :: curl where
  "demo_curl url hs body = Some (\<lambda>i. if i = 0
     then \<lparr>events = [Progress 0], curle_ok = False, response_code = 0\<rparr>
     else \<lparr>events = [Progress 1, Received [1, 2], Received [3]], curle_ok = True, response_code = 200\<rparr>)"

theorem get_data_returns_one_response_witness:
  "\<exists>T. \<exists>k < 3. demo_curl [] [] None = Some T \<and> curle_ok (T k) \<and> 200 \<le> response_code (T k) \<and>
    [1, 2, 3] = received (events (T k))"
proof -
  let ?T = "\<lambda>i :: nat. if i = 0
     then \<lparr>events = [Progress 0], curle_ok = False, response_code = 0\<rparr>
     else \<lparr>events = [Progress 1, Received [1, 2], Received [3]], curle_ok = True, response_code = 200\<rparr>"
  have "attempts ?T None [] 0 (Suc (Suc (Suc 0))) [] () = (Inr (Some [1, 2, 3]), ())"
    by (simp add: progress_callback_def write_callback_def)
  then have "attempts ?T None [] 0 3 [] () = (Inr (Some [1, 2, 3]), ())"
    by (simp only: numeral_3_eq_3)
  then have "get_data demo_curl [] [] None 2 () = (Inr (Some [1, 2, 3]), ())"
    by (simp add: get_data_def perform_request_def demo_curl_def)
  moreover have "curl_ok demo_curl" by (auto simp: curl_ok_def demo_curl_def)
  ultimately show ?thesis using get_data_returns_one_response [of demo_curl "[]" "[]"] by force
qed

end
