(* ===== verification/Updater_Ui.thy ===== *)
theory Updater_Ui
  imports Unordered_Map Address String_Utils
begin

text \<open>
  The progress window of the updater (src/client/updater: updater_ui.cpp, progress_ui.cpp,
  file_info.hpp). The dialog of the shell is the record of what was set on it; whether the
  user has cancelled and whether a dialog can be created are functions of the number of
  times that was asked. The mutex makes every operation one step. An operation gives back
  the exception it ends with, if any, and the state.
\<close>

section \<open>Files and dialogs\<close>

record file_info =
  info_name :: "byte list"
  info_size :: u64
  info_hash :: "byte list"

record dialog =
  dialog_title :: "u16 list"
  dialog_lines :: "nat \<Rightarrow> u16 list"
  dialog_progress :: "(u64 \<times> u64) list"
  dialog_shown :: bool

record shell =
  has_cancelled :: "nat \<Rightarrow> bool"
  can_create :: "nat \<Rightarrow> bool"

record updater_ui =
  total_files :: "file_info list"
  downloaded_files :: "file_info list"
  downloading_files :: "(byte list, u64 \<times> u64) umap"
  progress_ui :: dialog
  cancel_queries :: nat
  dialogs_created :: nat

definition update_cancelled :: exn where
  "update_cancelled = Other_exception (lit ''Update was cancelled'')"

definition new_dialog :: dialog where
  "new_dialog = \<lparr>dialog_title = [], dialog_lines = (\<lambda>n. []), dialog_progress = [], dialog_shown = False\<rparr>"

definition set_title :: "byte list \<Rightarrow> dialog \<Rightarrow> dialog" where
  "set_title title d = d\<lparr>dialog_title := widen title\<rparr>"

definition show_dialog :: "dialog \<Rightarrow> dialog" where
  "show_dialog d = d\<lparr>dialog_shown := True\<rparr>"

definition set_progress :: "u64 \<Rightarrow> u64 \<Rightarrow> dialog \<Rightarrow> dialog" where
  "set_progress current max_value d = d\<lparr>dialog_progress := dialog_progress d @ [(current, max_value)]\<rparr>"

definition set_line :: "nat \<Rightarrow> byte list \<Rightarrow> dialog \<Rightarrow> dialog" where
  "set_line n line d = d\<lparr>dialog_lines := (dialog_lines d)(n := widen line)\<rparr>"

definition create_dialog :: "shell \<Rightarrow> updater_ui \<Rightarrow> exn option \<times> updater_ui" where
  "create_dialog S ui =
     (let ui' = ui\<lparr>dialogs_created := Suc (dialogs_created ui)\<rparr> in
      if can_create S (dialogs_created ui) then (None, ui'\<lparr>progress_ui := new_dialog\<rparr>)
      else (Some (Runtime_error (lit ''Failed to create dialog'')), ui'))"

section \<open>Sizes and names\<close>

fun sum_sizes :: "file_info list \<Rightarrow> u64 \<Rightarrow> u64" where
  "sum_sizes [] acc = acc"
| "sum_sizes (f # fs) acc = sum_sizes fs (acc + info_size f)"

fun sum_progress :: "(byte list, u64 \<times> u64) umap \<Rightarrow> u64 \<Rightarrow> u64" where
  "sum_progress [] acc = acc"
| "sum_progress (n # m) acc = sum_progress m (acc + fst (snd n))"

definition get_total_size :: "updater_ui \<Rightarrow> u64" where
  "get_total_size ui = sum_sizes (total_files ui) 0"

definition get_downloaded_size :: "updater_ui \<Rightarrow> u64" where
  "get_downloaded_size ui = sum_progress (downloading_files ui) (sum_sizes (downloaded_files ui) 0)"

definition get_total_files :: "updater_ui \<Rightarrow> nat" where
  "get_total_files ui = length (total_files ui)"

definition get_downloaded_files :: "updater_ui \<Rightarrow> nat" where
  "get_downloaded_files ui = length (downloaded_files ui)"

fun smallest_name :: "(byte list, u64 \<times> u64) umap \<Rightarrow> u64 \<Rightarrow> byte list \<Rightarrow> byte list" where
  "smallest_name [] smallest name = name"
| "smallest_name ((k, progress, max_size) # m) smallest name =
     (if max_size < smallest then smallest_name m max_size k else smallest_name m smallest name)"

definition get_relevant_file_name :: "updater_ui \<Rightarrow> byte list" where
  "get_relevant_file_name ui =
     (let name = smallest_name (downloading_files ui) (- 1) [] in
      if name = [] \<and> downloaded_files ui \<noteq> [] then info_name (last (downloaded_files ui)) else name)"

section \<open>The listener\<close>

definition handle_cancellation :: "shell \<Rightarrow> updater_ui \<Rightarrow> exn option \<times> updater_ui" where
  "handle_cancellation S ui =
     ((if has_cancelled S (cancel_queries ui) then Some update_cancelled else None),
      ui\<lparr>cancel_queries := Suc (cancel_queries ui)\<rparr>)"

definition update_progress :: "updater_ui \<Rightarrow> updater_ui" where
  "update_progress ui =
     ui\<lparr>progress_ui := set_progress (get_downloaded_size ui) (get_total_size ui) (progress_ui ui)\<rparr>"

definition update_file_name :: "updater_ui \<Rightarrow> updater_ui" where
  "update_file_name ui =
     (let line = (if get_downloaded_files ui = get_total_files ui then lit ''Update successful.''
            else lit ''Updating files... ('' @ decimal (get_downloaded_files ui) @ lit ''/'' @
              decimal (get_total_files ui) @ lit '')'')
      in ui\<lparr>progress_ui := set_line 2 (get_relevant_file_name ui) (set_line 1 line (progress_ui ui))\<rparr>)"

text \<open>Sequencing of operations that may throw.\<close>

definition ui_then ::
    "exn option \<times> 's \<Rightarrow> ('s \<Rightarrow> exn option \<times> 's) \<Rightarrow> exn option \<times> 's" where
  "ui_then r f = (case r of (Some e, s) \<Rightarrow> (Some e, s) | (None, s) \<Rightarrow> f s)"

definition ui_update_files :: "shell \<Rightarrow> file_info list \<Rightarrow> updater_ui \<Rightarrow> exn option \<times> updater_ui" where
  "ui_update_files S files ui =
     ui_then (handle_cancellation S ui) (\<lambda>ui1.
       ui_then (create_dialog S (ui1\<lparr>total_files := files, downloaded_files := [], downloading_files := []\<rparr>)) (\<lambda>ui2.
         (None, ui2\<lparr>progress_ui := show_dialog (set_title (lit ''W3m Updater'') (progress_ui ui2))\<rparr>)))"

definition ui_done_update :: "shell \<Rightarrow> updater_ui \<Rightarrow> exn option \<times> updater_ui" where
  "ui_done_update S ui =
     (let total = get_total_size ui;
          ui1 = update_file_name ui;
          d = set_progress total total (set_progress (if 1 < total then total - 1 else 0) total (progress_ui ui1))
      in (None, ui1\<lparr>progress_ui := d, total_files := [], downloaded_files := [], downloading_files := []\<rparr>))"

definition ui_file_progress ::
    "shell \<Rightarrow> file_info \<Rightarrow> u64 \<Rightarrow> updater_ui \<Rightarrow> exn option \<times> updater_ui" where
  "ui_file_progress S file n ui =
     ui_then (handle_cancellation S ui) (\<lambda>ui1.
       (None, update_progress (ui1\<lparr>downloading_files :=
          um_put (=) (info_name file) (n, info_size file) (downloading_files ui1)\<rparr>)))"

definition ui_begin_file :: "shell \<Rightarrow> file_info \<Rightarrow> updater_ui \<Rightarrow> exn option \<times> updater_ui" where
  "ui_begin_file S file ui =
     ui_then (handle_cancellation S ui) (\<lambda>ui1.
       ui_then (ui_file_progress S file 0 ui1) (\<lambda>ui2. (None, update_file_name ui2)))"

text \<open>\<open>end_file\<close>: the assertion of the case that the file is not in the map is off in release builds.\<close>

definition ui_end_file :: "shell \<Rightarrow> file_info \<Rightarrow> updater_ui \<Rightarrow> exn option \<times> updater_ui" where
  "ui_end_file S file ui =
     (None, update_file_name (update_progress (ui\<lparr>downloaded_files := downloaded_files ui @ [file],
        downloading_files := um_erase (=) (info_name file) (downloading_files ui)\<rparr>)))"

end
