(* ===== verification/File_Updater.thy ===== *)
theory File_Updater
  imports File_System Http Updater_Ui Crypto
begin

text \<open>
  The updater (src/client/updater/file_updater.cpp, updater.cpp, src/client/module/updater.cpp):
  the list of files, the search for outdated ones, the download by several threads and the
  replacement of the running executable. The environment is one record: libcurl, rapidjson,
  libtomcrypt, the number of cores, the build's configuration, the listener and what other
  processes do to the disk while the updater sleeps. The threads of \<open>update_files\<close> are
  interleaved by an explicit schedule, the number of the thread that makes the next step.
\<close>

section \<open>Environment and state\<close>

text \<open>What the code reads of rapidjson's values.\<close>

datatype json = Json_array "json list" | Json_string "byte list" | Json_int int | Json_other

record 'l listener =
  on_update_files :: "file_info list \<Rightarrow> 'l \<Rightarrow> exn option \<times> 'l"
  on_done_update :: "'l \<Rightarrow> exn option \<times> 'l"
  on_begin_file :: "file_info \<Rightarrow> 'l \<Rightarrow> exn option \<times> 'l"
  on_end_file :: "file_info \<Rightarrow> 'l \<Rightarrow> exn option \<times> 'l"
  on_file_progress :: "file_info \<Rightarrow> u64 \<Rightarrow> 'l \<Rightarrow> exn option \<times> 'l"

record 'l updater_env =
  update_curl :: curl
  parse_json :: "byte list \<Rightarrow> json option"
  update_lib :: crypto_lib
  nanoseconds :: nat
  hardware_concurrency :: nat
  ci_release :: bool
  update_listener :: "'l listener"
  while_asleep :: "nat \<Rightarrow> file_system \<Rightarrow> file_system"
  base_dir :: path
  process_file :: path

record 'l updater_state =
  listener_state :: 'l
  disk :: file_system
  relaunches :: nat

definition ui_listener :: "shell \<Rightarrow> updater_ui listener" where
  "ui_listener S = \<lparr>on_update_files = ui_update_files S, on_done_update = ui_done_update S,
     on_begin_file = ui_begin_file S, on_end_file = ui_end_file S,
     on_file_progress = ui_file_progress S\<rparr>"

definition update_server :: "byte list" where "update_server = lit ''https://data.momo5502.com/''"
definition get_update_file :: "byte list" where "get_update_file = update_server @ lit ''w3.json''"
definition get_update_folder :: "byte list" where "get_update_folder = update_server @ lit ''w3/''"
definition host_binary :: "byte list" where "host_binary = lit ''w3m.exe''"

section \<open>The list of files\<close>

text \<open>An element that is too short or holds other types fails an assertion of rapidjson.\<close>

fun parse_elements :: "json list \<Rightarrow> exn + file_info list" where
  "parse_elements [] = Inr []"
| "parse_elements (Json_array (Json_string name # Json_int n # Json_string h # others) # es) =
     exn_bind (parse_elements es) (\<lambda>fs.
       if - (2 ^ 63) \<le> n \<and> n < 2 ^ 63
       then Inr (\<lparr>info_name = name, info_size = of_int n, info_hash = h\<rparr> # fs)
       else Inl Undefined_behaviour)"
| "parse_elements (Json_array vs # es) = Inl Undefined_behaviour"
| "parse_elements (e # es) = parse_elements es"

definition parse_file_infos :: "(byte list \<Rightarrow> json option) \<Rightarrow> byte list \<Rightarrow> exn + file_info list" where
  "parse_file_infos parser text_data =
     (case parser text_data of Some (Json_array es) \<Rightarrow> parse_elements es | _ \<Rightarrow> Inr [])"

definition get_cache_buster :: "nat \<Rightarrow> byte list" where
  "get_cache_buster now = lit ''?'' @ decimal now"

definition get_file_infos :: "'l updater_env \<Rightarrow> exn + file_info list" where
  "get_file_infos E =
     exn_bind (fst (get_data (update_curl E) (get_update_file @ get_cache_buster (nanoseconds E)) [] None 2 ()))
       (\<lambda>r. case r of None \<Rightarrow> Inr [] | Some data \<Rightarrow> parse_file_infos (parse_json E) data)"

definition get_hash :: "'l updater_env \<Rightarrow> byte list \<Rightarrow> byte list" where
  "get_hash E data = sha1_compute (update_lib E) data True"

definition find_host_file_info :: "file_info list \<Rightarrow> file_info option" where
  "find_host_file_info outdated = List.find (\<lambda>f. info_name f = host_binary) outdated"

definition get_optimal_concurrent_download_count :: "nat \<Rightarrow> nat \<Rightarrow> nat" where
  "get_optimal_concurrent_download_count cores file_count = max 1 (min (cores * 2 div 3) file_count)"

definition get_drive_filename :: "'l updater_env \<Rightarrow> file_info \<Rightarrow> path" where
  "get_drive_filename E file =
     (if info_name file = host_binary then process_file E else path_append (base_dir E) (info_name file))"

definition dead_process_file :: "'l updater_env \<Rightarrow> path" where
  "dead_process_file E = replace_extension (lit ''.exe.old'') (process_file E)"

text \<open>Outside the release builds of the CI the executable itself is never outdated.\<close>

definition is_outdated_file :: "'l updater_env \<Rightarrow> file_system \<Rightarrow> file_info \<Rightarrow> exn + bool" where
  "is_outdated_file E fs file =
     (if \<not> ci_release E \<and> info_name file = host_binary then Inr False
      else exn_bind (io_read_file (get_drive_filename E file) fs) (\<lambda>r. case r of
          None \<Rightarrow> Inr True
        | Some data \<Rightarrow>
            if length data \<noteq> unat (info_size file) then Inr True
            else Inr (get_hash E data \<noteq> info_hash file)))"

fun get_outdated_files :: "'l updater_env \<Rightarrow> file_system \<Rightarrow> file_info list \<Rightarrow> exn + file_info list" where
  "get_outdated_files E fs [] = Inr []"
| "get_outdated_files E fs (f # files) =
     exn_bind (is_outdated_file E fs f) (\<lambda>outdated.
       exn_bind (get_outdated_files E fs files) (\<lambda>rest. Inr (if outdated then f # rest else rest)))"

section \<open>One file\<close>

definition update_file :: "'l updater_env \<Rightarrow> file_info \<Rightarrow> 'l updater_state \<Rightarrow> exn option \<times> 'l updater_state" where
  "update_file E file s =
     (let url = get_update_folder @ info_name file @ lit ''?'' @ info_hash file;
          (r, l) = get_data (update_curl E) url []
            (Some (on_file_progress (update_listener E) file)) 2 (listener_state s);
          s1 = s\<lparr>listener_state := l\<rparr>;
          download_failed = Runtime_error (lit ''Failed to download: '' @ url)
      in case r of
        Inl e \<Rightarrow> (Some e, s1)
      | Inr None \<Rightarrow> (Some download_failed, s1)
      | Inr (Some data) \<Rightarrow>
          if length data \<noteq> unat (info_size file) \<or> get_hash E data \<noteq> info_hash file
          then (Some download_failed, s1)
          else let (written, fs) = io_write_file (get_drive_filename E file) data False (disk s1) in
            if written then (None, s1\<lparr>disk := fs\<rparr>)
            else (Some (Runtime_error (lit ''Failed to write: '' @ info_name file)), s1\<lparr>disk := fs\<rparr>))"

section \<open>The threads\<close>

datatype worker = Checking | Fetching | Beginning nat | Updating nat | Ending nat | Stopped

record 'l update_run =
  workers :: "worker list"
  current_index :: nat
  failure :: "exn option"
  shared :: "'l updater_state"

definition set_worker :: "nat \<Rightarrow> worker \<Rightarrow> 'l update_run \<Rightarrow> 'l update_run" where
  "set_worker k w r = r\<lparr>workers := (workers r)[k := w]\<rparr>"

text \<open>What follows a call in the \<open>try\<close> block: an exception is stored and ends the thread.\<close>

definition worker_call ::
    "nat \<Rightarrow> worker \<Rightarrow> 'l update_run \<Rightarrow> exn option \<times> 'l updater_state \<Rightarrow> 'l update_run" where
  "worker_call k w r result =
     (case result of
        (None, s) \<Rightarrow> set_worker k w (r\<lparr>shared := s\<rparr>)
      | (Some e, s) \<Rightarrow> set_worker k Stopped (r\<lparr>shared := s, failure := Some e\<rparr>))"

definition listener_call ::
    "('l \<Rightarrow> exn option \<times> 'l) \<Rightarrow> 'l updater_state \<Rightarrow> exn option \<times> 'l updater_state" where
  "listener_call f s = (case f (listener_state s) of (e, l) \<Rightarrow> (e, s\<lparr>listener_state := l\<rparr>))"

definition worker_step ::
    "'l updater_env \<Rightarrow> file_info list \<Rightarrow> nat \<Rightarrow> 'l update_run \<Rightarrow> 'l update_run" where
  "worker_step E files k r =
     (if length (workers r) \<le> k then r
      else case workers r ! k of
        Checking \<Rightarrow> set_worker k (if failure r = None then Fetching else Stopped) r
      | Fetching \<Rightarrow>
          set_worker k (if current_index r < length files then Beginning (current_index r) else Stopped)
            (r\<lparr>current_index := Suc (current_index r)\<rparr>)
      | Beginning i \<Rightarrow> worker_call k (Updating i) r
          (listener_call (on_begin_file (update_listener E) (files ! i)) (shared r))
      | Updating i \<Rightarrow> worker_call k (Ending i) r (update_file E (files ! i) (shared r))
      | Ending i \<Rightarrow> worker_call k Checking r
          (listener_call (on_end_file (update_listener E) (files ! i)) (shared r))
      | Stopped \<Rightarrow> r)"

fun run_workers :: "'l updater_env \<Rightarrow> file_info list \<Rightarrow> nat list \<Rightarrow> 'l update_run \<Rightarrow> 'l update_run" where
  "run_workers E files [] r = r"
| "run_workers E files (k # ks) r = run_workers E files ks (worker_step E files k r)"

definition start_run :: "'l updater_env \<Rightarrow> file_info list \<Rightarrow> 'l updater_state \<Rightarrow> 'l update_run" where
  "start_run E files s =
     \<lparr>workers = replicate (get_optimal_concurrent_download_count (hardware_concurrency E) (length files)) Checking,
      current_index = 0, failure = None, shared = s\<rparr>"

text \<open>\<open>update_files\<close>: \<open>None\<close> while a thread still runs at the end of the schedule.\<close>

definition update_files ::
    "'l updater_env \<Rightarrow> nat list \<Rightarrow> file_info list \<Rightarrow> 'l updater_state \<Rightarrow>
     (exn option \<times> 'l updater_state) option" where
  "update_files E schedule files s =
     (case listener_call (on_update_files (update_listener E) files) s of
        (Some e, s1) \<Rightarrow> Some (Some e, s1)
      | (None, s1) \<Rightarrow>
          let r = run_workers E files schedule (start_run E files s1) in
          if workers r \<noteq> replicate (length (workers r)) Stopped then None
          else case failure r of
            Some e \<Rightarrow> Some (Some e, shared r)
          | None \<Rightarrow> Some (listener_call (on_done_update (update_listener E)) (shared r)))"

section \<open>The running executable\<close>

definition move_current_process_file :: "'l updater_env \<Rightarrow> 'l updater_state \<Rightarrow> 'l updater_state" where
  "move_current_process_file E s =
     s\<lparr>disk := snd (io_move_file (process_file E) (dead_process_file E) (disk s))\<rparr>"

definition restore_current_process_file :: "'l updater_env \<Rightarrow> 'l updater_state \<Rightarrow> 'l updater_state" where
  "restore_current_process_file E s =
     s\<lparr>disk := snd (io_move_file (dead_process_file E) (process_file E) (disk s))\<rparr>"

definition update_host_binary ::
    "'l updater_env \<Rightarrow> nat list \<Rightarrow> file_info list \<Rightarrow> 'l updater_state \<Rightarrow>
     (exn option \<times> 'l updater_state) option" where
  "update_host_binary E schedule outdated s =
     (case find_host_file_info outdated of
        None \<Rightarrow> Some (None, s)
      | Some host \<Rightarrow>
          (case update_files E schedule [host] (move_current_process_file E s) of
             None \<Rightarrow> None
           | Some (Some e, s1) \<Rightarrow> Some (Some e, restore_current_process_file E s1)
           | Some (None, s1) \<Rightarrow>
               Some (Some update_cancelled, s1\<lparr>relaunches := Suc (relaunches s1)\<rparr>)))"

fun delete_old_process_file :: "'l updater_env \<Rightarrow> nat \<Rightarrow> nat \<Rightarrow> file_system \<Rightarrow> file_system" where
  "delete_old_process_file E i 0 fs = fs"
| "delete_old_process_file E i (Suc n) fs =
     (let fs1 = snd (io_remove_file (dead_process_file E) fs) in
      if \<not> io_file_exists (dead_process_file E) fs1 then fs1
      else delete_old_process_file E (Suc i) n (while_asleep E i fs1))"

definition new_file_updater :: "'l updater_env \<Rightarrow> 'l updater_state \<Rightarrow> 'l updater_state" where
  "new_file_updater E s = s\<lparr>disk := delete_old_process_file E 0 4 (disk s)\<rparr>"

section \<open>Cleaning up\<close>

definition root_kept :: "'l updater_env \<Rightarrow> file_info list \<Rightarrow> file_system \<Rightarrow> path \<Rightarrow> bool" where
  "root_kept E files fs file =
     (let entry = path_relative file (base_dir E) in
      ((entry = [lit ''user''] \<or> entry = [lit ''data'']) \<and> io_directory_exists file fs) \<or>
      list_ex (\<lambda>w. components (info_name w) = entry) files)"

fun cleanup_root_entries :: "'l updater_env \<Rightarrow> file_info list \<Rightarrow> path list \<Rightarrow> file_system \<Rightarrow> file_system" where
  "cleanup_root_entries E files [] fs = fs"
| "cleanup_root_entries E files (p # ps) fs =
     cleanup_root_entries E files ps (if root_kept E files fs p then fs else remove_all p fs)"

definition cleanup_root_directory :: "'l updater_env \<Rightarrow> file_info list \<Rightarrow> file_system \<Rightarrow> file_system" where
  "cleanup_root_directory E files fs =
     cleanup_root_entries E files (io_list_files (base_dir E) False fs) fs"

definition is_inside_folder :: "path \<Rightarrow> path \<Rightarrow> bool" where
  "is_inside_folder file folder =
     (let rel = path_relative file folder in rel \<noteq> [] \<and> hd rel \<noteq> dotdot)"

definition legal_files :: "'l updater_env \<Rightarrow> file_info list \<Rightarrow> path list" where
  "legal_files E files =
     map (\<lambda>f. full (path_append (base_dir E) (info_name f)))
       (filter (\<lambda>f. starts_with (info_name f) (lit ''data'')) files)"

definition data_kept :: "path list \<Rightarrow> file_system \<Rightarrow> path \<Rightarrow> bool" where
  "data_kept legal fs file =
     (let is_file = io_file_exists file fs; is_folder = io_directory_exists file fs in
      (is_file \<or> is_folder) \<and>
      list_ex (\<lambda>l. (is_folder \<and> is_inside_folder l file) \<or> (is_file \<and> l = file)) legal)"

fun cleanup_data_entries :: "path list \<Rightarrow> path list \<Rightarrow> file_system \<Rightarrow> file_system" where
  "cleanup_data_entries legal [] fs = fs"
| "cleanup_data_entries legal (p # ps) fs =
     cleanup_data_entries legal ps (if data_kept legal fs p then fs else remove_all p fs)"

definition cleanup_data_directory :: "'l updater_env \<Rightarrow> file_info list \<Rightarrow> file_system \<Rightarrow> file_system" where
  "cleanup_data_directory E files fs =
     (if \<not> io_directory_exists (base_dir E) fs then fs
      else cleanup_data_entries (legal_files E files)
        (io_list_files (path_append (base_dir E) (lit ''data'')) True fs) fs)"

definition cleanup_directories :: "'l updater_env \<Rightarrow> file_info list \<Rightarrow> file_system \<Rightarrow> file_system" where
  "cleanup_directories E files fs =
     (if \<not> io_directory_exists (base_dir E) fs then fs
      else cleanup_data_directory E files (cleanup_root_directory E files fs))"

section \<open>The whole update\<close>

text \<open>\<open>run\<close>, with the schedules of its two downloads.\<close>

definition updater_run ::
    "'l updater_env \<Rightarrow> nat list \<Rightarrow> nat list \<Rightarrow> 'l updater_state \<Rightarrow>
     (exn option \<times> 'l updater_state) option" where
  "updater_run E schedule1 schedule2 s =
     (case get_file_infos E of
        Inl e \<Rightarrow> Some (Some e, s)
      | Inr files \<Rightarrow>
          let s1 = (if files \<noteq> [] then s\<lparr>disk := cleanup_directories E files (disk s)\<rparr> else s) in
          case get_outdated_files E (disk s1) files of
            Inl e \<Rightarrow> Some (Some e, s1)
          | Inr outdated \<Rightarrow>
              if outdated = [] then Some (None, s1)
              else case update_host_binary E schedule1 outdated s1 of
                None \<Rightarrow> None
              | Some (Some e, s2) \<Rightarrow> Some (Some e, s2)
              | Some (None, s2) \<Rightarrow> update_files E schedule2 outdated s2)"

text \<open>The module: a cancelled update ends the process, every other exception is dropped.\<close>

datatype update_outcome = Process_terminated | Process_continues

definition update_module ::
    "'l updater_env \<Rightarrow> nat list \<Rightarrow> nat list \<Rightarrow> 'l updater_state \<Rightarrow> (update_outcome \<times> 'l updater_state) option" where
  "update_module E schedule1 schedule2 s =
     (case updater_run E schedule1 schedule2 (new_file_updater E s) of
        None \<Rightarrow> None
      | Some (e, s1) \<Rightarrow>
          Some (if e = Some update_cancelled then Process_terminated else Process_continues, s1))"

end
