(* ===== verification/Updater_Properties.thy ===== *)
theory Updater_Properties
  imports File_Updater "HOL-Library.Sublist"
begin

text \<open>
  What the updater guarantees, for every listener, every answer of the network and every
  interleaving of the download threads: what reaches the disk, that a download without an
  exception is complete, that the threads end, and that a failed replacement of the
  executable leaves it as it was. The locale \<open>run_invariant\<close> carries an invariant from one
  step of a thread to whole runs.
\<close>

section \<open>Verified data\<close>

definition verified :: "'l updater_env \<Rightarrow> file_info \<Rightarrow> byte list \<Rightarrow> bool" where
  "verified E f data \<longleftrightarrow> length data = unat (info_size f) \<and> get_hash E data = info_hash f"

definition available :: "'l updater_env \<Rightarrow> file_system \<Rightarrow> file_info \<Rightarrow> bool" where
  "available E fs f \<longleftrightarrow> (\<exists>data. node_at fs (get_drive_filename E f) = Some (File data False) \<and> verified E f data)"

text \<open>The disk \<open>fs\<close> grew out of \<open>fs0\<close> by new directories and by verified files at their places.\<close>

definition grown_by :: "'l updater_env \<Rightarrow> file_info set \<Rightarrow> file_system \<Rightarrow> file_system \<Rightarrow> bool" where
  "grown_by E F fs0 fs \<longleftrightarrow>
     (\<forall>q. node_at fs q = node_at fs0 q \<or>
        node_at fs0 q = None \<and> node_at fs q = Some Directory \<or>
        (\<exists>f \<in> F. \<exists>data. full q = full (get_drive_filename E f) \<and>
           node_at fs q = Some (File data False) \<and> verified E f data))"

lemma grown_by_refl [simp]: "grown_by E F fs fs"
  by (simp add: grown_by_def)

lemma grown_by_write:
  assumes "grown_by E F fs0 fs" and "f \<in> F" and "verified E f data"
    and "io_write_file (get_drive_filename E f) data False fs = (ok, fs')"
  shows "grown_by E F fs0 fs'"
  unfolding grown_by_def
proof
  fix q
  let ?goal = "\<lambda>n. n = node_at fs0 q \<or> node_at fs0 q = None \<and> n = Some Directory \<or>
    (\<exists>f \<in> F. \<exists>data. full q = full (get_drive_filename E f) \<and> n = Some (File data False) \<and> verified E f data)"
  have old: "?goal (node_at fs q)" using assms(1) by (simp add: grown_by_def)
  from write_file_node [OF assms(4), of q] show "?goal (node_at fs' q)"
  proof (elim disjE conjE)
    assume "full q = full (get_drive_filename E f)" "node_at fs' q = Some (File data False)"
    with assms(2,3) show ?thesis by blast
  next
    assume "node_at fs' q = node_at fs q"
    with old show ?thesis by simp
  next
    assume "node_at fs q = None" "node_at fs' q = Some Directory"
    with old show ?thesis by auto
  qed
qed

lemma update_file_cases:
  assumes "update_file E f s = (e, s')"
  obtains "e \<noteq> None" "disk s' = disk s" "relaunches s' = relaunches s"
  | data ok where "verified E f data" "e = None \<longleftrightarrow> ok" "relaunches s' = relaunches s"
      "io_write_file (get_drive_filename E f) data False (disk s) = (ok, disk s')"
proof -
  obtain r l where g: "get_data (update_curl E) (get_update_folder @ info_name f @ lit ''?'' @ info_hash f) []
      (Some (on_file_progress (update_listener E) f)) 2 (listener_state s) = (r, l)"
    by (metis surj_pair)
  note unf = assms [unfolded update_file_def Let_def g, simplified]
  show thesis
  proof (cases "\<exists>data. r = Inr (Some data) \<and> verified E f data")
    case True
    then obtain data where data: "r = Inr (Some data)" "verified E f data" by blast
    obtain ok fs where w: "io_write_file (get_drive_filename E f) data False (disk s) = (ok, fs)"
      by (metis surj_pair)
    from unf data w have "e = None \<longleftrightarrow> ok" "disk s' = fs" "relaunches s' = relaunches s"
      by (auto simp: verified_def split: if_splits)
    with data w that(2) show thesis by blast
  next
    case False
    with unf have "e \<noteq> None \<and> disk s' = disk s \<and> relaunches s' = relaunches s"
      by (auto simp: verified_def split: sum.splits option.splits if_splits)
    then show thesis using that(1) by blast
  qed
qed

lemma update_file_grows:
  assumes "grown_by E F fs0 (disk s)" and "f \<in> F" and "update_file E f s = (e, s')"
  shows "grown_by E F fs0 (disk s')"
  using assms(3)
proof (cases rule: update_file_cases)
  case 1
  with assms(1) show ?thesis by simp
next
  case (2 data ok)
  with grown_by_write [OF assms(1,2)] show ?thesis by blast
qed

lemma update_file_available: "update_file E f s = (None, s') \<Longrightarrow> available E (disk s') f"
  by (erule update_file_cases) (auto simp: available_def dest: write_file_written)

lemma update_file_keeps:
  assumes "available E (disk s) g" and "full (get_drive_filename E f) \<noteq> full (get_drive_filename E g)"
    and "update_file E f s = (e, s')"
  shows "available E (disk s') g"
  using assms(3)
proof (cases rule: update_file_cases)
  case 1
  with assms(1) show ?thesis by simp
next
  case (2 data ok)
  from write_file_node [OF 2(4), of "get_drive_filename E g"] assms(1,2) show ?thesis
    by (auto simp: available_def)
qed

lemma listener_call_disk [simp]:
  "disk (snd (listener_call f s)) = disk s" "relaunches (snd (listener_call f s)) = relaunches s"
  by (simp_all add: listener_call_def case_prod_unfold)

lemma listener_call_eq:
  "listener_call f s = (e, s') \<Longrightarrow> disk s' = disk s \<and> relaunches s' = relaunches s"
  using listener_call_disk [of f s] by simp

section \<open>Runs of the threads\<close>

locale run_invariant =
  fixes E :: "'l updater_env" and files :: "file_info list" and inv :: "'l update_run \<Rightarrow> bool"
  assumes step: "inv r \<Longrightarrow> inv (worker_step E files k r)"
begin

lemma run_keeps: "inv r \<Longrightarrow> inv (run_workers E files ks r)"
  by (induction ks arbitrary: r) (simp_all add: step)

end

text \<open>The worker that moves, and what it does, in one case rule.\<close>

definition worker_result ::
    "'l updater_env \<Rightarrow> file_info list \<Rightarrow> worker \<Rightarrow> 'l updater_state \<Rightarrow> exn option \<times> 'l updater_state" where
  "worker_result E files w s = (case w of
      Beginning i \<Rightarrow> listener_call (on_begin_file (update_listener E) (files ! i)) s
    | Updating i \<Rightarrow> update_file E (files ! i) s
    | Ending i \<Rightarrow> listener_call (on_end_file (update_listener E) (files ! i)) s
    | _ \<Rightarrow> (None, s))"

lemma worker_call_fields:
  "workers (worker_call k w r (e, s)) = (workers r)[k := if e = None then w else Stopped]"
  "current_index (worker_call k w r (e, s)) = current_index r"
  "failure (worker_call k w r (e, s)) = (if e = None then failure r else e)"
  "shared (worker_call k w r (e, s)) = s"
  by (cases e; simp add: worker_call_def set_worker_def)+

lemma set_worker_fields [simp]:
  "workers (set_worker k w r) = (workers r)[k := w]"
  "current_index (set_worker k w r) = current_index r"
  "failure (set_worker k w r) = failure r"
  "shared (set_worker k w r) = shared r"
  by (simp_all add: set_worker_def)

lemma worker_call_fields_pair [simp]:
  "workers (worker_call k w r c) = (workers r)[k := if fst c = None then w else Stopped]"
  "current_index (worker_call k w r c) = current_index r"
  "failure (worker_call k w r c) = (if fst c = None then failure r else fst c)"
  "shared (worker_call k w r c) = snd c"
  by (cases c; simp add: worker_call_fields)+

lemma length_worker_step [simp]: "length (workers (worker_step E files k r)) = length (workers r)"
  by (auto simp: worker_step_def split: worker.splits)

text \<open>A thread works on a file of the list only, and only verified data reaches the disk.\<close>

definition run_safe :: "'l updater_env \<Rightarrow> file_info list \<Rightarrow> file_system \<Rightarrow> 'l update_run \<Rightarrow> bool" where
  "run_safe E files fs0 r \<longleftrightarrow>
     (\<forall>i. (Beginning i \<in> set (workers r) \<or> Updating i \<in> set (workers r)) \<longrightarrow> i < length files) \<and>
     grown_by E (set files) fs0 (disk (shared r))"

lemma run_safe_step:
  assumes "run_safe E files fs0 r"
  shows "run_safe E files fs0 (worker_step E files k r)"
proof (cases "k < length (workers r)")
  case False
  then show ?thesis using assms by (simp add: worker_step_def)
next
  case True
  have mem: "x = w \<or> x \<in> set (workers r)" if "x \<in> set ((workers r)[k := w])" for x w
    using that set_update_subset_insert by fastforce
  have at: "workers r ! k \<in> set (workers r)" using True by simp
  show ?thesis
  proof (cases "workers r ! k")
    case (Updating i)
    then have i: "i < length files" using at assms by (simp add: run_safe_def)
    obtain e s' where u: "update_file E (files ! i) (shared r) = (e, s')" by (metis surj_pair)
    with update_file_grows [OF _ _ u] assms i show ?thesis using Updating True
      by (auto simp: worker_step_def run_safe_def split: if_splits dest!: mem)
  qed (use assms at True in \<open>auto simp: worker_step_def run_safe_def split: if_splits dest!: mem\<close>)
qed

interpretation safe: run_invariant E files "run_safe E files fs0" for E files fs0
  by unfold_locales (rule run_safe_step)

text \<open>
  While no thread has failed, every file whose number was drawn is on the disk or in the
  hands of a thread, and a thread ends only after the last number was drawn.
\<close>

definition in_hands :: "nat \<Rightarrow> worker list \<Rightarrow> bool" where
  "in_hands i ws \<longleftrightarrow> Beginning i \<in> set ws \<or> Updating i \<in> set ws"

definition run_complete :: "'l updater_env \<Rightarrow> file_info list \<Rightarrow> 'l update_run \<Rightarrow> bool" where
  "run_complete E files r \<longleftrightarrow> failure r = None \<longrightarrow>
     (Stopped \<in> set (workers r) \<longrightarrow> length files \<le> current_index r) \<and>
     (\<forall>i < length files. i < current_index r \<longrightarrow>
        available E (disk (shared r)) (files ! i) \<or> in_hands i (workers r))"

definition distinct_places :: "'l updater_env \<Rightarrow> file_info list \<Rightarrow> bool" where
  "distinct_places E files \<longleftrightarrow> distinct (map (\<lambda>f. full (get_drive_filename E f)) files)"

lemma set_update_keep:
  "x \<in> set ws \<Longrightarrow> k < length ws \<Longrightarrow> x \<noteq> ws ! k \<Longrightarrow> x \<in> set (ws[k := w])"
  by (metis in_set_conv_nth length_list_update nth_list_update_neq)

lemma set_update_other: "x \<in> set (ws[k := w]) \<Longrightarrow> x \<noteq> w \<Longrightarrow> x \<in> set ws"
  using set_update_subset_insert by fastforce

lemma in_hands_keep:
  "in_hands i ws \<Longrightarrow> k < length ws \<Longrightarrow> ws ! k \<noteq> Beginning i \<Longrightarrow> ws ! k \<noteq> Updating i \<Longrightarrow>
     in_hands i (ws[k := w])"
  unfolding in_hands_def using set_update_keep by metis

lemma in_hands_new:
  "k < length ws \<Longrightarrow> in_hands i (ws[k := Beginning i])" "k < length ws \<Longrightarrow> in_hands i (ws[k := Updating i])"
  by (simp_all add: in_hands_def set_update_memI)

lemma run_complete_step:
  assumes "distinct_places E files" and "run_safe E files fs0 r" and "run_complete E files r"
  shows "run_complete E files (worker_step E files k r)"
proof (cases "k < length (workers r) \<and> failure r = None")
  case False
  then show ?thesis using assms(3)
    by (auto simp: worker_step_def run_complete_def split: worker.splits)
next
  case True
  then have k: "k < length (workers r)" and ok: "failure r = None" by simp_all
  let ?ws = "workers r"
  have stop: "Stopped \<in> set ?ws \<Longrightarrow> length files \<le> current_index r"
    and held: "\<And>i. i < length files \<Longrightarrow> i < current_index r \<Longrightarrow>
      available E (disk (shared r)) (files ! i) \<or> in_hands i ?ws"
    using assms(3) ok by (auto simp: run_complete_def)
  have stopped: "Stopped \<in> set (?ws[k := w]) \<Longrightarrow> w \<noteq> Stopped \<Longrightarrow> length files \<le> current_index r" for w
    using stop set_update_other by metis
  have others: "available E (disk (shared r)) (files ! i) \<or> in_hands i (?ws[k := w])"
    if "i < length files" "i < current_index r" "?ws ! k \<noteq> Beginning i" "?ws ! k \<noteq> Updating i" for i w
    using held [OF that(1,2)] in_hands_keep [OF _ k that(3,4)] by blast
  show ?thesis
  proof (cases "?ws ! k")
    case Checking
    then show ?thesis using k ok stopped others by (auto simp: worker_step_def run_complete_def)
  next
    case Fetching
    have "available E (disk (shared r)) (files ! i) \<or> in_hands i (?ws[k := Beginning (current_index r)])"
      if "i < length files" "i < Suc (current_index r)" for i
      using that others Fetching in_hands_new(1) [OF k] by (cases "i = current_index r") auto
    moreover have "Stopped \<in> set (?ws[k := Beginning (current_index r)]) \<Longrightarrow> length files \<le> Suc (current_index r)"
      using stopped [of "Beginning (current_index r)"] by simp
    moreover have "available E (disk (shared r)) (files ! i) \<or> in_hands i (?ws[k := Stopped])"
      if "i < length files" "\<not> current_index r < length files" for i
      using that others Fetching by auto
    ultimately show ?thesis using Fetching k ok by (auto simp: worker_step_def run_complete_def)
  next
    case (Beginning j)
    have "available E (disk (shared r)) (files ! i) \<or> in_hands i (?ws[k := Updating j])"
      if "i < length files" "i < current_index r" for i
      using that others Beginning in_hands_new(2) [OF k] by (cases "i = j") auto
    then show ?thesis using Beginning k ok stopped by (auto simp: worker_step_def run_complete_def)
  next
    case (Updating j)
    then have j: "j < length files" using assms(2) k unfolding run_safe_def by (metis nth_mem)
    obtain e s' where u: "update_file E (files ! j) (shared r) = (e, s')" by (metis surj_pair)
    have "available E (disk s') (files ! i) \<or> in_hands i (?ws[k := Ending j])"
      if "i < length files" "i < current_index r" "e = None" for i
    proof (cases "i = j")
      case True
      then show ?thesis using update_file_available u that(3) by blast
    next
      case False
      then have "full (get_drive_filename E (files ! j)) \<noteq> full (get_drive_filename E (files ! i))"
        using assms(1) that(1) j by (auto simp: distinct_places_def distinct_conv_nth)
      from update_file_keeps [OF _ this u] others [OF that(1,2)] False Updating show ?thesis by auto
    qed
    then show ?thesis using Updating k ok stopped u
      by (cases e) (auto simp: worker_step_def run_complete_def)
  next
    case (Ending j)
    then show ?thesis using k ok stopped others by (auto simp: worker_step_def run_complete_def)
  next
    case Stopped
    then show ?thesis using assms(3) k by (simp add: worker_step_def)
  qed
qed

interpretation complete: run_invariant E files
    "\<lambda>r. run_safe E files fs0 r \<and> (distinct_places E files \<longrightarrow> run_complete E files r)" for E files fs0
  by unfold_locales (blast intro: run_safe_step run_complete_step)

section \<open>Whole downloads\<close>

lemma start_run_workers [simp]:
  "workers (start_run E files s) =
     replicate (get_optimal_concurrent_download_count (hardware_concurrency E) (length files)) Checking"
  "current_index (start_run E files s) = 0" "shared (start_run E files s) = s"
  by (simp_all add: start_run_def)

lemma start_run_safe: "run_safe E files (disk s) (start_run E files s)"
  by (auto simp: run_safe_def)

lemma start_run_complete: "run_complete E files (start_run E files s)"
  by (auto simp: run_complete_def)

lemma length_run_workers [simp]: "length (workers (run_workers E files ks r)) = length (workers r)"
  by (induction ks arbitrary: r) simp_all

text \<open>A download is one of three: refused by the listener at the start, failed, or done.\<close>

lemma update_files_cases:
  assumes "update_files E schedule files s = Some (e, s')"
  obtains (refused) "e \<noteq> None" "disk s' = disk s" "relaunches s' = relaunches s"
  | (ended) s1 r where "disk s1 = disk s" "relaunches s1 = relaunches s"
      "r = run_workers E files schedule (start_run E files s1)"
      "\<forall>w \<in> set (workers r). w = Stopped" "disk s' = disk (shared r)" "relaunches s' = relaunches (shared r)"
      "failure r \<noteq> None \<Longrightarrow> e = failure r"
      "failure r = None \<Longrightarrow> e = fst (listener_call (on_done_update (update_listener E)) (shared r))"
proof -
  obtain e1 s1 where l: "listener_call (on_update_files (update_listener E) files) s = (e1, s1)"
    by (metis surj_pair)
  then have s1: "disk s1 = disk s" "relaunches s1 = relaunches s"
    using listener_call_disk [of "on_update_files (update_listener E) files" s] by simp_all
  show thesis
  proof (cases e1)
    case (Some x)
    then show thesis using refused assms l s1 by (auto simp: update_files_def)
  next
    case None
    define r where "r = run_workers E files schedule (start_run E files s1)"
    have c: "(if workers r \<noteq> replicate (length (workers r)) Stopped then None
          else case failure r of
            Some e \<Rightarrow> Some (Some e, shared r)
          | None \<Rightarrow> Some (listener_call (on_done_update (update_listener E)) (shared r))) = Some (e, s')"
      using assms l None unfolding r_def by (simp add: update_files_def Let_def del: length_run_workers)
    then have all: "workers r = replicate (length (workers r)) Stopped" by (simp split: if_splits)
    have "disk s' = disk (shared r) \<and> relaunches s' = relaunches (shared r) \<and>
        (failure r \<noteq> None \<longrightarrow> e = failure r) \<and>
        (failure r = None \<longrightarrow> e = fst (listener_call (on_done_update (update_listener E)) (shared r)))"
    proof (cases "failure r")
      case None
      then have "listener_call (on_done_update (update_listener E)) (shared r) = (e, s')"
        using c by (simp split: if_splits)
      with listener_call_eq [OF this] None show ?thesis by simp
    next
      case (Some x)
      then show ?thesis using c by (simp split: if_splits)
    qed
    note fields = this
    have "\<forall>w \<in> set (workers r). w = Stopped" by (subst all) simp
    then show thesis by (rule ended [OF s1 r_def]) (simp_all add: fields)
  qed
qed


lemma complete_update:
  assumes "update_files E schedule files s = Some (None, s')" and "distinct_places E files"
  shows "\<forall>f \<in> set files. available E (disk s') f"
  using assms(1)
proof (cases rule: update_files_cases)
  case (ended s1 r)
  then have ok: "failure r = None" by (metis option.distinct(1))
  have "run_complete E files r"
    using complete.run_keeps [of E files "disk s1" "start_run E files s1" schedule] assms(2) ended(3)
      start_run_safe start_run_complete by blast
  moreover have len: "0 < length (workers r)"
    using ended(3) by (simp add: get_optimal_concurrent_download_count_def)
  then have "Stopped \<in> set (workers r)" using ended(4) nth_mem by metis
  moreover have "\<not> in_hands i (workers r)" for i using ended(4) by (auto simp: in_hands_def)
  ultimately have "available E (disk (shared r)) (files ! i)" if "i < length files" for i
    using that ok by (fastforce simp: run_complete_def)
  then show ?thesis using ended(5) by (auto simp: in_set_conv_nth)
qed simp


section \<open>The threads end\<close>

fun worker_weight :: "worker \<Rightarrow> nat" where
  "worker_weight Checking = 2"
| "worker_weight Fetching = 1"
| "worker_weight (Beginning i) = 5"
| "worker_weight (Updating i) = 4"
| "worker_weight (Ending i) = 3"
| "worker_weight Stopped = 0"

lemma worker_weight_0: "worker_weight w = 0 \<longleftrightarrow> w = Stopped"
  by (cases w) simp_all

definition run_weight :: "file_info list \<Rightarrow> 'l update_run \<Rightarrow> nat" where
  "run_weight files r = 5 * (length files - current_index r) + sum_list (map worker_weight (workers r))"

lemma sum_list_update_weight:
  "k < length ws \<Longrightarrow> \<exists>rest. sum_list (map worker_weight ws) = rest + worker_weight (ws ! k) \<and>
     (\<forall>w. sum_list (map worker_weight (ws[k := w])) = rest + worker_weight w)"
proof (induction ws arbitrary: k)
  case (Cons v ws)
  show ?case
  proof (cases k)
    case 0
    then show ?thesis by (intro exI [of _ "sum_list (map worker_weight ws)"]) simp
  next
    case (Suc j)
    then have "j < length ws" using Cons.prems by simp
    from Cons.IH [OF this] obtain rest where
      "sum_list (map worker_weight ws) = rest + worker_weight (ws ! j)"
      "\<forall>w. sum_list (map worker_weight (ws[j := w])) = rest + worker_weight w" by blast
    then show ?thesis using Suc by (intro exI [of _ "rest + worker_weight v"]) simp
  qed
qed simp

lemma worker_step_weight:
  assumes "k < length (workers r)" and "workers r ! k \<noteq> Stopped"
  shows "run_weight files (worker_step E files k r) < run_weight files r"
proof -
  obtain rest where "sum_list (map worker_weight (workers r)) = rest + worker_weight (workers r ! k)"
    "\<And>w. sum_list (map worker_weight ((workers r)[k := w])) = rest + worker_weight w"
    using sum_list_update_weight [OF assms(1)] by blast
  then show ?thesis using assms
    by (cases "workers r ! k") (simp_all add: worker_step_def run_weight_def, arith)
qed

lemma worker_step_idle:
  "\<not> (k < length (workers r) \<and> workers r ! k \<noteq> Stopped) \<Longrightarrow> worker_step E files k r = r"
  by (auto simp: worker_step_def)

lemma run_workers_weight:
  "run_weight files (run_workers E files ks r) \<le> run_weight files r"
  "run_weight files (run_workers E files ks r) < run_weight files r \<or>
     run_workers E files ks r = r \<and> (\<forall>k \<in> set ks. k < length (workers r) \<longrightarrow> workers r ! k = Stopped)"
proof (induction ks arbitrary: r)
  case (Cons k ks)
  { case 1 then show ?case
      using Cons(1) [of "worker_step E files k r"] worker_step_weight [of k r files E]
        worker_step_idle [of k r E files] by fastforce }
  { case 2 then show ?case
      using Cons(1,2) [of "worker_step E files k r"] worker_step_weight [of k r files E]
        worker_step_idle [of k r E files] by fastforce }
qed simp_all

lemma run_workers_append: "run_workers E files (ks @ ls) r = run_workers E files ls (run_workers E files ks r)"
  by (induction ks arbitrary: r) simp_all

lemma fair_rounds_end:
  assumes "\<forall>round \<in> set rounds. {..<length (workers r)} \<subseteq> set round" and "run_weight files r \<le> length rounds"
  shows "\<forall>w \<in> set (workers (run_workers E files (concat rounds) r)). w = Stopped"
  using assms
proof (induction rounds arbitrary: r)
  case Nil
  then show ?case by (auto simp: run_weight_def worker_weight_0)
next
  case (Cons ks rounds)
  let ?r = "run_workers E files ks r"
  show ?case
  proof (cases "run_weight files ?r < run_weight files r")
    case True
    then show ?thesis using Cons.IH [of ?r] Cons.prems by (simp add: run_workers_append)
  next
    case False
    with run_workers_weight(2) [of files E ks r] Cons.prems(1)
    have "\<forall>w \<in> set (workers r). w = Stopped" by (auto simp: in_set_conv_nth subset_eq)
    moreover have "worker_step E files k r = r" for k
      using calculation nth_mem by (intro worker_step_idle) blast
    then have "run_workers E files ls r = r" for ls by (induction ls) simp_all
    ultimately show ?thesis by simp
  qed
qed

text \<open>C36: under every schedule in which each thread keeps getting its turn the download returns: after
  \<open>5 * n + 2 * t\<close> rounds, for \<open>n\<close> files and \<open>t\<close> threads, no thread is left running.\<close>

theorem update_files_returns:
  assumes "t = get_optimal_concurrent_download_count (hardware_concurrency E) (length files)"
    and "\<forall>round \<in> set rounds. {..<t} \<subseteq> set round" and "5 * length files + 2 * t \<le> length rounds"
  shows "\<exists>result. update_files E (concat rounds) files s = Some result"
proof -
  obtain e1 s1 where l: "listener_call (on_update_files (update_listener E) files) s = (e1, s1)"
    by (metis surj_pair)
  let ?r = "run_workers E files (concat rounds) (start_run E files s1)"
  have "run_weight files (start_run E files s1) = 5 * length files + 2 * t"
    by (simp add: run_weight_def assms(1) sum_list_replicate)
  then have "\<forall>w \<in> set (workers ?r). w = Stopped"
    using assms by (intro fair_rounds_end) simp_all
  then have "workers ?r = replicate (length (workers ?r)) Stopped"
    by (metis replicate_eqI)
  then show ?thesis using l
    by (cases e1) (simp_all add: update_files_def Let_def split: option.splits)
qed

section \<open>Replacing the executable\<close>

definition plain_path :: "path \<Rightarrow> bool" where
  "plain_path p \<longleftrightarrow> dot \<notin> set p \<and> dotdot \<notin> set p"

lemma full_from_plain: "plain_path p \<Longrightarrow> full_from acc p = acc @ p"
  by (induction p arbitrary: acc) (auto simp: plain_path_def)

lemma full_plain: "plain_path p \<Longrightarrow> full p = p"
  by (simp add: full_def full_from_plain)

lemma plain_take: "plain_path p \<Longrightarrow> plain_path (take n p)" "plain_path p \<Longrightarrow> plain_path (butlast p)"
  by (auto simp: plain_path_def dest: in_set_takeD in_set_butlastD)

lemma old_suffix: "lit ''.exe.old'' = [0x2E, 0x65, 0x78, 0x65, 0x2E, 0x6F, 0x6C, 0x64]"
  by (simp add: lit_def)

lemma dots: "dot = [0x2E]" "dotdot = [0x2E, 0x2E]"
  by (simp_all add: dot_def dotdot_def lit_def)

lemma stem_old: "stem (x @ lit ''.exe.old'') = x @ [0x2E, 0x65, 0x78, 0x65]"
  by (simp add: stem_def old_suffix dots)

lemma dead_process_file_facts:
  assumes "plain_path (process_file E)" and "process_file E \<noteq> []"
  shows "plain_path (dead_process_file E)" "dead_process_file E \<noteq> process_file E"
    "butlast (dead_process_file E) = butlast (process_file E)" "dead_process_file E \<noteq> []"
proof -
  let ?p = "process_file E"
  have d: "dead_process_file E = butlast ?p @ [stem (last ?p) @ lit ''.exe.old'']"
    using assms(2) by (simp add: dead_process_file_def replace_extension_def)
  show "plain_path (dead_process_file E)"
    using plain_take(2) [OF assms(1)] by (simp add: d plain_path_def dots old_suffix)
  show "dead_process_file E \<noteq> ?p"
  proof
    assume "dead_process_file E = ?p"
    then have "last ?p = stem (last ?p) @ lit ''.exe.old''" by (metis d last_snoc)
    then have "stem (last ?p) = stem (last ?p) @ [0x2E, 0x65, 0x78, 0x65]" using stem_old by metis
    then show False by simp
  qed
qed (use assms(2) in \<open>simp_all add: dead_process_file_def replace_extension_def\<close>)

interpretation relaunches: run_invariant E files "\<lambda>r. relaunches (shared r) = n" for E files n
proof unfold_locales
  fix r :: "'a update_run" and k
  assume n: "relaunches (shared r) = n"
  have "relaunches (snd (update_file E f s)) = relaunches s" for f s
    by (cases "update_file E f s" rule: prod.exhaust) (auto elim: update_file_cases)
  with n show "relaunches (shared (worker_step E files k r)) = n"
    by (auto simp: worker_step_def split: worker.splits)
qed

text \<open>
  While only the executable is downloaded: the executable and its renamed copy are untouched,
  or the new executable is written and nothing that can still fail is left to do.
\<close>

definition calm_listener :: "'l listener \<Rightarrow> bool" where
  "calm_listener L \<longleftrightarrow> (\<forall>f l. fst (on_end_file L f l) = None) \<and> (\<forall>l. fst (on_done_update L l) = None)"

definition host_untouched :: "'l updater_env \<Rightarrow> file_system \<Rightarrow> file_system \<Rightarrow> bool" where
  "host_untouched E fs0 fs \<longleftrightarrow>
     (\<forall>q \<in> {process_file E, dead_process_file E, butlast (process_file E)}. node_at fs q = node_at fs0 q)"

definition host_run :: "'l updater_env \<Rightarrow> file_system \<Rightarrow> 'l update_run \<Rightarrow> bool" where
  "host_run E fs0 r \<longleftrightarrow> length (workers r) = 1 \<and>
     (failure r \<noteq> None \<longrightarrow> workers r ! 0 = Stopped) \<and>
     (\<forall>i. workers r ! 0 = Beginning i \<or> workers r ! 0 = Updating i \<longrightarrow> i = 0 \<and> 1 \<le> current_index r) \<and>
     (host_untouched E fs0 (disk (shared r)) \<or>
      failure r = None \<and> 1 \<le> current_index r \<and> (\<forall>i. workers r ! 0 \<noteq> Beginning i \<and> workers r ! 0 \<noteq> Updating i))"

definition host_setting :: "'l updater_env \<Rightarrow> file_system \<Rightarrow> bool" where
  "host_setting E fs \<longleftrightarrow> plain_path (process_file E) \<and> process_file E \<noteq> [] \<and>
     node_at fs (dead_process_file E) \<noteq> None \<and> node_at fs (butlast (process_file E)) = Some Directory"

lemma failed_write_untouched:
  assumes "host_setting E fs0" and "host_untouched E fs0 fs"
    and "io_write_file (process_file E) data False fs = (False, fs')"
  shows "host_untouched E fs0 fs'"
  unfolding host_untouched_def
proof
  fix q
  assume q: "q \<in> {process_file E, dead_process_file E, butlast (process_file E)}"
  have old: "node_at fs q = node_at fs0 q" using assms(2) q unfolding host_untouched_def by (rule bspec)
  let ?p = "process_file E"
  have plain: "plain_path ?p" "?p \<noteq> []" using assms(1) by (simp_all add: host_setting_def)
  have "node_at fs' q = node_at fs q"
  proof (rule ccontr)
    assume "node_at fs' q \<noteq> node_at fs q"
    with write_file_node [OF assms(3), of q] obtain n where none: "node_at fs q = None"
      and n: "full q = full (take n (full (butlast ?p)))"
      by blast
    have "q = ?p" using q none old assms(1) by (auto simp: host_setting_def)
    then have "?p = take n (butlast ?p)"
      using n plain plain_take by (simp add: full_plain)
    then have "length ?p \<le> length ?p - 1"
      by (metis length_butlast length_take min.cobounded1 min.commute)
    then show False using plain by (cases ?p) simp_all
  qed
  with old show "node_at fs' q = node_at fs0 q" by simp
qed

lemma host_run_step:
  assumes setting: "host_setting E fs0" and calm: "calm_listener (update_listener E)"
    and host: "info_name h = host_binary" and inv: "host_run E fs0 r"
  shows "host_run E fs0 (worker_step E [h] k r)"
proof (cases "k = 0")
  case False
  then have "worker_step E [h] k r = r" using inv by (simp add: worker_step_def host_run_def)
  then show ?thesis using inv by simp
next
  case True
  have one: "length (workers r) = 1" using inv by (simp add: host_run_def)
  then obtain w where w: "workers r = [w]" by (cases "workers r") auto
  show ?thesis
  proof (cases w)
    case (Updating i)
    then have i: "i = 0" "1 \<le> current_index r" and ok: "failure r = None"
      and old: "host_untouched E fs0 (disk (shared r))"
      using inv w by (auto simp: host_run_def)
    obtain e s' where u: "update_file E h (shared r) = (e, s')" by (metis surj_pair)
    have place: "get_drive_filename E h = process_file E" using host by (simp add: get_drive_filename_def)
    from u have "e = None \<or> host_untouched E fs0 (disk s')"
    proof (cases rule: update_file_cases)
      case 1
      then show ?thesis using old by simp
    next
      case (2 data ok)
      then show ?thesis using failed_write_untouched [OF setting old] place by (cases ok) auto
    qed
    then show ?thesis using Updating True w i ok u
      by (cases e) (simp_all add: worker_step_def host_run_def)
  next
    case (Ending i)
    then show ?thesis using True w inv calm
      by (auto simp: worker_step_def host_run_def listener_call_def calm_listener_def case_prod_unfold)
  qed (use True w inv in \<open>auto simp: worker_step_def host_run_def\<close>)
qed

interpretation host: run_invariant E "[h]"
    "\<lambda>r. host_setting E fs0 \<and> calm_listener (update_listener E) \<and> info_name h = host_binary \<longrightarrow> host_run E fs0 r"
  for E h fs0
  by unfold_locales (blast intro: host_run_step)

lemma failed_host_download_untouched:
  assumes "update_files E schedule [h] s = Some (Some e, s')" and "info_name h = host_binary"
    and "calm_listener (update_listener E)" and "host_setting E (disk s)"
  shows "host_untouched E (disk s) (disk s')"
  using assms(1)
proof (cases rule: update_files_cases)
  case refused
  then show ?thesis by (simp add: host_untouched_def)
next
  case (ended s1 r)
  have "host_run E (disk s) (start_run E [h] s1)"
    using ended(1) by (simp add: host_run_def host_untouched_def start_run_def
      get_optimal_concurrent_download_count_def)
  then have "host_run E (disk s) r"
    using host.run_keeps [of E "disk s" h "start_run E [h] s1"] assms ended(3) by blast
  moreover have "failure r \<noteq> None"
    using ended(8) assms(3) by (auto simp: calm_listener_def listener_call_def case_prod_unfold)
  ultimately show ?thesis using ended(5) by (simp add: host_run_def)
qed

lemma failed_download_restores:
  assumes "update_files E schedule [host] (move_current_process_file E s) = Some (Some x, s1)"
    and "calm_listener (update_listener E)"
    and "plain_path (process_file E)" and "process_file E \<noteq> []"
    and "node_at (disk s) (process_file E) = Some (File c u)"
    and "node_at (disk s) (butlast (process_file E)) = Some Directory"
    and "info_name host = host_binary"
  shows "node_at (disk (restore_current_process_file E s1)) (process_file E) = Some (File c u)"
proof -
  let ?p = "process_file E" and ?d = "dead_process_file E" and ?s = "move_current_process_file E s"
  note dead = dead_process_file_facts [OF assms(3,4)] and plain = full_plain [OF assms(3)]
  show ?thesis
  proof (cases "node_at (disk s) ?d")
    case None
    from move_file_sibling [OF assms(5) None] dead assms(4,6) full_plain [OF dead(1)] plain
    obtain fs where m: "io_move_file ?p ?d (disk s) = (True, fs)"
      and fs: "node_at fs ?d = Some (File c u)" "node_at fs ?p = None"
        "\<And>q. length (full q) < length ?p \<Longrightarrow> node_at fs q = node_at (disk s) q" by auto
    have short: "length (full (butlast ?p)) < length ?p"
      using full_plain [OF plain_take(2) [OF assms(3)]] assms(4) by (cases ?p) simp_all
    have s2: "disk ?s = fs" using m by (simp add: move_current_process_file_def)
    have "host_setting E (disk ?s)" using assms(3,4,6) fs s2 short by (simp add: host_setting_def)
    with failed_host_download_untouched assms(1,2) assms(7)
    have "host_untouched E (disk ?s) (disk s1)" by blast
    then have s1: "node_at (disk s1) ?p = None" "node_at (disk s1) ?d = Some (File c u)"
      "node_at (disk s1) (butlast ?p) = Some Directory"
      using fs s2 short assms(6) by (simp_all add: host_untouched_def)
    from move_file_sibling [OF s1(2,1)] dead s1(3) full_plain [OF dead(1)] plain assms(4)
    obtain fs' where "io_move_file ?d ?p (disk s1) = (True, fs')" "node_at fs' ?p = Some (File c u)"
      by auto
    then show ?thesis by (simp add: restore_current_process_file_def)
  next
    case (Some n)
    then have s2: "disk ?s = disk s"
      using move_file_blocked [of "disk s" ?p ?d] by (simp add: move_current_process_file_def)
    have "host_setting E (disk ?s)" using assms(3,4,6) Some s2 by (simp add: host_setting_def)
    with failed_host_download_untouched assms(1,2) assms(7)
    have "host_untouched E (disk ?s) (disk s1)" by blast
    then have p: "node_at (disk s1) ?p = Some (File c u)" using s2 assms(5) by (simp add: host_untouched_def)
    then show ?thesis using move_file_blocked [of "disk s1" ?d ?p]
      by (simp add: restore_current_process_file_def)
  qed
qed


section \<open>Cleaning up\<close>

definition plain_disk :: "file_system \<Rightarrow> bool" where
  "plain_disk fs \<longleftrightarrow> (\<forall>q \<in> fst ` set fs. plain_path q)"

lemma map_of_filter_keep: "(\<And>m. P (x, m)) \<Longrightarrow> map_of (filter P fs) x = map_of fs x"
  by (induction fs) auto

lemma remove_all_node:
  assumes "plain_path p" "plain_path q" "\<not> prefix p q"
  shows "node_at (remove_all p fs) q = node_at fs q"
proof -
  have "\<not> (q = p \<or> below p q)"
    using assms full_plain [OF assms(1)] by (auto simp: below_def prefix_def) (metis append_take_drop_id)
  then show ?thesis
    using assms(1,2) by (auto simp: node_at_def remove_all_def full_plain intro!: map_of_filter_keep)
qed

lemma plain_append [simp]: "plain_path (p @ q) \<longleftrightarrow> plain_path p \<and> plain_path q"
  by (auto simp: plain_path_def)

lemma relative_from_append [simp]: "relative_from (p @ q) p = q"
  by (induction p) (auto elim: relative_from.elims)

lemma path_relative_plain:
  "plain_path p \<Longrightarrow> plain_path q \<Longrightarrow> q \<noteq> [] \<Longrightarrow> path_relative (p @ q) p = q"
  by (simp add: path_relative_def full_plain)

text \<open>The root keeps the two folders and everything in them.\<close>

lemma cleanup_root_entries_keeps:
  assumes "\<forall>p \<in> set ps. plain_path p \<and> (\<exists>x. p = base_dir E @ [x])"
    and "plain_path (base_dir E)" and "plain_path (name # r)"
    and "name = lit ''user'' \<or> name = lit ''data''"
    and "node_at fs (base_dir E @ [name]) = Some Directory"
  shows "node_at (cleanup_root_entries E files ps fs) (base_dir E @ name # r) = node_at fs (base_dir E @ name # r)"
  using assms(1,5)
proof (induction ps arbitrary: fs)
  case (Cons p ps)
  then obtain x where p: "p = base_dir E @ [x]" "plain_path p" by auto
  have name: "plain_path [name]" using assms(3) by (simp add: plain_path_def)
  show ?case
  proof (cases "x = name")
    case True
    then have "root_kept E files fs p"
      using Cons.prems(2) assms(2,4) name p
      by (auto simp: root_kept_def path_relative_plain io_directory_exists_def)
    then show ?thesis using Cons by simp
  next
    case False
    then have out: "node_at (remove_all p fs) (base_dir E @ name # s) = node_at fs (base_dir E @ name # s)"
      if "plain_path (name # s)" for s
      using remove_all_node [OF p(2)] assms(2) p(1) that by simp
    show ?thesis using Cons out [OF assms(3)] out [of "[]"] name by simp
  qed
qed simp

lemma children_shape:
  "p \<in> set (children fs base) \<Longrightarrow> plain_disk fs \<Longrightarrow> plain_path base \<Longrightarrow>
     plain_path p \<and> (\<exists>x. p = base @ [x])"
  by (auto simp: children_def plain_disk_def full_plain) (metis append_butlast_last_id)

lemma cleanup_root_directory_keeps:
  assumes "plain_disk fs" and "plain_path (base_dir E)" and "plain_path (name # r)"
    and "name = lit ''user'' \<or> name = lit ''data''"
    and "node_at fs (base_dir E @ [name]) = Some Directory"
  shows "node_at (cleanup_root_directory E files fs) (base_dir E @ name # r) = node_at fs (base_dir E @ name # r)"
  unfolding cleanup_root_directory_def
  using assms children_shape [OF _ assms(1,2)]
  by (intro cleanup_root_entries_keeps) (auto simp: io_list_files_def split: if_splits)

lemma remove_all_plain: "plain_disk fs \<Longrightarrow> plain_disk (remove_all p fs)"
  by (auto simp: plain_disk_def remove_all_def)

lemma cleanup_root_plain: "plain_disk fs \<Longrightarrow> plain_disk (cleanup_root_directory E files fs)"
proof -
  have "plain_disk fs \<Longrightarrow> plain_disk (cleanup_root_entries E files ps fs)" for ps
  proof (induction ps arbitrary: fs)
    case (Cons p ps)
    then show ?case by (simp add: remove_all_plain)
  qed simp
  then show "plain_disk fs \<Longrightarrow> ?thesis" by (simp add: cleanup_root_directory_def)
qed

text \<open>The data folder keeps a listed file and the folders it lies in.\<close>

lemma cleanup_data_entries_keeps:
  assumes "\<forall>p \<in> set ps. plain_path p \<and> length base < length p" and "plain_path l" and "l \<in> set legal"
    and "\<forall>n. length base < n \<and> n < length l \<longrightarrow> node_at fs (take n l) = Some Directory"
    and "node_at fs l = Some (File c u)"
  shows "node_at (cleanup_data_entries legal ps fs) l = Some (File c u)"
  using assms(1,4,5)
proof (induction ps arbitrary: fs)
  case (Cons p ps)
  have p: "plain_path p" "length base < length p" using Cons.prems(1) by simp_all
  show ?case
  proof (cases "prefix p l")
    case True
    have "data_kept legal fs p"
    proof (cases "p = l")
      case True
      then show ?thesis using Cons.prems(3) assms(3)
        by (auto simp: data_kept_def Let_def io_file_exists_def list_ex_iff)
    next
      case False
      with True obtain r where r: "l = p @ r" "r \<noteq> []" by (auto simp: prefix_def)
      then have dir: "node_at fs p = Some Directory" using Cons.prems(2) p(2) by (auto dest: spec [of _ "length p"])
      have "path_relative l p = r" using r assms(2) by (simp add: path_relative_plain)
      moreover have "hd r \<noteq> dotdot" using r assms(2) by (cases r) (auto simp: plain_path_def)
      ultimately have "is_inside_folder l p" using r by (simp add: is_inside_folder_def)
      then show ?thesis using dir assms(3) by (auto simp: data_kept_def Let_def io_directory_exists_def list_ex_iff)
    qed
    then show ?thesis using Cons by simp
  next
    case False
    have "plain_path (take n l)" for n using assms(2) by (rule plain_take)
    moreover have "\<not> prefix p (take n l)" for n using False by (metis take_is_prefix prefix_order.trans)
    ultimately have out: "node_at (remove_all p fs) (take n l) = node_at fs (take n l)" for n
      using remove_all_node [OF p(1)] by blast
    show ?thesis using Cons out out [of "length l"] by simp
  qed
qed simp

lemma data_path: "path_append base (lit ''data'') = base @ [lit ''data'']"
  by (simp add: path_append_def is_absolute_def components_def is_separator_def lit_def)

text \<open>Cleaning up keeps every listed file of the data folder, with its contents, whatever else is on
  the disk, if the folders it lies in exist.\<close>

theorem cleanup_keeps_listed_files:
  assumes "f \<in> set files" and "\<not> is_absolute (info_name f)"
    and "components (info_name f) = lit ''data'' # rest" and "starts_with (info_name f) (lit ''data'')"
    and "plain_disk fs" and "plain_path (base_dir E)" and "plain_path rest" and "rest \<noteq> []"
    and "\<forall>n < length rest. node_at fs (base_dir E @ lit ''data'' # take n rest) = Some Directory"
    and "node_at fs (path_append (base_dir E) (info_name f)) = Some (File c u)"
  shows "node_at (cleanup_directories E files fs) (path_append (base_dir E) (info_name f)) = Some (File c u)"
proof -
  let ?b = "base_dir E @ [lit ''data'']" and ?l = "base_dir E @ lit ''data'' # rest"
  let ?fs = "cleanup_root_directory E files fs"
  have l: "path_append (base_dir E) (info_name f) = ?l"
    using assms(2,3) by (simp add: path_append_def)
  have plain: "plain_path (lit ''data'' # r)" if "plain_path r" for r
    using that by (simp add: plain_path_def dots lit_def)
  have "node_at fs ?b = Some Directory" using assms(8,9) by (metis append_self_conv length_greater_0_conv take0)
  then have root: "node_at ?fs (base_dir E @ lit ''data'' # r) = node_at fs (base_dir E @ lit ''data'' # r)"
    if "plain_path r" for r
    using cleanup_root_directory_keeps [OF assms(5,6) plain [OF that]] by simp
  have kept: "node_at ?fs ?l = Some (File c u)" using root [OF assms(7)] assms(10) l by simp
  have dirs: "\<forall>n. length ?b < n \<and> n < length ?l \<longrightarrow> node_at ?fs (take n ?l) = Some Directory"
  proof (intro allI impI, elim conjE)
    fix n
    assume n: "length ?b < n" "n < length ?l"
    then have "take n ?l = base_dir E @ lit ''data'' # take (n - length ?b) rest"
      by (simp add: take_Cons' )
    then show "node_at ?fs (take n ?l) = Some Directory"
      using root plain_take(1) [OF assms(7)] assms(9) n by simp
  qed
  have legal: "?l \<in> set (legal_files E files)"
    using assms(1,4,6,7) l plain full_plain [of ?l] by (force simp: legal_files_def)
  have "plain_path p \<and> length ?b < length p" if "p \<in> set (io_list_files ?b True ?fs)" for p
    using that cleanup_root_plain [OF assms(5)] assms(6) plain [of "[]"] full_plain [of ?b]
    by (auto simp: io_list_files_def descendants_def plain_disk_def below_def plain_path_def split: if_splits)
  then have "node_at (cleanup_data_entries (legal_files E files) (io_list_files ?b True ?fs) ?fs) ?l = Some (File c u)"
    using assms(6,7) plain legal dirs kept by (intro cleanup_data_entries_keeps [of _ ?b]) simp_all
  then show ?thesis
    using assms(10) l kept by (simp add: cleanup_directories_def cleanup_data_directory_def data_path)
qed

text \<open>Cleaning up does not touch the user folder: every node in it stays as it is.\<close>

theorem cleanup_keeps_user_folder:
  assumes "plain_disk fs" and "plain_path (base_dir E)" and "plain_path r"
    and "node_at fs (base_dir E @ [lit ''user'']) = Some Directory"
  shows "node_at (cleanup_directories E files fs) (base_dir E @ lit ''user'' # r) =
    node_at fs (base_dir E @ lit ''user'' # r)"
proof -
  let ?b = "base_dir E @ [lit ''data'']" and ?q = "base_dir E @ lit ''user'' # r"
  let ?fs = "cleanup_root_directory E files fs"
  have plain: "plain_path (lit ''user'' # r)" "plain_path ?b"
    using assms(2,3) by (simp_all add: plain_path_def dots lit_def)
  have names: "lit ''data'' \<noteq> lit ''user''" by (simp add: lit_def)
  have root: "node_at ?fs ?q = node_at fs ?q"
    using cleanup_root_directory_keeps [OF assms(1,2) plain(1)] assms(4) by simp
  have data: "node_at (cleanup_data_entries legal ps fs') ?q = node_at fs' ?q"
    if "\<forall>p \<in> set ps. plain_path p \<and> prefix ?b p" for legal ps fs'
    using that
  proof (induction ps arbitrary: fs')
    case (Cons p ps)
    then have p: "plain_path p" "prefix ?b p" by simp_all
    have "\<not> prefix p ?q"
    proof
      assume "prefix p ?q"
      with p(2) have "prefix ?b ?q" by (rule prefix_order.trans)
      with names show False by simp
    qed
    then have "node_at (remove_all p fs') ?q = node_at fs' ?q"
      using remove_all_node [OF p(1)] assms(2) plain(1) by simp
    then show ?case using Cons by simp
  qed simp
  have "plain_path p \<and> prefix ?b p" if "p \<in> set (io_list_files ?b True ?fs)" for p
    using that cleanup_root_plain [OF assms(1)] full_plain [OF plain(2)]
    by (auto simp: io_list_files_def descendants_def plain_disk_def below_def split: if_splits)
       (metis take_is_prefix)
  then have "node_at (cleanup_data_entries (legal_files E files) (io_list_files ?b True ?fs) ?fs) ?q = node_at ?fs ?q"
    by (intro data) simp
  then show ?thesis using root
    by (simp add: cleanup_directories_def cleanup_data_directory_def data_path)
qed

section \<open>An example\<close>

definition quiet_listener :: "unit listener" where
  "quiet_listener = \<lparr>on_update_files = (\<lambda>fs l. (None, l)), on_done_update = (\<lambda>l. (None, l)),
     on_begin_file = (\<lambda>f l. (None, l)), on_end_file = (\<lambda>f l. (None, l)),
     on_file_progress = (\<lambda>f n l. (None, l))\<rparr>"

definition demo_updater :: "unit updater_env" where
  "demo_updater = \<lparr>update_curl = demo_curl, parse_json = (\<lambda>d. None), update_lib = toy_lib, nanoseconds = 0,
     hardware_concurrency = 1, ci_release = True, update_listener = quiet_listener,
     while_asleep = (\<lambda>i fs. fs), base_dir = [[0x61]], process_file = [[0x61], [0x70]]\<rparr>"

definition demo_info :: file_info where
  "demo_info = \<lparr>info_name = [0x64], info_size = 3, info_hash = get_hash demo_updater [1, 2, 3]\<rparr>"

definition demo_disk :: "unit updater_state" where
  "demo_disk = \<lparr>listener_state = (), disk = [([[0x61]], Directory), ([[0x61], [0x70]], File [9] True)], relaunches = 0\<rparr>"

lemma demo_download: "get_data demo_curl url [] (Some (\<lambda>n l. (None, l))) 2 () = (Inr (Some [1, 2, 3]), ())"
proof -
  let ?T = "\<lambda>i :: nat. if i = 0
     then \<lparr>events = [Progress 0], curle_ok = False, response_code = 0\<rparr>
     else \<lparr>events = [Progress 1, Received [1, 2], Received [3]], curle_ok = True, response_code = 200\<rparr>"
  have "attempts ?T (Some (\<lambda>n l. (None, l))) url 0 (Suc (Suc (Suc 0))) [] () = (Inr (Some [1, 2, 3]), ())"
    by (simp add: progress_callback_def write_callback_def)
  then have "attempts ?T (Some (\<lambda>n l. (None, l))) url 0 3 [] () = (Inr (Some [1, 2, 3]), ())"
    by (simp only: numeral_3_eq_3)
  then show ?thesis by (simp add: get_data_def perform_request_def demo_curl_def)
qed

lemma demo_place: "get_drive_filename demo_updater demo_info = [[0x61], [0x64]]"
  by (simp add: get_drive_filename_def demo_info_def host_binary_def lit_def demo_updater_def
      path_append_def is_absolute_def components_def is_separator_def)

lemma demo_paths: "full [[0x61], [0x64]] = [[0x61], [0x64]]" "full [[0x61]] = [[0x61]]"
  "full [[0x61], [0x70]] = [[0x61], [0x70]]"
  by (simp_all add: full_def dots)

lemma demo_update_file:
  "\<exists>fs. update_file demo_updater demo_info demo_disk = (None, demo_disk\<lparr>disk := fs\<rparr>)"
proof -
  have "fst (io_write_file [[0x61], [0x64]] [1, 2, 3] False (disk demo_disk))"
    by (simp add: io_write_file_def demo_disk_def io_create_directory_def node_at_def demo_paths Let_def)
  moreover have eq: "demo_disk\<lparr>listener_state := (), disk := fs\<rparr> = demo_disk\<lparr>disk := fs\<rparr>" for fs
    by (simp add: demo_disk_def)
  moreover have "listener_state demo_disk = ()" "update_curl demo_updater = demo_curl"
    "on_file_progress (update_listener demo_updater) demo_info = (\<lambda>n l. (None, l))"
    by (simp_all add: demo_updater_def quiet_listener_def)
  moreover have "unat (info_size demo_info) = 3" "info_hash demo_info = get_hash demo_updater [1, 2, 3]"
    by (simp_all add: demo_info_def)
  ultimately show ?thesis
    by (simp add: update_file_def demo_download demo_place Let_def case_prod_unfold eq) blast
qed

lemma demo_listener [simp]:
  "listener_call (on_update_files (update_listener demo_updater) fs) s = (None, s)"
  "listener_call (on_begin_file (update_listener demo_updater) f) s = (None, s)"
  "listener_call (on_end_file (update_listener demo_updater) f) s = (None, s)"
  "listener_call (on_done_update (update_listener demo_updater)) s = (None, s)"
  by (simp_all add: listener_call_def demo_updater_def quiet_listener_def)

lemma demo_update_files:
  "\<exists>s'. update_files demo_updater [0, 0, 0, 0, 0, 0, 0] [demo_info] demo_disk = Some (None, s')"
proof -
  obtain fs where u: "update_file demo_updater demo_info demo_disk = (None, demo_disk\<lparr>disk := fs\<rparr>)"
    using demo_update_file by blast
  have start: "start_run demo_updater [demo_info] demo_disk =
      \<lparr>workers = [Checking], current_index = 0, failure = None, shared = demo_disk\<rparr>"
    by (simp add: start_run_def get_optimal_concurrent_download_count_def demo_updater_def)
  have "run_workers demo_updater [demo_info] [0, 0, 0, 0, 0, 0, 0] (start_run demo_updater [demo_info] demo_disk) =
      \<lparr>workers = [Stopped], current_index = 2, failure = None, shared = demo_disk\<lparr>disk := fs\<rparr>\<rparr>"
    by (simp add: start worker_step_def set_worker_def worker_call_def u)
  moreover have "hardware_concurrency demo_updater = 1" by (simp add: demo_updater_def)
  ultimately show ?thesis by (simp add: update_files_def Let_def get_optimal_concurrent_download_count_def)
qed



theorem update_files_returns_witness:
  "\<exists>result. update_files demo_updater (concat (replicate 7 [0])) [demo_info] demo_disk = Some result"
  by (rule update_files_returns [OF refl])
     (auto simp: get_optimal_concurrent_download_count_def demo_updater_def)

text \<open>The window refuses the download: the user has cancelled.\<close>

definition cancelled_shell :: shell where
  "cancelled_shell = \<lparr>has_cancelled = (\<lambda>n. True), can_create = (\<lambda>n. True)\<rparr>"

definition demo_ui :: updater_ui where
  "demo_ui = \<lparr>total_files = [], downloaded_files = [], downloading_files = [], progress_ui = new_dialog,
     cancel_queries = 0, dialogs_created = 1\<rparr>"

definition cancelled_updater :: "updater_ui updater_env" where
  "cancelled_updater = \<lparr>update_curl = demo_curl, parse_json = (\<lambda>d. None), update_lib = toy_lib, nanoseconds = 0,
     hardware_concurrency = 1, ci_release = True, update_listener = ui_listener cancelled_shell,
     while_asleep = (\<lambda>i fs. fs), base_dir = [[0x61]], process_file = [[0x61], [0x70]]\<rparr>"

definition cancelled_state :: "updater_ui updater_state" where
  "cancelled_state = \<lparr>listener_state = demo_ui, disk = disk demo_disk, relaunches = 0\<rparr>"

lemma ui_listener_calm: "calm_listener (ui_listener S)"
  by (simp add: calm_listener_def ui_listener_def ui_end_file_def ui_done_update_def Let_def)


text \<open>A disk with a listed file, one that is not listed, and a file of the user.\<close>

definition demo_tree :: file_system where
  "demo_tree = [([[0x61]], Directory), ([[0x61], lit ''data''], Directory),
     ([[0x61], lit ''data'', [0x78]], File [1] False), ([[0x61], lit ''data'', [0x79]], File [2] False),
     ([[0x61], lit ''user''], Directory), ([[0x61], lit ''user'', [0x7A]], File [3] False)]"

definition demo_listed :: file_info where
  "demo_listed = \<lparr>info_name = lit ''data/x'', info_size = 1, info_hash = []\<rparr>"

lemma demo_tree_plain: "plain_disk demo_tree" "plain_path [[0x61]]" "plain_path [[0x78]]" "plain_path [[0x7A]]"
  by (simp_all add: plain_disk_def demo_tree_def plain_path_def dots lit_def)

lemma demo_listed_facts:
  "\<not> is_absolute (info_name demo_listed)" "components (info_name demo_listed) = lit ''data'' # [[0x78]]"
  "starts_with (info_name demo_listed) (lit ''data'')"
  by (simp_all add: demo_listed_def is_absolute_def components_def is_separator_def lit_def starts_with_iff)

lemma demo_tree_nodes:
  "node_at demo_tree ([[0x61]] @ [lit ''data'']) = Some Directory"
  "node_at demo_tree ([[0x61]] @ [lit ''user'']) = Some Directory"
  "node_at demo_tree ([[0x61]] @ lit ''data'' # [[0x78]]) = Some (File [1] False)"
  "node_at demo_tree ([[0x61]] @ lit ''user'' # [[0x7A]]) = Some (File [3] False)"
  by (simp_all add: node_at_def demo_tree_def full_def dots lit_def)

theorem cleanup_keeps_listed_files_witness:
  "node_at (cleanup_directories demo_updater [demo_listed] demo_tree) ([[0x61]] @ lit ''data'' # [[0x78]]) =
     Some (File [1] False)"
proof -
  have base: "base_dir demo_updater = [[0x61]]" by (simp add: demo_updater_def)
  have place: "path_append [[0x61]] (info_name demo_listed) = [[0x61]] @ lit ''data'' # [[0x78]]"
    using demo_listed_facts by (simp add: path_append_def)
  from cleanup_keeps_listed_files [of demo_listed "[demo_listed]" "[[0x78]]" demo_tree demo_updater "[1]" False]
    demo_listed_facts demo_tree_plain demo_tree_nodes base place
  show ?thesis by simp
qed

theorem cleanup_keeps_user_folder_witness:
  "node_at (cleanup_directories demo_updater [demo_listed] demo_tree) ([[0x61]] @ lit ''user'' # [[0x7A]]) =
     Some (File [3] False)"
  using cleanup_keeps_user_folder [of demo_tree demo_updater "[[0x7A]]" "[demo_listed]"] demo_tree_plain demo_tree_nodes
  by (simp add: demo_updater_def)

end
