(* ===== verification/Component_Loader.thy ===== *)
theory Component_Loader
  imports W3m_Prelude "HOL-Library.Multiset"
begin

text \<open>
  The component loader (src/client/loader/component_loader.cpp, component_loader.hpp,
  component_interface.hpp): components register themselves, are kept by descending
  priority, and are taken through three phases. A component is the record of what its
  virtual functions do to the state \<open>'s\<close> of the process; an action gives back the
  exception it ends with, if any.
\<close>

section \<open>Components\<close>

datatype component_priority = Min_priority | Splash_priority | Console_priority
  | Launcher_priority | Steam_proxy_priority | Updater_priority

fun priority_value :: "component_priority \<Rightarrow> int" where
  "priority_value Min_priority = 0"
| "priority_value Splash_priority = 1"
| "priority_value Console_priority = 2"
| "priority_value Launcher_priority = 3"
| "priority_value Steam_proxy_priority = 4"
| "priority_value Updater_priority = 5"

text \<open>Priorities compare as the values of the enumeration.\<close>

instantiation component_priority :: linorder
begin

definition less_eq_component_priority :: "component_priority \<Rightarrow> component_priority \<Rightarrow> bool" where
  "less_eq_component_priority a b \<longleftrightarrow> priority_value a \<le> priority_value b"

definition less_component_priority :: "component_priority \<Rightarrow> component_priority \<Rightarrow> bool" where
  "less_component_priority a b \<longleftrightarrow> priority_value a < priority_value b"

instance
proof
  fix a b :: component_priority
  show "a \<le> b \<Longrightarrow> b \<le> a \<Longrightarrow> a = b"
    by (cases a; cases b; simp add: less_eq_component_priority_def)
qed (auto simp: less_eq_component_priority_def less_component_priority_def)

end

type_synonym 's action = "'s \<Rightarrow> exn option \<times> 's"

record 's component =
  comp_priority :: component_priority
  comp_post_start :: "'s action"
  comp_post_load :: "'s action"
  comp_pre_destroy :: "'s action"
  comp_load_import :: "byte list \<Rightarrow> byte list \<Rightarrow> u64"

text \<open>The virtual functions of the interface that a component does not override.\<close>

definition component_interface :: "'s component" where
  "component_interface = \<lparr>comp_priority = Min_priority, comp_post_start = (\<lambda>s. (None, s)),
     comp_post_load = (\<lambda>s. (None, s)), comp_pre_destroy = (\<lambda>s. (None, s)),
     comp_load_import = (\<lambda>m f. 0)\<rparr>"

definition premature_shutdown_trigger :: exn where
  "premature_shutdown_trigger = Other_exception (lit ''Premature shutdown requested'')"

text \<open>The loader: the components, the results its functions keep, and what it showed and ended.\<close>

record 's loader =
  components :: "'s component list"
  start_handled :: bool
  load_result :: "bool option"
  destroy_result :: "bool option"
  message_boxes :: "exn list"
  process_ended :: bool
  process_state :: 's

definition register_component :: "'s component \<Rightarrow> 's component list \<Rightarrow> 's component list" where
  "register_component c cs = sort_key (\<lambda>x. - priority_value (comp_priority x)) (cs @ [c])"

fun run_phase :: "('s component \<Rightarrow> 's action) \<Rightarrow> 's component list \<Rightarrow> 's action" where
  "run_phase f [] s = (None, s)"
| "run_phase f (c # cs) s =
     (case f c s of (Some e, s') \<Rightarrow> (Some e, s') | (None, s') \<Rightarrow> run_phase f cs s')"

text \<open>\<open>post_start\<close>: only the shutdown trigger is caught, and a second call answers true.\<close>

definition post_start :: "'s loader \<Rightarrow> (exn + bool) \<times> 's loader" where
  "post_start l =
     (if start_handled l then (Inr True, l)
      else case run_phase comp_post_start (components l) (process_state l) of
        (e, s) \<Rightarrow>
          ((case e of
              None \<Rightarrow> Inr True
            | Some x \<Rightarrow> if x = premature_shutdown_trigger then Inr False else Inl x),
           l\<lparr>start_handled := True, process_state := s\<rparr>))"

definition post_load :: "'s loader \<Rightarrow> bool \<times> 's loader" where
  "post_load l =
     (case load_result l of
        Some r \<Rightarrow> (r, l)
      | None \<Rightarrow>
          (case run_phase comp_post_load (components l) (process_state l) of
             (None, s) \<Rightarrow> (True, l\<lparr>load_result := Some True, process_state := s\<rparr>)
           | (Some e, s) \<Rightarrow>
               (False, l\<lparr>load_result := Some False, process_state := s,
                  message_boxes := message_boxes l @ (if e = premature_shutdown_trigger then [] else [e])\<rparr>)))"

definition pre_destroy :: "'s loader \<Rightarrow> 's loader" where
  "pre_destroy l =
     (let l1 = (case destroy_result l of
          Some r \<Rightarrow> l
        | None \<Rightarrow>
            (case run_phase comp_pre_destroy (components l) (process_state l) of
               (None, s) \<Rightarrow> l\<lparr>destroy_result := Some True, process_state := s\<rparr>
             | (Some e, s) \<Rightarrow> l\<lparr>destroy_result := Some False, process_state := s,
                 message_boxes := message_boxes l @ [e]\<rparr>))
      in if destroy_result l1 = Some True then l1 else l1\<lparr>process_ended := True\<rparr>)"

text \<open>\<open>load_import\<close>: the last component that provides the function wins.\<close>

fun load_import_from :: "'s component list \<Rightarrow> byte list \<Rightarrow> byte list \<Rightarrow> u64 \<Rightarrow> u64" where
  "load_import_from [] m f ptr = ptr"
| "load_import_from (c # cs) m f ptr =
     (let p = comp_load_import c m f in load_import_from cs m f (if p \<noteq> 0 then p else ptr))"

definition load_import :: "'s loader \<Rightarrow> byte list \<Rightarrow> byte list \<Rightarrow> u64" where
  "load_import l m f = load_import_from (components l) m f 0"

section \<open>Properties\<close>

abbreviation descending :: "'s component \<Rightarrow> int" where
  "descending c \<equiv> - priority_value (comp_priority c)"

lemma sort_key_sort_append: "sort_key f (sort_key f xs @ ys) = sort_key f (xs @ ys)"
proof -
  have "filter (\<lambda>y. f k = f y) (sort_key f zs) = filter (\<lambda>y. f k = f y) zs" for k zs
  proof -
    have "(\<lambda>y. f k = f y) = (\<lambda>y. f y = f k)" by auto
    then show ?thesis using sort_key_stable [of f "f k" zs] by (simp only:)
  qed
  then show ?thesis by (intro properties_for_sort_key) simp_all
qed

text \<open>However the components come to register themselves, the loader holds them by descending
  priority, those of one priority in the order of their registration.\<close>

theorem registration_sorts_by_priority:
  "fold register_component cs [] = sort_key descending cs"
proof (induction cs rule: rev_induct)
  case (snoc c cs)
  then show ?case by (simp add: register_component_def sort_key_sort_append)
qed simp

lemma registered_order:
  "sorted_wrt (\<lambda>c d. comp_priority d \<le> comp_priority c) (fold register_component cs [])"
  "filter (\<lambda>c. descending c = k) (fold register_component cs []) = filter (\<lambda>c. descending c = k) cs"
  using sorted_sort_key [of descending cs]
  by (simp_all add: registration_sorts_by_priority sort_key_stable sorted_map less_eq_component_priority_def)

text \<open>A phase runs the components in their order up to the first that throws.\<close>

lemma run_phase_append:
  "run_phase f (cs @ ds) s =
     (case run_phase f cs s of (Some e, s') \<Rightarrow> (Some e, s') | (None, s') \<Rightarrow> run_phase f ds s')"
  by (induction cs arbitrary: s) (auto split: prod.splits option.splits)

text \<open>Every phase happens at most once: asking again changes nothing and gives the kept answer.\<close>

lemma phases_once:
  "post_start l = (r, l') \<Longrightarrow> post_start l' = (Inr True, l')"
  "post_load l = (b, l') \<Longrightarrow> post_load l' = (b, l')"
  "destroy_result (pre_destroy l) = Some True \<Longrightarrow> pre_destroy (pre_destroy l) = pre_destroy l"
  by (auto simp: post_start_def post_load_def pre_destroy_def Let_def
      split: if_splits prod.splits option.splits)

text \<open>A start that a component stopped is reported as stopped once, and as successful from then on.\<close>

theorem stopped_start_is_forgotten:
  assumes "post_start l = (Inr False, l')"
  shows "post_start l' = (Inr True, l')"
  using phases_once(1) [OF assms] .

lemma load_import_last:
  "load_import_from cs m f ptr =
     (case filter (\<lambda>p. p \<noteq> 0) (map (\<lambda>c. comp_load_import c m f) cs) of [] \<Rightarrow> ptr | ps \<Rightarrow> last ps)"
  by (induction cs arbitrary: ptr) (auto simp: Let_def split: list.splits)

end
