(* ===== verification/Pe_Image.thy ===== *)
theory Pe_Image
  imports Hook String_Utils
begin

text \<open>
  \<open>utils::nt::library\<close> (src/common/utils/nt.cpp, nt.hpp) and \<open>hook::iat\<close> (hook.cpp): a module
  of the process, seen through the headers of its image in memory, its import table, and
  the patch of an entry of that table. A module is its base address. What the system
  answers (\<open>GetModuleHandleA\<close>, \<open>GetProcAddress\<close>, \<open>GetModuleFileNameW\<close>) is the record
  \<open>system\<close>; reads follow the layout of a 64-bit image. Walking a table that has no end
  never returns (\<open>None\<close>).
\<close>

section \<open>Reading memory\<close>

definition read16 :: "addr \<Rightarrow> code \<Rightarrow> u16" where "read16 p c = bytes_u16 (fetch 2 p c)"
definition read32 :: "addr \<Rightarrow> code \<Rightarrow> u32" where "read32 p c = bytes_u32 (fetch 4 p c)"
definition read64 :: "addr \<Rightarrow> code \<Rightarrow> u64" where "read64 p c = bytes_u64 (fetch 8 p c)"

text \<open>A C string; \<open>None\<close> when no address holds a terminator.\<close>

partial_function (option) cstr :: "addr \<Rightarrow> code \<Rightarrow> byte list option" where
  "cstr p c = (if c p = 0 then Some []
     else Option.bind (cstr (p + 1) c) (\<lambda>s. Some (c p # s)))"

section \<open>The headers\<close>

datatype procedure_name = By_name "byte list" | By_ordinal u16

record system =
  module_handle :: "byte list \<Rightarrow> addr"
  proc_address :: "addr \<Rightarrow> procedure_name \<Rightarrow> addr"
  module_file_name :: "addr \<Rightarrow> byte list"

definition IMAGE_DOS_SIGNATURE :: u16 where "IMAGE_DOS_SIGNATURE = 0x5A4D"

definition lib_is_valid :: "addr \<Rightarrow> code \<Rightarrow> bool" where
  "lib_is_valid m c \<longleftrightarrow> m \<noteq> 0 \<and> read16 m c = IMAGE_DOS_SIGNATURE"

definition get_nt_headers :: "addr \<Rightarrow> code \<Rightarrow> addr" where
  "get_nt_headers m c = (if \<not> lib_is_valid m c then 0 else m + scast (read32 (m + 0x3C) c))"

definition get_optional_header :: "addr \<Rightarrow> code \<Rightarrow> addr" where
  "get_optional_header m c = (if \<not> lib_is_valid m c then 0 else get_nt_headers m c + 24)"

text \<open>An entry of the data directory: the address and the size of a table.\<close>

definition directory_address :: "nat \<Rightarrow> addr \<Rightarrow> code \<Rightarrow> u32" where
  "directory_address i header c = read32 (header + 112 + 8 * of_nat i) c"

definition directory_size :: "nat \<Rightarrow> addr \<Rightarrow> code \<Rightarrow> u32" where
  "directory_size i header c = read32 (header + 116 + 8 * of_nat i) c"

definition get_relative_entry_point :: "addr \<Rightarrow> code \<Rightarrow> u64" where
  "get_relative_entry_point m c =
     (if \<not> lib_is_valid m c then 0 else ucast (read32 (get_nt_headers m c + 24 + 16) c))"

definition get_entry_point :: "addr \<Rightarrow> code \<Rightarrow> addr" where
  "get_entry_point m c = (if \<not> lib_is_valid m c then 0 else m + get_relative_entry_point m c)"

text \<open>The range that \<open>unprotect\<close> makes writable.\<close>

definition unprotect :: "addr \<Rightarrow> code \<Rightarrow> (addr \<times> u32) option" where
  "unprotect m c = (if \<not> lib_is_valid m c then None
     else Some (m, read32 (get_optional_header m c + 56) c))"

text \<open>
  \<open>get_section_headers\<close> does not ask whether the module is valid: the headers of an invalid one
  are at the null pointer.
\<close>

fun section_loop :: "nat \<Rightarrow> addr \<Rightarrow> addr list" where
  "section_loop 0 sec = []"
| "section_loop (Suc n) sec = (if sec \<noteq> 0 then [sec] else []) @ section_loop n (sec + 40)"

definition get_section_headers :: "addr \<Rightarrow> code \<Rightarrow> exn + addr list" where
  "get_section_headers m c =
     (let nt = get_nt_headers m c in
      if nt = 0 then Inl Undefined_behaviour
      else let first = nt + 24 + ucast (read16 (nt + 20) c) in
        Inr (section_loop (unat (read16 (nt + 6) c)) first))"

definition is_slash :: "byte \<Rightarrow> bool" where "is_slash b \<longleftrightarrow> b = 0x2F \<or> b = 0x5C"

definition get_path :: "system \<Rightarrow> addr \<Rightarrow> code \<Rightarrow> byte list" where
  "get_path sys m c = (if \<not> lib_is_valid m c then [] else module_file_name sys m)"

definition get_name :: "system \<Rightarrow> addr \<Rightarrow> code \<Rightarrow> byte list" where
  "get_name sys m c =
     (if \<not> lib_is_valid m c then []
      else rev (takeWhile (\<lambda>b. \<not> is_slash b) (rev (get_path sys m c))))"

text \<open>\<open>free\<close>: whether the library is released, and the handle that is left.\<close>

definition lib_free :: "addr \<Rightarrow> code \<Rightarrow> bool \<times> addr" where
  "lib_free m c = (if lib_is_valid m c then (True, 0) else (False, m))"

text \<open>
  \<open>get_proc\<close>: the test of the handle has no \<open>return\<close>, so that \<open>GetProcAddress\<close> is asked in
  either case. A name ends at its first zero byte.
\<close>

definition c_name :: "byte list \<Rightarrow> byte list" where "c_name s = takeWhile (\<lambda>b. b \<noteq> 0) s"

definition get_proc :: "system \<Rightarrow> addr \<Rightarrow> byte list \<Rightarrow> addr" where
  "get_proc sys m process = proc_address sys m (By_name (c_name process))"

text \<open>\<open>get\<close> and \<open>invoke\<close> test the handle; an empty function is \<open>None\<close>.\<close>

definition get_function :: "system \<Rightarrow> addr \<Rightarrow> code \<Rightarrow> byte list \<Rightarrow> addr option" where
  "get_function sys m c process =
     (if \<not> lib_is_valid m c then None
      else let p = get_proc sys m process in if p = 0 then None else Some p)"

definition lib_invoke ::
    "(addr \<Rightarrow> 'args \<Rightarrow> 'w \<Rightarrow> u64 \<times> 'w) \<Rightarrow> system \<Rightarrow> addr \<Rightarrow> code \<Rightarrow> byte list \<Rightarrow> 'args \<Rightarrow> 'w \<Rightarrow> u64 \<times> 'w"
  where
  "lib_invoke call sys m c process args w =
     (case get_function sys m c process of Some f \<Rightarrow> call f args w | None \<Rightarrow> (0, w))"

section \<open>The import table\<close>

definition stricmp_equal :: "byte list \<Rightarrow> byte list \<Rightarrow> bool" where
  "stricmp_equal a b \<longleftrightarrow> to_lower a = to_lower b"

text \<open>The thunks of one descriptor, up to the first that fits or the end of the table.\<close>

partial_function (option) thunk_loop ::
    "system \<Rightarrow> code \<Rightarrow> addr \<Rightarrow> addr \<Rightarrow> addr \<Rightarrow> addr \<Rightarrow> addr option option" where
  "thunk_loop sys c other target original thunk =
     (if read64 original c = 0 then Some None
      else if read64 thunk c = target then Some (Some thunk)
      else let ordinal_number = read64 original c AND 0xFFFFFFF in
        if ordinal_number \<le> 0xFFFF \<and> proc_address sys other (By_ordinal (ucast ordinal_number)) = target
        then Some (Some thunk)
        else thunk_loop sys c other target (original + 8) (thunk + 8))"

partial_function (option) descriptor_loop ::
    "system \<Rightarrow> code \<Rightarrow> addr \<Rightarrow> byte list \<Rightarrow> addr \<Rightarrow> addr \<Rightarrow> addr \<Rightarrow> addr option option" where
  "descriptor_loop sys c m name other target descriptor =
     (if read32 (descriptor + 12) c = 0 then Some None
      else Option.bind (cstr (m + ucast (read32 (descriptor + 12) c)) c) (\<lambda>import_name.
        Option.bind
          (if stricmp_equal import_name name
           then thunk_loop sys c other target (ucast (read32 descriptor c) + m)
                  (ucast (read32 (descriptor + 16) c) + m)
           else Some None)
          (\<lambda>found. case found of
             Some p \<Rightarrow> Some (Some p)
           | None \<Rightarrow> descriptor_loop sys c m name other target (descriptor + 20))))"

definition get_iat_entry ::
    "system \<Rightarrow> addr \<Rightarrow> byte list \<Rightarrow> byte list \<Rightarrow> code \<Rightarrow> addr option option" where
  "get_iat_entry sys m module_name proc_name c =
     (if \<not> lib_is_valid m c then Some None
      else let other = module_handle sys (c_name module_name) in
        if \<not> lib_is_valid other c then Some None
        else let target = get_proc sys other proc_name in
          if target = 0 then Some None
          else let header = get_optional_header m c in
            if header = 0 then Some None
            else descriptor_loop sys c m (c_name module_name) other target
                   (m + ucast (directory_address 1 header c)))"

text \<open>\<open>hook::iat\<close>: the entry and what it held, with the entry set to the stub.\<close>

definition hook_iat ::
    "system \<Rightarrow> addr \<Rightarrow> byte list \<Rightarrow> byte list \<Rightarrow> addr \<Rightarrow> code \<Rightarrow> ((addr \<times> addr) option \<times> code) option" where
  "hook_iat sys m target_library process stub c =
     (if \<not> lib_is_valid m c then Some (None, c)
      else Option.bind (get_iat_entry sys m target_library process c) (\<lambda>entry. case entry of
          None \<Rightarrow> Some (None, c)
        | Some ptr \<Rightarrow> if ptr = 0 then Some (None, c)
            else Some (Some (ptr, read64 ptr c), hook_copy ptr (u64_bytes stub) c)))"

section \<open>Reads and patches\<close>

lemma copy_fetch_restores:
  assumes "length bs < 2 ^ 64"
  shows "hook_copy p (fetch (length bs) p c) (hook_copy p bs c) = c"
proof
  fix a
  show "hook_copy p (fetch (length bs) p c) (hook_copy p bs c) a = c a"
  proof (cases "unat (a - p) < length bs")
    case True
    have "p + of_nat (unat (a - p)) = a" by simp
    with True show ?thesis by (simp add: hook_copy_def fetch_def)
  qed (simp add: hook_copy_def)
qed

lemma read64_patch [mem_simps]: "read64 p (hook_copy p (u64_bytes v) c) = v"
  using fetch_copy [of 0 8 "u64_bytes v" p c] by (simp add: read64_def)

lemma u64_bytes_read64 [mem_simps]: "u64_bytes (read64 p c) = fetch 8 p c"
  by (simp add: read64_def u64_bytes_bytes_u64)

lemma restore64: "hook_copy p (u64_bytes (read64 p c)) (hook_copy p (u64_bytes v) c) = c"
  using copy_fetch_restores [of "u64_bytes v" p c] by (simp add: mem_simps)

section \<open>The import table as a list\<close>

text \<open>A thunk: what names the import, the slot its address is kept in, and that address.\<close>

inductive thunks_at :: "code \<Rightarrow> addr \<Rightarrow> addr \<Rightarrow> (u64 \<times> addr \<times> addr) list \<Rightarrow> bool"
  for c where
  thunks_end: "read64 original c = 0 \<Longrightarrow> thunks_at c original thunk []"
| thunks_next: "read64 original c \<noteq> 0 \<Longrightarrow> thunks_at c (original + 8) (thunk + 8) ts \<Longrightarrow>
    thunks_at c original thunk ((read64 original c, thunk, read64 thunk c) # ts)"

inductive imports_at :: "code \<Rightarrow> addr \<Rightarrow> addr \<Rightarrow> (byte list \<times> (u64 \<times> addr \<times> addr) list) list \<Rightarrow> bool"
  for c m where
  imports_end: "read32 (descriptor + 12) c = 0 \<Longrightarrow> imports_at c m descriptor []"
| imports_next: "read32 (descriptor + 12) c \<noteq> 0 \<Longrightarrow>
    cstr (m + ucast (read32 (descriptor + 12) c)) c = Some name \<Longrightarrow>
    thunks_at c (ucast (read32 descriptor c) + m) (ucast (read32 (descriptor + 16) c) + m) ts \<Longrightarrow>
    imports_at c m (descriptor + 20) ds \<Longrightarrow>
    imports_at c m descriptor ((name, ts) # ds)"

definition thunk_fits :: "system \<Rightarrow> addr \<Rightarrow> addr \<Rightarrow> u64 \<times> addr \<times> addr \<Rightarrow> bool" where
  "thunk_fits sys other target = (\<lambda>(original, slot, bound). bound = target \<or>
     (original AND 0xFFFFFFF \<le> 0xFFFF \<and>
      proc_address sys other (By_ordinal (ucast (original AND 0xFFFFFFF))) = target))"

definition thunk_slot :: "u64 \<times> addr \<times> addr \<Rightarrow> addr" where "thunk_slot t = fst (snd t)"

definition imports_from :: "byte list \<Rightarrow> (byte list \<times> (u64 \<times> addr \<times> addr) list) list \<Rightarrow> (u64 \<times> addr \<times> addr) list"
  where "imports_from name ds = concat (map snd (filter (\<lambda>d. stricmp_equal (fst d) name) ds))"

lemma thunk_fits_simp:
  "thunk_fits sys other target (original, slot, bound) \<longleftrightarrow> bound = target \<or>
     (original AND 0xFFFFFFF \<le> 0xFFFF \<and>
      proc_address sys other (By_ordinal (ucast (original AND 0xFFFFFFF))) = target)"
  by (simp add: thunk_fits_def)

lemma thunk_slot_simp [simp]: "thunk_slot (original, slot, bound) = slot"
  by (simp add: thunk_slot_def)

lemma thunk_loop_finds:
  "thunks_at c original thunk ts \<Longrightarrow>
   thunk_loop sys c other target original thunk =
     Some (map_option thunk_slot (List.find (thunk_fits sys other target) ts))"
proof (induction rule: thunks_at.induct)
  case (thunks_next original thunk ts)
  then show ?case
    by (subst thunk_loop.simps) (auto simp: thunk_fits_simp Let_def)
qed (subst thunk_loop.simps, simp)

lemma find_append: "List.find P (xs @ ys) = (case List.find P xs of None \<Rightarrow> List.find P ys | Some x \<Rightarrow> Some x)"
  by (induction xs) simp_all

lemma descriptor_loop_finds:
  "imports_at c m descriptor ds \<Longrightarrow>
   descriptor_loop sys c m name other target descriptor =
     Some (map_option thunk_slot (List.find (thunk_fits sys other target) (imports_from name ds)))"
proof (induction rule: imports_at.induct)
  case (imports_next descriptor import_name ts ds)
  then show ?case
    by (subst descriptor_loop.simps)
      (simp add: imports_from_def thunk_loop_finds find_append split: option.splits)
qed (subst descriptor_loop.simps, simp add: imports_from_def)

definition exports :: "system \<Rightarrow> byte list \<Rightarrow> byte list \<Rightarrow> code \<Rightarrow> bool" where
  "exports sys module_name proc_name c \<longleftrightarrow>
     lib_is_valid (module_handle sys (c_name module_name)) c \<and>
     get_proc sys (module_handle sys (c_name module_name)) proc_name \<noteq> 0"

definition import_directory :: "addr \<Rightarrow> code \<Rightarrow> addr" where
  "import_directory m c = m + ucast (directory_address 1 (get_optional_header m c) c)"

text \<open>
  The loops over an import table that is there give the first entry, in the order of the
  table, of the descriptors with the wanted library's name, that holds the procedure's
  address or names it by its ordinal; when the library or the procedure does not exist, or
  no entry fits, the result is the null pointer.
\<close>

theorem iat_entry_is_first_match:
  assumes "lib_is_valid m c" and "get_optional_header m c \<noteq> 0"
    and "imports_at c m (import_directory m c) ds"
  shows "get_iat_entry sys m module_name proc_name c = Some
    (if exports sys module_name proc_name c then
       let other = module_handle sys (c_name module_name) in
       map_option thunk_slot (List.find (thunk_fits sys other (get_proc sys other proc_name))
         (imports_from (c_name module_name) ds))
     else None)"
  using assms by (simp add: get_iat_entry_def exports_def Let_def import_directory_def
      descriptor_loop_finds)

text \<open>A patched entry holds the stub, the result says what it held, and writing that back
  restores the memory; when nothing is patched the memory is the same.\<close>

theorem iat_patch_is_reversible:
  assumes "hook_iat sys m lib process stub c = Some (r, c')"
  shows "case r of None \<Rightarrow> c' = c
    | Some (ptr, original) \<Rightarrow> read64 ptr c = original \<and> read64 ptr c' = stub \<and>
        (\<forall>q. apart q 1 ptr 8 \<longrightarrow> c' q = c q) \<and> hook_copy ptr (u64_bytes original) c' = c"
proof (cases r)
  case None
  with assms show ?thesis
    by (auto simp: hook_iat_def bind_eq_Some_conv split: if_splits option.splits)
next
  case (Some x)
  then obtain ptr original where r: "r = Some (ptr, original)" by (cases x) auto
  with assms have "original = read64 ptr c" "c' = hook_copy ptr (u64_bytes stub) c"
    by (auto simp: hook_iat_def bind_eq_Some_conv split: if_splits option.splits)
  with r show ?thesis using copy_apart [of _ 1 ptr "u64_bytes stub" 0 c]
    by (simp add: read64_patch restore64)
qed

section \<open>An image\<close>

text \<open>Which bytes a read sees after a patch, by the distance between the two.\<close>

lemma far_apart:
  assumes "n \<le> unat (q - p)" and "m \<le> unat (p - q)"
  shows "apart p n q m"
  unfolding apart_def
proof (intro allI impI notI)
  fix i j
  assume i: "i < n" and j: "j < m" and eq: "p + of_nat i = q + of_nat j"
  have small: "n < 2 ^ 64" "m < 2 ^ 64"
    using assms unsigned_less [where ?'a = nat and w = "q - p"] unsigned_less [where ?'a = nat and w = "p - q"]
    by simp_all
  show False
  proof (cases "i \<le> j")
    case True
    with eq have "p - q = of_nat (j - i)" by (simp add: algebra_simps of_nat_diff)
    moreover have "j - i < 2 ^ 64" using j small by simp
    ultimately have "unat (p - q) = j - i" by (simp add: unat_of_nat)
    with assms(2) j show False by simp
  next
    case False
    with eq have "q - p = of_nat (i - j)" by (simp add: algebra_simps of_nat_diff)
    moreover have "i - j < 2 ^ 64" using i small by simp
    ultimately have "unat (q - p) = i - j" by (simp add: unat_of_nat)
    with assms(1) i show False by simp
  qed
qed

lemma fetch_apart: "apart p n q (length bs) \<Longrightarrow> fetch n p (hook_copy q bs c) = fetch n p c"
  by (simp add: fetch_def copy_apart)

lemma fetch_patch_same: "length bs = n \<Longrightarrow> n < 2 ^ 64 \<Longrightarrow> fetch n p (hook_copy p bs c) = bs"
  using fetch_copy [of 0 n bs p c] by simp

lemma fetch_patch_apart:
  "n \<le> unat (q - p) \<Longrightarrow> length bs \<le> unat (p - q) \<Longrightarrow> fetch n p (hook_copy q bs c) = fetch n p c"
  by (rule fetch_apart) (rule far_apart)

lemma fetch_zeros: "fetch n p (\<lambda>a. 0) = replicate n 0"
  by (simp add: fetch_def map_replicate_trivial)

lemma le_nat_zeros: "le_nat (replicate n 0) = 0"
  by (induction n) simp_all

text \<open>A memory given by its patches, from the first to the last.\<close>

fun patched :: "(addr \<times> byte list) list \<Rightarrow> code" where
  "patched [] = (\<lambda>a. 0)"
| "patched ((p, bs) # ps) = hook_copy p bs (patched ps)"

text \<open>
  A module at \<open>0x10000\<close> with one descriptor: the library \<open>a\<close>, whose two thunks are an ordinal
  and a name. The library is at \<open>0x20000\<close>. Every other byte is zero.
\<close>

definition demo_image :: code where
  "demo_image = patched
     [(0x10000, [0x4D, 0x5A]), (0x1003C, [0x40, 0, 0, 0]), (0x100D0, [0, 2, 0, 0]),
      (0x10200, [0x40, 2, 0, 0]), (0x1020C, [0xA0, 2, 0, 0]), (0x10210, [0x80, 2, 0, 0]),
      (0x10240, [5, 0, 0, 0, 0, 0, 0, 0x80]), (0x10248, [0, 3, 0, 0, 0, 0, 0, 0]),
      (0x10288, [0, 5, 2, 0, 0, 0, 0, 0]), (0x102A0, [0x41]), (0x10302, [0x66]),
      (0x20000, [0x4D, 0x5A])]"

definition demo_system :: system where
  "demo_system = \<lparr>module_handle = (\<lambda>name. if to_lower name = lit ''a'' then 0x20000 else 0),
     proc_address = (\<lambda>m p. if p = By_name (lit ''f'') then 0x20500
        else if p = By_ordinal 5 then 0x20600 else 0),
     module_file_name = (\<lambda>m. lit ''C:/game/witcher3.exe'')\<rparr>"

lemmas demo_read = read16_def read32_def read64_def demo_image_def fetch_patch_same
  fetch_patch_apart fetch_zeros le_nat_zeros bytes_u16_def bytes_u32_def bytes_u64_def

lemma demo_reads:
  "read16 0x10000 demo_image = 0x5A4D" "read16 0x20000 demo_image = 0x5A4D"
  "read32 0x1003C demo_image = 0x40" "read32 0x100D0 demo_image = 0x200"
  "read32 0x10200 demo_image = 0x240" "read32 0x1020C demo_image = 0x2A0"
  "read32 0x10210 demo_image = 0x280" "read32 0x10220 demo_image = 0"
  "read64 0x10240 demo_image = 0x8000000000000005" "read64 0x10248 demo_image = 0x300"
  "read64 0x10250 demo_image = 0" "read64 0x10280 demo_image = 0" "read64 0x10288 demo_image = 0x20500"
  by (simp_all add: demo_read)

lemma demo_name: "cstr 0x102A0 demo_image = Some (lit ''A'')"
proof -
  have "demo_image 0x102A0 = 0x41" "demo_image 0x102A1 = 0"
    by (simp_all add: demo_image_def hook_copy_def)
  then show ?thesis
    by (subst cstr.simps, subst cstr.simps) (simp add: lit_def)
qed

lemma demo_valid: "lib_is_valid 0x10000 demo_image" "lib_is_valid 0x20000 demo_image"
  by (simp_all add: lib_is_valid_def IMAGE_DOS_SIGNATURE_def demo_reads)

lemma demo_headers: "get_optional_header 0x10000 demo_image = 0x10058"
    "import_directory 0x10000 demo_image = 0x10200"
  by (simp_all add: get_optional_header_def get_nt_headers_def demo_valid demo_reads
      import_directory_def directory_address_def)

definition demo_thunks :: "(u64 \<times> addr \<times> addr) list" where
  "demo_thunks = [(0x8000000000000005, 0x10280, 0), (0x300, 0x10288, 0x20500)]"

lemma demo_imports: "imports_at demo_image 0x10000 0x10200 [(lit ''A'', demo_thunks)]"
proof -
  have "thunks_at demo_image 0x10250 0x10290 []"
    by (rule thunks_end) (simp add: demo_reads)
  then have "thunks_at demo_image 0x10248 0x10288 [(0x300, 0x10288, 0x20500)]"
    using thunks_next [where original = "0x10248" and c = demo_image and thunk = "0x10288" and ts = "[]"] by (simp add: demo_reads)
  then have "thunks_at demo_image 0x10240 0x10280 demo_thunks"
    using thunks_next [where original = "0x10240" and c = demo_image and thunk = "0x10280" and
        ts = "[(0x300, 0x10288, 0x20500)]"]
    by (simp add: demo_reads demo_thunks_def)
  moreover have "imports_at demo_image 0x10000 0x10214 []"
    by (rule imports_end) (simp add: demo_reads)
  ultimately show ?thesis
    using imports_next [where descriptor = "0x10200" and c = demo_image and m = "0x10000" and
        name = "lit ''A''" and ts = demo_thunks and ds = "[]"]
    by (simp add: demo_reads demo_name)
qed

theorem iat_entry_is_first_match_witness:
  "get_iat_entry demo_system 0x10000 (lit ''a'') (lit ''f'') demo_image = Some (Some 0x10288)"
proof -
  have "imports_at demo_image 0x10000 (import_directory 0x10000 demo_image) [(lit ''A'', demo_thunks)]"
    using demo_imports by (simp add: demo_headers)
  from iat_entry_is_first_match [OF demo_valid(1) _ this, of demo_system "lit ''a''" "lit ''f''"]
  show ?thesis
    by (simp add: demo_headers exports_def demo_system_def c_name_def get_proc_def demo_valid
        lit_def to_lower_def tolower_def is_upper_def imports_from_def stricmp_equal_def
        demo_thunks_def thunk_fits_def)
qed

lemma demo_entry:
  "get_iat_entry demo_system 0x10000 (lit ''a'') (lit ''f'') demo_image = Some (Some 0x10288)"
  using descriptor_loop_finds [OF demo_imports, of demo_system "lit ''a''" "0x20000" "0x20500"]
    demo_headers(2)
  by (simp add: get_iat_entry_def demo_valid demo_headers(1) import_directory_def demo_system_def
      c_name_def get_proc_def lit_def to_lower_def tolower_def is_upper_def imports_from_def
      stricmp_equal_def demo_thunks_def thunk_fits_def)

theorem iat_patch_is_reversible_witness:
  "\<exists>c'. hook_iat demo_system 0x10000 (lit ''a'') (lit ''f'') 0x30000 demo_image =
       Some (Some (0x10288, 0x20500), c') \<and>
     read64 0x10288 c' = 0x30000 \<and> hook_copy 0x10288 (u64_bytes 0x20500) c' = demo_image"
proof -
  have *: "hook_iat demo_system 0x10000 (lit ''a'') (lit ''f'') 0x30000 demo_image =
      Some (Some (0x10288, 0x20500), hook_copy 0x10288 (u64_bytes 0x30000) demo_image)"
    by (simp add: hook_iat_def demo_valid demo_entry demo_reads)
  from iat_patch_is_reversible [OF this] show ?thesis using * by simp
qed

end
