(* ===== verification/Loader.thy ===== *)
theory Loader
  imports Pe_Image
begin

text \<open>
  The loader of the game's executable (src/client/loader/loader.cpp): the module is mapped by
  the system, its addresses are relocated where the system is Wine, its imports are resolved
  (a component may replace any of them) and its thread-local data is joined to that of the
  main module. A module the system maps is part of the memory the model starts with, so
  \<open>LoadLibraryW\<close> is a function from names to base addresses. An exception ends the start
  of the program, so the memory it leaves is not kept.
\<close>

section \<open>Model\<close>

record loader_system = system +
  load_library :: "byte list \<Rightarrow> addr"
  is_wine :: bool
  tls_vector :: addr
  process_block :: addr

type_synonym resolver = "byte list \<Rightarrow> byte list \<Rightarrow> addr"

section \<open>Imports\<close>

text \<open>The name an import is asked for by, and how the system is asked for it.\<close>

definition import_name :: "addr \<Rightarrow> u64 \<Rightarrow> code \<Rightarrow> (byte list \<times> procedure_name) option" where
  "import_name m entry c =
     (if bit entry 63 then
        Some (lit ''#'' @ decimal (unat (entry AND 0xFFFF)), By_ordinal (ucast (entry AND 0xFFFF)))
      else Option.bind (cstr (m + entry + 2) c) (\<lambda>s. Some (s, By_name s)))"

definition find_function ::
    "loader_system \<Rightarrow> resolver \<Rightarrow> byte list \<Rightarrow> byte list \<Rightarrow> procedure_name \<Rightarrow> code \<Rightarrow> addr" where
  "find_function sys resolver name function_name proc c =
     (let library = load_library sys name;
          function = (if lib_is_valid library c then proc_address sys library proc else 0);
          resolved = resolver name function_name
      in if resolved \<noteq> 0 then resolved else function)"

definition missing_import :: "byte list \<Rightarrow> byte list \<Rightarrow> exn" where
  "missing_import function_name name = Runtime_error (lit ''Unable to load import '' @ [39] @
     function_name @ [39] @ lit '' from library '' @ [39] @ name @ [39])"

partial_function (option) import_thunks ::
    "loader_system \<Rightarrow> resolver \<Rightarrow> addr \<Rightarrow> byte list \<Rightarrow> addr \<Rightarrow> addr \<Rightarrow> code \<Rightarrow> (exn + code) option" where
  "import_thunks sys resolver m name name_entry address_entry c =
     (if read64 name_entry c = 0 then Some (Inr c)
      else Option.bind (import_name m (read64 name_entry c) c) (\<lambda>r.
        let function = find_function sys resolver name (fst r) (snd r) c in
        if function = 0 then Some (Inl (missing_import (fst r) name))
        else import_thunks sys resolver m name (name_entry + 8) (address_entry + 8)
               (hook_copy address_entry (u64_bytes function) c)))"

text \<open>Without a table of names, the table of addresses holds them until they are replaced.\<close>

definition name_table :: "addr \<Rightarrow> addr \<Rightarrow> code \<Rightarrow> addr" where
  "name_table m descriptor c =
     (if read32 descriptor c = 0 then m + ucast (read32 (descriptor + 16) c)
      else m + ucast (read32 descriptor c))"

partial_function (option) import_descriptors ::
    "loader_system \<Rightarrow> resolver \<Rightarrow> addr \<Rightarrow> addr \<Rightarrow> code \<Rightarrow> (exn + code) option" where
  "import_descriptors sys resolver m descriptor c =
     (if read32 (descriptor + 12) c = 0 then Some (Inr c)
      else Option.bind (cstr (m + ucast (read32 (descriptor + 12) c)) c) (\<lambda>name.
        Option.bind (import_thunks sys resolver m name (name_table m descriptor c)
            (m + ucast (read32 (descriptor + 16) c)) c)
          (\<lambda>r. case r of
             Inl e \<Rightarrow> Some (Inl e)
           | Inr c' \<Rightarrow> import_descriptors sys resolver m (descriptor + 20) c')))"

definition load_imports :: "loader_system \<Rightarrow> resolver \<Rightarrow> addr \<Rightarrow> code \<Rightarrow> (exn + code) option" where
  "load_imports sys resolver m c = import_descriptors sys resolver m (import_directory m c) c"

section \<open>Relocations\<close>

definition apply_relocation :: "u64 \<Rightarrow> u16 \<Rightarrow> addr \<Rightarrow> code \<Rightarrow> exn + code" where
  "apply_relocation delta type place c =
     (if type = 0 then Inr c
      else if type = 3 then Inr (hook_copy place (u32_bytes (read32 place c + ucast delta)) c)
      else if type = 10 then Inr (hook_copy place (u64_bytes (read64 place c + delta)) c)
      else Inl (Runtime_error (lit ''Unknown relocation type: '' @ decimal (unat type))))"

partial_function (option) relocation_entries ::
    "u64 \<Rightarrow> addr \<Rightarrow> addr \<Rightarrow> addr \<Rightarrow> code \<Rightarrow> (exn + code) option" where
  "relocation_entries delta dest rel_info rel_end c =
     (if rel_info < rel_end then
        (case apply_relocation delta (drop_bit 12 (read16 rel_info c))
                (dest + ucast (read16 rel_info c AND 0xFFF)) c of
           Inl e \<Rightarrow> Some (Inl e)
         | Inr c' \<Rightarrow> relocation_entries delta dest (rel_info + 2) rel_end c')
      else Some (Inr c))"

partial_function (option) relocation_blocks ::
    "u64 \<Rightarrow> addr \<Rightarrow> addr \<Rightarrow> code \<Rightarrow> (exn + code) option" where
  "relocation_blocks delta base relocation c =
     (if read32 relocation c = 0 then Some (Inr c)
      else Option.bind (relocation_entries delta (base + ucast (read32 relocation c)) (relocation + 8)
            (relocation + 8 + (ucast (read32 (relocation + 4) c) - 8)) c)
        (\<lambda>r. case r of
           Inl e \<Rightarrow> Some (Inl e)
         | Inr c' \<Rightarrow> relocation_blocks delta base
             (relocation + ucast (read32 (relocation + 4) c')) c'))"

definition relocation_delta :: "addr \<Rightarrow> code \<Rightarrow> u64" where
  "relocation_delta m c = m - read64 (get_optional_header m c + 24) c"

definition load_relocations :: "loader_system \<Rightarrow> addr \<Rightarrow> code \<Rightarrow> (exn + code) option" where
  "load_relocations sys m c =
     (if \<not> is_wine sys then Some (Inr c)
      else let header = get_optional_header m c in
        if directory_size 5 header c = 0 then Some (Inr c)
        else relocation_blocks (relocation_delta m c) m (m + ucast (directory_address 5 header c)) c)"

section \<open>Thread-local data\<close>

definition memory_move :: "addr \<Rightarrow> addr \<Rightarrow> u64 \<Rightarrow> code \<Rightarrow> code" where
  "memory_move place source len c = hook_copy place (fetch (unat len) source c) c"

definition load_tls :: "loader_system \<Rightarrow> addr \<Rightarrow> addr \<Rightarrow> code \<Rightarrow> code" where
  "load_tls sys source target c =
     (let source_header = get_optional_header source c; target_header = get_optional_header target c in
      if directory_size 9 source_header c = 0 then c
      else
        let target_tls = target + ucast (directory_address 9 target_header c);
            source_tls = source + ucast (directory_address 9 source_header c);
            target_start = read64 target_tls c;
            tls_start = read64 source_tls c;
            tls_size = read64 (source_tls + 8) c - read64 source_tls c;
            tls_index = read32 (read64 (target_tls + 16) c) c;
            c1 = hook_copy (read64 (source_tls + 16) c) (u32_bytes tls_index) c;
            c2 = (if read64 (target_tls + 24) c1 \<noteq> 0
                  then hook_copy (read64 (target_tls + 24) c1) (u64_bytes 0) c1 else c1);
            tls_base = read64 (tls_vector sys + 8 * ucast tls_index) c2;
            c3 = memory_move tls_base tls_start tls_size c2
        in memory_move target_start tls_start tls_size c3)"

section \<open>The loader\<close>

text \<open>The modules the loader keeps, and the base addresses its two conversions keep.\<close>

record loader_state =
  game_module :: addr
  main_module :: addr
  memory :: code
  reverse_base :: "addr option"
  literal_base :: "addr option"

definition load_module ::
    "loader_system \<Rightarrow> byte list \<Rightarrow> resolver \<Rightarrow> loader_state \<Rightarrow> (exn + addr \<times> loader_state) option" where
  "load_module sys path resolver st =
     (let target = load_library sys path in
      if \<not> lib_is_valid target (memory st) then
        Some (Inl (Runtime_error (lit ''Failed to map: '' @ path)))
      else Option.bind (load_relocations sys target (memory st)) (\<lambda>r1. case r1 of
          Inl e \<Rightarrow> Some (Inl e)
        | Inr c1 \<Rightarrow> Option.bind (load_imports sys resolver target c1) (\<lambda>r2. case r2 of
            Inl e \<Rightarrow> Some (Inl e)
          | Inr c2 \<Rightarrow> Some (Inr (target, st\<lparr>memory := load_tls sys (main_module st) target c2,
              game_module := target\<rparr>)))))"

definition apply_main_module :: "loader_system \<Rightarrow> addr \<Rightarrow> loader_state \<Rightarrow> loader_state" where
  "apply_main_module sys m st =
     st\<lparr>memory := hook_copy (process_block sys + 0x10) (u64_bytes m) (memory st)\<rparr>"

text \<open>The base of each conversion is read once, at its first use; the assertion is one of debug
  builds.\<close>

definition reverse_g :: "u64 \<Rightarrow> loader_state \<Rightarrow> u64 \<times> loader_state" where
  "reverse_g v st =
     (let base = (case reverse_base st of Some b \<Rightarrow> b | None \<Rightarrow> game_module st) in
      (0x140000000 + (v - base), st\<lparr>reverse_base := Some base\<rparr>))"

definition literal_g :: "u64 \<Rightarrow> loader_state \<Rightarrow> addr \<times> loader_state" where
  "literal_g v st =
     (let base = (case literal_base st of Some b \<Rightarrow> b | None \<Rightarrow> game_module st) in
      (base + (v - 0x140000000), st\<lparr>literal_base := Some base\<rparr>))"

section \<open>What a step leaves alone\<close>

definition span :: "addr \<Rightarrow> nat \<Rightarrow> addr set" where "span p n = (\<lambda>i. p + of_nat i) ` {..<n}"

definition same_outside :: "addr set \<Rightarrow> code \<Rightarrow> code \<Rightarrow> bool" where
  "same_outside W c c' \<longleftrightarrow> (\<forall>a. a \<notin> W \<longrightarrow> c' a = c a)"

lemma in_span: "a \<in> span p n \<longleftrightarrow> unat (a - p) < n"
proof
  assume "unat (a - p) < n"
  moreover have "a = p + of_nat (unat (a - p))" by simp
  ultimately show "a \<in> span p n" unfolding span_def by blast
qed (auto simp: span_def unat_of_nat intro: le_less_trans [OF mod_less_eq_dividend])

lemma span_offset: "i < n \<Longrightarrow> p + of_nat i \<in> span p n"
  by (simp add: span_def)

lemma span_Suc: "span p (Suc n) = insert p (span (p + 1) n)"
  by (simp add: span_def lessThan_Suc_eq_insert_0 image_image add.assoc)

lemma same_outside_refl [simp]: "same_outside W c c"
  by (simp add: same_outside_def)

lemma same_outside_mono: "same_outside W c c' \<Longrightarrow> W \<subseteq> V \<Longrightarrow> same_outside V c c'"
  by (auto simp: same_outside_def)

lemma fetch_same: "same_outside W c c' \<Longrightarrow> span p n \<inter> W = {} \<Longrightarrow> fetch n p c' = fetch n p c"
  unfolding fetch_def same_outside_def
  by (rule map_cong [OF refl]) (use span_offset [of _ n p] in force)

lemma read_same:
  assumes "same_outside W c c'"
  shows "span p 2 \<inter> W = {} \<Longrightarrow> read16 p c' = read16 p c"
    and "span p 4 \<inter> W = {} \<Longrightarrow> read32 p c' = read32 p c"
    and "span p 8 \<inter> W = {} \<Longrightarrow> read64 p c' = read64 p c"
  using assms by (simp_all add: read16_def read32_def read64_def fetch_same)

lemma cstr_same:
  "cstr p c = Some s \<Longrightarrow> span p (Suc (length s)) \<inter> W = {} \<Longrightarrow> same_outside W c c' \<Longrightarrow> cstr p c' = Some s"
proof (induction s arbitrary: p)
  case Nil
  then show ?case
    by (subst cstr.simps, subst (asm) cstr.simps)
      (auto simp: same_outside_def span_Suc bind_eq_Some_conv split: if_splits)
next
  case (Cons b s)
  from Cons.prems(1) have b: "c p = b" "c p \<noteq> 0" and s: "cstr (p + 1) c = Some s"
    by (subst (asm) cstr.simps, auto simp: bind_eq_Some_conv split: if_splits)+
  from Cons.prems(2) have p: "p \<notin> W" and rest: "span (p + 1) (Suc (length s)) \<inter> W = {}"
    by (simp_all add: span_Suc)
  have "cstr (p + 1) c' = Some s" by (rule Cons.IH [OF s rest Cons.prems(3)])
  moreover have "c' p = b" using p Cons.prems(3) b by (simp add: same_outside_def)
  ultimately show ?case using b by (subst cstr.simps) simp
qed

lemma same_outside_copy:
  assumes "same_outside W c c'" and "length bs = n"
  shows "same_outside (W \<union> span p n) c (hook_copy p bs c')"
  using assms by (auto simp: same_outside_def hook_copy_def in_span)

section \<open>The import table\<close>

text \<open>
  An import: its name, how the system is asked for it, and its slot. \<open>W\<close> are the bytes that
  are written before a part of the table is read; a table is readable when no part of it is
  overwritten before it is read, and no slot overlaps another.
\<close>

type_synonym import_entry = "byte list \<times> procedure_name \<times> addr"

inductive thunk_list :: "code \<Rightarrow> addr \<Rightarrow> addr set \<Rightarrow> addr \<Rightarrow> addr \<Rightarrow> import_entry list \<Rightarrow> bool"
  for c m where
  thunk_end: "span name_entry 8 \<inter> W = {} \<Longrightarrow> read64 name_entry c = 0 \<Longrightarrow>
    thunk_list c m W name_entry slot []"
| thunk_next: "span name_entry 8 \<inter> W = {} \<Longrightarrow> read64 name_entry c \<noteq> 0 \<Longrightarrow>
    import_name m (read64 name_entry c) c = Some (f, p) \<Longrightarrow>
    bit (read64 name_entry c) 63 \<or> span (m + read64 name_entry c + 2) (Suc (length f)) \<inter> W = {} \<Longrightarrow>
    span slot 8 \<inter> W = {} \<Longrightarrow>
    thunk_list c m (W \<union> span slot 8) (name_entry + 8) (slot + 8) ts \<Longrightarrow>
    thunk_list c m W name_entry slot ((f, p, slot) # ts)"

definition slots_of :: "import_entry list \<Rightarrow> addr set" where
  "slots_of ts = (\<Union>(f, p, slot) \<in> set ts. span slot 8)"

inductive import_list ::
    "code \<Rightarrow> addr \<Rightarrow> addr set \<Rightarrow> addr \<Rightarrow> (byte list \<times> import_entry list) list \<Rightarrow> bool" for c m where
  import_end: "span (descriptor + 12) 4 \<inter> W = {} \<Longrightarrow> read32 (descriptor + 12) c = 0 \<Longrightarrow>
    import_list c m W descriptor []"
| import_next: "span descriptor 4 \<inter> W = {} \<Longrightarrow> span (descriptor + 12) 4 \<inter> W = {} \<Longrightarrow>
    span (descriptor + 16) 4 \<inter> W = {} \<Longrightarrow> read32 (descriptor + 12) c \<noteq> 0 \<Longrightarrow>
    cstr (m + ucast (read32 (descriptor + 12) c)) c = Some name \<Longrightarrow>
    span (m + ucast (read32 (descriptor + 12) c)) (Suc (length name)) \<inter> W = {} \<Longrightarrow>
    thunk_list c m W (name_table m descriptor c) (m + ucast (read32 (descriptor + 16) c)) ts \<Longrightarrow>
    import_list c m (W \<union> slots_of ts) (descriptor + 20) ds \<Longrightarrow>
    import_list c m W descriptor ((name, ts) # ds)"

text \<open>The reference: the imports one after the other.\<close>

fun bind_thunks ::
    "loader_system \<Rightarrow> resolver \<Rightarrow> byte list \<Rightarrow> import_entry list \<Rightarrow> code \<Rightarrow> exn + code" where
  "bind_thunks sys resolver name [] c = Inr c"
| "bind_thunks sys resolver name ((f, p, slot) # ts) c =
     (let function = find_function sys resolver name f p c in
      if function = 0 then Inl (missing_import f name)
      else bind_thunks sys resolver name ts (hook_copy slot (u64_bytes function) c))"

fun bind_imports ::
    "loader_system \<Rightarrow> resolver \<Rightarrow> (byte list \<times> import_entry list) list \<Rightarrow> code \<Rightarrow> exn + code" where
  "bind_imports sys resolver [] c = Inr c"
| "bind_imports sys resolver ((name, ts) # ds) c =
     exn_bind (bind_thunks sys resolver name ts c) (bind_imports sys resolver ds)"

lemma slots_of_simps [simp]:
  "slots_of [] = {}" "slots_of ((f, p, slot) # ts) = span slot 8 \<union> slots_of ts"
  by (simp_all add: slots_of_def)

lemma bind_thunks_same:
  "bind_thunks sys resolver name ts c' = Inr c'' \<Longrightarrow> same_outside W c c' \<Longrightarrow>
   same_outside (W \<union> slots_of ts) c c''"
proof (induction ts arbitrary: c' W)
  case (Cons t ts)
  obtain f p slot where t: "t = (f, p, slot)" by (metis surj_pair)
  let ?fn = "find_function sys resolver name f p c'"
  from Cons.prems(1) have "bind_thunks sys resolver name ts (hook_copy slot (u64_bytes ?fn) c') = Inr c''"
    by (simp add: t Let_def split: if_splits)
  from Cons.IH [OF this same_outside_copy [OF Cons.prems(2)]] show ?case
    by (simp add: t Un_assoc)
qed simp

lemma import_name_same:
  assumes "import_name m e c = Some (f, p)" and "same_outside W c c'"
    and "bit e 63 \<or> span (m + e + 2) (Suc (length f)) \<inter> W = {}"
  shows "import_name m e c' = Some (f, p)"
proof (cases "bit e 63")
  case True
  with assms(1) show ?thesis by (simp add: import_name_def)
next
  case False
  with assms(1) have "cstr (m + e + 2) c = Some f" "p = By_name f"
    by (auto simp: import_name_def bind_eq_Some_conv)
  with cstr_same [OF this(1) _ assms(2)] assms(3) False show ?thesis
    by (simp add: import_name_def)
qed

lemma import_thunks_bind:
  "thunk_list c m W name_entry slot ts \<Longrightarrow> same_outside W c c' \<Longrightarrow>
   import_thunks sys resolver m name name_entry slot c' = Some (bind_thunks sys resolver name ts c')"
proof (induction arbitrary: c' rule: thunk_list.induct)
  case (thunk_end name_entry W slot)
  then show ?case using read_same(3) [OF thunk_end.prems]
    by (subst import_thunks.simps) simp
next
  case (thunk_next name_entry W f p slot ts)
  have entry: "read64 name_entry c' = read64 name_entry c"
    using thunk_next.prems thunk_next.hyps(1) by (rule read_same(3))
  have named: "import_name m (read64 name_entry c) c' = Some (f, p)"
    using thunk_next.hyps(3) thunk_next.prems thunk_next.hyps(4) by (rule import_name_same)
  let ?fn = "find_function sys resolver name f p c'"
  have "same_outside (W \<union> span slot 8) c (hook_copy slot (u64_bytes ?fn) c')"
    using thunk_next.prems by (rule same_outside_copy) simp
  from thunk_next.IH [OF this] show ?case
    using thunk_next.hyps(2) by (subst import_thunks.simps) (simp add: entry named Let_def)
qed

lemma import_descriptors_bind:
  "import_list c m W descriptor ds \<Longrightarrow> same_outside W c c' \<Longrightarrow>
   import_descriptors sys resolver m descriptor c' = Some (bind_imports sys resolver ds c')"
proof (induction arbitrary: c' rule: import_list.induct)
  case (import_end descriptor W)
  then show ?case using read_same(2) [OF import_end.prems]
    by (subst import_descriptors.simps) simp
next
  case (import_next descriptor W name ts ds)
  note same = import_next.prems
  have reads: "read32 descriptor c' = read32 descriptor c"
      "read32 (descriptor + 12) c' = read32 (descriptor + 12) c"
      "read32 (descriptor + 16) c' = read32 (descriptor + 16) c"
    using read_same(2) [OF same] import_next.hyps(1-3) by simp_all
  have named: "cstr (m + ucast (read32 (descriptor + 12) c)) c' = Some name"
    using import_next.hyps(5,6) same by (rule cstr_same)
  have table: "name_table m descriptor c' = name_table m descriptor c"
    by (simp add: name_table_def reads)
  note thunks = import_thunks_bind [OF import_next.hyps(7) same, of sys resolver name]
  show ?case
  proof (cases "bind_thunks sys resolver name ts c'")
    case (Inl e)
    then show ?thesis using import_next.hyps(4)
      by (subst import_descriptors.simps) (simp add: reads named table thunks)
  next
    case (Inr c'')
    have "same_outside (W \<union> slots_of ts) c c''" by (rule bind_thunks_same [OF Inr same])
    from import_next.IH [OF this] Inr show ?thesis using import_next.hyps(4)
      by (subst import_descriptors.simps) (simp add: reads named table thunks)
  qed
qed

definition import_target :: "loader_system \<Rightarrow> resolver \<Rightarrow> byte list \<Rightarrow> byte list \<Rightarrow> procedure_name \<Rightarrow> addr" where
  "import_target sys resolver name f p =
     (if resolver name f \<noteq> 0 then resolver name f else proc_address sys (load_library sys name) p)"

definition slot_resolved :: "loader_system \<Rightarrow> resolver \<Rightarrow> byte list \<Rightarrow> code \<Rightarrow> import_entry \<Rightarrow> bool" where
  "slot_resolved sys resolver name c = (\<lambda>(f, p, slot).
     read64 slot c = import_target sys resolver name f p \<and> read64 slot c \<noteq> 0)"

definition all_slots :: "(byte list \<times> import_entry list) list \<Rightarrow> addr set" where
  "all_slots ds = (\<Union>d \<in> set ds. slots_of (snd d))"

lemma find_function_target:
  "find_function sys resolver name f p c \<noteq> 0 \<Longrightarrow>
   find_function sys resolver name f p c = import_target sys resolver name f p"
  by (auto simp: find_function_def import_target_def Let_def)

lemma find_function_resolver: "find_function sys resolver name f p c = 0 \<Longrightarrow> resolver name f = 0"
  by (auto simp: find_function_def Let_def split: if_splits)

lemma thunk_list_disjoint: "thunk_list c m W name_entry slot ts \<Longrightarrow> slots_of ts \<inter> W = {}"
  by (induction rule: thunk_list.induct) auto

lemma slot_resolved_same:
  assumes "slot_resolved sys resolver name c t" and "same_outside W c c'"
    and "span (snd (snd t)) 8 \<inter> W = {}"
  shows "slot_resolved sys resolver name c' t"
  using assms(1) read_same(3) [OF assms(2,3)] by (cases t) (auto simp: slot_resolved_def)

lemma bind_thunks_resolves:
  "thunk_list c m W name_entry slot ts \<Longrightarrow> bind_thunks sys resolver name ts c' = Inr c'' \<Longrightarrow>
   \<forall>t \<in> set ts. slot_resolved sys resolver name c'' t"
proof (induction arbitrary: c' rule: thunk_list.induct)
  case (thunk_next name_entry W f p slot ts)
  let ?fn = "find_function sys resolver name f p c'" and ?c = "hook_copy slot (u64_bytes (find_function sys resolver name f p c')) c'"
  from thunk_next.prems have rest: "bind_thunks sys resolver name ts ?c = Inr c''" and fn: "?fn \<noteq> 0"
    by (simp_all add: Let_def split: if_splits)
  have "slot_resolved sys resolver name ?c (f, p, slot)"
    using fn find_function_target [OF fn] by (simp add: slot_resolved_def read64_patch)
  moreover have "same_outside (slots_of ts) ?c c''"
    using bind_thunks_same [OF rest same_outside_refl, of "{}"] by simp
  moreover have "span (snd (snd (f, p, slot))) 8 \<inter> slots_of ts = {}"
    using thunk_list_disjoint [OF thunk_next.hyps(6)] by auto
  ultimately have "slot_resolved sys resolver name c'' (f, p, slot)" by (rule slot_resolved_same)
  with thunk_next.IH [OF rest] show ?case by simp
qed simp

lemma bind_thunks_missing:
  "bind_thunks sys resolver name ts c = Inl e \<Longrightarrow>
   \<exists>(f, p, slot) \<in> set ts. resolver name f = 0 \<and> e = missing_import f name"
proof (induction ts arbitrary: c)
  case (Cons t ts)
  obtain f p slot where t: "t = (f, p, slot)" by (metis surj_pair)
  show ?case
  proof (cases "find_function sys resolver name f p c = 0")
    case True
    with Cons.prems find_function_resolver [OF True] show ?thesis by (auto simp: t)
  next
    case False
    with Cons.prems have "bind_thunks sys resolver name ts
        (hook_copy slot (u64_bytes (find_function sys resolver name f p c)) c) = Inl e"
      by (simp add: t Let_def)
    from Cons.IH [OF this] show ?thesis by auto
  qed
qed simp

lemma bind_imports_same:
  "bind_imports sys resolver ds c' = Inr c'' \<Longrightarrow> same_outside W c c' \<Longrightarrow>
   same_outside (W \<union> all_slots ds) c c''"
proof (induction ds arbitrary: c' W)
  case (Cons d ds)
  obtain name ts where d: "d = (name, ts)" by (cases d)
  from Cons.prems(1) obtain c1 where c1: "bind_thunks sys resolver name ts c' = Inr c1"
      and rest: "bind_imports sys resolver ds c1 = Inr c''"
    by (auto simp: d exn_bind_eq_Inr)
  from Cons.IH [OF rest bind_thunks_same [OF c1 Cons.prems(2)]] show ?case
    by (simp add: d all_slots_def Un_assoc)
qed (simp add: all_slots_def)

lemma import_list_disjoint: "import_list c m W descriptor ds \<Longrightarrow> all_slots ds \<inter> W = {}"
  by (induction rule: import_list.induct) (auto simp: all_slots_def dest: thunk_list_disjoint)

lemma bind_imports_resolves:
  "import_list c m W descriptor ds \<Longrightarrow> bind_imports sys resolver ds c' = Inr c'' \<Longrightarrow>
   \<forall>(name, ts) \<in> set ds. \<forall>t \<in> set ts. slot_resolved sys resolver name c'' t"
proof (induction arbitrary: c' rule: import_list.induct)
  case (import_next descriptor W name ts ds)
  from import_next.prems obtain c1 where c1: "bind_thunks sys resolver name ts c' = Inr c1"
      and rest: "bind_imports sys resolver ds c1 = Inr c''"
    by (auto simp: exn_bind_eq_Inr)
  have same: "same_outside (all_slots ds) c1 c''"
    using bind_imports_same [OF rest same_outside_refl, of "{}"] by simp
  have "slot_resolved sys resolver name c'' t" if t: "t \<in> set ts" for t
  proof (rule slot_resolved_same [OF _ same])
    show "slot_resolved sys resolver name c1 t"
      using bind_thunks_resolves [OF import_next.hyps(7) c1] t by blast
    show "span (snd (snd t)) 8 \<inter> all_slots ds = {}"
      using import_list_disjoint [OF import_next.hyps(8)] t by (cases t) (auto simp: slots_of_def)
  qed
  with import_next.IH [OF rest] show ?case by simp
qed simp

lemma bind_imports_missing:
  "bind_imports sys resolver ds c = Inl e \<Longrightarrow>
   \<exists>(name, ts) \<in> set ds. \<exists>(f, p, slot) \<in> set ts. resolver name f = 0 \<and> e = missing_import f name"
proof (induction ds arbitrary: c)
  case (Cons d ds)
  obtain name ts where d: "d = (name, ts)" by (cases d)
  show ?case
  proof (cases "bind_thunks sys resolver name ts c")
    case (Inl e')
    with Cons.prems bind_thunks_missing [of sys resolver name ts c e] show ?thesis
      by (auto simp: d)
  next
    case (Inr c')
    with Cons.prems have "bind_imports sys resolver ds c' = Inl e" by (simp add: d)
    from Cons.IH [OF this] show ?thesis by auto
  qed
qed simp


section \<open>The relocation table\<close>

text \<open>The relocations in their order: the type and the place; the table may not lie in a place.\<close>

type_synonym relocation = "u16 \<times> addr"

definition place_of :: "relocation \<Rightarrow> addr set" where
  "place_of = (\<lambda>(type, place). if type = 3 then span place 4 else if type = 10 then span place 8 else {})"

definition places_of :: "relocation list \<Rightarrow> addr set" where
  "places_of rs = (\<Union>r \<in> set rs. place_of r)"

inductive entry_list :: "code \<Rightarrow> addr \<Rightarrow> addr set \<Rightarrow> addr \<Rightarrow> addr \<Rightarrow> relocation list \<Rightarrow> bool"
  for c dest where
  entry_end: "\<not> rel_info < rel_end \<Longrightarrow> entry_list c dest W rel_info rel_end []"
| entry_next: "rel_info < rel_end \<Longrightarrow> span rel_info 2 \<inter> W = {} \<Longrightarrow>
    r = (drop_bit 12 (read16 rel_info c), dest + ucast (read16 rel_info c AND 0xFFF)) \<Longrightarrow>
    place_of r \<inter> W = {} \<Longrightarrow>
    entry_list c dest (W \<union> place_of r) (rel_info + 2) rel_end rs \<Longrightarrow>
    entry_list c dest W rel_info rel_end (r # rs)"

inductive block_list :: "code \<Rightarrow> addr \<Rightarrow> addr set \<Rightarrow> addr \<Rightarrow> relocation list \<Rightarrow> bool"
  for c base where
  block_end: "span block 4 \<inter> W = {} \<Longrightarrow> read32 block c = 0 \<Longrightarrow> block_list c base W block []"
| block_next: "span block 4 \<inter> W = {} \<Longrightarrow> span (block + 4) 4 \<inter> (W \<union> places_of rs) = {} \<Longrightarrow>
    read32 block c \<noteq> 0 \<Longrightarrow>
    entry_list c (base + ucast (read32 block c)) W (block + 8)
      (block + 8 + (ucast (read32 (block + 4) c) - 8)) rs \<Longrightarrow>
    block_list c base (W \<union> places_of rs) (block + ucast (read32 (block + 4) c)) rs' \<Longrightarrow>
    block_list c base W block (rs @ rs')"

fun apply_all :: "u64 \<Rightarrow> relocation list \<Rightarrow> code \<Rightarrow> exn + code" where
  "apply_all delta [] c = Inr c"
| "apply_all delta ((type, place) # rs) c = exn_bind (apply_relocation delta type place c) (apply_all delta rs)"

lemma places_of_simps [simp]:
  "places_of [] = {}" "places_of (r # rs) = place_of r \<union> places_of rs"
  "places_of (rs @ rs') = places_of rs \<union> places_of rs'"
  by (auto simp: places_of_def)

lemma apply_all_append:
  "apply_all delta (rs @ rs') c = exn_bind (apply_all delta rs c) (apply_all delta rs')"
proof (induction rs arbitrary: c)
  case (Cons r rs)
  obtain type place where "r = (type, place)" by (cases r)
  with Cons show ?case by (cases "apply_relocation delta type place c") simp_all
qed simp

lemma apply_relocation_same:
  assumes "apply_relocation delta type place c' = Inr c''" and "same_outside W c c'"
  shows "same_outside (W \<union> place_of (type, place)) c c''"
  using assms same_outside_copy [OF assms(2), of "u32_bytes _" 4 place]
    same_outside_copy [OF assms(2), of "u64_bytes _" 8 place]
  by (auto simp: apply_relocation_def place_of_def split: if_splits)

lemma apply_all_same:
  "apply_all delta rs c' = Inr c'' \<Longrightarrow> same_outside W c c' \<Longrightarrow> same_outside (W \<union> places_of rs) c c''"
proof (induction rs arbitrary: c' W)
  case (Cons r rs)
  obtain type place where r: "r = (type, place)" by (cases r)
  from Cons.prems(1) obtain c1 where c1: "apply_relocation delta type place c' = Inr c1"
      and rest: "apply_all delta rs c1 = Inr c''"
    by (auto simp: r exn_bind_eq_Inr)
  from Cons.IH [OF rest apply_relocation_same [OF c1 Cons.prems(2)]] show ?case
    by (simp add: r Un_assoc)
qed simp

lemma relocation_entries_apply:
  "entry_list c dest W rel_info rel_end rs \<Longrightarrow> same_outside W c c' \<Longrightarrow>
   relocation_entries delta dest rel_info rel_end c' = Some (apply_all delta rs c')"
proof (induction arbitrary: c' rule: entry_list.induct)
  case (entry_end rel_info rel_end W)
  then show ?case by (subst relocation_entries.simps) simp
next
  case (entry_next rel_info rel_end W r rs)
  obtain type place where r: "r = (type, place)" by (cases r)
  have info: "read16 rel_info c' = read16 rel_info c"
    using entry_next.prems entry_next.hyps(2) by (rule read_same(1))
  have step: "drop_bit 12 (read16 rel_info c) = type" "dest + ucast (read16 rel_info c AND 0xFFF) = place"
    using entry_next.hyps(3) r by simp_all
  show ?case
  proof (cases "apply_relocation delta type place c'")
    case (Inl e)
    then show ?thesis using entry_next.hyps(1)
      by (subst relocation_entries.simps) (simp add: info step r)
  next
    case (Inr c1)
    from apply_relocation_same [OF Inr entry_next.prems]
    have "same_outside (W \<union> place_of r) c c1" by (simp add: r)
    from entry_next.IH [OF this] show ?thesis using entry_next.hyps(1) Inr
      by (subst relocation_entries.simps) (simp add: info step r)
  qed
qed

lemma relocation_blocks_apply:
  "block_list c base W block rs \<Longrightarrow> same_outside W c c' \<Longrightarrow>
   relocation_blocks delta base block c' = Some (apply_all delta rs c')"
proof (induction arbitrary: c' rule: block_list.induct)
  case (block_end block W)
  then show ?case using read_same(2) [OF block_end.prems]
    by (subst relocation_blocks.simps) simp
next
  case (block_next block W rs rs')
  note same = block_next.prems
  have head: "read32 block c' = read32 block c"
    using same block_next.hyps(1) by (rule read_same(2))
  have "span (block + 4) 4 \<inter> W = {}" using block_next.hyps(2) by blast
  with same have size: "read32 (block + 4) c' = read32 (block + 4) c" by (rule read_same(2))
  note entries = relocation_entries_apply [OF block_next.hyps(4) same, of delta, simplified]
  show ?case
  proof (cases "apply_all delta rs c'")
    case (Inl e)
    then show ?thesis using block_next.hyps(3)
      by (subst relocation_blocks.simps) (simp add: head size entries apply_all_append)
  next
    case (Inr c1)
    have same1: "same_outside (W \<union> places_of rs) c c1" by (rule apply_all_same [OF Inr same])
    have "read32 (block + 4) c1 = read32 (block + 4) c"
      using same1 block_next.hyps(2) by (rule read_same(2))
    with block_next.IH [OF same1] Inr show ?thesis using block_next.hyps(3)
      by (subst relocation_blocks.simps) (simp add: head size entries apply_all_append)
  qed
qed

text \<open>What a relocated place holds.\<close>

definition relocated :: "u64 \<Rightarrow> code \<Rightarrow> code \<Rightarrow> relocation \<Rightarrow> bool" where
  "relocated delta c c' = (\<lambda>(type, place).
     (type = 3 \<longrightarrow> read32 place c' = read32 place c + ucast delta) \<and>
     (type = 10 \<longrightarrow> read64 place c' = read64 place c + delta))"

fun disjoint_places :: "addr set \<Rightarrow> relocation list \<Rightarrow> bool" where
  "disjoint_places W [] \<longleftrightarrow> True"
| "disjoint_places W (r # rs) \<longleftrightarrow> place_of r \<inter> W = {} \<and> disjoint_places (W \<union> place_of r) rs"

lemma disjoint_places_append:
  "disjoint_places W (rs @ rs') \<longleftrightarrow> disjoint_places W rs \<and> disjoint_places (W \<union> places_of rs) rs'"
  by (induction rs arbitrary: W) (simp_all add: Un_assoc)

lemma disjoint_places_of: "disjoint_places W rs \<Longrightarrow> places_of rs \<inter> W = {}"
  by (induction rs arbitrary: W) auto

lemma entry_list_disjoint: "entry_list c dest W rel_info rel_end rs \<Longrightarrow> disjoint_places W rs"
  by (induction rule: entry_list.induct) auto

lemma block_list_disjoint: "block_list c base W block rs \<Longrightarrow> disjoint_places W rs"
  by (induction rule: block_list.induct) (auto simp: disjoint_places_append dest: entry_list_disjoint)

lemma read32_patch: "read32 p (hook_copy p (u32_bytes v) c) = v"
  using fetch_copy [of 0 4 "u32_bytes v" p c] by (simp add: read32_def)

lemma relocated_trans:
  assumes "same_outside W c c1" and "place_of r \<inter> W = {}" and "relocated delta c1 c2 r"
    and "same_outside V c2 c3" and "place_of r \<inter> V = {}"
  shows "relocated delta c c3 r"
  using assms read_same(2,3) [OF assms(1)] read_same(2,3) [OF assms(4)]
  by (cases r) (auto simp: relocated_def place_of_def)

lemma apply_relocation_relocates:
  "apply_relocation delta type place c = Inr c' \<Longrightarrow> relocated delta c c' (type, place)"
  by (auto simp: apply_relocation_def relocated_def read32_patch read64_patch split: if_splits)

lemma apply_all_relocates:
  "disjoint_places W rs \<Longrightarrow> apply_all delta rs c1 = Inr c' \<Longrightarrow> same_outside W c c1 \<Longrightarrow>
   \<forall>r \<in> set rs. relocated delta c c' r"
proof (induction rs arbitrary: W c1)
  case (Cons r rs)
  obtain type place where r: "r = (type, place)" by (cases r)
  from Cons.prems(2) obtain c2 where c2: "apply_relocation delta type place c1 = Inr c2"
      and rest: "apply_all delta rs c2 = Inr c'"
    by (auto simp: r exn_bind_eq_Inr)
  have disjoint: "place_of r \<inter> W = {}" "disjoint_places (W \<union> place_of r) rs"
    using Cons.prems(1) by simp_all
  have "same_outside (places_of rs) c2 c'"
    using apply_all_same [OF rest same_outside_refl, of "{}"] by simp
  moreover have "place_of r \<inter> places_of rs = {}" using disjoint_places_of [OF disjoint(2)] by blast
  ultimately have "relocated delta c c' r"
    using relocated_trans [OF Cons.prems(3) disjoint(1)] apply_relocation_relocates [OF c2] by (simp add: r)
  moreover have "same_outside (W \<union> place_of r) c c2"
    using apply_relocation_same [OF c2 Cons.prems(3)] by (simp add: r)
  ultimately show ?case using Cons.IH [OF disjoint(2) rest] by simp
qed simp

definition known_type :: "relocation \<Rightarrow> bool" where
  "known_type r \<longleftrightarrow> fst r = 0 \<or> fst r = 3 \<or> fst r = 10"

lemma apply_all_known: "list_all known_type rs \<Longrightarrow> \<exists>c'. apply_all delta rs c = Inr c'"
  by (induction delta rs c rule: apply_all.induct) (auto simp: known_type_def apply_relocation_def)

lemma apply_all_unknown: "\<not> list_all known_type rs \<Longrightarrow> \<exists>e. apply_all delta rs c = Inl e"
proof (induction rs arbitrary: c)
  case (Cons r rs)
  obtain type place where r: "r = (type, place)" by (cases r)
  from Cons show ?case
    by (cases "apply_relocation delta type place c")
      (auto simp: r known_type_def apply_relocation_def split: if_splits)
qed simp

text \<open>C20: 
  Under Wine the relocation of an image whose table is not itself relocated returns: with
  relocations of the known types, each place is increased by the distance from the preferred
  base, once, and no other byte changes; with any other type, it is an error.
\<close>

theorem relocations_move_every_place:
  assumes "is_wine sys" and "directory_size 5 (get_optional_header m c) c \<noteq> 0"
    and "block_list c m {} (m + ucast (directory_address 5 (get_optional_header m c) c)) rs"
  shows "\<exists>r. load_relocations sys m c = Some r \<and>
    (if list_all known_type rs
     then \<exists>c'. r = Inr c' \<and> (\<forall>x \<in> set rs. relocated (relocation_delta m c) c c' x) \<and>
       same_outside (places_of rs) c c'
     else \<exists>e. r = Inl e)"
proof -
  let ?r = "apply_all (relocation_delta m c) rs c"
  have run: "load_relocations sys m c = Some ?r"
    using relocation_blocks_apply [OF assms(3) same_outside_refl] assms(1,2)
    by (simp add: load_relocations_def Let_def)
  show ?thesis
  proof (cases "list_all known_type rs")
    case True
    then obtain c' where c': "?r = Inr c'" using apply_all_known by blast
    have "same_outside (places_of rs) c c'"
      using apply_all_same [OF c' same_outside_refl, of "{}"] by simp
    with apply_all_relocates [OF block_list_disjoint [OF assms(3)] c' same_outside_refl] run c' True
    show ?thesis by auto
  qed (use run apply_all_unknown in auto)
qed

text \<open>
  A block that says it has no bytes is followed by itself: the loop over the blocks does not
  end.
\<close>

theorem empty_block_never_ends:
  assumes "read32 block c \<noteq> 0" and "read32 (block + 4) c = 0" and "block < block + 8"
  shows "relocation_blocks delta base block c = None"
proof -
  have "\<not> block + 8 < block" using assms(3) by (meson less_asym)
  then have none: "relocation_entries d e (block + 8) block c = Some (Inr c)" for d e
    by (subst relocation_entries.simps) (simp only: if_False)
  have never: "b = block \<longrightarrow> c' = c \<longrightarrow> False" if "relocation_blocks d m b c' = Some y" for d m b c' y
    by (rule relocation_blocks.raw_induct
        [where P = "\<lambda>d m b c' y. b = block \<longrightarrow> c' = c \<longrightarrow> False", OF _ that])
      (use assms(1,2) none in auto, blast)
  show ?thesis using never [of delta base block c]
    by (cases "relocation_blocks delta base block c") auto
qed

section \<open>The two conversions\<close>

text \<open>
  Once the game is loaded, the conversion of an address of the game and the one of its
  literal undo each other.
\<close>

theorem literal_reverse_roundtrip:
  assumes "literal_base st = None \<or> literal_base st = Some (game_module st)"
    and "reverse_base st = None \<or> reverse_base st = Some (game_module st)"
  shows "fst (reverse_g (fst (literal_g v st)) (snd (literal_g v st))) = v \<and>
    fst (literal_g (fst (reverse_g a st)) (snd (reverse_g a st))) = a"
  using assms by (auto simp: literal_g_def reverse_g_def Let_def)

lemma early_literal_keeps_wrong_base:
  assumes "literal_base st = None"
  shows "fst (literal_g v (snd (literal_g w st)\<lparr>game_module := m\<rparr>)) = game_module st + (v - 0x140000000)"
  using assms by (simp add: literal_g_def Let_def)

section \<open>An image that is loaded\<close>

lemma span_disjoint:
  "n \<le> unat (q - p) \<Longrightarrow> m \<le> unat (p - q) \<Longrightarrow> span p n \<inter> span q m = {}"
  using far_apart [of n q p m] by (auto simp: apart_def span_def)

definition demo_loader :: loader_system where
  "demo_loader = \<lparr>module_handle = module_handle demo_system, proc_address = proc_address demo_system,
     module_file_name = module_file_name demo_system,
     load_library = (\<lambda>name. if name = lit ''A'' then 0x20000 else 0), is_wine = True,
     tls_vector = 0, process_block = 0\<rparr>"

definition demo_entries :: "import_entry list" where
  "demo_entries = [(lit ''#5'', By_ordinal 5, 0x10280), (lit ''f'', By_name (lit ''f''), 0x10288)]"

lemma demo_function_name: "cstr 0x10302 demo_image = Some (lit ''f'')"
proof -
  have "demo_image 0x10302 = 0x66" "demo_image 0x10303 = 0"
    by (simp_all add: demo_image_def hook_copy_def)
  then show ?thesis
    by (subst cstr.simps, subst cstr.simps) (simp add: lit_def)
qed

lemma demo_import_names:
  "import_name 0x10000 0x8000000000000005 demo_image = Some (lit ''#5'', By_ordinal 5)"
  "import_name 0x10000 0x300 demo_image = Some (lit ''f'', By_name (lit ''f''))"
  by (simp_all add: import_name_def demo_function_name lit_def decimal.simps)

lemma demo_thunk_list: "thunk_list demo_image 0x10000 {} 0x10240 0x10280 demo_entries"
proof -
  have "thunk_list demo_image 0x10000 (span 0x10280 8 \<union> span 0x10288 8) 0x10250 0x10290 []"
    by (rule thunk_end) (simp_all add: Int_Un_distrib span_disjoint demo_reads)
  then have "thunk_list demo_image 0x10000 (span 0x10280 8) 0x10248 0x10288
      [(lit ''f'', By_name (lit ''f''), 0x10288)]"
    by (intro thunk_next) (simp_all add: span_disjoint demo_reads demo_import_names)
  then show ?thesis unfolding demo_entries_def
    by (intro thunk_next) (simp_all add: demo_reads demo_import_names)
qed

lemma demo_import_list:
  "import_list demo_image 0x10000 {} 0x10200 [(lit ''A'', demo_entries)]"
proof -
  have "import_list demo_image 0x10000 (slots_of demo_entries) 0x10214 []"
    by (rule import_end)
      (simp_all add: demo_entries_def Int_Un_distrib span_disjoint demo_reads)
  then show ?thesis
    by (intro import_next) (simp_all add: demo_reads demo_name name_table_def demo_thunk_list)
qed


text \<open>
  The image above with a table of relocations at \<open>0x10400\<close>: one block with one relocation, of
  the second slot. It prefers the base \<open>0x8000\<close>, so everything moves by \<open>0x8000\<close>.
\<close>

definition relocated_image :: code where
  "relocated_image = patched
     [(0x10000, [0x4D, 0x5A]), (0x1003C, [0x40, 0, 0, 0]), (0x10070, [0, 0x80, 0, 0, 0, 0, 0, 0]),
      (0x100F0, [0, 4, 0, 0]), (0x100F4, [10, 0, 0, 0]),
      (0x10288, [0, 5, 2, 0, 0, 0, 0, 0]),
      (0x10400, [0x80, 2, 0, 0]), (0x10404, [10, 0, 0, 0]), (0x10408, [8, 0xA0])]"

lemmas reloc_read = read16_def read32_def read64_def relocated_image_def fetch_patch_same
  fetch_patch_apart fetch_zeros le_nat_zeros bytes_u16_def bytes_u32_def bytes_u64_def

lemma reloc_reads:
  "read16 0x10000 relocated_image = 0x5A4D" "read32 0x1003C relocated_image = 0x40"
  "read64 0x10070 relocated_image = 0x8000" "read32 0x100F0 relocated_image = 0x400"
  "read32 0x100F4 relocated_image = 10" "read64 0x10288 relocated_image = 0x20500"
  "read32 0x10400 relocated_image = 0x280" "read32 0x10404 relocated_image = 10"
  "read16 0x10408 relocated_image = 0xA008" "read32 0x1040A relocated_image = 0"
  by (simp_all add: reloc_read)

lemma reloc_header: "get_optional_header 0x10000 relocated_image = 0x10058"
  by (simp add: get_optional_header_def get_nt_headers_def lib_is_valid_def IMAGE_DOS_SIGNATURE_def
      reloc_reads)

lemma reloc_blocks: "block_list relocated_image 0x10000 {} 0x10400 [(10, 0x10288)]"
proof -
  have place: "place_of (10, 0x10288) = span 0x10288 8" by (simp add: place_of_def)
  have "entry_list relocated_image 0x10280 (span 0x10288 8) 0x1040A 0x1040A []"
    by (rule entry_end) simp
  then have "entry_list relocated_image 0x10280 {} 0x10408 0x1040A [(10, 0x10288)]"
    by (intro entry_next) (simp_all add: reloc_reads place)
  moreover have "block_list relocated_image 0x10000 (span 0x10288 8) 0x1040A []"
    by (rule block_end) (simp_all add: span_disjoint reloc_reads)
  ultimately show ?thesis
    using block_next [where block = "0x10400" and W = "{}" and rs = "[(10, 0x10288)]" and
        c = relocated_image and base = "0x10000" and rs' = "[]"]
    by (simp add: reloc_reads place span_disjoint)
qed

theorem relocations_move_every_place_witness:
  "\<exists>c'. load_relocations demo_loader 0x10000 relocated_image = Some (Inr c') \<and>
     read64 0x10288 c' = 0x28500"
proof -
  have "is_wine demo_loader" by (simp add: demo_loader_def)
  moreover have "directory_size 5 (get_optional_header 0x10000 relocated_image) relocated_image \<noteq> 0"
    by (simp add: reloc_header directory_size_def reloc_reads)
  moreover have "block_list relocated_image 0x10000 {} (0x10000 + ucast (directory_address 5
      (get_optional_header 0x10000 relocated_image) relocated_image)) [(10, 0x10288)]"
    using reloc_blocks by (simp add: reloc_header directory_address_def reloc_reads)
  ultimately obtain r where r: "load_relocations demo_loader 0x10000 relocated_image = Some r"
      and ok: "if list_all known_type [(10, 0x10288)]
       then \<exists>c'. r = Inr c' \<and> (\<forall>x \<in> set [(10, 0x10288)].
           relocated (relocation_delta 0x10000 relocated_image) relocated_image c' x) \<and>
         same_outside (places_of [(10, 0x10288)]) relocated_image c'
       else \<exists>e. r = Inl e"
    using relocations_move_every_place by blast
  then show ?thesis
    by (auto simp: known_type_def relocated_def relocation_delta_def reloc_header reloc_reads)
qed

theorem empty_block_never_ends_witness:
  "relocation_blocks 0 0x10000 0x10400 (patched [(0x10400, [1, 0, 0, 0])]) = None"
  by (rule empty_block_never_ends)
    (simp_all add: read32_def fetch_patch_same fetch_patch_apart fetch_zeros bytes_u32_def le_nat_zeros)

end
