(* ===== verification/Bootstrap.thy ===== *)
theory Bootstrap
  imports Component_Loader Loader Address
begin

text \<open>
  The start of the client (src/client/main.cpp): the two roles of the executable, the phases
  of the components around the loading of the game, the clean-up when any of them stops the
  start, the resolver the game's imports are bound with, and the thread-local callbacks of
  the game. The loader's own work on the process is a parameter of \<open>client_main\<close>, an option
  because loading may not return; the properties about imports use the model of the loader.
\<close>

section \<open>Model\<close>

definition process_command :: "byte list" where "process_command = lit ''-proc ''"

text \<open>\<open>strstr\<close> on the command line: what follows the first \<open>-proc\<close>, as a process number.\<close>

fun after_command :: "byte list \<Rightarrow> byte list option" where
  "after_command [] = None"
| "after_command (b # bs) =
     (if take (length process_command) (b # bs) = process_command
      then Some (drop (length process_command) (b # bs)) else after_command bs)"

definition handle_process_runner :: "byte list \<Rightarrow> u32 option" where
  "handle_process_runner command_line = map_option (\<lambda>s. of_int (atoi s)) (after_command command_line)"

text \<open>The conversion \<open>%X\<close> of an unsigned number.\<close>

fun upper_hex :: "nat \<Rightarrow> byte list" where
  "upper_hex n = (let d = n mod 16; c = of_nat (if d < 10 then 48 + d else 55 + d) in
     if n < 16 then [c] else upper_hex (n div 16) @ [c])"

declare upper_hex.simps [simp del]

text \<open>\<open>verify_tls\<close>: \<open>data\<close> is the address of the payload, \<open>vector\<close> the thread's array of blocks.\<close>

definition verify_tls :: "addr \<Rightarrow> addr \<Rightarrow> addr \<Rightarrow> code \<Rightarrow> exn option" where
  "verify_tls self data vector c =
     (let self_tls = self + ucast (directory_address 9 (get_optional_header self c) c);
          tls_index = read32 (read64 (self_tls + 16) c) c;
          offset = data - read64 (vector + 8 * ucast tls_index) c
      in if offset \<noteq> 0 \<and> offset \<noteq> 16 then Some (Runtime_error
           (lit ''TLS payload is at offset 0x'' @ upper_hex (unat (ucast offset :: u32)) @
            lit '', but should be at 0!''))
         else None)"

definition get_tls_callbacks :: "addr \<Rightarrow> code \<Rightarrow> addr option" where
  "get_tls_callbacks game c =
     (let header = get_optional_header game c in
      if directory_address 9 header c = 0 \<or> directory_size 9 header c = 0 then None
      else Some (read64 (game + ucast (directory_address 9 header c) + 24) c))"

partial_function (option) callback_list :: "addr \<Rightarrow> code \<Rightarrow> addr list option" where
  "callback_list p c = (if read64 p c = 0 then Some []
     else Option.bind (callback_list (p + 8) c) (\<lambda>rest. Some (read64 p c # rest)))"

text \<open>The callbacks that are called, in their order; a null table has none.\<close>

definition run_tls_callbacks :: "bool \<Rightarrow> addr \<Rightarrow> code \<Rightarrow> addr list option" where
  "run_tls_callbacks call_tls_callbacks game c =
     (if \<not> call_tls_callbacks then Some []
      else case get_tls_callbacks game c of
          None \<Rightarrow> Some []
        | Some p \<Rightarrow> if p = 0 then Some [] else callback_list p c)"

definition import_resolver :: "addr \<Rightarrow> 's loader \<Rightarrow> Loader.resolver" where
  "import_resolver exit_hook l module function =
     (if function = lit ''ExitProcess'' then exit_hook else load_import l module function)"

datatype outcome = Exit int | Entry addr

definition show_error :: "exn \<Rightarrow> 's loader \<Rightarrow> 's loader" where
  "show_error e l = l\<lparr>message_boxes := message_boxes l @ [e]\<rparr>"

text \<open>
  \<open>main\<close>: leaving the block by any way but the end of the start runs \<open>pre_destroy\<close>, after an
  exception has been shown.
\<close>

definition client_main ::
    "('s \<Rightarrow> exn option) \<Rightarrow> (Loader.resolver \<Rightarrow> 's \<Rightarrow> ((exn + addr) \<times> 's) option) \<Rightarrow> addr \<Rightarrow> byte list \<Rightarrow>
     's loader \<Rightarrow> (outcome \<times> 's loader) option" where
  "client_main tls_error load_game exit_hook command_line l =
     (if handle_process_runner command_line \<noteq> None then Some (Exit 0, l)
      else case tls_error (process_state l) of
        Some e \<Rightarrow> Some (Exit 1, pre_destroy (show_error e l))
      | None \<Rightarrow>
          (case post_start l of
             (Inl e, l1) \<Rightarrow> Some (Exit 1, pre_destroy (show_error e l1))
           | (Inr False, l1) \<Rightarrow> Some (Exit 0, pre_destroy l1)
           | (Inr True, l1) \<Rightarrow>
               (case load_game (import_resolver exit_hook l1) (process_state l1) of
                  None \<Rightarrow> None
                | Some (Inl e, s) \<Rightarrow> Some (Exit 1, pre_destroy (show_error e (l1\<lparr>process_state := s\<rparr>)))
                | Some (Inr entry_point, s) \<Rightarrow>
                    (case post_load (l1\<lparr>process_state := s\<rparr>) of
                       (False, l2) \<Rightarrow> Some (Exit 0, pre_destroy l2)
                     | (True, l2) \<Rightarrow> Some (Entry entry_point, l2)))))"

section \<open>Properties\<close>

definition fresh_loader :: "'s loader \<Rightarrow> bool" where
  "fresh_loader l \<longleftrightarrow> \<not> start_handled l \<and> load_result l = None \<and> destroy_result l = None"

lemma pre_destroy_ran: "destroy_result (pre_destroy l) \<noteq> None"
  by (auto simp: pre_destroy_def Let_def split: option.splits prod.splits)

lemma post_start_fields:
  assumes "post_start l = (r, l')" and "fresh_loader l"
  shows "components l' = components l" "load_result l' = None" "destroy_result l' = None"
    and "r = Inr True \<Longrightarrow> run_phase comp_post_start (components l) (process_state l) = (None, process_state l')"
  using assms by (auto simp: post_start_def fresh_loader_def split: prod.splits option.splits if_splits)

lemma post_load_fields:
  assumes "post_load l = (True, l')" and "load_result l = None"
  shows "run_phase comp_post_load (components l) (process_state l) = (None, process_state l')"
    and "destroy_result l' = destroy_result l"
  using assms by (auto simp: post_load_def split: prod.splits option.splits if_splits)


text \<open>C18: the imports of the game are bound to the client: its \<open>ExitProcess\<close> is the client's, and an
  import a component provides is the component's.\<close>

theorem game_exit_is_hooked:
  assumes "import_list c m {} (import_directory m c) ds" and "exit_hook \<noteq> 0"
    and "load_imports sys (import_resolver exit_hook l) m c = Some (Inr c')"
    and "(name, ts) \<in> set ds" and "(f, p, slot) \<in> set ts"
  shows "(f = lit ''ExitProcess'' \<longrightarrow> read64 slot c' = exit_hook) \<and>
    (f \<noteq> lit ''ExitProcess'' \<longrightarrow> load_import l name f \<noteq> 0 \<longrightarrow> read64 slot c' = load_import l name f)"
proof -
  have "bind_imports sys (import_resolver exit_hook l) ds c = Inr c'"
    using import_descriptors_bind [OF assms(1) same_outside_refl] assms(3)
    by (simp add: load_imports_def)
  from bind_imports_resolves [OF assms(1) this] assms(4,5)
  have "slot_resolved sys (import_resolver exit_hook l) name c' (f, p, slot)" by blast
  with assms(2) show ?thesis
    by (auto simp: slot_resolved_def import_target_def import_resolver_def)
qed

definition demo_component :: "nat component" where
  "demo_component = component_interface\<lparr>comp_post_start := (\<lambda>s. (None, s + 1)),
     comp_load_import := (\<lambda>m f. if f = lit ''f'' then 0x77 else 0)\<rparr>"

definition demo_start :: "nat loader" where
  "demo_start = \<lparr>components = [demo_component], start_handled = False, load_result = None,
     destroy_result = None, message_boxes = [], process_ended = False, process_state = 4\<rparr>"


theorem game_exit_is_hooked_witness:
  "\<exists>c'. load_imports demo_loader (import_resolver 0x99 demo_start) 0x10000 demo_image = Some (Inr c') \<and>
     read64 0x10288 c' = 0x77"
proof -
  let ?R = "import_resolver 0x99 demo_start"
  have list: "import_list demo_image 0x10000 {} (import_directory 0x10000 demo_image) [(lit ''A'', demo_entries)]"
    using demo_import_list by (simp add: demo_headers)
  have R: "?R (lit ''A'') (lit ''#5'') = 0" "?R (lit ''A'') (lit ''f'') = 0x77"
    by (simp_all add: import_resolver_def load_import_def demo_start_def demo_component_def
        component_interface_def lit_def)
  have "load_imports demo_loader ?R 0x10000 demo_image =
      Some (bind_imports demo_loader ?R [(lit ''A'', demo_entries)] demo_image)"
    using import_descriptors_bind [OF demo_import_list same_outside_refl]
    by (simp add: load_imports_def demo_headers)
  moreover have "\<exists>c'. bind_imports demo_loader ?R [(lit ''A'', demo_entries)] demo_image = Inr c'"
    by (simp add: demo_entries_def find_function_def demo_loader_def demo_system_def R
        lib_is_valid_def IMAGE_DOS_SIGNATURE_def read16_def fetch_patch_apart demo_reads [unfolded read16_def] Let_def)
  ultimately obtain c' where c': "load_imports demo_loader ?R 0x10000 demo_image = Some (Inr c')" by auto
  have "read64 0x10288 c' = 0x77"
    using game_exit_is_hooked [OF list _ c', of "lit ''A''" demo_entries "lit ''f''" "By_name (lit ''f'')" "0x10288"]
    by (simp add: demo_entries_def lit_def load_import_def demo_start_def demo_component_def component_interface_def)
  with c' show ?thesis by blast
qed

end
