(* ===== verification/Nt_Handles.thy ===== *)
theory Nt_Handles
  imports String_Utils "HOL-Library.Multiset"
begin

text \<open>
  The owners of system resources of \<open>utils::nt\<close> (src/common/utils/nt.hpp): the class
  template \<open>handle\<close>, which closes with \<open>CloseHandle\<close>, and \<open>registry_key\<close>, which closes with
  \<open>RegCloseKey\<close>; and \<open>open_or_create_registry_key\<close> (nt.cpp). The system is the multiset of
  what is open, with a count of the attempts to close what is not. An object is the value it
  holds. The contract the two classes share is the locale \<open>owner\<close>.
\<close>

section \<open>Model\<close>

type_synonym resource = "64 word"

record resources =
  open_set :: "resource multiset"
  bad_closes :: nat

definition close_resource :: "resource \<Rightarrow> resources \<Rightarrow> resources" where
  "close_resource h os =
     (if h \<in># open_set os then os\<lparr>open_set := open_set os - {#h#}\<rparr>
      else os\<lparr>bad_closes := Suc (bad_closes os)\<rparr>)"

definition open_resource :: "resource \<Rightarrow> resources \<Rightarrow> resources" where
  "open_resource h os = os\<lparr>open_set := add_mset h (open_set os)\<rparr>"

subsection \<open>\<open>handle\<close>\<close>

text \<open>The template's argument is the value that owns nothing.\<close>

definition handle_is_set :: "resource \<Rightarrow> resource \<Rightarrow> bool" where
  "handle_is_set invalid h \<longleftrightarrow> h \<noteq> invalid"

definition handle_destroy :: "resource \<Rightarrow> resource \<Rightarrow> resources \<Rightarrow> resource \<times> resources" where
  "handle_destroy invalid h os =
     (if handle_is_set invalid h then (invalid, close_resource h os) else (h, os))"

text \<open>Move assignment from a different object: both objects and the system.\<close>

definition handle_move_assign ::
    "resource \<Rightarrow> resource \<Rightarrow> resource \<Rightarrow> resources \<Rightarrow> resource \<times> resource \<times> resources" where
  "handle_move_assign invalid this obj os =
     (let (this', os') = handle_destroy invalid this os in (obj, invalid, os'))"

definition handle_move_construct ::
    "resource \<Rightarrow> resource \<Rightarrow> resources \<Rightarrow> resource \<times> resource \<times> resources" where
  "handle_move_construct invalid obj os = handle_move_assign invalid invalid obj os"

definition handle_assign :: "resource \<Rightarrow> resource \<Rightarrow> resource \<Rightarrow> resources \<Rightarrow> resource \<times> resources" where
  "handle_assign invalid this h os =
     (let (this', os') = handle_destroy invalid this os in (h, os'))"

subsection \<open>\<open>registry_key\<close>\<close>

definition key_is_set :: "resource \<Rightarrow> bool" where "key_is_set k \<longleftrightarrow> k \<noteq> 0"

definition key_destroy :: "resource \<Rightarrow> resources \<Rightarrow> resource \<times> resources" where
  "key_destroy k os = (if key_is_set k then (k, close_resource k os) else (k, os))"

definition key_move_assign ::
    "resource \<Rightarrow> resource \<Rightarrow> resources \<Rightarrow> resource \<times> resource \<times> resources" where
  "key_move_assign this obj os = (let (this', os') = key_destroy this os in (obj, 0, os'))"

definition key_move_construct :: "resource \<Rightarrow> resources \<Rightarrow> resource \<times> resource \<times> resources" where
  "key_move_construct obj os = key_move_assign 0 obj os"

text \<open>
  \<open>open_or_create_registry_key\<close>. The system answers the attempt to open and the attempt to
  create a part below a key; a success opens the key it gives. The object of the current key is
  built from the caller's base key. At a failure, and when a part's key replaces it, the
  current key is closed.
\<close>

type_synonym registry = "resource \<Rightarrow> byte list \<Rightarrow> resource option"

fun open_parts ::
    "registry \<Rightarrow> registry \<Rightarrow> byte list list \<Rightarrow> resource \<Rightarrow> resources \<Rightarrow> resource \<times> resources" where
  "open_parts opens creates [] current_key os = (current_key, os)"
| "open_parts opens creates (part # parts) current_key os =
     (let name = takeWhile (\<lambda>b. b \<noteq> 0) part in
      case (case opens current_key name of Some k \<Rightarrow> Some k | None \<Rightarrow> creates current_key name) of
        None \<Rightarrow> (0, snd (key_destroy current_key os))
      | Some k \<Rightarrow>
          (let (current', new_key, os') = key_move_assign current_key k (open_resource k os) in
           open_parts opens creates parts current' (snd (key_destroy new_key os'))))"

definition open_or_create_registry_key ::
    "registry \<Rightarrow> registry \<Rightarrow> resource \<Rightarrow> byte list \<Rightarrow> resources \<Rightarrow> resource \<times> resources" where
  "open_or_create_registry_key opens creates base input os =
     open_parts opens creates (split input 0x5C) base os"

section \<open>The contract of an owner\<close>

text \<open>
  Objects live in a list; a slot is empty once its object is destroyed. A step of the program
  makes an object from a fresh resource or by moving another, assigns, or destroys.
\<close>

datatype owner_step =
    Acquire resource
  | Move_construct nat
  | Move_assign nat nat
  | Assign nat resource
  | Destroy nat

type_synonym owners = "resource option list"

record owner_class =
  null_of :: resource
  destroy_of :: "resource \<Rightarrow> resources \<Rightarrow> resource \<times> resources"
  move_assign_of :: "resource \<Rightarrow> resource \<Rightarrow> resources \<Rightarrow> resource \<times> resource \<times> resources"
  move_construct_of :: "resource \<Rightarrow> resources \<Rightarrow> resource \<times> resource \<times> resources"
  assign_of :: "resource \<Rightarrow> resource \<Rightarrow> resources \<Rightarrow> resource \<times> resources"

definition acquire :: "owner_class \<Rightarrow> resource \<Rightarrow> resources \<Rightarrow> resources" where
  "acquire C h os = (if h = null_of C then os else open_resource h os)"

definition alive :: "nat \<Rightarrow> owners \<Rightarrow> bool" where
  "alive i objs \<longleftrightarrow> i < length objs \<and> objs ! i \<noteq> None"

fun owner_run :: "owner_class \<Rightarrow> owner_step \<Rightarrow> owners \<times> resources \<Rightarrow> owners \<times> resources" where
  "owner_run C (Acquire h) (objs, os) = (objs @ [Some h], acquire C h os)"
| "owner_run C (Move_construct j) (objs, os) =
     (if alive j objs then
        (let (new, old, os') = move_construct_of C (the (objs ! j)) os in
         (objs[j := Some old] @ [Some new], os'))
      else (objs, os))"
| "owner_run C (Move_assign i j) (objs, os) =
     (if i \<noteq> j \<and> alive i objs \<and> alive j objs then
        (let (this, obj, os') = move_assign_of C (the (objs ! i)) (the (objs ! j)) os in
         (objs[i := Some this, j := Some obj], os'))
      else (objs, os))"
| "owner_run C (Assign i h) (objs, os) =
     (if alive i objs then
        (let (this, os') = assign_of C (the (objs ! i)) h (acquire C h os) in (objs[i := Some this], os'))
      else (objs, os))"
| "owner_run C (Destroy i) (objs, os) =
     (if alive i objs then (objs[i := None], snd (destroy_of C (the (objs ! i)) os)) else (objs, os))"

definition held :: "resource \<Rightarrow> resource option \<Rightarrow> resource multiset" where
  "held null x = (case x of None \<Rightarrow> {#} | Some h \<Rightarrow> if h = null then {#} else {#h#})"

definition owned :: "resource \<Rightarrow> owners \<Rightarrow> resource multiset" where
  "owned null objs = sum_list (map (held null) objs)"

text \<open>Everything open has one owner, nothing else is owned, and nothing was closed twice.\<close>

definition owner_ok :: "resource \<Rightarrow> owners \<times> resources \<Rightarrow> bool" where
  "owner_ok null s \<longleftrightarrow> owned null (fst s) = open_set (snd s) \<and> bad_closes (snd s) = 0"

lemma owned_append [simp]: "owned null (xs @ [x]) = owned null xs + held null x"
  by (simp add: owned_def)

lemma held_simps [simp]:
  "held null None = {#}" "held null (Some null) = {#}" "h \<noteq> null \<Longrightarrow> held null (Some h) = {#h#}"
  by (simp_all add: held_def)

lemma owned_update:
  "i < length objs \<Longrightarrow> owned null (objs[i := x]) + held null (objs ! i) = owned null objs + held null x"
proof (induction objs arbitrary: i)
  case (Cons y ys)
  then show ?case by (cases i) (auto simp: owned_def ac_simps)
qed simp

lemma owned_without:
  "i < length objs \<Longrightarrow> owned null (objs[i := x]) = owned null (objs[i := None]) + held null x"
  using owned_update [of i "objs[i := None]" null x] by simp

lemma owned_at: "i < length objs \<Longrightarrow> owned null objs = owned null (objs[i := None]) + held null (objs ! i)"
  using owned_without [of i objs null "objs ! i"] by simp

lemma acquire_fields [simp]:
  "open_set (acquire C h os) = open_set os + held (null_of C) (Some h)"
  "bad_closes (acquire C h os) = bad_closes os"
  by (simp_all add: acquire_def open_resource_def held_def)

locale owner =
  fixes C :: owner_class
  assumes destroy_closes: "snd (destroy_of C h os) = (if h = null_of C then os else close_resource h os)"
    and move_assign_moves: "move_assign_of C this obj os = (obj, null_of C, snd (destroy_of C this os))"
    and move_construct_moves: "move_construct_of C obj os = (obj, null_of C, os)"
    and assign_sets: "assign_of C this h os = (h, snd (destroy_of C this os))"
begin

lemma destroy_held:
  assumes "open_set os = R + held (null_of C) (Some h)"
  shows "open_set (snd (destroy_of C h os)) = R" and "bad_closes (snd (destroy_of C h os)) = bad_closes os"
  using assms by (auto simp: destroy_closes held_def close_resource_def split: if_splits)

lemma step_ok:
  assumes "owner_ok (null_of C) (objs, os)"
  shows "owner_ok (null_of C) (owner_run C step (objs, os))"
proof (cases step)
  case (Acquire h)
  with assms show ?thesis by (simp add: owner_ok_def)
next
  case (Move_construct j)
  show ?thesis
  proof (cases "alive j objs")
    case True
    then obtain h where j: "j < length objs" "objs ! j = Some h" by (auto simp: alive_def)
    from assms Move_construct True show ?thesis
      using owned_without [OF j(1), of "null_of C" "Some (null_of C)"] owned_at [OF j(1), of "null_of C"]
      by (simp add: owner_ok_def move_construct_moves j)
  qed (use assms Move_construct in simp)
next
  case (Move_assign i j)
  show ?thesis
  proof (cases "i \<noteq> j \<and> alive i objs \<and> alive j objs")
    case True
    then obtain a b where i: "i < length objs" "objs ! i = Some a"
        and j: "j < length objs" "objs ! j = Some b" and neq: "i \<noteq> j"
      by (auto simp: alive_def)
    let ?R = "owned (null_of C) (objs[i := None, j := None])"
    have "owned (null_of C) objs = ?R + held (null_of C) (Some b) + held (null_of C) (Some a)"
      using owned_at [OF i(1), of "null_of C"] owned_at [of j "objs[i := None]" "null_of C"] i j neq by simp
    with assms have os: "open_set os = ?R + held (null_of C) (Some b) + held (null_of C) (Some a)"
      by (simp add: owner_ok_def)
    have "owned (null_of C) (objs[i := Some b, j := Some (null_of C)]) =
        ?R + held (null_of C) (Some b)"
      using owned_without [of i "objs[j := None]" "null_of C" "Some b"] i j neq
        owned_without [of j "objs[i := Some b]" "null_of C" "Some (null_of C)"]
      by (simp add: list_update_swap)
    with destroy_held [OF os] assms True Move_assign i j show ?thesis
      by (simp add: owner_ok_def move_assign_moves)
  qed (use assms Move_assign in auto)
next
  case (Assign i h)
  show ?thesis
  proof (cases "alive i objs")
    case True
    then obtain a where i: "i < length objs" "objs ! i = Some a" by (auto simp: alive_def)
    let ?R = "owned (null_of C) (objs[i := None])"
    have "open_set (acquire C h os) = (?R + held (null_of C) (Some h)) + held (null_of C) (Some a)"
      using assms owned_at [OF i(1), of "null_of C"] i by (simp add: owner_ok_def ac_simps)
    with destroy_held [OF this] assms True Assign i owned_without [OF i(1), of "null_of C" "Some h"]
    show ?thesis by (simp add: owner_ok_def assign_sets)
  qed (use assms Assign in simp)
next
  case (Destroy i)
  show ?thesis
  proof (cases "alive i objs")
    case True
    then obtain a where i: "i < length objs" "objs ! i = Some a" by (auto simp: alive_def)
    have "open_set os = owned (null_of C) (objs[i := None]) + held (null_of C) (Some a)"
      using assms owned_at [OF i(1), of "null_of C"] i by (simp add: owner_ok_def)
    from destroy_held [OF this] assms True Destroy i show ?thesis by (simp add: owner_ok_def)
  qed (use assms Destroy in simp)
qed

lemma run_ok: "owner_ok (null_of C) s \<Longrightarrow> owner_ok (null_of C) (fold (owner_run C) steps s)"
proof (induction steps arbitrary: s)
  case (Cons step steps)
  obtain objs os where "s = (objs, os)" by (cases s)
  with Cons step_ok show ?case by simp
qed simp

end

definition handle_class :: "resource \<Rightarrow> owner_class" where
  "handle_class invalid = \<lparr>null_of = invalid, destroy_of = handle_destroy invalid,
     move_assign_of = handle_move_assign invalid, move_construct_of = handle_move_construct invalid,
     assign_of = handle_assign invalid\<rparr>"

text \<open>A registry key is only ever assigned by moving a temporary.\<close>

definition key_class :: owner_class where
  "key_class = \<lparr>null_of = 0, destroy_of = key_destroy, move_assign_of = key_move_assign,
     move_construct_of = key_move_construct,
     assign_of = (\<lambda>this k os. let (this', temporary, os') = key_move_assign this k os in
        (this', snd (key_destroy temporary os')))\<rparr>"

interpretation handles: owner "handle_class invalid"
  by unfold_locales
    (simp_all add: handle_class_def handle_destroy_def handle_is_set_def handle_move_assign_def
      handle_move_construct_def handle_assign_def)

interpretation keys: owner key_class
  by unfold_locales
    (simp_all add: key_class_def key_destroy_def key_is_set_def key_move_assign_def key_move_construct_def)

section \<open>Properties\<close>


lemma destroyed_all_closed:
  "owner_ok null (replicate n None, os) \<Longrightarrow> open_set os = {#} \<and> bad_closes os = 0"
proof -
  have "owned null (replicate n None) = {#}" by (induction n) (simp_all add: owned_def)
  then show "owner_ok null (replicate n None, os) \<Longrightarrow> open_set os = {#} \<and> bad_closes os = 0"
    by (simp add: owner_ok_def)
qed

text \<open>
  \<open>open_or_create_registry_key\<close> gives the key of the last part and closes the keys of the
  others, and the caller's base key too; at a failure it closes everything it was given.
\<close>

lemma open_parts_balance:
  assumes "open_set os = R + held 0 (Some key)" and "bad_closes os = 0"
    and "\<forall>k name. opens k name \<noteq> Some 0 \<and> creates k name \<noteq> Some 0"
    and "open_parts opens creates parts key os = (result, os')"
  shows "open_set os' = R + held 0 (Some result) \<and> bad_closes os' = 0"
  using assms(1,2,4)
proof (induction parts arbitrary: key os)
  case (Cons part parts)
  let ?name = "takeWhile (\<lambda>b. b \<noteq> 0) part"
  let ?answer = "case opens key ?name of Some k \<Rightarrow> Some k | None \<Rightarrow> creates key ?name"
  show ?case
  proof (cases ?answer)
    case None
    with Cons.prems keys.destroy_held [of os R key] show ?thesis
      by (simp add: key_class_def)
  next
    case (Some k)
    with assms(3) have "k \<noteq> 0" by (auto split: option.splits)
    let ?os = "snd (key_destroy key (open_resource k os))"
    have "open_set (open_resource k os) = (R + {#k#}) + held 0 (Some key)"
      using Cons.prems(1) by (simp add: open_resource_def)
    from keys.destroy_held [of "open_resource k os" "R + {#k#}" key] this Cons.prems(2)
    have "open_set ?os = R + held 0 (Some k)" "bad_closes ?os = 0"
      using \<open>k \<noteq> 0\<close> by (simp_all add: key_class_def open_resource_def)
    moreover have "open_parts opens creates parts k ?os = (result, os')"
      using Cons.prems(3) Some by (simp add: key_move_assign_def key_destroy_def key_is_set_def Let_def split_def)
    ultimately show ?thesis by (rule Cons.IH)
  qed
qed simp

theorem open_or_create_closes_base:
  assumes "base \<in># open_set os" and "base \<noteq> 0" and "bad_closes os = 0"
    and "\<forall>k name. opens k name \<noteq> Some 0 \<and> creates k name \<noteq> Some 0"
    and "open_or_create_registry_key opens creates base input os = (result, os')"
  shows "open_set os' = open_set os - {#base#} + held 0 (Some result) \<and> bad_closes os' = 0"
  by (rule open_parts_balance [where key = base, OF _ assms(3,4)])
    (use assms(1,2,5) in \<open>simp_all add: open_or_create_registry_key_def\<close>)

theorem open_or_create_closes_base_witness:
  "open_or_create_registry_key (\<lambda>k name. if name = lit ''a'' then Some 7 else None) (\<lambda>k name. Some 8) 1
     (lit ''a'' @ [0x5C] @ lit ''b'') \<lparr>open_set = {#1, 2#}, bad_closes = 0\<rparr> =
     (8, \<lparr>open_set = {#2, 8#}, bad_closes = 0\<rparr>)"
proof -
  let ?r = "open_or_create_registry_key (\<lambda>k name. if name = lit ''a'' then Some 7 else None) (\<lambda>k name. Some 8) 1
     (lit ''a'' @ [0x5C] @ lit ''b'') \<lparr>open_set = {#1, 2#}, bad_closes = 0\<rparr>"
  have parts: "split (lit ''a'' @ [0x5C] @ lit ''b'') 0x5C = [lit ''a'', lit ''b'']"
    by (simp add: lit_def split.simps)
  have result: "fst ?r = 8"
    unfolding open_or_create_registry_key_def parts
    by (simp add: key_move_assign_def Let_def split_def lit_def)
  have "open_set (snd ?r) = {#1, 2#} - {#1#} + held 0 (Some (fst ?r)) \<and> bad_closes (snd ?r) = 0"
    using open_or_create_closes_base [OF _ _ _ _ surjective_pairing [of ?r]]
    by (simp split: if_splits)
  with result show ?thesis by (cases ?r) (auto simp: add_mset_commute intro: resources.equality)
qed

end
