(* ===== verification/Server_Console.thy ===== *)
theory Server_Console
  imports W3m_Prelude
begin

text \<open>
  The console of the server (src/server/console.cpp): coloured output, the formatting buffer
  and the handler of the interrupt signal, for both platforms the server is built for. The
  output is the list of what reaches the terminal. The formatted text is what \<open>vsnprintf\<close>
  makes of the message and its arguments, and does not fit the buffer when it is long. The
  lock of the stream makes a line atomic, so it has no state here.
\<close>

section \<open>Model\<close>

datatype platform = Windows | Posix

datatype console_output = Attribute u16 | Put byte | Title "byte list" | Flush

type_synonym color = "console_output list"

definition escape :: "byte list \<Rightarrow> color" where "escape s = map Put (0x1B # s)"

definition COLOR :: "platform \<Rightarrow> u16 \<Rightarrow> byte list \<Rightarrow> color" where
  "COLOR p win posix = (case p of Windows \<Rightarrow> [Attribute win] | Posix \<Rightarrow> escape posix)"

definition color_array :: "platform \<Rightarrow> color list" where
  "color_array p =
     [COLOR p 0x8 (lit ''[0;90m''), COLOR p 0xC (lit ''[0;91m''), COLOR p 0xA (lit ''[0;92m''),
      COLOR p 0xE (lit ''[0;93m''), COLOR p 0x9 (lit ''[0;94m''), COLOR p 0xB (lit ''[0;96m''),
      COLOR p 0xD (lit ''[0;95m''), COLOR p 0xF (lit ''[0;97m'')]"

definition COLOR_LOG_INFO :: "platform \<Rightarrow> color" where "COLOR_LOG_INFO p = COLOR p 11 (lit ''[0;36m'')"
definition COLOR_LOG_WARN :: "platform \<Rightarrow> color" where "COLOR_LOG_WARN p = COLOR p 14 (lit ''[0;33m'')"
definition COLOR_LOG_ERROR :: "platform \<Rightarrow> color" where "COLOR_LOG_ERROR p = COLOR p 12 (lit ''[0;31m'')"
definition COLOR_LOG_DEBUG :: "platform \<Rightarrow> color" where "COLOR_LOG_DEBUG p = COLOR p 15 (lit ''[0m'')"

definition set_color :: "color \<Rightarrow> console_output list \<Rightarrow> console_output list" where "set_color c out = out @ c"

definition reset_color :: "platform \<Rightarrow> console_output list \<Rightarrow> console_output list" where
  "reset_color p out = out @ (case p of Windows \<Rightarrow> [Attribute 7] | Posix \<Rightarrow> escape (lit ''[0m'')) @ [Flush]"

text \<open>A character of the line is a signed byte.\<close>

definition apply_color ::
    "platform \<Rightarrow> byte list \<Rightarrow> nat \<Rightarrow> color \<Rightarrow> console_output list \<Rightarrow> bool \<times> console_output list" where
  "apply_color p line index base_color out =
     (if line ! index \<noteq> 0x5E \<or> index + 1 \<ge> length line then (False, out)
      else let code = sint (line ! (index + 1)) - 48 in
        if code < 0 \<or> code > 11 then (False, out)
        else let code = min code 7 in
          if code = 7 then (True, set_color base_color out)
          else (True, set_color (color_array p ! nat code) out))"

function print_loop :: "platform \<Rightarrow> byte list \<Rightarrow> color \<Rightarrow> nat \<Rightarrow> console_output list \<Rightarrow> console_output list" where
  "print_loop p line base_color i out =
     (if i < length line then
        (case apply_color p line i base_color out of
           (True, out') \<Rightarrow> print_loop p line base_color (i + 2) out'
         | (False, out') \<Rightarrow> print_loop p line base_color (i + 1) (out' @ [Put (line ! i)]))
      else out)"
  by pat_completeness auto
termination by (relation "measure (\<lambda>(p, line, base_color, i, out). length line - i)") auto

declare print_loop.simps [simp del]

definition print_colored :: "platform \<Rightarrow> byte list \<Rightarrow> color \<Rightarrow> console_output list \<Rightarrow> console_output list" where
  "print_colored p line base_color out =
     reset_color p (print_loop p line base_color 0 (set_color base_color out))"

text \<open>
  \<open>format\<close>: \<open>vsnprintf\<close> gives the length the text would have had, and a string of that many
  bytes is read from the buffer of 4096; the function for Windows ends the program instead.
\<close>

definition format_message :: "platform \<Rightarrow> byte list \<Rightarrow> exn + byte list" where
  "format_message p formatted =
     (if length formatted < 0x1000 then Inr formatted
      else case p of Windows \<Rightarrow> Inl Std_terminate | Posix \<Rightarrow> Inl Undefined_behaviour)"

definition print_line ::
    "platform \<Rightarrow> byte list \<Rightarrow> color \<Rightarrow> byte list \<Rightarrow> console_output list \<Rightarrow> exn + console_output list" where
  "print_line p prefix base_color formatted out =
     exn_bind (format_message p formatted) (\<lambda>data.
       Inr (print_colored p (prefix @ data @ [10]) base_color out))"

definition console_info :: "platform \<Rightarrow> byte list \<Rightarrow> console_output list \<Rightarrow> exn + console_output list" where
  "console_info p message out = print_line p (lit ''[+] '') (COLOR_LOG_INFO p) message out"

definition console_warn :: "platform \<Rightarrow> byte list \<Rightarrow> console_output list \<Rightarrow> exn + console_output list" where
  "console_warn p message out = print_line p (lit ''[!] '') (COLOR_LOG_WARN p) message out"

definition console_error :: "platform \<Rightarrow> byte list \<Rightarrow> console_output list \<Rightarrow> exn + console_output list" where
  "console_error p message out = print_line p (lit ''[-] '') (COLOR_LOG_ERROR p) message out"

definition console_log :: "platform \<Rightarrow> byte list \<Rightarrow> console_output list \<Rightarrow> exn + console_output list" where
  "console_log p message out = print_line p (lit ''[*] '') (COLOR_LOG_DEBUG p) message out"

definition console_set_title :: "platform \<Rightarrow> byte list \<Rightarrow> console_output list \<Rightarrow> console_output list" where
  "console_set_title p title out = out @
     (let name = takeWhile (\<lambda>b. b \<noteq> 0) title in
      case p of Windows \<Rightarrow> [Title name]
      | Posix \<Rightarrow> escape (lit '']0;'') @ map Put name @ [Put 7, Flush])"

subsection \<open>The signal handler\<close>

text \<open>The callback is a function of the state \<open>'s\<close> of the program; the system has our handler or its own.\<close>

record 's signal_state =
  signal_installed :: bool
  signal_callback :: "('s \<Rightarrow> 's) option"
  system_handler :: bool

definition signal_handler :: "('s \<Rightarrow> 's) \<Rightarrow> 's signal_state \<Rightarrow> exn + 's signal_state" where
  "signal_handler callback st =
     (if signal_installed st then Inl (Runtime_error (lit ''Global signal handler already installed''))
      else Inr \<lparr>signal_installed = True, signal_callback = Some callback, system_handler = True\<rparr>)"

definition destroy_signal_handler :: "'s signal_state \<Rightarrow> 's signal_state" where
  "destroy_signal_handler st =
     st\<lparr>system_handler := False, signal_callback := None, signal_installed := False\<rparr>"

definition handle_signal :: "bool \<Rightarrow> 's signal_state \<Rightarrow> 's \<Rightarrow> 's" where
  "handle_signal interrupt st s =
     (case signal_callback st of Some f \<Rightarrow> if interrupt then f s else s | None \<Rightarrow> s)"

section \<open>Properties\<close>

text \<open>What a line writes, by recursion on the line: a caret and one of the twelve codes choose a
  colour, every other byte is itself.\<close>

definition is_color_code :: "byte \<Rightarrow> bool" where
  "is_color_code b \<longleftrightarrow> 48 \<le> sint b \<and> sint b \<le> 59"

definition color_of :: "platform \<Rightarrow> color \<Rightarrow> byte \<Rightarrow> color" where
  "color_of p base_color b =
     (if 55 \<le> sint b then base_color else color_array p ! nat (sint b - 48))"

fun rendered :: "platform \<Rightarrow> color \<Rightarrow> byte list \<Rightarrow> console_output list" where
  "rendered p base_color [] = []"
| "rendered p base_color [b] = [Put b]"
| "rendered p base_color (b # code # rest) =
     (if b = 0x5E \<and> is_color_code code then color_of p base_color code @ rendered p base_color rest
      else Put b # rendered p base_color (code # rest))"

lemma apply_color_rendered:
  assumes "i + 1 < length line"
  shows "apply_color p line i base_color out =
    (if line ! i = 0x5E \<and> is_color_code (line ! (i + 1))
     then (True, out @ color_of p base_color (line ! (i + 1))) else (False, out))"
  using assms
  by (auto simp: apply_color_def is_color_code_def color_of_def set_color_def Let_def min_def)

lemma print_loop_rendered:
  "print_loop p line base_color i out = out @ rendered p base_color (drop i line)"
proof (induction p line base_color i out rule: print_loop.induct)
  case (1 p line base_color i out)
  show ?case
  proof (cases "i < length line")
    case inside: True
    show ?thesis
    proof (cases "i + 1 < length line")
      case True
      have here: "drop i line = line ! i # line ! (i + 1) # drop (i + 2) line"
          and after: "drop (i + 1) line = line ! (i + 1) # drop (i + 2) line"
        using inside True by (simp_all add: Cons_nth_drop_Suc)
      show ?thesis
      proof (cases "line ! i = 0x5E \<and> is_color_code (line ! (i + 1))")
        case True
        then have step: "apply_color p line i base_color out = (True, out @ color_of p base_color (line ! (i + 1)))"
          by (simp add: apply_color_rendered [OF \<open>i + 1 < length line\<close>])
        from 1(1) [OF inside step [symmetric] refl] inside True show ?thesis
          by (subst print_loop.simps) (simp add: step here)
      next
        case False
        then have step: "apply_color p line i base_color out = (False, out)"
          by (simp only: apply_color_rendered [OF \<open>i + 1 < length line\<close>] if_False)
        have "rendered p base_color (drop i line) = Put (line ! i) # rendered p base_color (drop (i + 1) line)"
          unfolding here after using False by (simp only: rendered.simps if_False)
        with 1(2) [OF inside step [symmetric] refl] inside show ?thesis
          by (subst print_loop.simps) (simp add: step)
      qed
    next
      case False
      with inside have last: "drop i line = [line ! i]" "\<not> i + 1 < length line"
        by (simp_all add: Cons_nth_drop_Suc [symmetric])
      then show ?thesis using inside
        by (subst print_loop.simps, subst print_loop.simps) (simp add: apply_color_def)
    qed
  qed (simp add: print_loop.simps)
qed

text \<open>
  The loop over a line writes the base colour, the line with its colour codes turned into
  colours, and the reset of the colour.
\<close>

theorem print_colored_renders:
  "print_colored p line base_color out =
     out @ base_color @ rendered p base_color line @
       (case p of Windows \<Rightarrow> [Attribute 7] | Posix \<Rightarrow> escape (lit ''[0m'')) @ [Flush]"
  by (simp add: print_colored_def print_loop_rendered set_color_def reset_color_def)

lemma rendered_plain: "0x5E \<notin> set line \<Longrightarrow> rendered p base_color line = map Put line"
  by (induction p base_color line rule: rendered.induct) auto

lemma long_message_overruns_buffer:
  "0x1000 \<le> length message \<Longrightarrow> console_log Posix message out = Inl Undefined_behaviour"
  by (simp add: console_log_def print_line_def format_message_def)

text \<open>There is one handler at a time, and the next one can be installed when it is gone.\<close>

lemma one_signal_handler:
  "signal_handler f st = Inr st' \<Longrightarrow> \<exists>e. signal_handler g st' = Inl e"
  "signal_handler f st = Inr st' \<Longrightarrow> handle_signal True st' s = f s"
  "\<exists>st''. signal_handler g (destroy_signal_handler st') = Inr st''"
  by (auto simp: signal_handler_def destroy_signal_handler_def handle_signal_def split: if_splits)

end
