(* ===== verification/Threads.thy ===== *)
theory Threads
  imports W3m_Prelude
begin

text \<open>
  Threads and scopes (src/common/utils/thread.cpp, thread.hpp, finally.hpp, timer.hpp): the
  list of the threads of the process and the operations on every other thread, the action
  that runs at the end of a scope, and the timer. The snapshot is what the system writes,
  entry by entry; the threads are counted by how often they are suspended.
\<close>

section \<open>The threads of the process\<close>

record thread_entry =
  dwSize :: u32
  th32ThreadID :: u32
  th32OwnerProcessID :: u32

text \<open>The size test of an entry, as it is written: \<open>FIELD_OFFSET\<close> is 12, the field has 4 bytes.\<close>

definition check_size :: "thread_entry \<Rightarrow> bool" where
  "check_size entry \<longleftrightarrow> dwSize entry < 12 + 4"

fun collect_ids :: "u32 \<Rightarrow> thread_entry list \<Rightarrow> u32 list" where
  "collect_ids pid [] = []"
| "collect_ids pid (entry # entries) =
     (if check_size entry \<and> th32OwnerProcessID entry = pid then [th32ThreadID entry] else [])
       @ collect_ids pid entries"

definition get_thread_ids :: "u32 \<Rightarrow> thread_entry list option \<Rightarrow> u32 list" where
  "get_thread_ids pid snapshot = (case snapshot of None \<Rightarrow> [] | Some entries \<Rightarrow> collect_ids pid entries)"

type_synonym suspensions = "u32 \<Rightarrow> nat"

text \<open>\<open>OpenThread\<close> may refuse a thread.\<close>

definition for_each_thread ::
    "(u32 \<Rightarrow> bool) \<Rightarrow> (u32 \<Rightarrow> 's \<Rightarrow> 's) \<Rightarrow> u32 list \<Rightarrow> 's \<Rightarrow> 's" where
  "for_each_thread opens callback ids s = fold (\<lambda>tid s. if opens tid then callback tid s else s) ids s"

definition suspend_other_threads ::
    "(u32 \<Rightarrow> bool) \<Rightarrow> u32 \<Rightarrow> u32 \<Rightarrow> thread_entry list option \<Rightarrow> suspensions \<Rightarrow> suspensions" where
  "suspend_other_threads opens self pid snapshot =
     for_each_thread opens (\<lambda>tid s. if tid \<noteq> self then s(tid := Suc (s tid)) else s) (get_thread_ids pid snapshot)"

definition resume_other_threads ::
    "(u32 \<Rightarrow> bool) \<Rightarrow> u32 \<Rightarrow> u32 \<Rightarrow> thread_entry list option \<Rightarrow> suspensions \<Rightarrow> suspensions" where
  "resume_other_threads opens self pid snapshot =
     for_each_thread opens (\<lambda>tid s. if tid \<noteq> self then s(tid := s tid - 1) else s) (get_thread_ids pid snapshot)"

section \<open>The end of a scope\<close>

text \<open>
  An object of \<open>final_action\<close> is whether it will still run; the run count is what the actions
  have done. Copies of the action are made by moves only.
\<close>

datatype scope_step = Move_action nat | Cancel_action nat | Leave_action nat

type_synonym actions = "bool option list"

definition live_action :: "nat \<Rightarrow> actions \<Rightarrow> bool" where
  "live_action i objs \<longleftrightarrow> i < length objs \<and> objs ! i \<noteq> None"

fun scope_run :: "scope_step \<Rightarrow> actions \<times> nat \<Rightarrow> actions \<times> nat" where
  "scope_run (Move_action i) (objs, runs) =
     (if live_action i objs then (objs[i := Some False] @ [objs ! i], runs) else (objs, runs))"
| "scope_run (Cancel_action i) (objs, runs) =
     (if live_action i objs then (objs[i := Some False], runs) else (objs, runs))"
| "scope_run (Leave_action i) (objs, runs) =
     (if live_action i objs
      then (objs[i := None], if objs ! i = Some True then Suc runs else runs) else (objs, runs))"

section \<open>The timer\<close>

definition timer_update :: "int \<Rightarrow> int \<Rightarrow> int" where "timer_update now point = now"

definition has_elapsed :: "int \<Rightarrow> int \<Rightarrow> int \<Rightarrow> bool" where
  "has_elapsed duration now point \<longleftrightarrow> now - point > duration"

section \<open>Properties\<close>

text \<open>
  The system reports the whole entry, and the test only keeps shorter ones: the list of
  threads is always empty, and suspending the other threads suspends none.
\<close>

lemma collect_ids_full: "\<forall>e \<in> set entries. 16 \<le> dwSize e \<Longrightarrow> collect_ids pid entries = []"
  by (induction entries) (auto simp: check_size_def not_less)

theorem suspends_no_thread:
  assumes "snapshot = Some entries" and "\<forall>e \<in> set entries. 16 \<le> dwSize e"
  shows "get_thread_ids pid snapshot = [] \<and> suspend_other_threads opens self pid snapshot s = s"
  using assms collect_ids_full [of entries pid]
  by (simp add: get_thread_ids_def suspend_other_threads_def for_each_thread_def)

theorem suspends_no_thread_witness:
  "suspend_other_threads (\<lambda>t. True) 1 7
     (Some [\<lparr>dwSize = 28, th32ThreadID = 1, th32OwnerProcessID = 7\<rparr>,
            \<lparr>dwSize = 28, th32ThreadID = 2, th32OwnerProcessID = 7\<rparr>]) (\<lambda>t. 0) = (\<lambda>t. 0)"
  using suspends_no_thread [OF refl, of "[\<lparr>dwSize = 28, th32ThreadID = 1, th32OwnerProcessID = 7\<rparr>,
            \<lparr>dwSize = 28, th32ThreadID = 2, th32OwnerProcessID = 7\<rparr>]"] by simp

text \<open>Resuming undoes suspending, whatever the list is.\<close>

lemma resume_undoes_suspend:
  assumes "distinct (get_thread_ids pid snapshot)"
  shows "resume_other_threads opens self pid snapshot (suspend_other_threads opens self pid snapshot s) = s"
proof -
  have up: "fold (\<lambda>tid s. if opens tid then (if tid \<noteq> self then s(tid := Suc (s tid)) else s) else s) ids s t =
      s t + (if t \<in> set ids \<and> opens t \<and> t \<noteq> self then 1 else 0)" if "distinct ids" for ids and s :: suspensions and t
    using that by (induction ids arbitrary: s) auto
  have down: "fold (\<lambda>tid s. if opens tid then (if tid \<noteq> self then s(tid := s tid - 1) else s) else s) ids s t =
      s t - (if t \<in> set ids \<and> opens t \<and> t \<noteq> self then 1 else 0)" if "distinct ids" for ids and s :: suspensions and t
    using that by (induction ids arbitrary: s) auto
  show ?thesis
    unfolding resume_other_threads_def suspend_other_threads_def for_each_thread_def
    by (rule ext) (simp add: up [OF assms] down [OF assms])
qed

text \<open>However the object of a scope is moved, its action runs at most once, and exactly once if it
  is not cancelled and every object is left.\<close>

definition armed :: "actions \<Rightarrow> nat" where "armed objs = length (filter (\<lambda>x. x = Some True) objs)"

lemma armed_update:
  "i < length objs \<Longrightarrow> armed (objs[i := x]) + (if objs ! i = Some True then 1 else 0) =
     armed objs + (if x = Some True then 1 else 0)"
proof (induction objs arbitrary: i)
  case (Cons y ys)
  show ?case
  proof (cases i)
    case (Suc k)
    with Cons.prems Cons.IH [of k] show ?thesis by (auto simp: armed_def split: if_splits)
  qed (simp add: armed_def)
qed simp

lemma scope_step_conserves:
  assumes "\<forall>i. step \<noteq> Cancel_action i"
  shows "armed (fst (scope_run step (objs, runs))) + snd (scope_run step (objs, runs)) = armed objs + runs"
proof (cases step)
  case (Move_action i)
  show ?thesis
  proof (cases "live_action i objs")
    case True
    then have "i < length objs" by (simp add: live_action_def)
    from armed_update [OF this, of "Some False"] True Move_action show ?thesis
      by (simp add: armed_def split: if_splits)
  qed (simp add: Move_action)
next
  case (Leave_action i)
  show ?thesis
  proof (cases "live_action i objs")
    case True
    then have "i < length objs" by (simp add: live_action_def)
    from armed_update [OF this, of None] True Leave_action show ?thesis by (simp split: if_splits)
  qed (simp add: Leave_action)
qed (use assms in simp)

lemma scope_runs_once:
  assumes "\<forall>step \<in> set steps. \<forall>i. step \<noteq> Cancel_action i"
    and "fold scope_run steps ([Some True], 0) = (objs, runs)"
  shows "runs \<le> 1" and "set objs \<subseteq> {None} \<Longrightarrow> runs = 1"
proof -
  have "armed (fst (fold scope_run steps s)) + snd (fold scope_run steps s) = armed (fst s) + snd s"
    if "\<forall>step \<in> set steps. \<forall>i. step \<noteq> Cancel_action i" for s
    using that
  proof (induction steps arbitrary: s)
    case (Cons step steps)
    then show ?case using scope_step_conserves [of step "fst s" "snd s"] by simp
  qed simp
  from this [OF assms(1), of "([Some True], 0)"] assms(2)
  have *: "armed objs + runs = 1" by (simp add: armed_def)
  then show "runs \<le> 1" by simp
  show "runs = 1" if "set objs \<subseteq> {None}"
  proof -
    from that have "armed objs = 0" by (auto simp: armed_def filter_empty_conv)
    with * show ?thesis by simp
  qed
qed

end
