(* ===== verification/Smbios.thy ===== *)
theory Smbios
  imports Memory_Utils
begin

text \<open>
  The system identifier of the firmware (src/client/utils/smbios.cpp): a walk over the SMBIOS
  table. The table is the buffer the system fills, an 8-byte header first; reading past its
  end is undefined. Offsets are 32-bit numbers.
\<close>

section \<open>Model\<close>

definition byte_at :: "byte list \<Rightarrow> nat \<Rightarrow> exn + byte" where
  "byte_at data k = (if k < length data then Inr (data ! k) else Inl Undefined_behaviour)"

definition bytes_at :: "byte list \<Rightarrow> nat \<Rightarrow> nat \<Rightarrow> exn + byte list" where
  "bytes_at data k n = (if k + n \<le> length data then Inr (peek k n data) else Inl Undefined_behaviour)"

definition parse_uuid :: "byte list \<Rightarrow> byte list" where
  "parse_uuid data =
     (if is_set data 0 16 \<or> is_set data 0xFF 16 then []
      else rev (peek 0 4 data) @ rev (peek 4 2 data) @ rev (peek 6 2 data) @ peek 8 8 data)"

definition dword :: "nat \<Rightarrow> nat" where "dword n = n mod 2 ^ 32"

text \<open>The end of the strings of a structure: the first two zero bytes, or the end of the table.\<close>

partial_function (option) strings_end :: "byte list \<Rightarrow> nat \<Rightarrow> nat \<Rightarrow> (exn + nat) option" where
  "strings_end data len i =
     (if dword (i + 1) < len then
        (case bytes_at data (8 + i) 2 of
           Inl e \<Rightarrow> Some (Inl e)
         | Inr two \<Rightarrow> if two \<noteq> [0, 0] then strings_end data len (dword (i + 1)) else Some (Inr i))
      else Some (Inr i))"

partial_function (option) walk :: "byte list \<Rightarrow> nat \<Rightarrow> nat \<Rightarrow> (exn + byte list) option" where
  "walk data len i =
     (if i + 4 < len then
        (case bytes_at data (8 + i) 2 of
           Inl e \<Rightarrow> Some (Inl e)
         | Inr header \<Rightarrow>
             let type = header ! 0; size = unat (header ! 1) in
             if size < 4 then Some (Inr [])
             else if type = 1 \<and> size \<ge> 0x19 then
               Some (case bytes_at data (8 + i + 8) 16 of Inl e \<Rightarrow> Inl e | Inr bs \<Rightarrow> Inr (parse_uuid bs))
             else Option.bind (strings_end data len (dword (i + size))) (\<lambda>r. case r of
                 Inl e \<Rightarrow> Some (Inl e)
               | Inr j \<Rightarrow> walk data len (dword (j + 2))))
      else Some (Inr []))"

definition get_uuid :: "byte list \<Rightarrow> (exn + byte list) option" where
  "get_uuid data =
     (case bytes_at data 4 4 of
        Inl e \<Rightarrow> Some (Inl e)
      | Inr len \<Rightarrow> walk data (unat (bytes_u32 len)) 0)"

section \<open>Tables\<close>

text \<open>
  A structure: its type, its fixed part after type and length, and its strings, in which two
  zero bytes in a row are only at the end.
\<close>

record smbios_structure =
  str_type :: byte
  str_body :: "byte list"
  str_strings :: "byte list"

definition str_size :: "smbios_structure \<Rightarrow> nat" where "str_size s = 2 + length (str_body s)"

definition encode_structure :: "smbios_structure \<Rightarrow> byte list" where
  "encode_structure s = [str_type s, of_nat (str_size s)] @ str_body s @ str_strings s @ [0, 0]"

fun no_double_zero :: "byte list \<Rightarrow> bool" where
  "no_double_zero (a # b # rest) \<longleftrightarrow> \<not> (a = 0 \<and> b = 0) \<and> no_double_zero (b # rest)"
| "no_double_zero _ \<longleftrightarrow> True"

definition valid_structure :: "smbios_structure \<Rightarrow> bool" where
  "valid_structure s \<longleftrightarrow> 2 \<le> length (str_body s) \<and> str_size s < 256 \<and>
     no_double_zero (str_strings s @ [0])"

definition is_system :: "smbios_structure \<Rightarrow> bool" where
  "is_system s \<longleftrightarrow> str_type s = 1 \<and> 0x19 \<le> str_size s"

definition system_uuid :: "smbios_structure list \<Rightarrow> byte list" where
  "system_uuid ss = (case List.find is_system ss of
     None \<Rightarrow> [] | Some s \<Rightarrow> parse_uuid (peek 6 16 (str_body s)))"

definition table :: "byte list \<Rightarrow> smbios_structure list \<Rightarrow> byte list" where
  "table version ss = version @ u32_bytes (of_nat (length (concat (map encode_structure ss)))) @
     concat (map encode_structure ss)"

lemma bytes_at_middle:
  "length xs = k \<Longrightarrow> length ys = n \<Longrightarrow> bytes_at (xs @ ys @ zs) k n = Inr ys"
  by (simp add: bytes_at_def peek_def)

lemma strings_end_finds:
  assumes "data = pre @ strings @ [0, 0] @ post" and "length pre = 8 + i" and "no_double_zero (strings @ [0])"
    and "i + length strings + 2 \<le> len" and "len < 2 ^ 32"
  shows "strings_end data len i = Some (Inr (i + length strings))"
  using assms
proof (induction strings arbitrary: pre i)
  case Nil
  have "bytes_at data (8 + i) 2 = Inr [0, 0]"
    using bytes_at_middle [of pre "8 + i" "[0, 0]" 2 post] Nil.prems by simp
  then show ?case using Nil.prems by (subst strings_end.simps) (simp add: dword_def)
next
  case (Cons b strings)
  obtain c rest where next_byte: "strings @ [0, 0] @ post = c # rest" "strings @ [0] = c # tl (strings @ [0])"
    by (cases strings) auto
  have "\<not> (b = 0 \<and> c = 0)" and no_double: "no_double_zero (strings @ [0])"
    using Cons.prems(3) next_byte(2) by (metis append_Cons no_double_zero.simps(1))+
  have two: "bytes_at data (8 + i) 2 = Inr [b, c]"
    using bytes_at_middle [of pre "8 + i" "[b, c]" 2 rest] Cons.prems next_byte(1) by simp
  have "strings_end data len (i + 1) = Some (Inr (i + 1 + length strings))"
    by (rule Cons.IH [of "pre @ [b]"]) (use Cons.prems no_double in simp_all)
  then show ?case using Cons.prems two \<open>\<not> (b = 0 \<and> c = 0)\<close>
    by (subst strings_end.simps) (auto simp: dword_def)
qed

lemma length_encode [simp]:
  "length (encode_structure s) = str_size s + length (str_strings s) + 2"
  by (simp add: encode_structure_def str_size_def)

lemma walk_finds:
  assumes "data = pre @ concat (map encode_structure ss)" and "length pre = 8 + i"
    and "list_all valid_structure ss" and "len = i + length (concat (map encode_structure ss))"
    and "len + 2 < 2 ^ 32"
  shows "walk data len i = Some (Inr (system_uuid ss))"
  using assms
proof (induction ss arbitrary: pre i)
  case Nil
  then show ?case by (subst walk.simps) (simp add: system_uuid_def)
next
  case (Cons s ss)
  let ?rest = "concat (map encode_structure ss)"
  have valid: "2 \<le> length (str_body s)" "str_size s < 256" "no_double_zero (str_strings s @ [0])"
    using Cons.prems(3) by (simp_all add: valid_structure_def)
  have len: "len = i + str_size s + length (str_strings s) + 2 + length ?rest"
    using Cons.prems(4) by simp
  have header: "bytes_at data (8 + i) 2 = Inr [str_type s, of_nat (str_size s)]"
    using bytes_at_middle [of pre "8 + i" "[str_type s, of_nat (str_size s)]" 2] Cons.prems(1,2)
    by (simp add: encode_structure_def)
  have size: "unat (of_nat (str_size s) :: byte) = str_size s"
    using valid(2) by (simp add: unat_of_nat)
  have "4 \<le> str_size s" using valid(1) by (simp add: str_size_def)
  then have inside: "i + 4 < len" "4 \<le> str_size s" using len by linarith+
  show ?case
  proof (cases "is_system s")
    case True
    have "length (str_body s) \<ge> 22" using True by (simp add: is_system_def str_size_def)
    then have "bytes_at data (8 + i + 8) 16 = Inr (peek 6 16 (str_body s))"
      using Cons.prems(1,2) by (simp add: bytes_at_def encode_structure_def peek_def)
    then show ?thesis using True inside
      by (subst walk.simps) (simp add: header size is_system_def system_uuid_def Let_def)
  next
    case False
    let ?pre = "pre @ [str_type s, of_nat (str_size s)] @ str_body s"
    have "strings_end data len (i + str_size s) = Some (Inr (i + str_size s + length (str_strings s)))"
    proof (rule strings_end_finds)
      show "data = ?pre @ str_strings s @ [0, 0] @ ?rest"
        using Cons.prems(1) encode_structure_def [of s] by simp
    qed (use Cons.prems(2,5) len valid in \<open>simp_all add: str_size_def\<close>)
    moreover have "walk data len (i + str_size s + length (str_strings s) + 2) = Some (Inr (system_uuid ss))"
      by (rule Cons.IH [of "pre @ encode_structure s"])
        (use Cons.prems len in \<open>simp_all add: str_size_def\<close>)
    moreover have "system_uuid (s # ss) = system_uuid ss" using False by (simp add: system_uuid_def)
    moreover have "dword (i + str_size s) = i + str_size s"
      "dword (i + str_size s + length (str_strings s) + 2) = i + str_size s + length (str_strings s) + 2"
      using len Cons.prems(5) by (simp_all add: dword_def)
    ultimately show ?thesis using inside False
      by (subst walk.simps) (auto simp: header size is_system_def Let_def)
  qed
qed

text \<open>C38: 
  On a table of valid structures the walk returns, reads nothing outside the table and gives
  the identifier of the first system structure, with its three leading fields in big-endian
  order, or nothing when there is none or it is not set.
\<close>

theorem uuid_of_first_system:
  assumes "length version = 4" and "list_all valid_structure ss"
    and "length (concat (map encode_structure ss)) + 2 < 2 ^ 32"
  shows "get_uuid (table version ss) = Some (Inr (system_uuid ss))"
proof -
  let ?body = "concat (map encode_structure ss)"
  have len: "unat (of_nat (length ?body) :: u32) = length ?body"
    using assms(3) by (simp add: unat_of_nat)
  have "bytes_at (table version ss) 4 4 = Inr (u32_bytes (of_nat (length ?body)))"
    unfolding table_def by (rule bytes_at_middle) (simp_all add: assms(1))
  moreover have "walk (table version ss) (length ?body) 0 = Some (Inr (system_uuid ss))"
    by (rule walk_finds [where pre = "version @ u32_bytes (of_nat (length ?body))"])
      (use assms in \<open>simp_all add: table_def\<close>)
  ultimately show ?thesis by (simp add: get_uuid_def len)
qed

theorem uuid_of_first_system_witness:
  "get_uuid (table [0, 3, 1, 0]
     [\<lparr>str_type = 0, str_body = [7, 0], str_strings = [65, 0, 66]\<rparr>,
      \<lparr>str_type = 1, str_body = replicate 22 1 @ [9], str_strings = []\<rparr>]) =
   Some (Inr (replicate 16 1))"
proof -
  let ?ss = "[\<lparr>str_type = 0, str_body = [7, 0], str_strings = [65, 0, 66]\<rparr>,
      \<lparr>str_type = 1, str_body = replicate 22 1 @ [9], str_strings = []\<rparr>]"
  have "get_uuid (table [0, 3, 1, 0] ?ss) = Some (Inr (system_uuid ?ss))"
    by (rule uuid_of_first_system) (simp_all add: valid_structure_def str_size_def encode_structure_def)
  also have "system_uuid ?ss = replicate 16 1"
    by code_simp
  finally show ?thesis .
qed

text \<open>Without a table the length is read through the null pointer; a structure that is longer
  than the table is read past its end.\<close>

lemma no_table_is_undefined: "get_uuid [] = Some (Inl Undefined_behaviour)"
  by (simp add: get_uuid_def bytes_at_def)

lemma truncated_structure_overreads:
  "walk (replicate 8 0 @ [1, 0x19, 0, 0, 0]) 5 0 = Some (Inl Undefined_behaviour)"
  by (subst walk.simps) (simp add: bytes_at_def peek_def)

end
