(* ===== verification/Ciphers.thy ===== *)
theory Ciphers
  imports Crypto Smbios
begin

text \<open>
  The rest of \<open>utils::cryptography\<close> (src/common/utils/cryptography.cpp): block ciphers in CBC
  mode, the Tiger hash, HMAC, base64 and the generator behind keys made from given entropy;
  and what the client makes its key from (src/client/utils/identity.cpp). The functions of
  libtomcrypt are a record; a chaining mode that could not be started is used uninitialised,
  and an error of the library is not looked at.
\<close>

section \<open>The library\<close>

datatype cipher = Aes | Des3

record 'p cipher_lib =
  cbc_starts :: "cipher \<Rightarrow> byte list \<Rightarrow> byte list \<Rightarrow> bool"
  cbc_encrypted :: "cipher \<Rightarrow> byte list \<Rightarrow> byte list \<Rightarrow> byte list \<Rightarrow> byte list option"
  cbc_decrypted :: "cipher \<Rightarrow> byte list \<Rightarrow> byte list \<Rightarrow> byte list \<Rightarrow> byte list option"
  tiger_digest :: "byte list \<Rightarrow> byte list"
  hmac_sha1_digest :: "byte list \<Rightarrow> byte list \<Rightarrow> byte list"
  base64_encoded :: "nat \<Rightarrow> byte list \<Rightarrow> byte list option"
  base64_decoded :: "nat \<Rightarrow> byte list \<Rightarrow> byte list option"
  prng_start :: 'p
  prng_add_entropy :: "byte list \<Rightarrow> 'p \<Rightarrow> 'p"
  prng_ready :: "'p \<Rightarrow> 'p"
  ecc_make_key :: "nat \<Rightarrow> 'p \<Rightarrow> key"

section \<open>Model\<close>

text \<open>The result has the size of the data; what the library does not write stays zero.\<close>

definition cbc_run ::
    "'p cipher_lib \<Rightarrow> cipher \<Rightarrow> (byte list \<Rightarrow> byte list option) \<Rightarrow> byte list \<Rightarrow> byte list \<Rightarrow> byte list \<Rightarrow>
     exn + byte list" where
  "cbc_run L c f data iv k =
     (if \<not> cbc_starts L c iv k then Inl Undefined_behaviour
      else Inr (case f data of Some out \<Rightarrow> out | None \<Rightarrow> replicate (length data) 0))"

definition des3_encrypt :: "'p cipher_lib \<Rightarrow> byte list \<Rightarrow> byte list \<Rightarrow> byte list \<Rightarrow> exn + byte list" where
  "des3_encrypt L data iv k = cbc_run L Des3 (cbc_encrypted L Des3 iv k) data iv k"

definition des3_decrypt :: "'p cipher_lib \<Rightarrow> byte list \<Rightarrow> byte list \<Rightarrow> byte list \<Rightarrow> exn + byte list" where
  "des3_decrypt L data iv k = cbc_run L Des3 (cbc_decrypted L Des3 iv k) data iv k"

definition aes_encrypt :: "'p cipher_lib \<Rightarrow> byte list \<Rightarrow> byte list \<Rightarrow> byte list \<Rightarrow> exn + byte list" where
  "aes_encrypt L data iv k = cbc_run L Aes (cbc_encrypted L Aes iv k) data iv k"

definition aes_decrypt :: "'p cipher_lib \<Rightarrow> byte list \<Rightarrow> byte list \<Rightarrow> byte list \<Rightarrow> exn + byte list" where
  "aes_decrypt L data iv k = cbc_run L Aes (cbc_decrypted L Aes iv k) data iv k"

definition tiger_compute :: "'p cipher_lib \<Rightarrow> byte list \<Rightarrow> bool \<Rightarrow> byte list" where
  "tiger_compute L data hex = hex_or_raw (tiger_digest L data) hex"

definition hmac_sha1_compute :: "'p cipher_lib \<Rightarrow> byte list \<Rightarrow> byte list \<Rightarrow> byte list" where
  "hmac_sha1_compute L data k = hmac_sha1_digest L k data"

definition base64_size :: "nat \<Rightarrow> nat" where "base64_size n = (n + 2) * 2"

definition base64_encode :: "'p cipher_lib \<Rightarrow> byte list \<Rightarrow> byte list" where
  "base64_encode L data = bytes_or_empty (base64_encoded L (base64_size (length data)) data)"

definition base64_decode :: "'p cipher_lib \<Rightarrow> byte list \<Rightarrow> byte list" where
  "base64_decode L data = bytes_or_empty (base64_decoded L (base64_size (length data)) data)"

text \<open>A key from given entropy: a generator of its own, without a seed of the system.\<close>

definition generate_key :: "'p cipher_lib \<Rightarrow> nat \<Rightarrow> byte list \<Rightarrow> key" where
  "generate_key L bits entropy =
     ecc_make_key L (bits div 8) (prng_ready L (prng_add_entropy L entropy (prng_start L)))"

subsection \<open>The identity of the client\<close>

text \<open>What the system answers, empty where it does not; \<open>random_data\<close> is the last resort.\<close>

record machine =
  firmware :: "byte list"
  hw_profile_guid :: "byte list"
  protected_data :: "byte list"
  hdd_serial :: "byte list"
  random_data :: "nat \<Rightarrow> byte list"

definition get_protected_data :: "byte list option \<Rightarrow> byte list" where
  "get_protected_data blob = (case blob of None \<Rightarrow> [] | Some bs \<Rightarrow> take 52 bs)"

definition get_key_entropy :: "machine \<Rightarrow> (exn + byte list) option" where
  "get_key_entropy m =
     (case get_uuid (firmware m) of
        None \<Rightarrow> None
      | Some (Inl e) \<Rightarrow> Some (Inl e)
      | Some (Inr uuid) \<Rightarrow>
          (let entropy = uuid @ hw_profile_guid m @ protected_data m @ hdd_serial m in
           Some (Inr (if entropy = [] then random_data m 32 else entropy))))"

text \<open>\<open>get_key\<close>: the key is made once, at the first call.\<close>

definition client_key :: "'p cipher_lib \<Rightarrow> machine \<Rightarrow> key option \<Rightarrow> (exn + key) option" where
  "client_key L m made =
     (case made of
        Some k \<Rightarrow> Some (Inr k)
      | None \<Rightarrow> map_option (\<lambda>r. exn_bind r (\<lambda>entropy. Inr (generate_key L 512 entropy))) (get_key_entropy m))"

section \<open>Properties\<close>

text \<open>
  Decryption with the same vector and key gives back data the library can encrypt, data of any
  other length is silently lost: every byte of the result is zero.
\<close>

definition cbc_inverse :: "'p cipher_lib \<Rightarrow> bool" where
  "cbc_inverse L \<longleftrightarrow> (\<forall>c iv k data out. cbc_encrypted L c iv k data = Some out \<longrightarrow>
     length out = length data \<and> cbc_decrypted L c iv k out = Some data)"

theorem aes_roundtrip:
  assumes "cbc_inverse L" and "cbc_starts L Aes iv k"
  shows "case cbc_encrypted L Aes iv k data of
      Some c \<Rightarrow> aes_encrypt L data iv k = Inr c \<and> aes_decrypt L c iv k = Inr data
    | None \<Rightarrow> aes_encrypt L data iv k = Inr (replicate (length data) 0)"
  using assms by (auto simp: aes_encrypt_def aes_decrypt_def cbc_run_def cbc_inverse_def split: option.splits)

text \<open>The buffer for the encoded text is never too small.\<close>

lemma base64_fits: "4 * ((n + 2) div 3) + 1 \<le> base64_size n"
  by (simp add: base64_size_def)

lemma base64_encode_succeeds:
  assumes "\<forall>n bs. 4 * ((length bs + 2) div 3) + 1 \<le> n \<longrightarrow> base64_encoded L n bs = Some (f bs)"
  shows "base64_encode L data = f data"
  using assms base64_fits [of "length data"] by (simp add: base64_encode_def bytes_or_empty_def)

text \<open>A machine with an answer to any of the four questions has one key, start after start.\<close>

lemma key_from_hardware:
  assumes "get_uuid (firmware m) = Some (Inr uuid)"
    and "uuid @ hw_profile_guid m @ protected_data m @ hdd_serial m \<noteq> []"
  shows "client_key L (m\<lparr>random_data := r\<rparr>) None = client_key L m None"
  using assms by (auto simp: client_key_def get_key_entropy_def Let_def)

end
