(* ===== verification/Flags.thy ===== *)
theory Flags
  imports String_Utils
begin

text \<open>
  \<open>utils::flags\<close> (src/common/utils/flags.cpp): the arguments of the program that begin with a
  dash, without it and in lower case. \<open>argv\<close> is \<open>None\<close> when it is null; a null argument
  is \<open>None\<close>; an argument is a C string, so it holds no zero byte.
\<close>

section \<open>Model\<close>

fun flags_loop :: "nat \<Rightarrow> byte list option list \<Rightarrow> byte list set \<Rightarrow> byte list set" where
  "flags_loop 0 args flags = flags"
| "flags_loop (Suc n) [] flags = flags"
| "flags_loop (Suc n) (None # args) flags = flags"
| "flags_loop (Suc n) (Some flag # args) flags =
     flags_loop n args
       (if flag \<noteq> [] \<and> hd flag = 0x2D then insert (to_lower (tl flag)) flags else flags)"

definition parse_flags :: "nat \<Rightarrow> byte list option list option \<Rightarrow> byte list set" where
  "parse_flags argc argv = (case argv of None \<Rightarrow> {} | Some args \<Rightarrow> flags_loop argc args {})"

definition has_flag :: "byte list set \<Rightarrow> byte list \<Rightarrow> bool" where
  "has_flag flags flag \<longleftrightarrow> to_lower flag \<in> flags"

section \<open>Properties\<close>

lemma flags_loop_set:
  "n \<le> length args \<Longrightarrow> flags_loop n (map Some args) flags =
     flags \<union> {to_lower name |name. 0x2D # name \<in> set (take n args)}"
proof (induction n arbitrary: args flags)
  case (Suc n)
  then obtain a as where args: "args = a # as" "n \<le> length as" by (cases args) auto
  show ?case
  proof (cases "a \<noteq> [] \<and> hd a = 0x2D")
    case True
    then have a: "a = 0x2D # tl a" by (metis list.collapse)
    have "{to_lower name |name. 0x2D # name \<in> set (take (Suc n) args)} =
        insert (to_lower (tl a)) {to_lower name |name. 0x2D # name \<in> set (take n as)}"
      using a by (auto simp: args)
    with Suc.IH [OF args(2)] True show ?thesis by (simp add: args)
  next
    case False
    then have "0x2D # name \<noteq> a" for name by auto
    with Suc.IH [OF args(2)] False show ?thesis by (auto simp: args)
  qed
qed simp

text \<open>A flag is set when one of the arguments is a dash and the flag, whatever the case of both.\<close>

theorem flag_is_set_iff:
  assumes "argc = length args"
  shows "has_flag (parse_flags argc (Some (map Some args))) flag \<longleftrightarrow>
    (\<exists>name. 0x2D # name \<in> set args \<and> to_lower name = to_lower flag)"
  using flags_loop_set [of argc args "{}"] assms by (auto simp: has_flag_def parse_flags_def)

theorem flag_is_set_iff_witness:
  "has_flag (parse_flags 2 (Some (map Some [lit ''w3m.exe'', lit ''-NoUpdate'']))) (lit ''noupdate'')"
  using flag_is_set_iff [of 2 "[lit ''w3m.exe'', lit ''-NoUpdate'']" "lit ''noupdate''"]
  by (simp add: lit_def to_lower_def tolower_def is_upper_def)

end
