(* ===== verification/Scheduler.thy ===== *)
theory Scheduler
  imports W3m_Prelude "HOL-Library.Multiset"
begin

text \<open>
  The scheduler (src/client/module/scheduler.cpp, scheduler.hpp): two pipelines of tasks.
  A handler is a callback that continues (\<open>loop\<close>) or ends (\<open>once\<close>), or one that
  decides. What callbacks do is a parameter: from the state \<open>'w\<close> of the process, the tasks
  they schedule themselves, whether they end, and an exception. Time is in nanoseconds,
  read once per task. A callback does not execute a pipeline. \<open>requested\<close> and \<open>finished\<close>
  record the one-time callbacks that were scheduled and that ran to their end.
\<close>

section \<open>Model\<close>

datatype pipeline = Async | Renderer

datatype 'c handler = Once 'c | Loop 'c | Custom 'c

record 'c task =
  task_handler :: "'c handler"
  task_interval :: int
  last_call :: int

record ('c, 'w) callback_result =
  result_end :: bool
  result_exception :: "exn option"
  result_schedules :: "('c handler \<times> pipeline \<times> int) list"
  result_world :: 'w

type_synonym ('c, 'w) behaviour = "'c \<Rightarrow> 'w \<Rightarrow> ('c, 'w) callback_result"

record ('c, 'w) scheduler =
  new_callbacks :: "pipeline \<Rightarrow> 'c task list"
  callbacks :: "pipeline \<Rightarrow> 'c task list"
  clock :: "nat \<Rightarrow> int"
  readings :: nat
  world :: 'w
  requested :: "'c list"
  finished :: "'c list"

definition read_clock :: "('c, 'w) scheduler \<Rightarrow> int \<times> ('c, 'w) scheduler" where
  "read_clock s = (clock s (readings s), s\<lparr>readings := Suc (readings s)\<rparr>)"

definition add_task :: "pipeline \<Rightarrow> 'c task \<Rightarrow> ('c, 'w) scheduler \<Rightarrow> ('c, 'w) scheduler" where
  "add_task p t s = s\<lparr>new_callbacks := (new_callbacks s)(p := new_callbacks s p @ [t])\<rparr>"

definition schedule :: "'c handler \<Rightarrow> pipeline \<Rightarrow> int \<Rightarrow> ('c, 'w) scheduler \<Rightarrow> ('c, 'w) scheduler" where
  "schedule h p delay s =
     (let (now, s1) = read_clock s in
      add_task p \<lparr>task_handler = h, task_interval = delay, last_call = now\<rparr>
        (s1\<lparr>requested := requested s1 @ (case h of Once c \<Rightarrow> [c] | _ \<Rightarrow> [])\<rparr>))"

definition schedule_loop :: "'c \<Rightarrow> pipeline \<Rightarrow> int \<Rightarrow> ('c, 'w) scheduler \<Rightarrow> ('c, 'w) scheduler" where
  "schedule_loop c p delay s = schedule (Loop c) p delay s"

definition schedule_once :: "'c \<Rightarrow> pipeline \<Rightarrow> int \<Rightarrow> ('c, 'w) scheduler \<Rightarrow> ('c, 'w) scheduler" where
  "schedule_once c p delay s = schedule (Once c) p delay s"

definition merge_callbacks :: "pipeline \<Rightarrow> ('c, 'w) scheduler \<Rightarrow> ('c, 'w) scheduler" where
  "merge_callbacks p s =
     s\<lparr>callbacks := (callbacks s)(p := callbacks s p @ new_callbacks s p),
       new_callbacks := (new_callbacks s)(p := [])\<rparr>"

fun schedule_all :: "('c handler \<times> pipeline \<times> int) list \<Rightarrow> ('c, 'w) scheduler \<Rightarrow> ('c, 'w) scheduler" where
  "schedule_all [] s = s"
| "schedule_all ((h, p, delay) # rest) s = schedule_all rest (schedule h p delay s)"

text \<open>
  A handler: the exception it throws, or whether it ends.
\<close>

definition run_handler ::
    "('c, 'w) behaviour \<Rightarrow> 'c handler \<Rightarrow> ('c, 'w) scheduler \<Rightarrow> (exn + bool) \<times> ('c, 'w) scheduler" where
  "run_handler B h s =
     (let c = (case h of Once c \<Rightarrow> c | Loop c \<Rightarrow> c | Custom c \<Rightarrow> c);
          r = B c (world s);
          s1 = schedule_all (result_schedules r) (s\<lparr>world := result_world r\<rparr>)
      in case result_exception r of
           Some e \<Rightarrow> (Inl e, s1)
         | None \<Rightarrow>
             (case h of
                Once c' \<Rightarrow> (Inr True, s1\<lparr>finished := finished s1 @ [c']\<rparr>)
              | Loop c' \<Rightarrow> (Inr False, s1)
              | Custom c' \<Rightarrow> (Inr (result_end r), s1)))"

text \<open>
  The loop over the tasks: those already visited, and those to visit. The vector itself is
  only touched here, so it is written back at the end, also when a handler throws.
\<close>

fun execute_tasks ::
    "('c, 'w) behaviour \<Rightarrow> pipeline \<Rightarrow> 'c task list \<Rightarrow> 'c task list \<Rightarrow> ('c, 'w) scheduler \<Rightarrow>
     exn option \<times> ('c, 'w) scheduler" where
  "execute_tasks B p visited [] s = (None, s\<lparr>callbacks := (callbacks s)(p := visited)\<rparr>)"
| "execute_tasks B p visited (t # ts) s =
     (let (now, s1) = read_clock s in
      if now - last_call t < task_interval t then execute_tasks B p (visited @ [t]) ts s1
      else let t' = t\<lparr>last_call := now\<rparr> in
        case run_handler B (task_handler t) s1 of
          (Inl e, s2) \<Rightarrow> (Some e, s2\<lparr>callbacks := (callbacks s2)(p := visited @ t' # ts)\<rparr>)
        | (Inr True, s2) \<Rightarrow> execute_tasks B p visited ts s2
        | (Inr False, s2) \<Rightarrow> execute_tasks B p (visited @ [t']) ts s2)"

definition execute :: "('c, 'w) behaviour \<Rightarrow> pipeline \<Rightarrow> ('c, 'w) scheduler \<Rightarrow> exn option \<times> ('c, 'w) scheduler" where
  "execute B p s = (let s1 = merge_callbacks p s in execute_tasks B p [] (callbacks s1 p) s1)"

section \<open>What other threads do in between\<close>

datatype 'c operation = Schedule "'c handler" pipeline int | Execute pipeline

fun perform :: "('c, 'w) behaviour \<Rightarrow> 'c operation \<Rightarrow> ('c, 'w) scheduler \<Rightarrow> ('c, 'w) scheduler" where
  "perform B (Schedule h p delay) s = schedule h p delay s"
| "perform B (Execute p) s = snd (execute B p s)"

definition initial_scheduler :: "(nat \<Rightarrow> int) \<Rightarrow> 'w \<Rightarrow> ('c, 'w) scheduler" where
  "initial_scheduler clk w = \<lparr>new_callbacks = (\<lambda>p. []), callbacks = (\<lambda>p. []), clock = clk,
     readings = 0, world = w, requested = [], finished = []\<rparr>"

section \<open>One-time tasks are conserved\<close>

fun once_of :: "'c task list \<Rightarrow> 'c multiset" where
  "once_of [] = {#}"
| "once_of (t # ts) = (case task_handler t of Once c \<Rightarrow> {#c#} | _ \<Rightarrow> {#}) + once_of ts"

fun other_pipeline :: "pipeline \<Rightarrow> pipeline" where
  "other_pipeline Async = Renderer"
| "other_pipeline Renderer = Async"

definition waiting :: "('c, 'w) scheduler \<Rightarrow> 'c multiset" where
  "waiting s = once_of (new_callbacks s Async) + once_of (new_callbacks s Renderer)"

definition pending_once :: "('c, 'w) scheduler \<Rightarrow> 'c multiset" where
  "pending_once s = waiting s + once_of (callbacks s Async) + once_of (callbacks s Renderer)"

text \<open>The balance while pipeline \<open>p\<close> is visited, with \<open>ts\<close> in the place of its tasks.\<close>

definition balanced_at :: "pipeline \<Rightarrow> 'c task list \<Rightarrow> ('c, 'w) scheduler \<Rightarrow> bool" where
  "balanced_at p ts s \<longleftrightarrow> mset (requested s) =
     mset (finished s) + waiting s + once_of ts + once_of (callbacks s (other_pipeline p))"

lemma once_of_append [simp]: "once_of (ts @ us) = once_of ts + once_of us"
  by (induction ts) simp_all

lemma other_pipeline_neq [simp]: "other_pipeline p \<noteq> p" "p \<noteq> other_pipeline p"
  by (cases p; simp)+

lemma balanced_pending:
  "balanced_at p (callbacks s p) s \<longleftrightarrow> mset (requested s) = mset (finished s) + pending_once s"
  by (cases p) (simp_all add: balanced_at_def pending_once_def ac_simps)

lemma schedule_fields:
  "finished (schedule h p delay s) = finished s" "callbacks (schedule h p delay s) = callbacks s"
  "mset (requested (schedule h p delay s)) = mset (requested s) + (case h of Once c \<Rightarrow> {#c#} | _ \<Rightarrow> {#})"
  "waiting (schedule h p delay s) = waiting s + (case h of Once c \<Rightarrow> {#c#} | _ \<Rightarrow> {#})"
  by (cases p; cases h; simp add: schedule_def read_clock_def add_task_def waiting_def)+

lemma schedule_all_balanced:
  "balanced_at p ts (schedule_all rs s) \<longleftrightarrow> balanced_at p ts s"
proof (induction rs s rule: schedule_all.induct)
  case (2 h q delay rest s)
  have "balanced_at p ts (schedule h q delay s) \<longleftrightarrow> balanced_at p ts s"
    by (simp add: balanced_at_def schedule_fields ac_simps split: handler.splits)
  with 2 show ?case by simp
qed simp

lemma run_handler_balanced:
  assumes "run_handler B (task_handler t) s = (r, s')" and "balanced_at p (vs @ t # ts) s"
  shows "balanced_at p (if r = Inr True then vs @ ts else vs @ t # ts) s'"
proof -
  let ?c = "case task_handler t of Once c \<Rightarrow> c | Loop c \<Rightarrow> c | Custom c \<Rightarrow> c"
  let ?s = "schedule_all (result_schedules (B ?c (world s))) (s\<lparr>world := result_world (B ?c (world s))\<rparr>)"
  have "balanced_at p us (s\<lparr>world := w\<rparr>) \<longleftrightarrow> balanced_at p us s" for us w
    by (simp add: balanced_at_def waiting_def)
  then have b: "balanced_at p (vs @ t # ts) ?s" using assms(2) by (simp add: schedule_all_balanced)
  show ?thesis
  proof (cases "result_exception (B ?c (world s))")
    case (Some e)
    then show ?thesis using assms(1) b by (auto simp: run_handler_def Let_def)
  next
    case None
    show ?thesis
    proof (cases "task_handler t")
      case (Once c)
      then have "r = Inr True" "s' = ?s\<lparr>finished := finished ?s @ [c]\<rparr>"
        using assms(1) None by (simp_all add: run_handler_def Let_def)
      then show ?thesis using b Once by (simp add: balanced_at_def waiting_def ac_simps)
    next
      case (Custom c)
      then have "once_of (vs @ ts) = once_of (vs @ t # ts)" by simp
      then show ?thesis using assms(1) None b Custom
        by (auto simp: run_handler_def Let_def balanced_at_def)
    qed (use assms(1) None b in \<open>auto simp: run_handler_def Let_def\<close>)
  qed
qed

lemma execute_tasks_balanced:
  assumes "balanced_at p (visited @ ts) s"
  shows "balanced_at q (callbacks (snd (execute_tasks B p visited ts s)) q) (snd (execute_tasks B p visited ts s))"
proof -
  have swap: "balanced_at q (callbacks u q) u \<longleftrightarrow> balanced_at p (callbacks u p) u" for u :: "('a, 'b) scheduler"
    by (simp add: balanced_pending)
  have stamp: "balanced_at p (vs @ t\<lparr>last_call := n\<rparr> # us) u \<longleftrightarrow> balanced_at p (vs @ t # us) u"
    for vs us and t :: "'a task" and n and u :: "('a, 'b) scheduler"
    by (simp add: balanced_at_def)
  have "balanced_at p (callbacks (snd (execute_tasks B p visited ts s)) p) (snd (execute_tasks B p visited ts s))"
    using assms
  proof (induction ts arbitrary: visited s)
    case Nil
    then show ?case by (simp add: balanced_at_def waiting_def)
  next
    case (Cons t ts)
    obtain now s1 where clk: "read_clock s = (now, s1)" by (metis surj_pair)
    then have s1: "balanced_at p us s1 \<longleftrightarrow> balanced_at p us s" for us
      by (auto simp: read_clock_def balanced_at_def waiting_def)
    show ?case
    proof (cases "now - last_call t < task_interval t")
      case True
      then have "execute_tasks B p visited (t # ts) s = execute_tasks B p (visited @ [t]) ts s1" using clk by simp
      moreover have "balanced_at p ((visited @ [t]) @ ts) s1" using Cons.prems s1 by simp
      ultimately show ?thesis using Cons.IH by metis
    next
      case False
      let ?t = "t\<lparr>last_call := now\<rparr>"
      obtain r s2 where h: "run_handler B (task_handler t) s1 = (r, s2)" by (metis surj_pair)
      then have b: "balanced_at p (if r = Inr True then visited @ ts else visited @ t # ts) s2"
        using run_handler_balanced Cons.prems s1 by metis
      consider e where "r = Inl e" | "r = Inr True" | "r = Inr False" by (cases r) auto
      then show ?thesis
      proof cases
        case (1 e)
        then have "balanced_at p (visited @ ?t # ts) s2" using b stamp by simp
        then show ?thesis using 1 False clk h
          by (simp add: Let_def) (simp add: balanced_at_def waiting_def)
      next
        case 2
        then have "execute_tasks B p visited (t # ts) s = execute_tasks B p visited ts s2"
          using False clk h by (simp add: Let_def)
        then show ?thesis using Cons.IH b 2 by simp
      next
        case 3
        then have "execute_tasks B p visited (t # ts) s = execute_tasks B p (visited @ [?t]) ts s2"
          using False clk h by (simp add: Let_def)
        moreover have "balanced_at p ((visited @ [?t]) @ ts) s2" using b 3 stamp by simp
        ultimately show ?thesis using Cons.IH by metis
      qed
    qed
  qed
  then show ?thesis using swap by blast
qed

text \<open>C26: every one-time callback that was scheduled has either run to its end, once, or still waits in
  its pipeline: whatever the callbacks do, in whatever order threads schedule and execute, none
  is lost and none runs twice, also when callbacks throw or schedule others.\<close>

theorem once_tasks_conserved:
  "s = fold (perform B) ops (initial_scheduler clk w) \<Longrightarrow>
     mset (requested s) = mset (finished s) + pending_once s"
proof (induction ops arbitrary: s rule: rev_induct)
  case Nil
  then show ?case by (simp add: initial_scheduler_def pending_once_def waiting_def)
next
  case (snoc a ops)
  let ?u = "fold (perform B) ops (initial_scheduler clk w)"
  have u: "mset (requested ?u) = mset (finished ?u) + pending_once ?u" by (rule snoc.IH [OF refl])
  have s: "s = perform B a ?u" using snoc.prems by simp
  show ?case
  proof (cases a)
    case (Schedule h p delay)
    then show ?thesis using u s by (simp add: pending_once_def schedule_fields ac_simps)
  next
    case (Execute p)
    have "balanced_at p (callbacks (merge_callbacks p ?u) p) (merge_callbacks p ?u)"
      unfolding balanced_pending using u
      by (cases p) (simp_all add: pending_once_def merge_callbacks_def waiting_def ac_simps)
    then have "balanced_at p ([] @ callbacks (merge_callbacks p ?u) p) (merge_callbacks p ?u)" by simp
    from execute_tasks_balanced [OF this] show ?thesis
      using s Execute by (simp add: balanced_pending execute_def Let_def)
  qed
qed

text \<open>One callback that is scheduled to run once, before and after its turn.\<close>

definition silent :: "(nat, unit) behaviour" where
  "silent c w = \<lparr>result_end = True, result_exception = None, result_schedules = [], result_world = ()\<rparr>"

definition demo_scheduler :: "(nat, unit) scheduler" where
  "demo_scheduler = fold (perform silent) [Schedule (Once 7) Async 5, Execute Async, Execute Async]
     (initial_scheduler (\<lambda>n. 4 * int n) ())"

theorem once_tasks_conserved_witness:
  "finished demo_scheduler = [7] \<and> mset (requested demo_scheduler) = {#7#} + pending_once demo_scheduler"
proof -
  have "finished demo_scheduler = [7]"
    by (simp add: demo_scheduler_def initial_scheduler_def schedule_def add_task_def read_clock_def execute_def
        merge_callbacks_def run_handler_def silent_def Let_def)
  then show ?thesis using once_tasks_conserved [OF demo_scheduler_def] by simp
qed

end
