(* ===== verification/Render_Queue.thy ===== *)
theory Render_Queue
  imports Scheduler
begin

text \<open>
  Drawing text (src/client/module/renderer.cpp): any thread queues commands; the hook in the
  game's renderer runs the tasks of the renderer's pipeline, takes the whole queue in one
  step and draws what it took, command by command, while other threads go on queueing. Each
  access to the queue holds its mutex, so it is one step. What the game draws is the list of
  the commands handed to it. The tasks of the pipeline are those of the scheduler; the texts
  they queue are steps of their own.
\<close>

section \<open>Model\<close>

record text_command =
  command_text :: "byte list"
  command_position :: "u32 \<times> u32"
  command_color :: u32

text \<open>\<open>local_queue\<close> is the local variable of the hook, \<open>asked\<close> records what was queued.\<close>

record ('c, 'w) renderer =
  render_commands :: "text_command list"
  local_queue :: "text_command list"
  in_frame :: bool
  drawn :: "text_command list"
  asked :: "text_command list"
  tasks :: "('c, 'w) scheduler"

definition draw_text :: "text_command \<Rightarrow> ('c, 'w) renderer \<Rightarrow> ('c, 'w) renderer" where
  "draw_text command r =
     r\<lparr>render_commands := render_commands r @ [command], asked := asked r @ [command]\<rparr>"

text \<open>
  The parts of the hook for one frame, up to the queue being taken and then one command per
  step; it is left when its queue is empty. A null frame, or an exception of a task, leaves it
  at once.
\<close>

definition begin_frame :: "('c, 'w) behaviour \<Rightarrow> bool \<Rightarrow> ('c, 'w) renderer \<Rightarrow> ('c, 'w) renderer" where
  "begin_frame B valid r =
     (if \<not> valid \<or> in_frame r then r
      else case execute B Renderer (tasks r) of
          (Some e, s) \<Rightarrow> r\<lparr>tasks := s\<rparr>
        | (None, s) \<Rightarrow> r\<lparr>tasks := s, in_frame := True\<rparr>)"

definition take_commands :: "('c, 'w) renderer \<Rightarrow> ('c, 'w) renderer" where
  "take_commands r =
     (if in_frame r \<and> local_queue r = [] \<and> render_commands r \<noteq> []
      then r\<lparr>local_queue := render_commands r, render_commands := []\<rparr> else r)"

definition draw_front :: "('c, 'w) renderer \<Rightarrow> ('c, 'w) renderer" where
  "draw_front r =
     (case local_queue r of [] \<Rightarrow> r\<lparr>in_frame := False\<rparr>
      | command # queue \<Rightarrow> r\<lparr>drawn := drawn r @ [command], local_queue := queue\<rparr>)"

datatype render_step = Draw_text text_command | Begin_frame bool | Take_commands | Draw_front

fun render_perform :: "('c, 'w) behaviour \<Rightarrow> render_step \<Rightarrow> ('c, 'w) renderer \<Rightarrow> ('c, 'w) renderer" where
  "render_perform B (Draw_text c) r = draw_text c r"
| "render_perform B (Begin_frame valid) r = begin_frame B valid r"
| "render_perform B Take_commands r = take_commands r"
| "render_perform B Draw_front r = draw_front r"

definition initial_renderer :: "('c, 'w) scheduler \<Rightarrow> ('c, 'w) renderer" where
  "initial_renderer s = \<lparr>render_commands = [], local_queue = [], in_frame = False, drawn = [],
     asked = [], tasks = s\<rparr>"

section \<open>Properties\<close>

definition render_ok :: "('c, 'w) renderer \<Rightarrow> bool" where
  "render_ok r \<longleftrightarrow> drawn r @ local_queue r @ render_commands r = asked r"

lemma render_step_ok: "render_ok r \<Longrightarrow> render_ok (render_perform B step r)"
  by (cases step)
    (auto simp: render_ok_def draw_text_def begin_frame_def take_commands_def draw_front_def
      split: list.splits prod.splits option.splits)

text \<open>C33: 
  In every interleaving of the threads the texts are drawn in the order they were queued, each
  at most once, and those not drawn yet are in the hook's queue or in the shared one.
\<close>

theorem texts_drawn_in_order:
  "let r = fold (render_perform B) steps (initial_renderer s)
   in drawn r @ local_queue r @ render_commands r = asked r"
proof -
  have "render_ok r \<Longrightarrow> render_ok (fold (render_perform B) steps r)" for r :: "('a, 'b) renderer"
    by (induction steps arbitrary: r) (simp_all add: render_step_ok)
  from this [of "initial_renderer s"] show ?thesis
    by (simp add: render_ok_def initial_renderer_def)
qed

text \<open>A frame without other threads in between draws all that was queued before it.\<close>

lemma draw_all_front:
  "fold (render_perform B) (replicate (length (local_queue r)) Draw_front) r =
     r\<lparr>drawn := drawn r @ local_queue r, local_queue := []\<rparr>"
proof (induction "local_queue r" arbitrary: r)
  case (Cons c queue)
  let ?r = "r\<lparr>drawn := drawn r @ [c], local_queue := queue\<rparr>"
  from Cons(1) [of ?r] Cons(2) [symmetric] show ?case by (simp add: draw_front_def)
qed simp

lemma frame_draws_everything:
  assumes "in_frame r" and "local_queue r = []"
  shows "drawn (fold (render_perform B)
     (Take_commands # replicate (length (render_commands r)) Draw_front) r) = drawn r @ render_commands r"
  using draw_all_front [of B "take_commands r"] assms
  by (cases "render_commands r = []") (simp_all add: take_commands_def)

end
