(* ===== verification/Folder_Dialog.thy ===== *)
theory Folder_Dialog
  imports String_Utils
begin

text \<open>
  The dialog that asks for a folder (\<open>utils::com::select_folder\<close>, src/common/utils/com.cpp).
  What the shell answers to each call is the record \<open>shell\<close>; a call that fails is an
  exception that says which one, a cancelled dialog is a result.
\<close>

datatype dialog_result = Dialog_ok | Dialog_cancelled | Dialog_failed

record shell =
  creates_dialog :: bool
  dialog_options :: "u32 option"
  accepts_options :: "u32 \<Rightarrow> bool"
  accepts_title :: "u16 list \<Rightarrow> bool"
  knows_folder :: "u16 list \<Rightarrow> bool"
  shown :: dialog_result
  gives_item :: bool
  item_path :: "u16 list option"

unbundle bit_operations_syntax

definition FOS_PICKFOLDERS :: u32 where "FOS_PICKFOLDERS = 0x20"
definition FOS_FORCESHOWHIDDEN :: u32 where "FOS_FORCESHOWHIDDEN = 0x10000000"

text \<open>Characters are copied one by one, as signed bytes; slashes of the folder are turned.\<close>

definition copied_wide :: "byte list \<Rightarrow> u16 list" where "copied_wide s = map scast s"

definition turned :: "u16 list \<Rightarrow> u16 list" where
  "turned s = map (\<lambda>c. if c = 0x2F then 0x5C else c) s"

text \<open>The folder the dialog starts in, when there is one the shell knows.\<close>

definition default_folder :: "shell \<Rightarrow> byte list \<Rightarrow> u16 list option" where
  "default_folder S selected_folder =
     (if selected_folder = [] then None
      else let wide = takeWhile (\<lambda>c. c \<noteq> 0) (turned (copied_wide selected_folder)) in
        if knows_folder S wide then Some wide else None)"

definition fail :: "string \<Rightarrow> exn" where "fail message = Runtime_error (lit message)"

definition select_folder :: "shell \<Rightarrow> byte list \<Rightarrow> exn + byte list option" where
  "select_folder S title =
     (if \<not> creates_dialog S then Inl (fail ''Failed to create co instance'')
      else case dialog_options S of
        None \<Rightarrow> Inl (fail ''Failed to get options'')
      | Some options \<Rightarrow>
          if \<not> accepts_options S (options OR FOS_PICKFOLDERS OR FOS_FORCESHOWHIDDEN)
          then Inl (fail ''Failed to set options'')
          else if \<not> accepts_title S (takeWhile (\<lambda>c. c \<noteq> 0) (copied_wide title))
          then Inl (fail ''Failed to set title'')
          else case shown S of
            Dialog_cancelled \<Rightarrow> Inr None
          | Dialog_failed \<Rightarrow> Inl (fail ''Failed to show dialog'')
          | Dialog_ok \<Rightarrow>
              if \<not> gives_item S then Inl (fail ''Failed to get result'')
              else case item_path S of
                None \<Rightarrow> Inl (fail ''Failed to get path display name'')
              | Some raw_path \<Rightarrow> Inr (Some (narrow (takeWhile (\<lambda>c. c \<noteq> 0) raw_path))))"

lemma select_folder_gives_item:
  "select_folder S title = Inr (Some folder) \<Longrightarrow>
     \<exists>raw. item_path S = Some raw \<and> folder = narrow (takeWhile (\<lambda>c. c \<noteq> 0) raw) \<and> shown S = Dialog_ok"
  by (auto simp: select_folder_def split: if_splits option.splits dialog_result.splits)

end
