(* ===== verification/Game_Path.thy ===== *)
theory Game_Path
  imports File_System Component_Loader Folder_Dialog
begin

text \<open>
  Where the game is (src/client/module/game_path.cpp): the path kept in the properties, the
  dialog that asks for it, and the current directory that is set to it. What the properties
  give for a name and what the user chooses are parameters; setting the directory succeeds
  when it exists, and its result is not looked at.
\<close>

section \<open>Model\<close>

record game_state =
  files :: file_system
  current_directory :: path
  dll_directory :: path
  stored_path :: "byte list option"

definition resolve_path :: "byte list \<Rightarrow> game_state \<Rightarrow> path" where
  "resolve_path p st = path_append (current_directory st) p"

definition exists_at :: "path \<Rightarrow> game_state \<Rightarrow> bool" where
  "exists_at p st \<longleftrightarrow> node_at (files st) p \<noteq> None"

definition set_directory :: "path \<Rightarrow> game_state \<Rightarrow> game_state" where
  "set_directory p st =
     st\<lparr>dll_directory := p,
        current_directory := (if node_at (files st) p = Some Directory then full p else current_directory st)\<rparr>"

definition exe_name :: "byte list" where "exe_name = lit ''witcher3.exe''"

definition try_set_witcher_path :: "byte list \<Rightarrow> game_state \<Rightarrow> bool \<times> game_state" where
  "try_set_witcher_path p st =
     (if p = [] then (False, st)
      else let here = resolve_path p st in
        if exists_at (path_append here exe_name) st then (True, set_directory here st)
        else let alt_path = path_append (path_append here (lit ''bin'')) (lit ''x64'') in
          if exists_at (path_append alt_path exe_name) st then (True, set_directory alt_path st)
          else (False, st))"

text \<open>
  \<open>get_default_witcher_path\<close>: the directory Steam is in is \<open>[]\<close> when the registry has none. The
  path is joined and written with forward slashes as a whole; the system reads a path up to
  its first zero byte.
\<close>

definition forward_slashes :: "byte list \<Rightarrow> byte list" where
  "forward_slashes p = map (\<lambda>b. if b = 0x5C then 0x2F else b) p"

definition steam_game :: "byte list \<Rightarrow> byte list" where
  "steam_game steam_path =
     steam_path @ (if is_separator (last steam_path) then [] else [0x5C]) @ lit ''steamapps/common/The Witcher 3''"

definition get_default_witcher_path :: "bool \<Rightarrow> byte list \<Rightarrow> game_state \<Rightarrow> byte list" where
  "get_default_witcher_path wine steam_path st =
     (if wine then lit ''Z:'' @ [0x5C] @ lit ''home'' @ [0x5C] @ lit ''deck'' @ [0x5C] @ lit ''.local'' @
        [0x5C] @ lit ''share'' @ [0x5C] @ lit ''Steam'' @ [0x5C] @ lit ''steamapps'' @ [0x5C] @ lit ''common''
      else if steam_path = [] then []
      else let witcher_path = steam_game steam_path in
        if \<not> exists_at (resolve_path (takeWhile (\<lambda>b. b \<noteq> 0) witcher_path) st) st then []
        else forward_slashes witcher_path)"

text \<open>
  The dialog gets the default folder; it fails with an exception, is cancelled (\<open>None\<close>), or
  gives a path.
\<close>

definition set_witcher_path ::
    "(byte list \<Rightarrow> exn + byte list option) \<Rightarrow> bool \<Rightarrow> byte list \<Rightarrow> game_state \<Rightarrow>
     (exn option) \<times> game_state" where
  "set_witcher_path ask_folder wine steam_path st =
     (let p = (case stored_path st of Some p \<Rightarrow> p | None \<Rightarrow> []);
          (found, st1) = (if stored_path st \<noteq> None then try_set_witcher_path p st else (False, st))
      in if found then (None, st1)
         else case ask_folder (get_default_witcher_path wine steam_path st1) of
             Inl e \<Rightarrow> (Some e, st1)
           | Inr None \<Rightarrow> (Some premature_shutdown_trigger, st1)
           | Inr (Some chosen) \<Rightarrow>
               (case try_set_witcher_path chosen st1 of
                  (False, st2) \<Rightarrow>
                    (Some (Runtime_error (lit ''Witcher 3 was not found at the specified path!'')), st2)
                | (True, st2) \<Rightarrow> (None, st2\<lparr>stored_path := Some chosen\<rparr>)))"

definition game_path_post_start ::
    "(byte list \<Rightarrow> exn + byte list option) \<Rightarrow> bool \<Rightarrow> byte list \<Rightarrow> game_state action" where
  "game_path_post_start ask_folder wine steam_path st =
     (if \<not> io_file_exists (resolve_path exe_name st) (files st)
      then set_witcher_path ask_folder wine steam_path st else (None, st))"

text \<open>The dialog of the shell, with its title.\<close>

definition ask_shell :: "(byte list \<Rightarrow> shell) \<Rightarrow> byte list \<Rightarrow> exn + byte list option" where
  "ask_shell S folder = select_folder (S folder) (lit ''Select Witcher 3 installation path'')"

definition game_path_component ::
    "(byte list \<Rightarrow> exn + byte list option) \<Rightarrow> bool \<Rightarrow> byte list \<Rightarrow> game_state component" where
  "game_path_component ask_folder wine steam_path =
     component_interface\<lparr>comp_post_start := game_path_post_start ask_folder wine steam_path\<rparr>"

section \<open>Properties\<close>

text \<open>A file system in which what contains a node is a directory.\<close>

definition parents_exist :: "file_system \<Rightarrow> bool" where
  "parents_exist fs \<longleftrightarrow> (\<forall>p n. map_of fs p = Some n \<longrightarrow> p \<noteq> [] \<longrightarrow> butlast p = [] \<or> map_of fs (butlast p) = Some Directory)"

lemma exe_path: "path_append p exe_name = p @ [exe_name]"
  by (simp add: path_append_def exe_name_def is_absolute_def File_System.components_def lit_def is_separator_def)

lemma full_from_append: "full_from acc (p @ q) = full_from (full_from acc p) q"
  by (induction p arbitrary: acc) simp_all

lemma full_exe: "full (p @ [exe_name]) = full p @ [exe_name]"
  by (simp add: full_def full_from_append exe_name_def dot_def dotdot_def lit_def)

lemma parent_of_exe:
  assumes "parents_exist fs" and "node_at fs (p @ [exe_name]) \<noteq> None"
  shows "node_at fs p = Some Directory"
proof -
  obtain n where "map_of fs (full p @ [exe_name]) = Some n"
    using assms(2) by (auto simp: node_at_def full_exe)
  with assms(1) show ?thesis unfolding parents_exist_def node_at_def
    by (metis append_is_Nil_conv butlast_snoc list.distinct(1))
qed

lemma try_set_ok:
  assumes "parents_exist (files st)" and "try_set_witcher_path p st = (True, st')"
  shows "files st' = files st" and "stored_path st' = stored_path st"
    and "\<exists>dir. current_directory st' = full dir \<and> dll_directory st' = dir \<and>
      node_at (files st) (dir @ [exe_name]) \<noteq> None"
  using assms(2) parent_of_exe [OF assms(1)]
  by (auto simp: try_set_witcher_path_def exe_path exists_at_def set_directory_def Let_def split: if_splits)

lemma full_from_clean: "dot \<notin> set p \<Longrightarrow> dotdot \<notin> set p \<Longrightarrow> full_from acc p = acc @ p"
  by (induction p arbitrary: acc) auto

lemma full_from_keeps_clean:
  "dot \<notin> set acc \<Longrightarrow> dotdot \<notin> set acc \<Longrightarrow> dot \<notin> set (full_from acc p) \<and> dotdot \<notin> set (full_from acc p)"
  by (induction p arbitrary: acc) (auto dest: in_set_butlastD)

lemma full_idem [simp]: "full (full p) = full p"
  using full_from_clean [of "full p" "[]"] full_from_keeps_clean [of "[]" p]
  by (simp add: full_def)

lemma try_set_fails: "try_set_witcher_path p st = (False, st') \<Longrightarrow> st' = st"
  by (auto simp: try_set_witcher_path_def Let_def split: if_splits)

text \<open>
  When the component lets the start go on, the executable of the game is in the current
  directory, and a path the user chose has been stored; a cancelled dialog stops the start
  without an error, and neither a cancelled dialog nor a wrong choice is stored.
\<close>

theorem game_found_or_stopped:
  assumes "parents_exist (files st)"
    and "game_path_post_start ask_folder wine steam_path st = (e, st')"
  shows "case e of
      None \<Rightarrow> node_at (files st') (resolve_path exe_name st') \<noteq> None
    | Some x \<Rightarrow> stored_path st' = stored_path st \<and> current_directory st' = current_directory st \<and>
        (case ask_folder (get_default_witcher_path wine steam_path st) of
           Inl y \<Rightarrow> x = y
         | Inr None \<Rightarrow> x = premature_shutdown_trigger
         | Inr (Some chosen) \<Rightarrow>
             x = Runtime_error (lit ''Witcher 3 was not found at the specified path!''))"
proof (cases "io_file_exists (resolve_path exe_name st) (files st)")
  case True
  with assms(2) show ?thesis
    by (auto simp: game_path_post_start_def io_file_exists_def split: option.splits node.splits)
next
  case False
  let ?p = "case stored_path st of Some p \<Rightarrow> p | None \<Rightarrow> []"
  let ?choice = "ask_folder (get_default_witcher_path wine steam_path st)"
  have found: "node_at (files st2) (resolve_path exe_name st2) \<noteq> None"
    if set: "try_set_witcher_path p st = (True, st2)" for p st2
  proof -
    obtain dir where "current_directory st2 = full dir" "node_at (files st) (dir @ [exe_name]) \<noteq> None"
      using try_set_ok(3) [OF assms(1) set] by blast
    then show ?thesis using try_set_ok(1) [OF assms(1) set]
      by (simp add: resolve_path_def exe_path node_at_def full_exe)
  qed
  show ?thesis
  proof (cases "stored_path st \<noteq> None \<and> fst (try_set_witcher_path ?p st)")
    case True
    then have e: "e = None" and set: "try_set_witcher_path ?p st = (True, st')"
      using assms(2) False
      by (auto simp: game_path_post_start_def set_witcher_path_def Let_def split: prod.splits)
    from e found [OF set] show ?thesis by simp
  next
    case no_stored: False
    have st1: "(if stored_path st \<noteq> None then try_set_witcher_path ?p st else (False, st)) = (False, st)"
      using no_stored try_set_fails [of ?p st] by (cases "try_set_witcher_path ?p st") auto
    consider (failed) y where "?choice = Inl y" | (cancelled) "?choice = Inr None"
      | (chosen) chosen where "?choice = Inr (Some chosen)"
      by (cases ?choice) (auto split: option.splits)
    then show ?thesis
    proof cases
      case (chosen chosen)
      obtain ok st2 where t: "try_set_witcher_path chosen st = (ok, st2)" by (cases "try_set_witcher_path chosen st")
      show ?thesis
      proof (cases ok)
        case True
        with assms(2) False st1 chosen t have "e = None" "st' = st2\<lparr>stored_path := Some chosen\<rparr>"
          by (simp_all add: game_path_post_start_def set_witcher_path_def Let_def)
        with found [of chosen st2] t True show ?thesis by (simp add: resolve_path_def)
      next
        case wrong: False
        with t try_set_fails have "st2 = st" by simp
        with assms(2) False st1 chosen t wrong show ?thesis
          by (auto simp: game_path_post_start_def set_witcher_path_def Let_def)
      qed
    qed (use assms(2) False st1 in \<open>auto simp: game_path_post_start_def set_witcher_path_def Let_def\<close>)
  qed
qed

theorem game_found_or_stopped_witness:
  "\<exists>st'. game_path_post_start (\<lambda>d. Inr (Some (lit ''C:/g''))) False []
      \<lparr>files = [([lit ''C:''], Directory), ([lit ''C:'', lit ''g''], Directory),
         ([lit ''C:'', lit ''g'', exe_name], File [] False)],
       current_directory = [lit ''C:''], dll_directory = [], stored_path = None\<rparr> = (None, st') \<and>
    node_at (files st') (resolve_path exe_name st') \<noteq> None"
proof -
  let ?fs = "[([lit ''C:''], Directory), ([lit ''C:'', lit ''g''], Directory),
         ([lit ''C:'', lit ''g'', exe_name], File [] False)]"
  let ?st = "\<lparr>files = ?fs, current_directory = [lit ''C:''], dll_directory = [], stored_path = None\<rparr>"
  have parents: "parents_exist (files ?st)"
    by (auto simp: parents_exist_def lit_def exe_name_def split: if_splits)
  have names: "path_append p (lit ''C:/g'') = [lit ''C:'', lit ''g'']" for p
    by (simp add: path_append_def is_absolute_def File_System.components_def lit_def is_separator_def)
  have nodes: "node_at ?fs [lit ''C:'', exe_name] = None"
      "node_at ?fs [lit ''C:'', lit ''g'', exe_name] = Some (File [] False)"
      "node_at ?fs [lit ''C:'', lit ''g''] = Some Directory"
    by (simp_all add: node_at_def full_def lit_def exe_name_def dot_def dotdot_def)
  have "\<exists>st'. game_path_post_start (\<lambda>d. Inr (Some (lit ''C:/g''))) False [] ?st = (None, st')"
    by (simp add: game_path_post_start_def resolve_path_def exe_path io_file_exists_def nodes
        set_witcher_path_def try_set_witcher_path_def names exists_at_def Let_def)
      (simp add: lit_def)
  then show ?thesis using game_found_or_stopped [OF parents] by fastforce
qed

end
