(* ===== verification/Steam.thy ===== *)
theory Steam
  imports Pe_Image Memory_Utils
begin

text \<open>
  Calling Steam's client by the names of its methods (src/client/steam/interface.cpp,
  interface.hpp). A method is found by reading the code of each entry of the virtual table until
  one loads its own name; what was found is remembered. The disassembler udis86, the page
  protections and the functions of Steam are parameters. Walks that may not end are options.
\<close>

section \<open>Model\<close>

record instruction =
  insn_is_ret :: bool
  insn_len :: u64
  insn_lea_rip :: "u32 option"

record steam_env =
  env_memory :: code
  env_protection :: "addr \<Rightarrow> u32 option"
  env_rdata :: "addr \<Rightarrow> bool"
  env_decode :: "addr \<Rightarrow> instruction"

definition bad_read :: "steam_env \<Rightarrow> addr \<Rightarrow> bool" where
  "bad_read E p \<longleftrightarrow> is_bad_read_ptr (env_protection E p)"

definition bad_code :: "steam_env \<Rightarrow> addr \<Rightarrow> bool" where
  "bad_code E p \<longleftrightarrow> is_bad_code_ptr (env_protection E p)"

text \<open>The string an instruction loads, relative to its end and signed, if it is a constant.\<close>

definition loaded_string :: "steam_env \<Rightarrow> addr \<Rightarrow> addr option" where
  "loaded_string E pc =
     (case insn_lea_rip (env_decode E pc) of
        None \<Rightarrow> None
      | Some disp \<Rightarrow>
          (let p = insn_len (env_decode E pc) + pc + scast disp in
           if \<not> bad_read E p \<and> env_rdata E p then Some p else None))"

partial_function (option) analyze_loop :: "steam_env \<Rightarrow> addr \<Rightarrow> byte list option" where
  "analyze_loop E pc =
     (if insn_is_ret (env_decode E pc) then Some []
      else case loaded_string E pc of
        Some p \<Rightarrow> cstr p (env_memory E)
      | None \<Rightarrow>
          if env_memory E (pc + insn_len (env_decode E pc)) = 0xCC then Some []
          else analyze_loop E (pc + insn_len (env_decode E pc)))"

definition analyze_method :: "steam_env \<Rightarrow> addr \<Rightarrow> byte list option" where
  "analyze_method E p = (if bad_code E p then Some [] else analyze_loop E p)"

type_synonym methods = "byte list \<rightharpoonup> addr"

partial_function (option) search_table ::
    "steam_env \<Rightarrow> byte list \<Rightarrow> addr \<Rightarrow> methods \<Rightarrow> (addr \<times> methods) option" where
  "search_table E name vftbl methods =
     (if \<not> bad_read E vftbl \<and> \<not> bad_code E (read64 vftbl (env_memory E)) then
        Option.bind (analyze_method E (read64 vftbl (env_memory E))) (\<lambda>found.
          if found \<noteq> [] then
            if found = name
            then Some (read64 vftbl (env_memory E), methods(found \<mapsto> read64 vftbl (env_memory E)))
            else search_table E name (vftbl + 8) (methods(found \<mapsto> read64 vftbl (env_memory E)))
          else search_table E name (vftbl + 8) methods)
      else Some (0, methods))"

text \<open>An interface: the object, and the methods found so far.\<close>

record interface =
  interface_ptr :: addr
  known_methods :: methods

definition search_method :: "steam_env \<Rightarrow> byte list \<Rightarrow> interface \<Rightarrow> (addr \<times> interface) option" where
  "search_method E name i =
     (if \<not> bad_read E (interface_ptr i) then
        map_option (\<lambda>(p, m). (p, i\<lparr>known_methods := m\<rparr>))
          (search_table E name (read64 (interface_ptr i) (env_memory E)) (known_methods i))
      else Some (0, i))"

definition find_method :: "steam_env \<Rightarrow> byte list \<Rightarrow> interface \<Rightarrow> (addr \<times> interface) option" where
  "find_method E name i =
     (case known_methods i name of Some p \<Rightarrow> Some (p, i) | None \<Rightarrow> search_method E name i)"

text \<open>\<open>invoke\<close> by name and by index: the method that is called.\<close>

definition invoke_method :: "steam_env \<Rightarrow> byte list \<Rightarrow> interface \<Rightarrow> ((exn + addr) \<times> interface) option" where
  "invoke_method E name i =
     (if interface_ptr i = 0 then Some (Inl (Runtime_error (lit ''Invalid interface pointer'')), i)
      else map_option (\<lambda>(p, i').
          (if p = 0 then Inl (Runtime_error (lit ''Unable to find method: '' @ name)) else Inr p, i'))
        (find_method E name i))"

definition invoke_entry :: "steam_env \<Rightarrow> nat \<Rightarrow> interface \<Rightarrow> exn + addr" where
  "invoke_entry E n i =
     (if interface_ptr i = 0 then Inl (Runtime_error (lit ''Invalid interface pointer''))
      else Inr (read64 (read64 (interface_ptr i) (env_memory E) + 8 * of_nat n) (env_memory E)))"

section \<open>Properties\<close>

text \<open>What is remembered was found in the code.\<close>

definition true_methods :: "steam_env \<Rightarrow> methods \<Rightarrow> bool" where
  "true_methods E m \<longleftrightarrow> (\<forall>n q. m n = Some q \<longrightarrow> analyze_method E q = Some n \<and> n \<noteq> [] \<and> \<not> bad_code E q)"

lemma true_methods_add:
  "true_methods E m \<Longrightarrow> analyze_method E p = Some n \<Longrightarrow> n \<noteq> [] \<Longrightarrow> \<not> bad_code E p \<Longrightarrow>
   true_methods E (m(n \<mapsto> p))"
  by (simp add: true_methods_def)

lemma search_table_ok:
  assumes "search_table E name vftbl methods = Some r" and "true_methods E methods"
  shows "true_methods E (snd r) \<and> (fst r = 0 \<or> snd r name = Some (fst r))"
proof -
  have "true_methods E methods \<longrightarrow> true_methods E (snd r) \<and> (fst r = 0 \<or> snd r name = Some (fst r))"
  proof (rule search_table.raw_induct [where P = "\<lambda>E name vftbl methods r.
      true_methods E methods \<longrightarrow> true_methods E (snd r) \<and> (fst r = 0 \<or> snd r name = Some (fst r))"])
    show "search_table E name vftbl methods = Some r" by (rule assms(1))
  qed (auto simp: bind_eq_Some_conv true_methods_add split: if_splits, (blast dest: true_methods_add)+)
  with assms(2) show ?thesis by blast
qed

text \<open>
  A method that is found is code that loads exactly the name asked for; the table of methods
  stays true to the code, and asking again gives the same method without a search.
\<close>

theorem found_method_has_name:
  assumes "true_methods E (known_methods i)" and "find_method E name i = Some (p, i')"
  shows "true_methods E (known_methods i') \<and> interface_ptr i' = interface_ptr i \<and>
    (p \<noteq> 0 \<longrightarrow> analyze_method E p = Some name \<and> find_method E name i' = Some (p, i'))"
proof (cases "known_methods i name")
  case None
  show ?thesis
  proof (cases "bad_read E (interface_ptr i)")
    case True
    with None assms show ?thesis by (simp add: find_method_def search_method_def)
  next
    case False
    with None assms(2) obtain m where
      m: "search_table E name (read64 (interface_ptr i) (env_memory E)) (known_methods i) = Some (p, m)"
      and i': "i' = i\<lparr>known_methods := m\<rparr>"
      by (auto simp: find_method_def search_method_def)
    from search_table_ok [OF m assms(1)] have m_ok: "true_methods E m" "p = 0 \<or> m name = Some p"
      by simp_all
    then have "p \<noteq> 0 \<Longrightarrow> analyze_method E p = Some name" unfolding true_methods_def by blast
    with m_ok i' show ?thesis by (auto simp: find_method_def)
  qed
next
  case (Some q)
  with assms(2) have "p = q" "i' = i" by (simp_all add: find_method_def)
  moreover have "analyze_method E q = Some name" using assms(1) Some unfolding true_methods_def by blast
  ultimately show ?thesis using assms by simp
qed

text \<open>A table with one method, which loads its name \<open>f\<close>.\<close>

definition demo_steam :: steam_env where
  "demo_steam = \<lparr>env_memory = patched [(0x80, [0, 1, 0, 0, 0, 0, 0, 0]), (0x100, [0, 2, 0, 0, 0, 0, 0, 0]),
       (0x300, [0x66])],
     env_protection = (\<lambda>p. Some PAGE_EXECUTE_READ), env_rdata = (\<lambda>p. True),
     env_decode = (\<lambda>pc. \<lparr>insn_is_ret = False, insn_len = 7, insn_lea_rip = Some 0xF9\<rparr>)\<rparr>"

lemma demo_steam_simps:
  "read64 0x80 (env_memory demo_steam) = 0x100" "read64 0x100 (env_memory demo_steam) = 0x200"
  "\<not> bad_read demo_steam p" "\<not> bad_code demo_steam p"
  by (simp_all add: demo_steam_def read64_def fetch_patch_same fetch_patch_apart bytes_u64_def
      bad_read_def bad_code_def is_bad_read_ptr_def is_bad_code_ptr_def PAGE_READONLY_def
      PAGE_READWRITE_def PAGE_WRITECOPY_def PAGE_EXECUTE_READ_def PAGE_EXECUTE_READWRITE_def
      PAGE_EXECUTE_WRITECOPY_def PAGE_GUARD_def PAGE_NOACCESS_def)

lemma demo_steam_method: "analyze_method demo_steam 0x200 = Some (lit ''f'')"
proof -
  have "env_memory demo_steam 0x300 = 0x66" "env_memory demo_steam 0x301 = 0"
    by (simp_all add: demo_steam_def hook_copy_def)
  then have "cstr 0x300 (env_memory demo_steam) = Some (lit ''f'')"
    by (subst cstr.simps, subst cstr.simps) (simp add: lit_def)
  moreover have decode: "env_decode demo_steam 0x200 = \<lparr>insn_is_ret = False, insn_len = 7, insn_lea_rip = Some 0xF9\<rparr>"
      and "env_rdata demo_steam 0x300"
    by (simp_all add: demo_steam_def)
  moreover from this have "loaded_string demo_steam 0x200 = Some 0x300"
    by (simp add: loaded_string_def demo_steam_simps)
  ultimately show ?thesis
    by (simp add: analyze_method_def demo_steam_simps, subst analyze_loop.simps) simp
qed

theorem found_method_has_name_witness:
  "\<exists>i'. find_method demo_steam (lit ''f'') \<lparr>interface_ptr = 0x80, known_methods = (\<lambda>n. None)\<rparr> = Some (0x200, i') \<and>
     find_method demo_steam (lit ''f'') i' = Some (0x200, i')"
proof -
  let ?i = "\<lparr>interface_ptr = 0x80, known_methods = (\<lambda>n. None)\<rparr>"
  have "search_table demo_steam (lit ''f'') 0x100 (\<lambda>n. None) = Some (0x200, [lit ''f'' \<mapsto> 0x200])"
    by (subst search_table.simps) (simp add: demo_steam_simps demo_steam_method lit_def)
  then obtain i' where found: "find_method demo_steam (lit ''f'') ?i = Some (0x200, i')"
    by (simp add: find_method_def search_method_def demo_steam_simps)
  have "true_methods demo_steam (known_methods ?i)" by (simp add: true_methods_def)
  from found_method_has_name [OF this found] found show ?thesis by auto
qed

end
