(* ===== verification/Steam_Session.thy ===== *)
theory Steam_Session
  imports Steam Scheduler Bootstrap
begin

text \<open>
  The session with Steam's client (src/client/module/steam_proxy.cpp, steam.hpp): finding and
  loading the client's libraries, making the pipe, starting the game through Steam under the
  name of the mod, and the task that drops the session when Steam goes away. What the system
  and the libraries answer may depend on the calls that were made before, which the session
  records. A hardware fault in a call is \<open>Undefined_behaviour\<close>; only \<open>start_mod\<close> catches it.
\<close>

section \<open>Model\<close>

datatype argument = Number u64 | Text_pointer "byte list" | Null_pointer

text \<open>A call of an exported function, by name, or of a method on an object.\<close>

datatype steam_call =
    Export "byte list" "argument list"
  | Method addr addr "argument list"

record steam_platform =
  platform_system :: system
  load_dll :: "byte list \<Rightarrow> addr"
  process_module :: addr
  own_module :: addr
  export_answer :: "steam_call list \<Rightarrow> addr \<Rightarrow> argument list \<Rightarrow> u64"
  method_answer :: "steam_call list \<Rightarrow> addr \<Rightarrow> addr \<Rightarrow> argument list \<Rightarrow> exn + u64"
  steam_registry :: "byte list option"
  process_id :: u32
  working_directory :: "byte list"

record steam_session =
  client_module :: addr
  overlay_module :: addr
  steam_pipe :: u64
  global_user :: u64
  client_engine :: interface
  client_user :: interface
  client_utils :: interface
  client_friends :: interface
  install_path :: "byte list"
  app_id_variable :: "byte list"
  loaded :: "byte list list"
  calls :: "steam_call list"

definition new_interface :: "addr \<Rightarrow> interface" where
  "new_interface p = \<lparr>interface_ptr = p, known_methods = Map.empty\<rparr>"

text \<open>A library object that is given nothing is the executable of the process.\<close>

definition initial_session :: "steam_platform \<Rightarrow> steam_session" where
  "initial_session P = \<lparr>client_module = process_module P, overlay_module = process_module P,
     steam_pipe = 0, global_user = 0, client_engine = new_interface 0, client_user = new_interface 0,
     client_utils = new_interface 0, client_friends = new_interface 0, install_path = [],
     app_id_variable = [], loaded = [], calls = []\<rparr>"

definition bool_of :: "u64 \<Rightarrow> bool" where "bool_of r \<longleftrightarrow> (ucast r :: byte) \<noteq> 0"

subsection \<open>Calls\<close>

definition call_export ::
    "steam_env \<Rightarrow> steam_platform \<Rightarrow> byte list \<Rightarrow> argument list \<Rightarrow> steam_session \<Rightarrow> u64 \<times> steam_session" where
  "call_export E P name args s =
     lib_invoke (\<lambda>f args s. (export_answer P (calls s) f args, s\<lparr>calls := calls s @ [Export name args]\<rparr>))
       (platform_system P) (client_module s) (env_memory E) name args s"

definition call_entry ::
    "steam_env \<Rightarrow> steam_platform \<Rightarrow> nat \<Rightarrow> argument list \<Rightarrow> interface \<Rightarrow> steam_session \<Rightarrow>
     (exn + u64) \<times> steam_session" where
  "call_entry E P n args i s =
     (case invoke_entry E n i of
        Inl e \<Rightarrow> (Inl e, s)
      | Inr p \<Rightarrow> (method_answer P (calls s) p (interface_ptr i) args,
                  s\<lparr>calls := calls s @ [Method p (interface_ptr i) args]\<rparr>))"

definition call_method ::
    "steam_env \<Rightarrow> steam_platform \<Rightarrow> byte list \<Rightarrow> argument list \<Rightarrow> interface \<Rightarrow> steam_session \<Rightarrow>
     ((exn + u64) \<times> interface \<times> steam_session) option" where
  "call_method E P name args i s =
     map_option (\<lambda>(r, i'). case r of
         Inl e \<Rightarrow> (Inl e, i', s)
       | Inr p \<Rightarrow> (method_answer P (calls s) p (interface_ptr i) args, i',
                   s\<lparr>calls := calls s @ [Method p (interface_ptr i) args]\<rparr>))
       (invoke_method E name i)"

definition call_user ::
    "steam_env \<Rightarrow> steam_platform \<Rightarrow> byte list \<Rightarrow> argument list \<Rightarrow> steam_session \<Rightarrow>
     ((exn + u64) \<times> steam_session) option" where
  "call_user E P name args s =
     map_option (\<lambda>(r, i, s'). (r, s'\<lparr>client_user := i\<rparr>)) (call_method E P name args (client_user s) s)"

definition call_utils ::
    "steam_env \<Rightarrow> steam_platform \<Rightarrow> byte list \<Rightarrow> argument list \<Rightarrow> steam_session \<Rightarrow>
     ((exn + u64) \<times> steam_session) option" where
  "call_utils E P name args s =
     map_option (\<lambda>(r, i, s'). (r, s'\<lparr>client_utils := i\<rparr>)) (call_method E P name args (client_utils s) s)"

definition call_friends ::
    "steam_env \<Rightarrow> steam_platform \<Rightarrow> byte list \<Rightarrow> argument list \<Rightarrow> steam_session \<Rightarrow>
     ((exn + u64) \<times> steam_session) option" where
  "call_friends E P name args s =
     map_option (\<lambda>(r, i, s'). (r, s'\<lparr>client_friends := i\<rparr>)) (call_method E P name args (client_friends s) s)"

subsection \<open>Loading the client\<close>

text \<open>The conversion \<open>%03i\<close>.\<close>

definition three_digits :: "nat \<Rightarrow> byte list" where
  "three_digits n = replicate (3 - length (decimal n)) 48 @ decimal n"

definition engine_version :: "nat \<Rightarrow> byte list" where
  "engine_version i = lit ''CLIENTENGINE_INTERFACE_VERSION'' @ three_digits i"

fun engine_loop ::
    "steam_env \<Rightarrow> steam_platform \<Rightarrow> nat \<Rightarrow> nat \<Rightarrow> steam_session \<Rightarrow> addr \<times> steam_session" where
  "engine_loop E P 0 i s = (0, s)"
| "engine_loop E P (Suc n) i s =
     (let (r, s1) = call_export E P (lit ''CreateInterface'') [Text_pointer (engine_version i), Null_pointer] s
      in if r \<noteq> 0 then (r, s1) else engine_loop E P n (Suc i) s1)"

definition load_client_engine :: "steam_env \<Rightarrow> steam_platform \<Rightarrow> steam_session \<Rightarrow> addr \<times> steam_session" where
  "load_client_engine E P s =
     (if \<not> lib_is_valid (client_module s) (env_memory E) then (0, s) else engine_loop E P 999 1 s)"

definition MAX_PATH :: nat where "MAX_PATH = 260"

text \<open>
  The registry gives bytes for an array of zeros, or nothing when they do not fit; a key that
  is missing is \<open>None\<close>. The array is then read as a C string.
\<close>

definition get_steam_install_path :: "steam_platform \<Rightarrow> byte list \<Rightarrow> exn + byte list" where
  "get_steam_install_path P path =
     (if path \<noteq> [] then Inr path
      else case steam_registry P of
        None \<Rightarrow> Inr path
      | Some data \<Rightarrow>
          (let buffer = (if length data \<le> MAX_PATH then data else []) @
             replicate (MAX_PATH - (if length data \<le> MAX_PATH then length data else 0)) 0
           in if 0 \<in> set buffer then Inr (takeWhile (\<lambda>b. b \<noteq> 0) buffer) else Inl Undefined_behaviour))"

definition get_app_id :: u64 where "get_app_id = 292030"

text \<open>A file of a directory, as a path that is printed with slashes.\<close>

definition generic_path :: "byte list \<Rightarrow> byte list" where
  "generic_path p = map (\<lambda>b. if b = 0x5C then 0x2F else b) p"

definition is_drive :: "byte list \<Rightarrow> bool" where
  "is_drive p \<longleftrightarrow> length p = 2 \<and> p ! 1 = 0x3A"

definition file_in :: "byte list \<Rightarrow> string \<Rightarrow> byte list" where
  "file_in base name = generic_path
     (base @ (if is_slash (last base) \<or> is_drive base then [] else [0x5C]) @ lit name)"

definition load_libraries :: "steam_platform \<Rightarrow> byte list \<Rightarrow> steam_session \<Rightarrow> steam_session" where
  "load_libraries P steam_path s =
     s\<lparr>overlay_module := load_dll P (file_in steam_path ''gameoverlayrenderer64.dll''),
       client_module := load_dll P (file_in steam_path ''steamclient64.dll''),
       loaded := loaded s @ map (file_in steam_path)
         [''tier0_s64.dll'', ''vstdlib_s64.dll'', ''gameoverlayrenderer64.dll'', ''steamclient64.dll'']\<rparr>"

text \<open>The three interfaces of the engine, by their places in its table.\<close>

definition load_interfaces :: "steam_env \<Rightarrow> steam_platform \<Rightarrow> steam_session \<Rightarrow> exn option \<times> steam_session" where
  "load_interfaces E P s =
     (let pipe = Number (steam_pipe s); user = Number (global_user s) in
      case call_entry E P 8 [user, pipe] (client_engine s) s of
        (Inl e, s1) \<Rightarrow> (Some e, s1)
      | (Inr r1, s1) \<Rightarrow>
          (let s2 = s1\<lparr>client_user := new_interface r1\<rparr> in
           case call_entry E P 14 [pipe] (client_engine s2) s2 of
             (Inl e, s3) \<Rightarrow> (Some e, s3)
           | (Inr r2, s3) \<Rightarrow>
               (let s4 = s3\<lparr>client_utils := new_interface r2\<rparr> in
                case call_entry E P 13 [user, pipe] (client_engine s4) s4 of
                  (Inl e, s5) \<Rightarrow> (Some e, s5)
                | (Inr r3, s5) \<Rightarrow> (None, s5\<lparr>client_friends := new_interface r3\<rparr>))))"

definition load_client :: "steam_env \<Rightarrow> steam_platform \<Rightarrow> steam_session \<Rightarrow> exn option \<times> steam_session" where
  "load_client E P s =
     (let s0 = s\<lparr>app_id_variable := decimal (unat get_app_id)\<rparr> in
      case get_steam_install_path P (install_path s0) of
        Inl e \<Rightarrow> (Some e, s0)
      | Inr steam_path \<Rightarrow>
          (let s1 = s0\<lparr>install_path := steam_path\<rparr> in
           if steam_path = [] then (None, s1)
           else let s2 = load_libraries P steam_path s1 in
             if \<not> lib_is_valid (client_module s2) (env_memory E) then (None, s2)
             else let (engine, s3) = load_client_engine E P s2; s4 = s3\<lparr>client_engine := new_interface engine\<rparr> in
               if engine = 0 then (None, s4)
               else let (pipe, s5) = call_export E P (lit ''Steam_CreateSteamPipe'') [] s4;
                        s6 = s5\<lparr>steam_pipe := pipe\<rparr>;
                        (user, s7) = call_export E P (lit ''Steam_ConnectToGlobalUser'') [Number pipe] s6
                    in load_interfaces E P (s7\<lparr>global_user := user\<rparr>)))"

subsection \<open>Dropping the session\<close>

definition do_cleanup :: "steam_session \<Rightarrow> steam_session" where
  "do_cleanup s = s\<lparr>client_engine := new_interface 0, client_user := new_interface 0,
     client_utils := new_interface 0, client_friends := new_interface 0, steam_pipe := 0, global_user := 0\<rparr>"

definition perform_cleanup_if_needed ::
    "steam_env \<Rightarrow> steam_platform \<Rightarrow> steam_session \<Rightarrow> bool \<times> steam_session" where
  "perform_cleanup_if_needed E P s =
     (let args = [Number (global_user s), Number (steam_pipe s)] in
      if lib_is_valid (client_module s) (env_memory E) \<and> steam_pipe s \<noteq> 0 \<and> global_user s \<noteq> 0 then
        (let (connected, s1) = call_export E P (lit ''Steam_BConnected'') args s in
         if bool_of connected then
           (let (logged_on, s2) = call_export E P (lit ''Steam_BLoggedOn'') args s1 in
            if bool_of logged_on then (False, s2) else (True, do_cleanup s2))
         else (True, do_cleanup s1))
      else (True, do_cleanup s))"

text \<open>The one task of the module, which ends once it has cleaned up.\<close>

datatype steam_callback = Clean_up

definition clean_up_behaviour :: "steam_env \<Rightarrow> steam_platform \<Rightarrow> (steam_callback, steam_session) behaviour" where
  "clean_up_behaviour E P c s =
     (let (ended, s') = perform_cleanup_if_needed E P s in
      \<lparr>result_end = ended, result_exception = None, result_schedules = [], result_world = s'\<rparr>)"

definition clean_up_on_error ::
    "(steam_callback, steam_session) scheduler \<Rightarrow> (steam_callback, steam_session) scheduler" where
  "clean_up_on_error sch = schedule (Custom Clean_up) Async 0 sch"

subsection \<open>Starting the mod\<close>

text \<open>The identifier of the game: the application, the type of a mod, and the name of the mod.\<close>

definition mod_game_id :: "u64 \<Rightarrow> u64" where
  "mod_game_id app_id = (app_id AND 0xFFFFFF) OR push_bit 24 1 OR
     push_bit 32 (ucast (bytes_u32 (lit ''w3m'' @ [0]) OR 0x80000000))"

definition start_app_id :: "bool \<Rightarrow> u64 \<Rightarrow> u64" where
  "start_app_id subscribed app_id = (if \<not> subscribed then 480 else app_id)"

text \<open>The conversions \<open>%d\<close> and \<open>"%s" -proc %d\<close>.\<close>

definition signed_decimal :: "u32 \<Rightarrow> byte list" where
  "signed_decimal w = (if sint w < 0 then 45 # decimal (nat (- sint w)) else decimal (nat (sint w)))"

definition process_command_line :: "byte list \<Rightarrow> u32 \<Rightarrow> byte list" where
  "process_command_line path pid = [0x22] @ path @ [0x22] @ lit '' -proc '' @ signed_decimal pid"

definition self_path :: "steam_env \<Rightarrow> steam_platform \<Rightarrow> byte list" where
  "self_path E P = generic_path (get_path (platform_system P) (own_module P) (env_memory E))"

text \<open>\<open>GetCurrentDirectoryA\<close> into an array of zeros, which a longer path leaves as it is.\<close>

definition our_directory :: "steam_platform \<Rightarrow> byte list" where
  "our_directory P = (if length (working_directory P) < MAX_PATH then working_directory P else [])"

definition spawn_arguments :: "steam_env \<Rightarrow> steam_platform \<Rightarrow> byte list \<Rightarrow> u64 \<Rightarrow> argument list" where
  "spawn_arguments E P title app_id =
     [Text_pointer (self_path E P), Text_pointer (process_command_line (self_path E P) (process_id P)),
      Text_pointer (our_directory P), Number (mod_game_id app_id), Text_pointer title,
      Number 0, Number 0, Number 0]"

text \<open>The next call is made unless the last one threw.\<close>

definition and_then ::
    "((exn + 'a) \<times> 's) option \<Rightarrow> ('a \<Rightarrow> 's \<Rightarrow> (exn option \<times> 's) option) \<Rightarrow> (exn option \<times> 's) option" where
  "and_then m f = Option.bind m (\<lambda>(r, s). case r of Inl e \<Rightarrow> Some (Some e, s) | Inr x \<Rightarrow> f x s)"

definition start_mod_unsafe ::
    "steam_env \<Rightarrow> steam_platform \<Rightarrow> byte list \<Rightarrow> u64 \<Rightarrow> steam_session \<Rightarrow> (exn option \<times> steam_session) option" where
  "start_mod_unsafe E P title app_id s =
     (if interface_ptr (client_utils s) = 0 \<or> interface_ptr (client_user s) = 0 then Some (None, s)
      else and_then (call_user E P (lit ''BIsSubscribedApp'') [Number app_id] s) (\<lambda>subscribed s1.
        let app = start_app_id (bool_of subscribed) app_id in
        and_then (call_utils E P (lit ''SetAppIDForCurrentPipe'') [Number app, Number 0] s1) (\<lambda>_ s2.
        and_then (call_user E P (lit ''SpawnProcess'') (spawn_arguments E P title app) s2) (\<lambda>_ s3.
          Some (None, s3)))))"

definition start_mod ::
    "steam_env \<Rightarrow> steam_platform \<Rightarrow> byte list \<Rightarrow> u64 \<Rightarrow> steam_session \<Rightarrow> steam_session option" where
  "start_mod E P title app_id s =
     map_option (\<lambda>(e, s'). if e = None then s' else do_cleanup s') (start_mod_unsafe E P title app_id s)"

definition mod_title :: "byte list" where
  "mod_title = [0xF0, 0x9F, 0x90, 0xBA] @ lit '' '' @ lit ''Witcher 3: Multiplayer''"

text \<open>
  The component: the session at the end of \<open>post_load\<close>, with an exception of the loading, which
  leaves the rest out; the task is scheduled last.
\<close>

definition steam_post_load ::
    "steam_env \<Rightarrow> steam_platform \<Rightarrow> (steam_callback, steam_session) scheduler \<Rightarrow>
     (exn option \<times> (steam_callback, steam_session) scheduler) option" where
  "steam_post_load E P sch =
     (case load_client E P (world sch) of
        (Some e, s1) \<Rightarrow> Some (Some e, sch\<lparr>world := s1\<rparr>)
      | (None, s1) \<Rightarrow>
          map_option (\<lambda>s3. (None, clean_up_on_error (sch\<lparr>world := s3\<rparr>)))
            (start_mod E P mod_title get_app_id (snd (perform_cleanup_if_needed E P s1))))"

definition steam_pre_destroy :: "steam_env \<Rightarrow> steam_platform \<Rightarrow> steam_session \<Rightarrow> steam_session" where
  "steam_pre_destroy E P s =
     (if lib_is_valid (client_module s) (env_memory E) \<and> steam_pipe s \<noteq> 0 then
        (let s1 = (if global_user s \<noteq> 0
             then snd (call_export E P (lit ''Steam_ReleaseUser'') [Number (steam_pipe s), Number (global_user s)] s)
             else s)
         in snd (call_export E P (lit ''Steam_BReleaseSteamPipe'') [Number (steam_pipe s1)] s1))
      else s)"

text \<open>\<open>get_player_name\<close>: the pointer Steam gives, and null without a session.\<close>

definition steam_player_name ::
    "steam_env \<Rightarrow> steam_platform \<Rightarrow> steam_session \<Rightarrow> ((exn + u64) \<times> steam_session) option" where
  "steam_player_name E P s =
     (if interface_ptr (client_friends s) \<noteq> 0 then call_friends E P (lit ''GetPersonaName'') [] s
      else Some (Inr 0, s))"

section \<open>The calls of a session\<close>

definition session_null :: "steam_session \<Rightarrow> bool" where
  "session_null s \<longleftrightarrow> client_engine s = new_interface 0 \<and> client_user s = new_interface 0 \<and>
     client_utils s = new_interface 0 \<and> client_friends s = new_interface 0 \<and> steam_pipe s = 0 \<and>
     global_user s = 0"

lemma session_null_cleanup [simp]: "session_null (do_cleanup s)"
  by (simp add: session_null_def do_cleanup_def)

lemma cleanup_null: "session_null s \<Longrightarrow> do_cleanup s = s"
  by (cases s) (simp add: session_null_def do_cleanup_def)

lemma call_export_frame:
  assumes "call_export E P name args s = (r, s')"
  shows "session_null s \<Longrightarrow> session_null s'" and "client_user s' = client_user s"
    and "client_utils s' = client_utils s" and "steam_pipe s' = steam_pipe s" and "global_user s' = global_user s"
    and "client_module s' = client_module s" and "calls s' = calls s \<or> calls s' = calls s @ [Export name args]"
    and "r \<noteq> 0 \<Longrightarrow> calls s' = calls s @ [Export name args]"
  using assms by (auto simp: call_export_def lib_invoke_def session_null_def split: option.splits)

text \<open>A method that is called has the name that was asked for, in its own code.\<close>

lemma call_method_ok:
  assumes "call_method E P name args i s = Some (r, i', s')" and "true_methods E (known_methods i)"
  shows "true_methods E (known_methods i')" and "interface_ptr i' = interface_ptr i"
    and "r = Inr x \<Longrightarrow> \<exists>p. analyze_method E p = Some name \<and>
           s' = s\<lparr>calls := calls s @ [Method p (interface_ptr i) args]\<rparr>"
    and "\<exists>cs. s' = s\<lparr>calls := calls s @ cs\<rparr>"
proof -
  from assms(1) obtain r1 where r1: "invoke_method E name i = Some (r1, i')"
    and s': "(r, s') = (case r1 of Inl e \<Rightarrow> (Inl e, s)
       | Inr p \<Rightarrow> (method_answer P (calls s) p (interface_ptr i) args,
                   s\<lparr>calls := calls s @ [Method p (interface_ptr i) args]\<rparr>))"
    unfolding call_method_def by (smt (verit) map_option_eq_Some prod.case_eq_if prod.collapse sum.case_eq_if surj_pair split_pairs)
  have i': "true_methods E (known_methods i') \<and> interface_ptr i' = interface_ptr i \<and>
      (\<forall>p. r1 = Inr p \<longrightarrow> analyze_method E p = Some name)"
  proof (cases "interface_ptr i = 0")
    case True
    with r1 assms(2) show ?thesis by (auto simp: invoke_method_def)
  next
    case False
    with r1 obtain p where p: "find_method E name i = Some (p, i')"
      and r1': "r1 = (if p = 0 then Inl (Runtime_error (lit ''Unable to find method: '' @ name)) else Inr p)"
      by (auto simp: invoke_method_def)
    from found_method_has_name [OF assms(2) p] r1' show ?thesis by (auto split: if_splits)
  qed
  then show "true_methods E (known_methods i')" "interface_ptr i' = interface_ptr i" by simp_all
  show "r = Inr x \<Longrightarrow> \<exists>p. analyze_method E p = Some name \<and>
           s' = s\<lparr>calls := calls s @ [Method p (interface_ptr i) args]\<rparr>"
    using s' i' by (cases r1) auto
  show "\<exists>cs. s' = s\<lparr>calls := calls s @ cs\<rparr>"
  proof (cases r1)
    case (Inl e)
    with s' have "s' = s\<lparr>calls := calls s @ []\<rparr>" by simp
    then show ?thesis ..
  qed (use s' in auto)
qed

lemma new_interface_true [simp]: "true_methods E (known_methods (new_interface p))"
  by (simp add: new_interface_def true_methods_def)

lemma new_interface_ptr [simp]: "interface_ptr (new_interface p) = p"
  by (simp add: new_interface_def)

lemma and_then_None:
  "and_then m f = Some (None, s') \<longleftrightarrow> (\<exists>x s. m = Some (Inr x, s) \<and> f x s = Some (None, s'))"
  by (auto simp: and_then_def bind_eq_Some_conv split: sum.split_asm)

text \<open>What one call through an interface of the session does.\<close>

definition asked :: "steam_env \<Rightarrow> byte list \<Rightarrow> addr \<Rightarrow> argument list \<Rightarrow> steam_call \<Rightarrow> bool" where
  "asked E name this args c \<longleftrightarrow> (\<exists>p. c = Method p this args \<and> analyze_method E p = Some name)"

definition methods_true :: "steam_env \<Rightarrow> steam_session \<Rightarrow> bool" where
  "methods_true E s \<longleftrightarrow> true_methods E (known_methods (client_user s)) \<and>
     true_methods E (known_methods (client_utils s)) \<and> true_methods E (known_methods (client_friends s))"

definition same_objects :: "steam_session \<Rightarrow> steam_session \<Rightarrow> bool" where
  "same_objects s s' \<longleftrightarrow> interface_ptr (client_user s') = interface_ptr (client_user s) \<and>
     interface_ptr (client_utils s') = interface_ptr (client_utils s)"

lemma call_user_ok:
  assumes "call_user E P name args s = Some (r, s')" and "methods_true E s"
  shows "methods_true E s' \<and> same_objects s s' \<and> (\<exists>cs. calls s' = calls s @ cs) \<and>
    (\<forall>x. r = Inr x \<longrightarrow> (\<exists>c. calls s' = calls s @ [c] \<and> asked E name (interface_ptr (client_user s)) args c))"
proof -
  from assms(1) obtain i s1 where c: "call_method E P name args (client_user s) s = Some (r, i, s1)"
    and s': "s' = s1\<lparr>client_user := i\<rparr>" by (auto simp: call_user_def)
  from assms(2) have t: "true_methods E (known_methods (client_user s))" by (simp add: methods_true_def)
  note ok = call_method_ok [OF c t]
  from ok(4) obtain cs where s1: "s1 = s\<lparr>calls := calls s @ cs\<rparr>" by blast
  with ok(1,2) assms(2) s' have "methods_true E s' \<and> same_objects s s' \<and> calls s' = calls s @ cs"
    by (simp add: methods_true_def same_objects_def)
  moreover have "\<exists>c. calls s' = calls s @ [c] \<and> asked E name (interface_ptr (client_user s)) args c" if "r = Inr x" for x
    using ok(3) [OF that] s' by (auto simp: asked_def)
  ultimately show ?thesis by blast
qed

lemma call_utils_ok:
  assumes "call_utils E P name args s = Some (r, s')" and "methods_true E s"
  shows "methods_true E s' \<and> same_objects s s' \<and> (\<exists>cs. calls s' = calls s @ cs) \<and>
    (\<forall>x. r = Inr x \<longrightarrow> (\<exists>c. calls s' = calls s @ [c] \<and> asked E name (interface_ptr (client_utils s)) args c))"
proof -
  from assms(1) obtain i s1 where c: "call_method E P name args (client_utils s) s = Some (r, i, s1)"
    and s': "s' = s1\<lparr>client_utils := i\<rparr>" by (auto simp: call_utils_def)
  from assms(2) have t: "true_methods E (known_methods (client_utils s))" by (simp add: methods_true_def)
  note ok = call_method_ok [OF c t]
  from ok(4) obtain cs where s1: "s1 = s\<lparr>calls := calls s @ cs\<rparr>" by blast
  with ok(1,2) assms(2) s' have "methods_true E s' \<and> same_objects s s' \<and> calls s' = calls s @ cs"
    by (simp add: methods_true_def same_objects_def)
  moreover have "\<exists>c. calls s' = calls s @ [c] \<and> asked E name (interface_ptr (client_utils s)) args c" if "r = Inr x" for x
    using ok(3) [OF that] s' by (auto simp: asked_def)
  ultimately show ?thesis by blast
qed

text \<open>
  Starting the mod never throws. It does nothing without the two interfaces; otherwise it has
  made exactly three calls, of methods with these names on these objects, the last of which
  starts the game for the application the user has, or else for application 480; or something
  failed and the session is null.
\<close>

lemma start_mod_cases:
  assumes "methods_true E s" and "start_mod E P title app_id s = Some s'"
  shows "session_null s' \<or>
    ((interface_ptr (client_utils s) = 0 \<or> interface_ptr (client_user s) = 0) \<and> s' = s) \<or>
    (\<exists>c1 c2 c3. \<exists>app \<in> {app_id, 480}. calls s' = calls s @ [c1, c2, c3] \<and>
       asked E (lit ''BIsSubscribedApp'') (interface_ptr (client_user s)) [Number app_id] c1 \<and>
       asked E (lit ''SetAppIDForCurrentPipe'') (interface_ptr (client_utils s)) [Number app, Number 0] c2 \<and>
       asked E (lit ''SpawnProcess'') (interface_ptr (client_user s)) (spawn_arguments E P title app) c3)"
proof -
  from assms(2) obtain e s0 where run: "start_mod_unsafe E P title app_id s = Some (e, s0)"
    and s': "s' = (if e = None then s0 else do_cleanup s0)" by (auto simp: start_mod_def)
  show ?thesis
  proof (cases "e = None \<and> interface_ptr (client_utils s) \<noteq> 0 \<and> interface_ptr (client_user s) \<noteq> 0")
    case False
    then show ?thesis using run s' by (auto simp: start_mod_unsafe_def)
  next
    case True
    with run obtain sub s1 x s2 y where
        c1: "call_user E P (lit ''BIsSubscribedApp'') [Number app_id] s = Some (Inr sub, s1)"
      and c2: "call_utils E P (lit ''SetAppIDForCurrentPipe'')
          [Number (start_app_id (bool_of sub) app_id), Number 0] s1 = Some (Inr x, s2)"
      and c3: "call_user E P (lit ''SpawnProcess'')
          (spawn_arguments E P title (start_app_id (bool_of sub) app_id)) s2 = Some (Inr y, s0)"
      by (auto simp: start_mod_unsafe_def and_then_None Let_def)
    let ?app = "start_app_id (bool_of sub) app_id"
    note u1 = call_user_ok [OF c1 assms(1)]
    then have u2: "methods_true E s2 \<and> same_objects s1 s2 \<and>
        (\<exists>c. calls s2 = calls s1 @ [c] \<and> asked E (lit ''SetAppIDForCurrentPipe'')
          (interface_ptr (client_utils s1)) [Number ?app, Number 0] c)"
      using call_utils_ok [OF c2] by blast
    then have u3: "\<exists>c. calls s0 = calls s2 @ [c] \<and> asked E (lit ''SpawnProcess'')
        (interface_ptr (client_user s2)) (spawn_arguments E P title ?app) c"
      using call_user_ok [OF c3] by blast
    have "?app \<in> {app_id, 480}" by (simp add: start_app_id_def)
    moreover have "s' = s0" using s' True by simp
    ultimately show ?thesis using u1 u2 u3 by (auto simp: same_objects_def)
  qed
qed

section \<open>The session follows Steam\<close>

text \<open>Steam confirms a session when it answers both questions with yes.\<close>

definition confirmed :: "steam_env \<Rightarrow> steam_platform \<Rightarrow> steam_session \<Rightarrow> bool" where
  "confirmed E P s \<longleftrightarrow> \<not> fst (perform_cleanup_if_needed E P s)"

lemma unconfirmed_is_null: "\<not> confirmed E P s \<Longrightarrow> session_null (snd (perform_cleanup_if_needed E P s))"
  by (auto simp: confirmed_def perform_cleanup_if_needed_def Let_def split: prod.splits if_splits)

lemma null_is_unconfirmed: "session_null s \<Longrightarrow> \<not> confirmed E P s \<and> snd (perform_cleanup_if_needed E P s) = s"
  by (simp add: confirmed_def perform_cleanup_if_needed_def session_null_def cleanup_null [unfolded session_null_def])

lemma confirmed_calls:
  assumes "confirmed E P s"
  shows "calls (snd (perform_cleanup_if_needed E P s)) = calls s @
      [Export (lit ''Steam_BConnected'') [Number (global_user s), Number (steam_pipe s)],
       Export (lit ''Steam_BLoggedOn'') [Number (global_user s), Number (steam_pipe s)]] \<and>
    steam_pipe s \<noteq> 0 \<and> global_user s \<noteq> 0"
proof -
  let ?args = "[Number (global_user s), Number (steam_pipe s)]"
  obtain c s1 where c: "call_export E P (lit ''Steam_BConnected'') ?args s = (c, s1)" by fastforce
  obtain l s2 where l: "call_export E P (lit ''Steam_BLoggedOn'') ?args s1 = (l, s2)" by fastforce
  from assms have yes: "bool_of c" "bool_of l" "steam_pipe s \<noteq> 0" "global_user s \<noteq> 0"
    and res: "snd (perform_cleanup_if_needed E P s) = s2"
    by (auto simp: confirmed_def perform_cleanup_if_needed_def Let_def c l split: if_splits)
  from yes have "c \<noteq> 0" "l \<noteq> 0" by (auto simp: bool_of_def)
  with call_export_frame(8) [OF c] call_export_frame(8) [OF l] yes res show ?thesis by simp
qed

text \<open>The clean-up task is the only one of the pipeline, or there is none.\<close>

definition task_pending :: "(steam_callback, steam_session) scheduler \<Rightarrow> bool" where
  "task_pending sch \<longleftrightarrow> (\<exists>t. callbacks sch Async @ new_callbacks sch Async = [t] \<and>
     task_handler t = Custom Clean_up \<and> task_interval t = 0 \<and> (\<forall>n \<ge> readings sch. last_call t \<le> clock sch n))"

definition no_task :: "(steam_callback, steam_session) scheduler \<Rightarrow> bool" where
  "no_task sch \<longleftrightarrow> callbacks sch Async @ new_callbacks sch Async = []"

definition tick :: "steam_env \<Rightarrow> steam_platform \<Rightarrow> (steam_callback, steam_session) scheduler \<Rightarrow>
    (steam_callback, steam_session) scheduler" where
  "tick E P sch = snd (execute (clean_up_behaviour E P) Async sch)"

lemma tick_no_task:
  assumes "no_task sch"
  shows "no_task (tick E P sch)" and "world (tick E P sch) = world sch" and "clock (tick E P sch) = clock sch"
  using assms by (simp_all add: no_task_def tick_def execute_def merge_callbacks_def Let_def)

lemma tick_task:
  assumes "task_pending sch" and "mono (clock sch)"
  shows "world (tick E P sch) = snd (perform_cleanup_if_needed E P (world sch))"
    and "if confirmed E P (world sch) then task_pending (tick E P sch) else no_task (tick E P sch)"
    and "clock (tick E P sch) = clock sch"
proof -
  from assms(1) obtain t where t: "callbacks sch Async @ new_callbacks sch Async = [t]"
      "task_handler t = Custom Clean_up" "task_interval t = 0" "last_call t \<le> clock sch (readings sch)"
    by (auto simp: task_pending_def)
  obtain ended s' where p: "perform_cleanup_if_needed E P (world sch) = (ended, s')" by fastforce
  have later: "\<forall>n \<ge> Suc (readings sch). clock sch (readings sch) \<le> clock sch n"
    using assms(2) by (simp add: mono_def)
  note run = tick_def execute_def merge_callbacks_def read_clock_def run_handler_def clean_up_behaviour_def
  show "world (tick E P sch) = snd (perform_cleanup_if_needed E P (world sch))"
    using t by (cases ended) (simp_all add: run p Let_def)
  show "clock (tick E P sch) = clock sch"
    using t by (cases ended) (simp_all add: run p Let_def)
  show "if confirmed E P (world sch) then task_pending (tick E P sch) else no_task (tick E P sch)"
    using t later by (cases ended) (simp_all add: run p Let_def confirmed_def task_pending_def no_task_def)
qed

lemma confirmed_until_null:
  assumes "task_pending sch" and "mono (clock sch)"
  shows "clock ((tick E P ^^ n) sch) = clock sch \<and>
    (if \<forall>k < n. confirmed E P (world ((tick E P ^^ k) sch)) then task_pending ((tick E P ^^ n) sch)
     else no_task ((tick E P ^^ n) sch) \<and> session_null (world ((tick E P ^^ n) sch)))"
proof (induction n)
  case (Suc n)
  let ?s = "(tick E P ^^ n) sch"
  show ?case
  proof (cases "\<forall>k < n. confirmed E P (world ((tick E P ^^ k) sch))")
    case True
    with Suc have p: "task_pending ?s" and m: "mono (clock ?s)" using assms(2) by simp_all
    from tick_task [OF p m, of E P] Suc True show ?thesis
      using unconfirmed_is_null [of E P "world ?s"] by (auto simp: less_Suc_eq)
  next
    case False
    with Suc have "no_task ?s" "session_null (world ?s)" by simp_all
    with tick_no_task [of ?s E P] False Suc show ?thesis by (auto simp: less_Suc_eq)
  qed
qed (use assms in simp)

section \<open>The start of the mod\<close>

lemma call_export_interfaces:
  "client_friends (snd (call_export E P name args s)) = client_friends s"
  "client_engine (snd (call_export E P name args s)) = client_engine s"
  by (auto simp: call_export_def lib_invoke_def split: option.splits)

lemma call_export_true: "methods_true E s \<Longrightarrow> methods_true E (snd (call_export E P name args s))"
  using call_export_frame(2,3) [of E P name args s, OF surjective_pairing] call_export_interfaces [of E P name args s]
  by (simp add: methods_true_def)

lemma call_entry_true: "methods_true E s \<Longrightarrow> methods_true E (snd (call_entry E P n args i s))"
  by (auto simp: call_entry_def methods_true_def split: sum.split)

lemma engine_loop_true: "methods_true E s \<Longrightarrow> methods_true E (snd (engine_loop E P n i s))"
  by (induction n arbitrary: i s) (auto simp: Let_def case_prod_beta call_export_true)

lemma load_client_engine_true: "methods_true E s \<Longrightarrow> methods_true E (snd (load_client_engine E P s))"
  by (simp add: load_client_engine_def engine_loop_true)

lemma plain_updates_true [simp]:
  "methods_true E (s\<lparr>app_id_variable := v\<rparr>) = methods_true E s"
  "methods_true E (s\<lparr>install_path := v\<rparr>) = methods_true E s"
  "methods_true E (s\<lparr>client_engine := i\<rparr>) = methods_true E s"
  "methods_true E (s\<lparr>steam_pipe := pipe\<rparr>) = methods_true E s"
  "methods_true E (s\<lparr>global_user := u\<rparr>) = methods_true E s"
  "methods_true E (load_libraries P path s) = methods_true E s"
  "methods_true E s \<Longrightarrow> methods_true E (s\<lparr>client_user := new_interface q\<rparr>)"
  "methods_true E s \<Longrightarrow> methods_true E (s\<lparr>client_utils := new_interface q\<rparr>)"
  "methods_true E s \<Longrightarrow> methods_true E (s\<lparr>client_friends := new_interface q\<rparr>)"
  by (simp_all add: methods_true_def load_libraries_def)

lemma load_interfaces_true: "methods_true E s \<Longrightarrow> methods_true E (snd (load_interfaces E P s))"
  by (auto simp: load_interfaces_def Let_def case_prod_beta call_entry_true split: sum.split)

lemma load_client_true: "methods_true E s \<Longrightarrow> methods_true E (snd (load_client E P s))"
  by (auto simp: load_client_def Let_def case_prod_beta call_export_true load_client_engine_true
      load_interfaces_true split: sum.split)

lemma cleanup_true: "methods_true E s \<Longrightarrow> methods_true E (snd (perform_cleanup_if_needed E P s))"
  by (auto simp: perform_cleanup_if_needed_def do_cleanup_def Let_def case_prod_beta call_export_true)

text \<open>C32: 
  When the component starts without an exception, Steam is told to start the mod only in a
  session it has just confirmed as connected and logged on. Otherwise nothing more is asked and
  the session is null. In a confirmed session either an interface is missing and nothing is
  asked, or the three methods are called on the session's objects, or a call failed and the
  session is null.
\<close>

theorem mod_starts_in_confirmed_session:
  assumes "steam_post_load E P sch = Some (None, sch')" and "methods_true E (world sch)"
  shows "let s1 = snd (load_client E P (world sch)); s2 = snd (perform_cleanup_if_needed E P s1); s' = world sch' in
    (\<not> confirmed E P s1 \<longrightarrow> s' = s2 \<and> session_null s') \<and>
    (confirmed E P s1 \<longrightarrow>
       calls s2 = calls s1 @
         [Export (lit ''Steam_BConnected'') [Number (global_user s1), Number (steam_pipe s1)],
          Export (lit ''Steam_BLoggedOn'') [Number (global_user s1), Number (steam_pipe s1)]] \<and>
       (session_null s' \<or>
        (interface_ptr (client_utils s2) = 0 \<or> interface_ptr (client_user s2) = 0) \<and> s' = s2 \<or>
        (\<exists>c1 c2 c3. \<exists>app \<in> {get_app_id, 480}. calls s' = calls s2 @ [c1, c2, c3] \<and>
          asked E (lit ''BIsSubscribedApp'') (interface_ptr (client_user s2)) [Number get_app_id] c1 \<and>
          asked E (lit ''SetAppIDForCurrentPipe'') (interface_ptr (client_utils s2)) [Number app, Number 0] c2 \<and>
          asked E (lit ''SpawnProcess'') (interface_ptr (client_user s2)) (spawn_arguments E P mod_title app) c3)))"
proof -
  obtain s1 where load: "load_client E P (world sch) = (None, s1)" and
      start: "map_option (\<lambda>s3. (None, clean_up_on_error (sch\<lparr>world := s3\<rparr>)))
        (start_mod E P mod_title get_app_id (snd (perform_cleanup_if_needed E P s1))) = Some (None, sch')"
    using assms(1) by (auto simp: steam_post_load_def split: prod.splits option.splits)
  let ?s2 = "snd (perform_cleanup_if_needed E P s1)"
  from start have mod: "start_mod E P mod_title get_app_id ?s2 = Some (world sch')"
    by (auto simp: clean_up_on_error_def schedule_def read_clock_def add_task_def Let_def)
  have "methods_true E ?s2"
    using load_client_true [OF assms(2), of P] cleanup_true load by simp
  note cases = start_mod_cases [OF this mod]
  show ?thesis
  proof (cases "confirmed E P s1")
    case True
    with cases confirmed_calls [OF True] show ?thesis by (simp add: load Let_def)
  next
    case False
    then have null: "session_null ?s2" by (rule unconfirmed_is_null)
    then have "world sch' = ?s2"
      using mod by (simp add: start_mod_def start_mod_unsafe_def session_null_def)
    with null False show ?thesis by (simp add: load Let_def)
  qed
qed

lemma post_load_pending:
  assumes "steam_post_load E P sch = Some (None, sch')" and "no_task sch" and "mono (clock sch)"
  shows "task_pending sch' \<and> clock sch' = clock sch"
proof -
  have "clock sch (readings sch) \<le> clock sch n" if "Suc (readings sch) \<le> n" for n
    using assms(3) that by (simp add: mono_def)
  then show ?thesis
    using assms(1,2) by (auto simp: steam_post_load_def clean_up_on_error_def schedule_def read_clock_def
        add_task_def Let_def task_pending_def no_task_def split: prod.splits option.splits)
qed

text \<open>C31: 
  The session follows Steam: as long as Steam has confirmed it at every execution of the
  pipeline the task is there, and from the first execution at which it did not the session is
  null and the task is gone for ever.
\<close>

theorem session_follows_steam:
  assumes "steam_post_load E P sch = Some (None, sch')" and "no_task sch" and "mono (clock sch)"
  shows "if \<forall>k < n. confirmed E P (world ((tick E P ^^ k) sch')) then task_pending ((tick E P ^^ n) sch')
     else no_task ((tick E P ^^ n) sch') \<and> session_null (world ((tick E P ^^ n) sch'))"
  using post_load_pending [OF assms] assms(3) confirmed_until_null [where sch = sch' and E = E and P = P and n = n] by simp

text \<open>A session that was dropped is not released, and has no name of a player to give.\<close>

lemma cleanup_forgets_pipe: "steam_pre_destroy E P (do_cleanup s) = do_cleanup s"
  by (simp add: steam_pre_destroy_def do_cleanup_def)

lemma null_session_has_no_name: "session_null s \<Longrightarrow> steam_player_name E P s = Some (Inr 0, s)"
  by (simp add: steam_player_name_def session_null_def)

section \<open>The process that Steam starts\<close>

section \<open>The process that Steam starts\<close>

lemma take_other:
  assumes "c \<notin> set w"
  shows "take (length w) (xs @ c # ys) = w \<longleftrightarrow> take (length w) xs = w"
proof (cases "length w \<le> length xs")
  case False
  then obtain k where "length w - length xs = Suc k" by (cases "length w - length xs") auto
  then have "c \<in> set (take (length w) (xs @ c # ys))" by simp
  moreover have "length (take (length w) xs) \<noteq> length w" using False by simp
  ultimately show ?thesis using assms by metis
qed simp

lemma after_command_behind:
  assumes "c \<notin> set process_command"
  shows "after_command (xs @ c # ys) =
    (case after_command xs of Some r \<Rightarrow> Some (r @ c # ys) | None \<Rightarrow> after_command ys)"
proof (induction xs)
  case Nil
  have "process_command \<noteq> []" by (simp add: process_command_def lit_def)
  then show ?case using take_other [OF assms, of "[]" ys] by simp
next
  case (Cons x xs)
  show ?case
  proof (cases "take (length process_command) (x # xs) = process_command")
    case True
    then have "length process_command \<le> length (x # xs)" by (metis length_take min.cobounded1)
    then have "drop (length process_command) ((x # xs) @ c # ys) = drop (length process_command) (x # xs) @ c # ys"
      by (simp only: drop_append) simp
    with True show ?thesis using take_other [OF assms, of "x # xs" ys] by simp
  next
    case False
    then show ?thesis using Cons take_other [OF assms, of "x # xs" ys] by simp
  qed
qed

lemma atoi_minus: "atoi (45 # decimal n) = - int n"
proof -
  have "takeWhile (\<lambda>b. b \<noteq> 0) (decimal n) = decimal n"
    using decimal_digits [of n] by (subst takeWhile_eq_all_conv) (auto simp: list_all_iff dest: digit_facts)
  then have tw: "takeWhile (\<lambda>b. b \<noteq> 0) (decimal n) \<equiv> decimal n" by (rule eq_reflection)
  show ?thesis
    by (simp add: atoi_def is_space_def tw atoi_digits_decimal)
qed

lemma atoi_signed_decimal: "atoi (signed_decimal w) = sint w"
  by (simp add: signed_decimal_def atoi_minus atoi_decimal)

text \<open>
  The command line the game's process gets from Steam is understood by the executable: it
  waits for the process that asked for the start. The path must not contain the option itself.
\<close>

theorem spawned_process_waits:
  assumes "after_command path = None"
  shows "handle_process_runner (process_command_line path pid) = Some pid"
proof -
  have "process_command_line path pid = ([0x22] @ path) @ 0x22 # 0x20 # process_command @ signed_decimal pid"
    by (simp add: process_command_line_def process_command_def lit_def)
  moreover have "after_command (0x20 # process_command @ signed_decimal pid) = Some (signed_decimal pid)"
    by (simp add: process_command_def lit_def)
  moreover have "after_command ([0x22] @ path) = None"
    using assms by (simp add: process_command_def lit_def)
  moreover have "(0x22 :: byte) \<notin> set process_command" by (simp add: process_command_def lit_def)
  ultimately show ?thesis
    by (simp add: handle_process_runner_def after_command_behind [of _ "[0x22] @ path", simplified] atoi_signed_decimal)
qed

theorem spawned_process_waits_witness:
  "handle_process_runner (process_command_line (lit ''C:/games/w3m.exe'') 0xFFFFFFFE) = Some 0xFFFFFFFE"
  by (rule spawned_process_waits) (simp add: process_command_def lit_def)

text \<open>A directory that contains the option names another process.\<close>

lemma option_in_path:
  "handle_process_runner (process_command_line (lit ''C:/a -proc 7/w3m.exe'') pid) = Some 7"
proof -
  have "after_command (process_command_line (lit ''C:/a -proc 7/w3m.exe'') pid) =
      Some (lit ''7/w3m.exe'' @ [0x22] @ lit '' -proc '' @ signed_decimal pid)"
    by (simp add: process_command_line_def process_command_def lit_def)
  moreover have "atoi (lit ''7/w3m.exe'' @ [0x22] @ lit '' -proc '' @ signed_decimal pid) = 7"
    by (simp add: atoi_def lit_def is_space_def is_digit_def)
  ultimately show ?thesis by (simp add: handle_process_runner_def)
qed

section \<open>A client that goes away\<close>

text \<open>
  A client whose engine has no interfaces for the user; after ten calls it answers no. Its one
  module is at \<open>0x1000\<close>.
\<close>

definition steam_demo :: steam_env where
  "steam_demo = \<lparr>env_memory = patched [(0x1000, [0x4D, 0x5A])], env_protection = (\<lambda>p. None),
     env_rdata = (\<lambda>p. False), env_decode = (\<lambda>pc. \<lparr>insn_is_ret = True, insn_len = 1, insn_lea_rip = None\<rparr>)\<rparr>"

definition demo_platform :: steam_platform where
  "demo_platform = \<lparr>platform_system = \<lparr>module_handle = (\<lambda>n. 0), proc_address = (\<lambda>m n. 0x1100), module_file_name = (\<lambda>m. [])\<rparr>,
     load_dll = (\<lambda>p. 0x1000), process_module = 0, own_module = 0,
     export_answer = (\<lambda>cs f args. if length cs < 10 then 1 else 0), method_answer = (\<lambda>cs p this args. Inr 0),
     steam_registry = Some (lit ''C''), process_id = 7, working_directory = []\<rparr>"

definition steam_scheduler :: "(steam_callback, steam_session) scheduler" where
  "steam_scheduler = initial_scheduler int (initial_session demo_platform)"

lemma steam_module: "lib_is_valid 0x1000 (env_memory steam_demo)"
  by (simp add: lib_is_valid_def read16_def steam_demo_def fetch_patch_same IMAGE_DOS_SIGNATURE_def bytes_u16_def)

lemma demo_export:
  "client_module s = 0x1000 \<Longrightarrow> call_export steam_demo demo_platform n args s =
     (if length (calls s) < 10 then 1 else 0, s\<lparr>calls := calls s @ [Export n args]\<rparr>)"
  by (simp add: call_export_def lib_invoke_def get_function_def steam_module demo_platform_def get_proc_def)

lemma steam_entry:
  "interface_ptr i = 1 \<Longrightarrow> \<exists>p. call_entry steam_demo demo_platform n args i s =
     (Inr 0, s\<lparr>calls := calls s @ [Method p 1 args]\<rparr>)"
  by (simp add: call_entry_def invoke_entry_def demo_platform_def) (rule exI, rule refl)

lemma demo_interfaces:
  assumes "client_engine s = new_interface 1"
  shows "\<exists>s'. load_interfaces steam_demo demo_platform s = (None, s') \<and> length (calls s') = length (calls s) + 3 \<and>
    client_user s' = new_interface 0 \<and> client_utils s' = new_interface 0 \<and> client_module s' = client_module s \<and>
    steam_pipe s' = steam_pipe s \<and> global_user s' = global_user s"
proof -
  obtain p where p: "call_entry steam_demo demo_platform n args (new_interface 1) s =
      (Inr 0, s\<lparr>calls := calls s @ [Method (p n args s) 1 args]\<rparr>)" for n args s
    using steam_entry [of "new_interface 1"] by (simp, metis)
  show ?thesis by (simp add: load_interfaces_def Let_def p assms)
qed

lemma demo_load:
  "\<exists>s. load_client steam_demo demo_platform (world steam_scheduler) = (None, s) \<and> length (calls s) = 6 \<and>
    client_user s = new_interface 0 \<and> client_utils s = new_interface 0 \<and> client_module s = 0x1000 \<and>
    steam_pipe s = 1 \<and> global_user s = 1"
proof -
  let ?s = "world steam_scheduler"
  have path: "get_steam_install_path demo_platform [] = Inr (lit ''C'')"
    by (simp add: get_steam_install_path_def demo_platform_def MAX_PATH_def lit_def Let_def)
  have nonempty: "lit ''C'' \<noteq> []" by (simp add: lit_def)
  have init: "install_path ?s = []" "calls ?s = []"
    by (simp_all add: steam_scheduler_def initial_scheduler_def initial_session_def)
  let ?s2 = "load_libraries demo_platform (lit ''C'') (?s\<lparr>app_id_variable := decimal (unat get_app_id), install_path := lit ''C''\<rparr>)"
  have m: "client_module ?s2 = 0x1000" "calls ?s2 = []" by (simp_all add: load_libraries_def demo_platform_def init)
  have engine: "load_client_engine steam_demo demo_platform ?s2 =
      (1, ?s2\<lparr>calls := [Export (lit ''CreateInterface'') [Text_pointer (engine_version (Suc 0)), Null_pointer]]\<rparr>)"
    using m by (simp add: load_client_engine_def steam_module demo_export eval_nat_numeral)
  let ?s7 = "?s2\<lparr>client_engine := new_interface 1, steam_pipe := 1, calls := [Export (lit ''CreateInterface'') [Text_pointer (engine_version (Suc 0)), Null_pointer],
      Export (lit ''Steam_CreateSteamPipe'') [], Export (lit ''Steam_ConnectToGlobalUser'') [Number 1]],
      global_user := 1\<rparr>"
  have "load_client steam_demo demo_platform ?s = load_interfaces steam_demo demo_platform ?s7"
    using m by (simp add: load_client_def init path engine steam_module demo_export Let_def nonempty)
  with demo_interfaces [of ?s7] m show ?thesis by auto
qed

lemma demo_confirmed:
  assumes "client_module s = 0x1000" and "steam_pipe s = 1" and "global_user s = 1"
  shows "confirmed steam_demo demo_platform s \<longleftrightarrow> length (calls s) < 9"
    and "length (calls s) < 9 \<Longrightarrow> perform_cleanup_if_needed steam_demo demo_platform s =
      (False, s\<lparr>calls := calls s @ [Export (lit ''Steam_BConnected'') [Number 1, Number 1],
         Export (lit ''Steam_BLoggedOn'') [Number 1, Number 1]]\<rparr>)"
  using assms by (auto simp: confirmed_def perform_cleanup_if_needed_def steam_module demo_export bool_of_def Let_def)

lemma steam_start:
  "\<exists>sch. steam_post_load steam_demo demo_platform steam_scheduler = Some (None, sch) \<and>
     length (calls (world sch)) = 8 \<and> client_module (world sch) = 0x1000 \<and> steam_pipe (world sch) = 1 \<and>
     global_user (world sch) = 1"
proof -
  obtain s where s: "load_client steam_demo demo_platform (world steam_scheduler) = (None, s)"
      "length (calls s) = 6" "client_user s = new_interface 0" "client_utils s = new_interface 0"
      "client_module s = 0x1000" "steam_pipe s = 1" "global_user s = 1" using demo_load by blast
  then show ?thesis
    by (simp add: steam_post_load_def demo_confirmed(2) start_mod_def start_mod_unsafe_def
        clean_up_on_error_def schedule_def read_clock_def add_task_def Let_def)
qed

lemma demo_fresh: "no_task steam_scheduler" "mono (clock steam_scheduler)" "methods_true E (world steam_scheduler)"
  by (simp_all add: steam_scheduler_def initial_scheduler_def no_task_def mono_def initial_session_def methods_true_def)

theorem session_follows_steam_witness:
  "\<exists>sch. steam_post_load steam_demo demo_platform steam_scheduler = Some (None, sch) \<and>
     task_pending ((tick steam_demo demo_platform ^^ 1) sch) \<and>
     no_task ((tick steam_demo demo_platform ^^ 2) sch) \<and>
     session_null (world ((tick steam_demo demo_platform ^^ 2) sch))"
proof -
  let ?E = steam_demo and ?P = demo_platform
  obtain sch where sch: "steam_post_load ?E ?P steam_scheduler = Some (None, sch)"
      "length (calls (world sch)) = 8" "client_module (world sch) = 0x1000" "steam_pipe (world sch) = 1"
      "global_user (world sch) = 1" using steam_start by blast
  note follow = session_follows_steam [OF sch(1) demo_fresh(1,2)]
  from follow [of 0] have "task_pending sch" by simp
  moreover have "clock sch = clock steam_scheduler"
    using sch(1) demo_fresh(1,2) post_load_pending by blast
  ultimately have w: "world (tick ?E ?P sch) = snd (perform_cleanup_if_needed ?E ?P (world sch))"
    using tick_task(1) demo_fresh(2) by metis
  have c0: "confirmed ?E ?P (world sch)" using sch by (simp add: demo_confirmed)
  have c1: "\<not> confirmed ?E ?P (world (tick ?E ?P sch))"
    unfolding w using sch by (simp add: demo_confirmed)
  have "\<not> (\<forall>k < 2. confirmed ?E ?P (world ((tick ?E ?P ^^ k) sch)))"
    using c1 by (intro notI) (drule spec [of _ 1], simp)
  with follow [of 2] follow [of 1] c0 sch(1) show ?thesis by auto
qed

theorem mod_starts_in_confirmed_session_witness:
  "\<exists>sch. steam_post_load steam_demo demo_platform steam_scheduler = Some (None, sch) \<and>
     (\<exists>cs. calls (snd (perform_cleanup_if_needed steam_demo demo_platform
         (snd (load_client steam_demo demo_platform (world steam_scheduler))))) =
       cs @ [Export (lit ''Steam_BConnected'') [Number 1, Number 1],
             Export (lit ''Steam_BLoggedOn'') [Number 1, Number 1]])"
proof -
  obtain sch where sch: "steam_post_load steam_demo demo_platform steam_scheduler = Some (None, sch)"
    using steam_start by blast
  obtain s where s: "load_client steam_demo demo_platform (world steam_scheduler) = (None, s)"
      "length (calls s) = 6" "client_module s = 0x1000" "steam_pipe s = 1" "global_user s = 1"
    using demo_load by blast
  then have "confirmed steam_demo demo_platform s" by (simp add: demo_confirmed)
  with mod_starts_in_confirmed_session [OF sch demo_fresh(3)] s sch show ?thesis
    by (auto simp: Let_def)
qed

end
