(* ===== verification/Compression.thy ===== *)
theory Compression
  imports W3m_Prelude
begin

text \<open>
  \<open>utils::compression::zlib\<close> (src/common/utils/compression.cpp): the two loops that feed a
  stream to \<open>inflate\<close> chunk by chunk and collect what it gives. zlib is a record: the
  state of a stream \<open>'z\<close>, \<open>inflate\<close> on the available input and room with its return
  code, the input it leaves and the output it writes, and \<open>compress2\<close>. A stream that never
  ends is \<open>None\<close>.
\<close>

section \<open>Model\<close>

definition CHUNK :: nat where "CHUNK = 16384"

definition Z_OK :: int where "Z_OK = 0"
definition Z_STREAM_END :: int where "Z_STREAM_END = 1"
definition Z_BUF_ERROR :: int where "Z_BUF_ERROR = - 5"

record 'z zlib =
  inflate_init :: "'z option"
  inflate :: "'z \<Rightarrow> byte list \<Rightarrow> nat \<Rightarrow> int \<times> byte list \<times> byte list \<times> 'z"
  compress_bound :: "nat \<Rightarrow> nat"
  compress2 :: "nat \<Rightarrow> byte list \<Rightarrow> byte list option"

text \<open>The inner loop, while the output buffer was filled: the return code, the output so far and
  the stream, or nothing when \<open>inflate\<close> fails.\<close>

partial_function (option) inner_loop ::
    "'z zlib \<Rightarrow> 'z \<Rightarrow> byte list \<Rightarrow> byte list \<Rightarrow> (int \<times> byte list \<times> 'z) option option" where
  "inner_loop Z z avail buffer =
     (case inflate Z z avail CHUNK of (ret, avail', out, z') \<Rightarrow>
        if ret \<noteq> Z_OK \<and> ret \<noteq> Z_STREAM_END then Some None
        else if length out = CHUNK then inner_loop Z z' avail' (buffer @ out)
        else Some (Some (ret, buffer @ out, z')))"

partial_function (option) outer_loop ::
    "'z zlib \<Rightarrow> 'z \<Rightarrow> byte list \<Rightarrow> nat \<Rightarrow> byte list \<Rightarrow> byte list option" where
  "outer_loop Z z data offset buffer =
     (let input_size = min CHUNK (length data - offset) in
      Option.bind (inner_loop Z z (take input_size (drop offset data)) buffer)
        (\<lambda>r. case r of
           None \<Rightarrow> Some []
         | Some (ret, buffer', z') \<Rightarrow>
             if ret \<noteq> Z_STREAM_END then outer_loop Z z' data (offset + input_size) buffer'
             else Some buffer'))"

definition decompress :: "'z zlib \<Rightarrow> byte list \<Rightarrow> byte list option" where
  "decompress Z data = (case inflate_init Z of None \<Rightarrow> Some [] | Some z \<Rightarrow> outer_loop Z z data 0 [])"

definition compress :: "'z zlib \<Rightarrow> byte list \<Rightarrow> byte list" where
  "compress Z data = (case compress2 Z (compress_bound Z (length data)) data of None \<Rightarrow> [] | Some out \<Rightarrow> out)"

section \<open>Properties\<close>

text \<open>
  The stream of a text that is available as a whole: call by call \<open>inflate\<close> fills the
  buffer with the next part of the text, and reports the end with the last part.
\<close>

definition streams :: "'z zlib \<Rightarrow> (nat \<Rightarrow> 'z) \<Rightarrow> (nat \<Rightarrow> byte list) \<Rightarrow> byte list \<Rightarrow> bool" where
  "streams Z zs avail str \<longleftrightarrow> (\<forall>k. inflate Z (zs k) (avail k) CHUNK =
     (if length str \<le> Suc k * CHUNK then Z_STREAM_END else Z_OK, avail (Suc k),
      take CHUNK (drop (k * CHUNK) str), zs (Suc k)))"

lemma CHUNK_pos: "0 < CHUNK"
  by (simp add: CHUNK_def)

lemma inner_loop_streams:
  assumes "streams Z zs avail str"
  shows "inner_loop Z (zs k) (avail k) (take (k * CHUNK) str) =
    Some (Some (Z_STREAM_END, str, zs (max k (length str div CHUNK) + 1)))"
proof (induction "length str div CHUNK - k" arbitrary: k)
  case 0
  then have k: "length str div CHUNK \<le> k" by simp
  then have less: "length str < Suc k * CHUNK"
    using CHUNK_pos by (metis div_less_iff_less_mult less_Suc_eq_le)
  have "length (take CHUNK (drop (k * CHUNK) str)) \<noteq> CHUNK" using less CHUNK_pos by auto
  moreover have "take (k * CHUNK) str @ take CHUNK (drop (k * CHUNK) str) = str"
    using less by (simp flip: take_add add: add.commute)
  ultimately show ?case using assms less k
    by (subst inner_loop.simps) (simp add: streams_def max_def Z_STREAM_END_def Z_OK_def)
next
  case (Suc n)
  then have k: "k < length str div CHUNK" by simp
  then have full: "Suc k * CHUNK \<le> length str"
    using CHUNK_pos by (metis Suc_leI less_eq_div_iff_mult_less_eq)
  have out: "length (take CHUNK (drop (k * CHUNK) str)) = CHUNK" using full by simp
  have "take (k * CHUNK) str @ take CHUNK (drop (k * CHUNK) str) = take (Suc k * CHUNK) str"
    by (simp flip: take_add add: add.commute)
  moreover have "inner_loop Z (zs (Suc k)) (avail (Suc k)) (take (Suc k * CHUNK) str) =
      Some (Some (Z_STREAM_END, str, zs (max (Suc k) (length str div CHUNK) + 1)))"
    by (rule Suc(1)) (use Suc(2) in simp)
  ultimately show ?case using assms out k
    by (subst inner_loop.simps) (simp add: streams_def max_def Z_STREAM_END_def Z_OK_def)
qed

text \<open>
  Data of at most one chunk is decompressed to its text, whatever the length of the text:
  also when the text fills the buffer exactly.
\<close>

theorem decompress_one_chunk:
  assumes "inflate_init Z = Some (zs 0)" and "avail 0 = data" and "length data \<le> CHUNK"
    and "streams Z zs avail str"
  shows "decompress Z data = Some str"
  using inner_loop_streams [OF assms(4), of 0] assms(1-3)
  by (simp add: decompress_def, subst outer_loop.simps) (simp add: Let_def)


text \<open>A library whose streams are the text itself and an end mark, for the two theorems.\<close>

definition plain_zlib :: "unit zlib" where
  "plain_zlib = \<lparr>inflate_init = Some (),
     inflate = (\<lambda>z avail room.
       if avail = [] then (Z_BUF_ERROR, [], [], ())
       else let n = min room (length (takeWhile (\<lambda>b. b \<noteq> 0xFF) avail)); rest = drop n avail in
         (if rest \<noteq> [] \<and> hd rest = 0xFF then Z_STREAM_END else Z_OK, rest, take n avail, ())),
     compress_bound = Suc, compress2 = (\<lambda>n bs. Some (bs @ [0xFF]))\<rparr>"


theorem decompress_one_chunk_witness:
  "decompress plain_zlib [7, 8, 0xFF] = Some [7, 8]"
proof (rule decompress_one_chunk [where zs = "\<lambda>k. ()" and avail = "\<lambda>k. if k = 0 then [7, 8, 0xFF] else [0xFF]"])
  show "streams plain_zlib (\<lambda>k. ()) (\<lambda>k. if k = 0 then [7, 8, 0xFF] else [0xFF]) [7, 8]"
    by (auto simp: streams_def plain_zlib_def CHUNK_def Let_def Z_STREAM_END_def)
qed (simp_all add: plain_zlib_def CHUNK_def)

end
