(* ===== verification/Server_Main.thy ===== *)
theory Server_Main
  imports Server Server_Console
begin

text \<open>
  The program of the server (src/server/main.cpp, and \<open>run\<close> and \<open>stop\<close> of server.cpp): the
  loop of frames, the flag that ends it, and the handler of the interrupt that sets the flag.
  What happens beside the loop is a schedule: before each test of the flag the time of the
  frame that follows, and after that frame the datagrams the network thread handles and the
  interrupts, in their order. A run that is never interrupted does not return (\<open>None\<close>).
\<close>

section \<open>Model\<close>

datatype server_event =
    Datagram int "byte list" address "byte list"
  | Interrupt

record server_process =
  server_of :: server_state
  stop_flag :: bool
  signal_of :: "bool signal_state"

text \<open>The callback of the handler is \<open>stop\<close>.\<close>

definition server_stop :: "bool \<Rightarrow> bool" where "server_stop flag = True"

fun perform_event :: "crypto_lib \<Rightarrow> server_event \<Rightarrow> server_process \<Rightarrow> server_process" where
  "perform_event L (Datagram now rnd source datagram) p =
     p\<lparr>server_of := fst (handle_data (server_callbacks L now rnd) source datagram (server_of p))\<rparr>"
| "perform_event L Interrupt p =
     p\<lparr>stop_flag := handle_signal True (signal_of p) (stop_flag p)\<rparr>"

definition server_events :: "crypto_lib \<Rightarrow> server_event list \<Rightarrow> server_process \<Rightarrow> server_process" where
  "server_events L events p = fold (perform_event L) events p"

definition server_frame :: "int \<Rightarrow> server_process \<Rightarrow> exn option \<times> server_process" where
  "server_frame now p =
     (case run_frame now (clients (server_of p)) of
        (cs, effs, err) \<Rightarrow> (err, p\<lparr>server_of := (server_of p)\<lparr>clients := cs,
          effects := effects (server_of p) @ effs\<rparr>\<rparr>))"

type_synonym server_schedule = "nat \<Rightarrow> int \<times> server_event list"

text \<open>The loop: the exception of a frame, or nothing, the number of frames and the state.\<close>

partial_function (option) run_loop ::
    "crypto_lib \<Rightarrow> server_schedule \<Rightarrow> nat \<Rightarrow> server_process \<Rightarrow> (exn option \<times> nat \<times> server_process) option" where
  "run_loop L schedule n p =
     (if stop_flag p then Some (None, n, p)
      else case server_frame (fst (schedule n)) p of
          (Some e, p1) \<Rightarrow> Some (Some e, n, p1)
        | (None, p1) \<Rightarrow> run_loop L schedule (Suc n) (server_events L (snd (schedule n)) p1))"

definition server_run ::
    "crypto_lib \<Rightarrow> server_schedule \<Rightarrow> server_process \<Rightarrow> (exn option \<times> nat \<times> server_process) option" where
  "server_run L schedule p = run_loop L schedule 0 (p\<lparr>stop_flag := False\<rparr>)"

text \<open>
  \<open>main\<close>: \<open>bind_error\<close> is what constructing the server throws; \<open>early\<close> is what happens between
  the construction of the handler and the loop. The handler is gone when the result is given.
\<close>

definition server_main ::
    "crypto_lib \<Rightarrow> exn option \<Rightarrow> server_event list \<Rightarrow> server_schedule \<Rightarrow> bool signal_state \<Rightarrow>
     (int \<times> server_process) option" where
  "server_main L bind_error early schedule sig =
     (let p0 = \<lparr>server_of = init_server, stop_flag = False, signal_of = sig\<rparr> in
      if bind_error \<noteq> None then Some (1, p0)
      else case signal_handler server_stop sig of
          Inl e \<Rightarrow> Some (1, p0)
        | Inr sig' \<Rightarrow>
            map_option (\<lambda>(e, n, p). (if e = None then 0 else 1,
                p\<lparr>signal_of := destroy_signal_handler (signal_of p)\<rparr>))
              (server_run L schedule (server_events L early (p0\<lparr>signal_of := sig'\<rparr>))))"

section \<open>Properties\<close>

text \<open>An event in which the nonce has its length; the states of a run are reachable.\<close>

fun event_ok :: "server_event \<Rightarrow> bool" where
  "event_ok (Datagram now rnd source datagram) \<longleftrightarrow> length rnd = challenge_size"
| "event_ok Interrupt \<longleftrightarrow> True"

definition process_ok :: "crypto_lib \<Rightarrow> server_process \<Rightarrow> bool" where
  "process_ok L p \<longleftrightarrow> server_reachable L (server_of p) \<and> signal_callback (signal_of p) = Some server_stop"

lemma event_keeps_ok: "event_ok e \<Longrightarrow> process_ok L p \<Longrightarrow> process_ok L (perform_event L e p)"
proof (cases e)
  case (Datagram now rnd source datagram)
  moreover assume "event_ok e" "process_ok L p"
  moreover obtain s r where "handle_data (server_callbacks L now rnd) source datagram (server_of p) = (s, r)"
    by (cases "handle_data (server_callbacks L now rnd) source datagram (server_of p)")
  ultimately show ?thesis
    using server_reachable.step [OF _ server_step.packet [of rnd L now source datagram "server_of p" s r]]
    by (simp add: process_ok_def)
qed (simp add: process_ok_def)

lemma events_keep_ok:
  "list_all event_ok events \<Longrightarrow> process_ok L p \<Longrightarrow> process_ok L (server_events L events p)"
  unfolding server_events_def by (induction events arbitrary: p) (simp_all add: event_keeps_ok)

lemma frame_ok:
  assumes "process_ok L p"
  shows "fst (server_frame now p) = None" and "process_ok L (snd (server_frame now p))"
    and "stop_flag (snd (server_frame now p)) = stop_flag p"
proof -
  obtain cs effs err where frame: "run_frame now (clients (server_of p)) = (cs, effs, err)"
    by (metis surj_pair)
  have "\<forall>n \<in> set (clients (server_of p)). name_ok (snd n)"
    using assms namei.reachable_client [of L "server_of p"] by (auto simp: process_ok_def)
  then have "snd (send_state (fst (remove_silent now (clients (server_of p))))) = None"
    by (subst send_state_ok) (auto simp: remove_silent_eq)
  with frame have "err = None" by (auto simp: run_frame_def Let_def split: prod.splits)
  then show "fst (server_frame now p) = None" by (simp add: server_frame_def frame)
  show "process_ok L (snd (server_frame now p))"
    using assms server_reachable.step [OF _ server_step.frame [OF frame]]
    by (simp add: server_frame_def frame process_ok_def)
  show "stop_flag (snd (server_frame now p)) = stop_flag p"
    by (simp add: server_frame_def frame)
qed

lemma events_stop:
  "process_ok L p \<Longrightarrow> list_all event_ok events \<Longrightarrow>
   stop_flag (server_events L events p) = (stop_flag p \<or> Interrupt \<in> set events)"
  unfolding server_events_def
proof (induction events arbitrary: p)
  case (Cons e events)
  then have "process_ok L (perform_event L e p)" using event_keeps_ok by simp
  moreover have "stop_flag (perform_event L e p) = (stop_flag p \<or> Interrupt = e)"
    using Cons.prems by (cases e) (simp_all add: process_ok_def handle_signal_def server_stop_def)
  ultimately show ?case using Cons by auto
qed simp

lemma run_loop_ends:
  assumes "\<forall>i. list_all event_ok (snd (schedule i))"
    and "Interrupt \<in> set (snd (schedule k))" and "\<forall>i < k. Interrupt \<notin> set (snd (schedule i))"
    and "n \<le> k" and "process_ok L p" and "\<not> stop_flag p"
  shows "\<exists>p'. run_loop L schedule n p = Some (None, Suc k, p') \<and> process_ok L p'"
  using assms(4-6)
proof (induction "k - n" arbitrary: n p)
  case 0
  then have n: "n = k" by simp
  let ?p1 = "snd (server_frame (fst (schedule n)) p)"
  let ?p2 = "server_events L (snd (schedule n)) ?p1"
  note frame = frame_ok [OF 0(3), of "fst (schedule n)"]
  have "process_ok L ?p2" "stop_flag ?p2"
    using events_keep_ok [OF _ frame(2)] events_stop [OF frame(2)] assms(1,2) n by simp_all
  then have "run_loop L schedule (Suc n) ?p2 = Some (None, Suc k, ?p2)"
    by (subst run_loop.simps) (simp add: n)
  with \<open>process_ok L ?p2\<close> frame(1) 0(4) show ?case
    by (subst run_loop.simps) (auto split: prod.splits option.splits)
next
  case (Suc m)
  let ?p1 = "snd (server_frame (fst (schedule n)) p)"
  let ?p2 = "server_events L (snd (schedule n)) ?p1"
  note frame = frame_ok [OF Suc(4), of "fst (schedule n)"]
  have "n < k" using Suc(2) by simp
  then have "process_ok L ?p2" "\<not> stop_flag ?p2"
    using events_keep_ok [OF _ frame(2)] events_stop [OF frame(2)] frame(3) assms(1,3) Suc(5) by simp_all
  moreover from Suc(2) \<open>n < k\<close> have "m = k - Suc n" "Suc n \<le> k" by simp_all
  ultimately obtain p' where
    "run_loop L schedule (Suc n) ?p2 = Some (None, Suc k, p')" "process_ok L p'"
    using Suc(1) [of "Suc n" ?p2] by blast
  with frame(1) Suc(5) show ?case
    by (subst run_loop.simps) (auto split: prod.splits option.splits)
qed

lemma run_loop_forever:
  assumes "\<forall>i. list_all event_ok (snd (schedule i))" and "\<forall>i. Interrupt \<notin> set (snd (schedule i))"
    and "process_ok L p" and "\<not> stop_flag p"
  shows "run_loop L schedule n p = None"
proof -
  have never: "L' = L \<longrightarrow> schedule' = schedule \<longrightarrow> process_ok L p \<longrightarrow> stop_flag p"
    if "run_loop L' schedule' n p = Some r" for L' schedule' n p r
  proof (rule run_loop.raw_induct [where P = "\<lambda>L' schedule' n p r.
      L' = L \<longrightarrow> schedule' = schedule \<longrightarrow> process_ok L p \<longrightarrow> stop_flag p", OF _ that], intro impI)
    fix loop L' schedule' n p r
    assume IH: "\<And>L' schedule' n p r. loop L' schedule' n p = Some r \<Longrightarrow>
        L' = L \<longrightarrow> schedule' = schedule \<longrightarrow> process_ok L p \<longrightarrow> stop_flag p"
      and run: "(if stop_flag p then Some (None, n, p)
         else case server_frame (fst (schedule' n)) p of
             (None, p1) \<Rightarrow> loop L' schedule' (Suc n) (server_events L' (snd (schedule' n)) p1)
           | (Some e, p1) \<Rightarrow> Some (Some e, n, p1)) = Some r"
      and eqs: "L' = L" "schedule' = schedule" and ok: "process_ok L p"
    show "stop_flag p"
    proof (rule ccontr)
      assume running: "\<not> stop_flag p"
      let ?p1 = "snd (server_frame (fst (schedule n)) p)"
      let ?p2 = "server_events L (snd (schedule n)) ?p1"
      note frame = frame_ok [OF ok, of "fst (schedule n)"]
      have "loop L schedule (Suc n) ?p2 = Some r"
        using run frame(1) running eqs by (auto split: prod.splits option.splits)
      moreover have "process_ok L ?p2" "\<not> stop_flag ?p2"
        using events_keep_ok [OF _ frame(2)] events_stop [OF frame(2)] frame(3) assms(1,2) running
        by simp_all
      ultimately show False using IH by blast
    qed
  qed
  from never [of L schedule n p] assms(3,4) show ?thesis by (cases "run_loop L schedule n p") auto
qed

definition fresh_signal :: "bool signal_state" where
  "fresh_signal = \<lparr>signal_installed = False, signal_callback = None, system_handler = False\<rparr>"

lemma started_ok:
  assumes "signal_handler server_stop fresh_signal = Inr sig'" and "list_all event_ok early"
  shows "process_ok L ((server_events L early \<lparr>server_of = init_server, stop_flag = False, signal_of = sig'\<rparr>)
    \<lparr>stop_flag := False\<rparr>)"
proof -
  have "process_ok L \<lparr>server_of = init_server, stop_flag = False, signal_of = sig'\<rparr>"
    using assms(1) server_reachable.init
    by (auto simp: process_ok_def signal_handler_def fresh_signal_def)
  from events_keep_ok [OF assms(2) this] show ?thesis by (simp add: process_ok_def)
qed

text \<open>C21: 
  The server runs until it is interrupted in its loop: it ends with code 0, in a reachable
  state and with the handler of the system restored, after the frame in which the first
  interrupt falls. An interrupt between the installation of the handler and the loop is
  lost, because the loop clears the flag: without another one the server never ends.
\<close>

theorem server_ends_iff_interrupted:
  assumes "list_all event_ok early" and "\<forall>i. list_all event_ok (snd (schedule i))"
  shows "case server_main L None early schedule fresh_signal of
      Some (code, p) \<Rightarrow> code = 0 \<and> server_reachable L (server_of p) \<and> \<not> system_handler (signal_of p) \<and>
        (\<exists>k. Interrupt \<in> set (snd (schedule k)))
    | None \<Rightarrow> \<forall>k. Interrupt \<notin> set (snd (schedule k))"
proof -
  obtain sig' where sig': "signal_handler server_stop fresh_signal = Inr sig'"
    by (auto simp: signal_handler_def fresh_signal_def)
  let ?p0 = "\<lparr>server_of = init_server, stop_flag = False, signal_of = sig'\<rparr>"
  let ?p = "(server_events L early ?p0)\<lparr>stop_flag := False\<rparr>"
  note ok = started_ok [OF sig' assms(1), of L]
  have main: "server_main L None early schedule fresh_signal =
      map_option (\<lambda>(e, n, p). (if e = None then 0 else 1, p\<lparr>signal_of := destroy_signal_handler (signal_of p)\<rparr>))
        (run_loop L schedule 0 ?p)"
    by (simp add: server_main_def sig' server_run_def Let_def)
  show ?thesis
  proof (cases "\<exists>k. Interrupt \<in> set (snd (schedule k))")
    case True
    define k where "k = (LEAST k. Interrupt \<in> set (snd (schedule k)))"
    have "Interrupt \<in> set (snd (schedule k))" "\<forall>i < k. Interrupt \<notin> set (snd (schedule i))"
      using LeastI_ex [OF True] not_less_Least unfolding k_def by blast+
    from run_loop_ends [OF assms(2) this _ ok, of 0] obtain p' where
      "run_loop L schedule 0 ?p = Some (None, Suc k, p')" "process_ok L p'" by auto
    with True show ?thesis by (simp add: main process_ok_def destroy_signal_handler_def)
  next
    case False
    with run_loop_forever [OF assms(2) _ ok, of 0] show ?thesis by (simp add: main)
  qed
qed

theorem server_ends_iff_interrupted_witness:
  "server_main toy_lib None [Interrupt] (\<lambda>i. (0, [])) fresh_signal = None \<and>
   server_main toy_lib None [] (\<lambda>i. (0, if i = 3 then [Interrupt] else [])) fresh_signal \<noteq> None"
proof
  show "server_main toy_lib None [Interrupt] (\<lambda>i. (0, [])) fresh_signal = None"
    using server_ends_iff_interrupted [of "[Interrupt]" "\<lambda>i. (0, [])" toy_lib]
    by (auto split: option.splits)
  define schedule :: server_schedule where "schedule = (\<lambda>i. (0, if i = 3 then [Interrupt] else []))"
  have ok: "\<forall>i. list_all event_ok (snd (schedule i))" and early: "list_all event_ok []"
    and third: "Interrupt \<in> set (snd (schedule 3))"
    by (simp_all add: schedule_def)
  from server_ends_iff_interrupted [OF early ok, of toy_lib] third
  have "server_main toy_lib None [] schedule fresh_signal \<noteq> None"
    by (cases "server_main toy_lib None [] schedule fresh_signal") auto
  then show "server_main toy_lib None [] (\<lambda>i. (0, if i = 3 then [Interrupt] else [])) fresh_signal \<noteq> None"
    by (simp add: schedule_def)
qed

end
