(* ===== verification/Format_Buffer.thy ===== *)
theory Format_Buffer
  imports W3m_Prelude
begin

text \<open>
  Formatting into a ring of buffers (\<open>utils::string::va\<close>, src/common/utils/string.cpp): each
  call takes the next of four vectors of its thread, formats into it, and doubles it until the
  text fits. What the format and its arguments print is a parameter: the text, or nothing when
  the conversion fails. The result is the index of the buffer, or null. A call whose conversion
  fails never returns (\<open>None\<close>); growing without end it would run out of memory in the end.
\<close>

section \<open>Model\<close>

datatype printf_platform = Windows_printf | Posix_printf

record va_state =
  buffers :: "byte list list"
  current_index :: nat

definition buffer_count :: nat where "buffer_count = 4"

definition new_va :: va_state where
  "new_va = \<lparr>buffers = replicate buffer_count [], current_index = 0\<rparr>"

text \<open>
  \<open>vsnprintf_s\<close> with \<open>_TRUNCATE\<close> and \<open>vsnprintf\<close>: the result and the buffer. Both write
  what fits, and a terminator; the one gives \<open>-1\<close> for a truncated text, the other its length.
\<close>

definition vsnprintf :: "printf_platform \<Rightarrow> byte list \<Rightarrow> byte list option \<Rightarrow> int \<times> byte list" where
  "vsnprintf p buffer formatted =
     (case formatted of
        None \<Rightarrow> (-1, buffer)
      | Some s \<Rightarrow>
          let kept = take (length buffer - 1) s in
          (if length s < length buffer \<or> p = Posix_printf then int (length s) else -1,
           poke 0 (kept @ [0]) buffer))"

definition resize :: "nat \<Rightarrow> byte list \<Rightarrow> byte list" where
  "resize n buffer = take n buffer @ replicate (n - length buffer) 0"

partial_function (option) va_loop ::
    "printf_platform \<Rightarrow> byte list option \<Rightarrow> byte list \<Rightarrow> (bool \<times> byte list) option" where
  "va_loop p formatted buffer =
     (case vsnprintf p buffer formatted of
        (res, buffer1) \<Rightarrow>
          if 0 < res \<and> nat res < length buffer1 then Some (True, buffer1)
          else if res = 0 then Some (False, buffer1)
          else va_loop p formatted (resize (max (length buffer1 * 2) 1) buffer1))"

definition va :: "printf_platform \<Rightarrow> byte list option \<Rightarrow> va_state \<Rightarrow> (nat option \<times> va_state) option" where
  "va p formatted st =
     (let index = current_index st;
          st1 = st\<lparr>current_index := (index + 1) mod buffer_count\<rparr>;
          buffer = buffers st ! index;
          buffer1 = (if length buffer < 10 then resize 10 buffer else buffer) in
      map_option (\<lambda>(found, b).
          (if found then Some index else None, st1\<lparr>buffers := (buffers st1)[index := b]\<rparr>))
        (va_loop p formatted buffer1))"

section \<open>The loop\<close>

text \<open>The C string in a buffer.\<close>

definition text_in :: "byte list \<Rightarrow> byte list" where
  "text_in buffer = takeWhile (\<lambda>b. b \<noteq> 0) buffer"

lemma length_resize [simp]: "length (resize n buffer) = n"
  by (simp add: resize_def)

lemma vsnprintf_fits:
  "length s < length buffer \<Longrightarrow> vsnprintf p buffer (Some s) = (int (length s), poke 0 (s @ [0]) buffer)"
  by (simp add: vsnprintf_def Let_def)

lemma vsnprintf_long:
  assumes "length buffer \<le> length s" and "0 < length buffer"
  shows "\<exists>res b. vsnprintf p buffer (Some s) = (res, b) \<and> length b = length buffer \<and>
    (res < 0 \<or> length b \<le> nat res) \<and> res \<noteq> 0"
  using assms by (auto simp: vsnprintf_def Let_def poke_def)

lemma text_in_written: "0 \<notin> set s \<Longrightarrow> text_in (poke 0 (s @ [0]) buffer) = s"
  by (simp add: text_in_def poke_def takeWhile_append_zero)

lemma va_loop_returns:
  assumes "0 < length buffer"
  shows "\<exists>b. va_loop p (Some s) buffer = Some (s \<noteq> [], b) \<and> length s < length b \<and>
    (0 \<notin> set s \<longrightarrow> text_in b = s)"
  using assms
proof (induction "Suc (length s) - length buffer" arbitrary: buffer rule: less_induct)
  case less
  show ?case
  proof (cases "length s < length buffer")
    case True
    then have "length (poke 0 (s @ [0]) buffer) = length buffer" by simp
    with True show ?thesis
      using text_in_written [of s buffer]
      by (subst va_loop.simps) (auto simp: vsnprintf_fits simp del: length_greater_0_conv)
  next
    case False
    then obtain res b where v: "vsnprintf p buffer (Some s) = (res, b)" "length b = length buffer"
        "res < 0 \<or> length b \<le> nat res" "res \<noteq> 0"
      using vsnprintf_long [of buffer s p] less.prems by auto
    then have "va_loop p (Some s) buffer = va_loop p (Some s) (resize (max (length b * 2) 1) b)"
      by (subst va_loop.simps) auto
    moreover have "Suc (length s) - length (resize (max (length b * 2) 1) b) < Suc (length s) - length buffer"
      using v(2) False less.prems by auto
    moreover have "0 < length (resize (max (length b * 2) 1) b)" by simp
    ultimately show ?thesis using less.hyps by metis
  qed
qed

text \<open>A conversion that fails is tried for ever, in a buffer that doubles each time.\<close>

lemma va_loop_stuck: "va_loop p None buffer = None"
proof -
  have never: "formatted = None \<longrightarrow> False" if "va_loop p formatted buffer = Some r" for p formatted buffer r
  proof (rule va_loop.raw_induct [where P = "\<lambda>p formatted buffer r. formatted = None \<longrightarrow> False", OF _ that])
    fix loop p formatted buffer r
    assume IH: "\<And>p formatted buffer r. loop p formatted buffer = Some r \<Longrightarrow> formatted = None \<longrightarrow> False"
      and run: "(case vsnprintf p buffer formatted of
        (res, buffer1) \<Rightarrow>
          if 0 < res \<and> nat res < length buffer1 then Some (True, buffer1)
          else if res = 0 then Some (False, buffer1)
          else loop p formatted (resize (max (length buffer1 * 2) 1) buffer1)) = Some r"
    show "formatted = None \<longrightarrow> False"
    proof
      assume none: "formatted = None"
      then have "loop p None (resize (max (length buffer * 2) 1) buffer) = Some r"
        using run by (simp add: vsnprintf_def)
      from IH [OF this] show False by simp
    qed
  qed
  then show ?thesis by (cases "va_loop p None buffer") blast+
qed

section \<open>The ring\<close>

definition va_ok :: "va_state \<Rightarrow> bool" where
  "va_ok st \<longleftrightarrow> length (buffers st) = buffer_count \<and> current_index st < buffer_count"

lemma new_va_ok: "va_ok new_va"
  by (simp add: va_ok_def new_va_def buffer_count_def)

lemma va_returns:
  assumes "va_ok st"
  shows "\<exists>st'. va p (Some s) st = Some (if s = [] then None else Some (current_index st), st') \<and> va_ok st' \<and>
    current_index st' = (current_index st + 1) mod buffer_count \<and>
    (0 \<notin> set s \<longrightarrow> text_in (buffers st' ! current_index st) = s) \<and>
    (\<forall>i < buffer_count. i \<noteq> current_index st \<longrightarrow> buffers st' ! i = buffers st ! i)"
proof -
  let ?b = "buffers st ! current_index st"
  let ?b1 = "if length ?b < 10 then resize 10 ?b else ?b"
  have "0 < length ?b1" by (cases "length ?b < 10") auto
  from va_loop_returns [OF this, of p s] obtain b where
    "va_loop p (Some s) ?b1 = Some (s \<noteq> [], b)" "0 \<notin> set s \<longrightarrow> text_in b = s" by blast
  with assms show ?thesis
    by (auto simp: va_def Let_def va_ok_def buffer_count_def)
qed

text \<open>Calls one after the other: their results and the state after them.\<close>

fun va_calls :: "printf_platform \<Rightarrow> byte list list \<Rightarrow> va_state \<Rightarrow> (nat option list \<times> va_state) option" where
  "va_calls p [] st = Some ([], st)"
| "va_calls p (s # ss) st =
     Option.bind (va p (Some s) st) (\<lambda>(r, st1).
       map_option (\<lambda>(rs, st2). (r # rs, st2)) (va_calls p ss st1))"

lemma va_calls_keep:
  assumes "va_ok st" and "length ss \<le> 3" and "i < buffer_count"
    and "\<forall>k < length ss. (current_index st + k) mod buffer_count \<noteq> i"
  shows "\<exists>rs st'. va_calls p ss st = Some (rs, st') \<and> va_ok st' \<and> buffers st' ! i = buffers st ! i"
  using assms
proof (induction ss arbitrary: st)
  case (Cons s ss)
  from va_returns [OF Cons.prems(1), of p s] obtain r st1 where
    st1: "va p (Some s) st = Some (r, st1)" "va_ok st1"
      "current_index st1 = (current_index st + 1) mod buffer_count"
      "\<forall>i < buffer_count. i \<noteq> current_index st \<longrightarrow> buffers st1 ! i = buffers st ! i" by blast
  have "i \<noteq> current_index st"
    using Cons.prems(1,4) by (auto simp: va_ok_def dest: spec [of _ 0])
  then have kept: "buffers st1 ! i = buffers st ! i" using st1(4) Cons.prems(3) by blast
  have "\<forall>k < length ss. (current_index st1 + k) mod buffer_count \<noteq> i"
  proof (intro allI impI)
    fix k assume "k < length ss"
    then have "(current_index st + Suc k) mod buffer_count \<noteq> i" using Cons.prems(4) by auto
    then show "(current_index st1 + k) mod buffer_count \<noteq> i"
      by (simp add: st1(3) mod_add_left_eq)
  qed
  from Cons.IH [OF st1(2) _ Cons.prems(3) this] Cons.prems(2) kept st1(1) show ?case by auto
qed simp

section \<open>Properties\<close>

text \<open>
  A text that is not empty and whose conversion succeeds is always returned, however long it
  is, and the result stays as it was during the next three calls of the thread, whatever they
  print.
\<close>

theorem va_result_survives:
  assumes "va_ok st" and "s \<noteq> []" and "0 \<notin> set s" and "length later \<le> 3"
  shows "\<exists>i st1 rs st2. va p (Some s) st = Some (Some i, st1) \<and> va_calls p later st1 = Some (rs, st2) \<and>
    text_in (buffers st1 ! i) = s \<and> text_in (buffers st2 ! i) = s"
proof -
  let ?i = "current_index st"
  from va_returns [OF assms(1), of p s] assms(2,3) obtain st1 where
    st1: "va p (Some s) st = Some (Some ?i, st1)" "va_ok st1"
      "current_index st1 = (?i + 1) mod buffer_count" "text_in (buffers st1 ! ?i) = s" by auto
  have i: "?i < buffer_count" using assms(1) by (simp add: va_ok_def)
  have "\<forall>k < length later. (current_index st1 + k) mod buffer_count \<noteq> ?i"
  proof (intro allI impI)
    fix k assume "k < length later"
    then have "k = 0 \<or> k = 1 \<or> k = 2" using assms(4) by auto
    moreover have "?i = 0 \<or> ?i = 1 \<or> ?i = 2 \<or> ?i = 3" using i by (auto simp: buffer_count_def)
    ultimately show "(current_index st1 + k) mod buffer_count \<noteq> ?i"
      by (auto simp: st1(3) buffer_count_def)
  qed
  from va_calls_keep [OF st1(2) assms(4) i this, of p] st1 show ?thesis by auto
qed

text \<open>An empty text gives the null pointer, which no caller tests.\<close>

lemma va_empty_is_null: "va_ok st \<Longrightarrow> \<exists>st'. va p (Some []) st = Some (None, st')"
  using va_returns [of st p "[]"] by auto

lemma va_failed_conversion: "va p None st = None"
  by (simp add: va_def va_loop_stuck Let_def)

theorem va_result_survives_witness:
  "\<exists>i st1 rs st2. va Windows_printf (Some (replicate 25 65)) new_va = Some (Some i, st1) \<and>
    va_calls Windows_printf [[66], [], [67, 68]] st1 = Some (rs, st2) \<and>
    text_in (buffers st2 ! i) = replicate 25 65"
  using va_result_survives [OF new_va_ok, of "replicate 25 65" "[[66], [], [67, 68]]" Windows_printf] by auto

end
