(* ===== verification/Game_Windows.thy ===== *)
theory Game_Windows
  imports Scheduler
begin

text \<open>
  The windows of the client (src/client/module/window.cpp, splash.cpp, launcher.cpp, icon.cpp,
  game_module.cpp): the search for the game's window and its title, the splash screen, and the
  start menu. The desktop lists the top-level windows in the order the system enumerates
  them. What the system decides (whether a window or an image can be made, the metrics of the
  screen, the border of a window) is a parameter. A window is destroyed only by the thread
  that made it, as the system documents, and a handle without a window has no thread.
\<close>

section \<open>Model\<close>

type_synonym hwnd = nat
type_synonym rect = "int \<times> int \<times> int \<times> int"

record window_info =
  window_process :: u32
  window_thread :: u32
  window_class :: "byte list"
  window_title :: "byte list"
  window_shown :: bool
  window_rect :: rect

type_synonym desktop = "(hwnd \<times> window_info) list"

text \<open>The two handles the client keeps, and the desktop; the null handle is \<open>0\<close>.\<close>

record shell =
  desktop :: desktop
  game_window :: hwnd
  splash_window :: hwnd
  foreground :: hwnd

definition is_window :: "hwnd \<Rightarrow> desktop \<Rightarrow> bool" where
  "is_window h d \<longleftrightarrow> h \<in> fst ` set d"

definition change_window :: "hwnd \<Rightarrow> (window_info \<Rightarrow> window_info) \<Rightarrow> shell \<Rightarrow> shell" where
  "change_window h f s = s\<lparr>desktop := map (\<lambda>(x, w). (x, if x = h then f w else w)) (desktop s)\<rparr>"

definition window_of :: "hwnd \<Rightarrow> shell \<Rightarrow> window_info option" where
  "window_of h s = map_of (desktop s) h"

subsection \<open>The game's window\<close>

definition enum_windows_proc :: "u32 \<Rightarrow> window_info \<Rightarrow> bool" where
  "enum_windows_proc process w \<longleftrightarrow>
     window_process w = process \<and> window_class w = lit ''W2ViewportClass''"

text \<open>The enumeration ends at the first window that is accepted, and else leaves the handle.\<close>

fun enum_windows :: "u32 \<Rightarrow> desktop \<Rightarrow> hwnd \<Rightarrow> hwnd" where
  "enum_windows process [] old = old"
| "enum_windows process ((h, w) # d) old =
     (if enum_windows_proc process w then h else enum_windows process d old)"

definition get_game_window :: "u32 \<Rightarrow> shell \<Rightarrow> hwnd \<times> shell" where
  "get_game_window process s =
     (let h = (if game_window s = 0 \<or> \<not> is_window (game_window s) (desktop s)
               then enum_windows process (desktop s) (game_window s) else game_window s)
      in (h, s\<lparr>game_window := h\<rparr>))"

text \<open>The callback that sets the title: what it returns, and the state.\<close>

definition cond_continue :: bool where "cond_continue = False"
definition cond_end :: bool where "cond_end = True"

definition title_callback :: "byte list \<Rightarrow> u32 \<Rightarrow> shell \<Rightarrow> bool \<times> shell" where
  "title_callback modname process s =
     (case get_game_window process s of
        (h, s1) \<Rightarrow>
          if h \<noteq> 0 then (cond_end, change_window h (\<lambda>w. w\<lparr>window_title := modname\<rparr>) s1)
          else (cond_continue, s1))"

subsection \<open>The splash screen\<close>

record splash_env =
  screen_size :: "int \<times> int"
  splash_image_loads :: bool
  new_main_window :: hwnd
  new_image_window :: hwnd
  image_size :: "int \<times> int"
  adjust_rect :: "rect \<Rightarrow> rect"
  main_thread :: u32
  main_process :: u32

text \<open>Division of \<open>int\<close> rounds towards zero.\<close>

definition half :: "int \<Rightarrow> int" where "half n = (if n < 0 then - ((- n) div 2) else n div 2)"

definition splash_show :: "byte list \<Rightarrow> splash_env \<Rightarrow> shell \<Rightarrow> shell" where
  "splash_show modname E s =
     (let (x, y) = screen_size E in
      if \<not> splash_image_loads E then s
      else
        let h = new_main_window E; s1 = s\<lparr>splash_window := h\<rparr> in
        if h = 0 then s1
        else
          let left = half (x - 320); top = half (y - 100);
              w = \<lparr>window_process = main_process E, window_thread = main_thread E,
                window_class = lit ''Witcher Splash Screen'', window_title = modname,
                window_shown = False, window_rect = (left, top, left + 320, top + 100)\<rparr>;
              s2 = s1\<lparr>desktop := desktop s1 @ [(h, w)]\<rparr>
          in if new_image_window E = 0 then s2
             else
               let (width, height) = image_size E;
                   l = half (x - width); t = half (y - height);
                   r = adjust_rect E (l, t, l + width, t + height)
               in (change_window h (\<lambda>w. w\<lparr>window_rect := r, window_shown := True\<rparr>) s2)\<lparr>foreground := h\<rparr>)"

definition make_foreground_window :: "shell \<Rightarrow> shell" where
  "make_foreground_window s =
     (if splash_window s \<noteq> 0 \<and> is_window (splash_window s) (desktop s)
      then s\<lparr>foreground := splash_window s\<rparr> else s)"

definition destroy_window :: "u32 \<Rightarrow> hwnd \<Rightarrow> shell \<Rightarrow> shell" where
  "destroy_window thread h s =
     s\<lparr>desktop := filter (\<lambda>(x, w). \<not> (x = h \<and> window_thread w = thread)) (desktop s)\<rparr>"

definition splash_destroy :: "u32 \<Rightarrow> shell \<Rightarrow> hwnd \<times> shell" where
  "splash_destroy thread s =
     (let h = splash_window s; s1 = s\<lparr>splash_window := 0\<rparr> in
      if h = 0 \<or> \<not> is_window h (desktop s) then (0, s1)
      else
        let s2 = destroy_window thread h (change_window h (\<lambda>w. w\<lparr>window_shown := False\<rparr>) s1) in
        (if (case window_of h s2 of None \<Rightarrow> 0 | Some w \<Rightarrow> window_thread w) \<noteq> thread then 0 else h, s2))"

text \<open>\<open>close\<close> handles a message, or sleeps, while the window is there; \<open>pump\<close> is what that does.\<close>

partial_function (option) wait_closed :: "(shell \<Rightarrow> shell) \<Rightarrow> hwnd \<Rightarrow> shell \<Rightarrow> shell option" where
  "wait_closed pump h s =
     (if h \<noteq> 0 \<and> is_window h (desktop s) then wait_closed pump h (pump s) else Some s)"

definition splash_close :: "(shell \<Rightarrow> shell) \<Rightarrow> u32 \<Rightarrow> shell \<Rightarrow> shell option" where
  "splash_close pump thread s =
     (case splash_destroy thread s of (h, s1) \<Rightarrow> wait_closed pump h s1)"

definition splash_callback :: "(shell \<Rightarrow> shell) \<Rightarrow> u32 \<Rightarrow> u32 \<Rightarrow> shell \<Rightarrow> (bool \<times> shell) option" where
  "splash_callback pump process thread s =
     (case get_game_window process s of
        (h, s1) \<Rightarrow>
          if h \<noteq> 0 then map_option (\<lambda>s2. (cond_end, s2)) (splash_close pump thread s1)
          else Some (cond_continue, s1))"

subsection \<open>The tasks of the scheduler\<close>

text \<open>
  Both callbacks are given to \<open>scheduler::loop\<close>, which takes a function without a result:
  what they return is dropped. A callback that does not return would leave the state.
\<close>

datatype shell_callback = Set_title | Close_splash

record shell_env =
  modname :: "byte list"
  game_process :: u32
  async_thread :: u32
  pump_messages :: "shell \<Rightarrow> shell"

fun shell_behaviour :: "shell_env \<Rightarrow> (shell_callback, shell) behaviour" where
  "shell_behaviour E Set_title s =
     (case title_callback (modname E) (game_process E) s of
        (ends, s') \<Rightarrow> \<lparr>result_end = ends, result_exception = None, result_schedules = [], result_world = s'\<rparr>)"
| "shell_behaviour E Close_splash s =
     (case splash_callback (pump_messages E) (game_process E) (async_thread E) s of
        None \<Rightarrow> \<lparr>result_end = False, result_exception = None, result_schedules = [], result_world = s\<rparr>
      | Some (ends, s') \<Rightarrow> \<lparr>result_end = ends, result_exception = None, result_schedules = [], result_world = s'\<rparr>)"

definition window_post_load :: "(shell_callback, shell) scheduler \<Rightarrow> (shell_callback, shell) scheduler" where
  "window_post_load s = schedule_loop Set_title Async 0 s"

definition splash_post_start ::
    "byte list \<Rightarrow> splash_env \<Rightarrow> (shell_callback, shell) scheduler \<Rightarrow> (shell_callback, shell) scheduler" where
  "splash_post_start name E s =
     schedule_loop Close_splash Async 0 (s\<lparr>world := splash_show name E (world s)\<rparr>)"

definition splash_post_load :: "shell \<Rightarrow> shell" where
  "splash_post_load s = make_foreground_window s"

definition splash_pre_destroy :: "(shell \<Rightarrow> shell) \<Rightarrow> u32 \<Rightarrow> shell \<Rightarrow> shell option" where
  "splash_pre_destroy pump thread s = splash_close pump thread s"

subsection \<open>The start menu, the icon and the name of the module\<close>

text \<open>The menu ends when its window is closed: by its button, with a version, or by the user.\<close>

definition run_launcher :: "u32 option \<Rightarrow> bool" where
  "run_launcher launch = (let directx_version = (case launch of Some version \<Rightarrow> version | None \<Rightarrow> 0) in
     directx_version = 11)"

text \<open>\<open>post_start\<close>: whether the start is given up.\<close>

definition launcher_post_start :: "bool \<Rightarrow> u32 option \<Rightarrow> bool" where
  "launcher_post_start wine launch \<longleftrightarrow> \<not> wine \<and> \<not> run_launcher launch"

text \<open>The icon that is loaded, from the name or the small number of a resource.\<close>

datatype icon_request = Load_icon_a u64 u64 | Load_icon_w u64 u64

definition load_icon_w :: "u64 \<Rightarrow> u64 \<Rightarrow> u64 \<Rightarrow> u64 \<Rightarrow> icon_request" where
  "load_icon_w game_module main_module inst name =
     (if name \<le> 300 \<and> inst = game_module then Load_icon_a main_module 102 else Load_icon_w inst name)"

definition icon_import :: "u64 \<Rightarrow> byte list \<Rightarrow> u64" where
  "icon_import load_icon func = (if func = lit ''LoadIconW'' then load_icon else 0)"

definition get_module_file_name :: "u64 \<Rightarrow> (u64 \<Rightarrow> 'r) \<Rightarrow> u64 \<Rightarrow> 'r" where
  "get_module_file_name main_module original module =
     original (if module = 0 then main_module else module)"

section \<open>The splash screen is closed\<close>

lemma map_of_change:
  "map_of (map (\<lambda>(x, w). (x, if x = h then f w else w)) d) k = (if k = h then map_option f (map_of d k) else map_of d k)"
  by (induction d) auto

lemma window_of_change [simp]:
  "window_of k (change_window h f s) = (if k = h then map_option f (window_of k s) else window_of k s)"
  by (simp add: window_of_def change_window_def map_of_change)

lemma is_window_change [simp]: "is_window k (desktop (change_window h f s)) = is_window k (desktop s)"
  by (force simp: is_window_def change_window_def)

lemma handles_change [simp]:
  "game_window (change_window h f s) = game_window s" "splash_window (change_window h f s) = splash_window s"
  by (simp_all add: change_window_def)

lemma is_window_iff: "is_window h (desktop s) \<longleftrightarrow> window_of h s \<noteq> None"
  by (simp add: is_window_def window_of_def map_of_eq_None_iff)

text \<open>Either the window is gone, or it belongs to another thread; \<open>close\<close> waits in neither case.\<close>

lemma destroyed_or_foreign:
  "splash_destroy thread s = (h, s') \<Longrightarrow> h = 0 \<or> \<not> is_window h (desktop s')"
  by (auto simp: splash_destroy_def Let_def is_window_iff split: if_splits option.splits)
    (auto simp: destroy_window_def change_window_def window_of_def dest: map_of_SomeD)

lemma window_of_update [simp]:
  "window_of h (s\<lparr>splash_window := x\<rparr>) = window_of h s" "window_of h (s\<lparr>game_window := x\<rparr>) = window_of h s"
  by (simp_all add: window_of_def)

lemma window_of_destroy: "x \<noteq> h \<Longrightarrow> window_of x (destroy_window thread h s) = window_of x s"
proof -
  have "map_of (filter (\<lambda>(x, w). \<not> (x = h \<and> window_thread w = thread)) d) x = map_of d x" if "x \<noteq> h" for d
    using that by (induction d) auto
  then show "x \<noteq> h \<Longrightarrow> ?thesis" by (simp add: window_of_def destroy_window_def)
qed

lemma destroy_window_handles [simp]:
  "splash_window (destroy_window thread h s) = splash_window s"
  "game_window (destroy_window thread h s) = game_window s"
  by (simp_all add: destroy_window_def)

lemma splash_destroy_cases:
  "snd (splash_destroy thread s) = s\<lparr>splash_window := 0\<rparr> \<or>
   snd (splash_destroy thread s) = destroy_window thread (splash_window s)
     (change_window (splash_window s) (\<lambda>w. w\<lparr>window_shown := False\<rparr>) (s\<lparr>splash_window := 0\<rparr>))"
  by (simp add: splash_destroy_def Let_def)

lemma splash_destroy_frame:
  assumes "splash_destroy thread s = (r, s')"
  shows "splash_window s' = 0" and "game_window s' = game_window s"
    and "x \<noteq> splash_window s \<Longrightarrow> window_of x s' = window_of x s"
proof -
  from splash_destroy_cases [of thread s] assms
  show "splash_window s' = 0" "game_window s' = game_window s"
    "x \<noteq> splash_window s \<Longrightarrow> window_of x s' = window_of x s"
    by (elim disjE, simp_all add: window_of_destroy)+
qed

lemma splash_close_returns:
  "\<exists>s'. splash_close pump thread s = Some s' \<and> splash_window s' = 0 \<and> game_window s' = game_window s \<and>
     (\<forall>x. x \<noteq> splash_window s \<longrightarrow> window_of x s' = window_of x s)"
proof -
  obtain h s' where d: "splash_destroy thread s = (h, s')" by fastforce
  have "splash_close pump thread s = Some s'"
    using destroyed_or_foreign [OF d] unfolding splash_close_def d
    by (simp, subst wait_closed.simps) auto
  with splash_destroy_frame [OF d] show ?thesis by blast
qed

text \<open>
  The splash screen belongs to the main thread and is closed by the thread of the scheduler:
  it is only hidden, and because its handle is forgotten, the clean-up does not destroy it.
\<close>

lemma splash_only_hidden:
  assumes "splash_window s = h" and "h \<noteq> 0" and "window_of h s = Some w" and "window_thread w \<noteq> thread"
    and "distinct (map fst (desktop s))"
  shows "\<exists>s'. splash_close pump thread s = Some s' \<and> window_of h s' = Some (w\<lparr>window_shown := False\<rparr>) \<and>
    splash_pre_destroy pump other s' = Some s'"
proof -
  let ?s1 = "change_window h (\<lambda>w. w\<lparr>window_shown := False\<rparr>) (s\<lparr>splash_window := 0\<rparr>)"
  have w1: "window_of h ?s1 = Some (w\<lparr>window_shown := False\<rparr>)"
    using assms(3) by simp
  have "\<forall>p \<in> set (desktop ?s1). \<not> (fst p = h \<and> window_thread (snd p) = thread)"
    using assms(3,4) map_of_is_SomeI [OF assms(5), of h] by (fastforce simp: change_window_def window_of_def)
  then have "destroy_window thread h ?s1 = ?s1"
    by (simp add: destroy_window_def case_prod_unfold filter_id_conv)
  then have "splash_destroy thread s = (0, ?s1)"
    using assms w1 by (simp add: splash_destroy_def Let_def is_window_iff)
  then have "splash_close pump thread s = Some ?s1"
    by (simp add: splash_close_def wait_closed.simps)
  moreover have "splash_pre_destroy pump other ?s1 = Some ?s1"
    by (simp add: splash_pre_destroy_def splash_close_def splash_destroy_def Let_def wait_closed.simps change_window_def)
  ultimately show ?thesis using w1 by blast
qed

section \<open>The title\<close>

lemma stale_game_window:
  "game_window s = h \<Longrightarrow> h \<noteq> 0 \<Longrightarrow> (\<forall>p \<in> set (desktop s). \<not> enum_windows_proc process (snd p)) \<Longrightarrow>
   fst (get_game_window process s) = h"
proof -
  assume "\<forall>p \<in> set (desktop s). \<not> enum_windows_proc process (snd p)"
  then have "enum_windows process d old = old" if "set d \<subseteq> set (desktop s)" for d old
    using that by (induction process d old rule: enum_windows.induct) auto
  then show "game_window s = h \<Longrightarrow> h \<noteq> 0 \<Longrightarrow> ?thesis" by (simp add: get_game_window_def Let_def)
qed

text \<open>The game's window is \<open>g\<close>; every window under its handle has the title.\<close>

definition game_runs :: "u32 \<Rightarrow> hwnd \<Rightarrow> shell \<Rightarrow> bool" where
  "game_runs process g s \<longleftrightarrow> g \<noteq> 0 \<and> is_window g (desktop s) \<and> splash_window s \<noteq> g \<and>
     fst (get_game_window process s) = g"

definition has_title :: "byte list \<Rightarrow> hwnd \<Rightarrow> shell \<Rightarrow> bool" where
  "has_title name g s \<longleftrightarrow> (\<exists>w. window_of g s = Some w \<and> window_title w = name)"

lemma shell_callback_keeps:
  assumes "game_runs (game_process E) g s"
  shows "game_runs (game_process E) g (result_world (shell_behaviour E c s))"
    and "has_title (modname E) g s \<or> c = Set_title \<Longrightarrow> has_title (modname E) g (result_world (shell_behaviour E c s))"
    and "result_exception (shell_behaviour E c s) = None" "result_schedules (shell_behaviour E c s) = []"
proof -
  have found: "get_game_window (game_process E) s = (g, s\<lparr>game_window := g\<rparr>)"
    using assms by (simp add: game_runs_def get_game_window_def Let_def split: if_splits)
  have runsD: "splash_window s \<noteq> g" "window_of g s \<noteq> None" "g \<noteq> 0"
    using assms by (auto simp: game_runs_def is_window_iff)
  have runs: "game_runs (game_process E) g s'"
    if "game_window s' = g" "splash_window s' \<noteq> g" "window_of g s' \<noteq> None" for s'
    using that runsD by (simp add: game_runs_def get_game_window_def Let_def is_window_iff)
  obtain s2 where closed: "splash_close (pump_messages E) (async_thread E) (s\<lparr>game_window := g\<rparr>) = Some s2"
      "splash_window s2 = 0" "window_of g s2 = window_of g s" "game_window s2 = g"
    using splash_close_returns [of "pump_messages E" "async_thread E" "s\<lparr>game_window := g\<rparr>"] assms
    by (auto simp: game_runs_def)
  note step = title_callback_def splash_callback_def found closed(1)
  show "game_runs (game_process E) g (result_world (shell_behaviour E c s))"
  proof (cases c)
    case Set_title
    have "game_runs (game_process E) g (change_window g (\<lambda>w. w\<lparr>window_title := modname E\<rparr>) (s\<lparr>game_window := g\<rparr>))"
      using runsD by (intro runs) auto
    then show ?thesis using Set_title runsD by (simp add: step)
  next
    case Close_splash
    have "game_runs (game_process E) g s2" using runsD closed by (intro runs) auto
    then show ?thesis using Close_splash runsD by (simp add: step)
  qed
  show "has_title (modname E) g s \<or> c = Set_title \<Longrightarrow> has_title (modname E) g (result_world (shell_behaviour E c s))"
    using runsD closed by (cases c) (auto simp: step has_title_def)
  show "result_exception (shell_behaviour E c s) = None" "result_schedules (shell_behaviour E c s) = []"
    by (cases c; auto split: prod.splits option.splits)+
qed

section \<open>The tasks never end\<close>

text \<open>The handlers of the tasks a pipeline keeps, in their order.\<close>

definition is_loop :: "'c task \<Rightarrow> bool" where
  "is_loop t \<longleftrightarrow> (case task_handler t of Loop c \<Rightarrow> True | _ \<Rightarrow> False)"

definition kept :: "'c task list \<Rightarrow> ('c handler \<times> int) list" where
  "kept ts = map (\<lambda>t. (task_handler t, task_interval t)) (filter is_loop ts)"

lemma kept_simps [simp]:
  "kept [] = []" "kept (ts @ us) = kept ts @ kept us"
  "kept (t # ts) = (if is_loop t then [(task_handler t, task_interval t)] else []) @ kept ts"
  "is_loop (t\<lparr>last_call := n\<rparr>) = is_loop t"
  by (simp_all add: kept_def is_loop_def)

lemma in_kept: "t \<in> set ts \<Longrightarrow> is_loop t \<Longrightarrow> (task_handler t, task_interval t) \<in> set (kept ts)"
  by (auto simp: kept_def)

lemma schedule_callbacks [simp]: "callbacks (schedule h p delay s) = callbacks s"
  by (simp add: schedule_fields)

lemma schedule_all_callbacks [simp]: "callbacks (schedule_all rs s) = callbacks s"
  by (induction rs s rule: schedule_all.induct) simp_all

lemma run_handler_callbacks: "run_handler B h s = (r, s') \<Longrightarrow> callbacks s' = callbacks s"
  by (auto simp: run_handler_def Let_def split: option.splits handler.splits)

lemma loop_continues: "run_handler B (Loop c) s = (r, s') \<Longrightarrow> r \<noteq> Inr True"
  by (auto simp: run_handler_def Let_def split: option.splits)

lemma execute_tasks_kept:
  "kept (callbacks (snd (execute_tasks B p visited ts s)) p) = kept (visited @ ts)"
proof (induction ts arbitrary: visited s)
  case (Cons t ts)
  obtain now s1 where clk: "read_clock s = (now, s1)" by fastforce
  obtain r s2 where run: "run_handler B (task_handler t) s1 = (r, s2)" by fastforce
  have ends: "r = Inr True \<Longrightarrow> \<not> is_loop t"
    using run by (auto simp: is_loop_def split: handler.splits dest: loop_continues)
  consider e where "r = Inl e" | "r = Inr True" | "r = Inr False" by (cases r) auto
  then show ?case
    by cases (use ends in \<open>simp_all add: clk run Let_def Cons.IH\<close>)
qed simp

lemma execute_kept:
  "kept (callbacks (snd (execute B p s)) p) = kept (callbacks s p @ new_callbacks s p)"
  by (simp add: execute_def Let_def execute_tasks_kept merge_callbacks_def)

section \<open>The title is set again and again\<close>

definition due_title :: "(shell_callback, shell) scheduler \<Rightarrow> shell_callback task \<Rightarrow> bool" where
  "due_title s t \<longleftrightarrow> task_handler t = Loop Set_title \<and>
     (\<forall>n \<ge> readings s. task_interval t \<le> clock s n - last_call t)"

lemma shell_handler:
  assumes "run_handler (shell_behaviour E) h s = (r, s')" and "game_runs (game_process E) g (world s)"
  shows "r \<noteq> Inl e" and "game_runs (game_process E) g (world s')"
    and "has_title (modname E) g (world s) \<or> h = Loop Set_title \<Longrightarrow> has_title (modname E) g (world s')"
    and "clock s' = clock s" and "readings s' = readings s"
proof -
  let ?c = "case h of Once c \<Rightarrow> c | Loop c \<Rightarrow> c | Custom c \<Rightarrow> c"
  note keeps = shell_callback_keeps [OF assms(2), of ?c]
  have s': "r \<noteq> Inl e \<and> world s' = result_world (shell_behaviour E ?c (world s)) \<and> clock s' = clock s \<and> readings s' = readings s"
    using assms(1) keeps(3,4) by (auto simp: run_handler_def Let_def split: handler.splits)
  with keeps(1,2) show "r \<noteq> Inl e" "game_runs (game_process E) g (world s')" "clock s' = clock s" "readings s' = readings s"
    "has_title (modname E) g (world s) \<or> h = Loop Set_title \<Longrightarrow> has_title (modname E) g (world s')"
    by auto
qed

lemma execute_tasks_title:
  assumes "game_runs (game_process E) g (world s)"
    and "has_title (modname E) g (world s) \<or> (\<exists>t \<in> set ts. due_title s t)"
  shows "has_title (modname E) g (world (snd (execute_tasks (shell_behaviour E) p visited ts s)))"
  using assms
proof (induction ts arbitrary: visited s)
  case (Cons t ts)
  let ?s1 = "s\<lparr>readings := Suc (readings s)\<rparr>"
  have clk: "read_clock s = (clock s (readings s), ?s1)" by (simp add: read_clock_def)
  have later: "due_title s' u" if "due_title s u" "clock s' = clock s" "readings s' = Suc (readings s)" for s' u
    using that by (auto simp: due_title_def)
  show ?case
  proof (cases "clock s (readings s) - last_call t < task_interval t")
    case True
    then have "\<not> due_title s t" by (auto simp: due_title_def not_le)
    then have "has_title (modname E) g (world ?s1) \<or> (\<exists>t \<in> set ts. due_title ?s1 t)"
      using Cons.prems(2) later [of _ ?s1] by auto
    then show ?thesis using True Cons.IH [of ?s1] Cons.prems(1) by (simp add: clk Let_def)
  next
    case False
    obtain r s2 where run: "run_handler (shell_behaviour E) (task_handler t) ?s1 = (r, s2)" by fastforce
    note step = shell_handler [OF run, of g]
    have runs: "game_runs (game_process E) g (world s2)" using step(2) Cons.prems(1) by simp
    have "has_title (modname E) g (world s2) \<or> (\<exists>t \<in> set ts. due_title s2 t)"
      using Cons.prems step(3-5) later [of _ s2] by (auto simp: due_title_def)
    note IH = Cons.IH [OF runs this]
    from step(1) Cons.prems(1) consider "r = Inr True" | "r = Inr False" by (cases r) auto
    then show ?thesis using False IH by cases (simp_all add: clk run Let_def)
  qed
qed simp

text \<open>C27: 
  The callback that sets the title asks to end once it has found the game's window, but it is
  a loop, whose callback has no result: at every execution of the pipeline the title is set
  again, whatever the game has made of it, and the task stays.
\<close>

theorem title_is_set_forever:
  assumes "game_runs (game_process E) g (world s)"
    and "t \<in> set (callbacks s Async @ new_callbacks s Async)" and "due_title s t"
  shows "has_title (modname E) g (world (snd (execute (shell_behaviour E) Async s))) \<and>
    (\<exists>t' \<in> set (callbacks (snd (execute (shell_behaviour E) Async s)) Async).
       task_handler t' = Loop Set_title \<and> task_interval t' = task_interval t)"
proof
  have "due_title (merge_callbacks Async s) t"
    using assms(3) by (simp add: due_title_def merge_callbacks_def)
  then show "has_title (modname E) g (world (snd (execute (shell_behaviour E) Async s)))"
    using assms(1,2) unfolding execute_def Let_def
    by (intro execute_tasks_title) (auto simp: merge_callbacks_def)
  have "(Loop Set_title, task_interval t) \<in> set (kept (callbacks s Async @ new_callbacks s Async))"
    using in_kept [OF assms(2)] assms(3) by (simp add: due_title_def is_loop_def)
  then have "(Loop Set_title, task_interval t) \<in> set (kept (callbacks (snd (execute (shell_behaviour E) Async s)) Async))"
    by (simp only: execute_kept)
  then show "\<exists>t' \<in> set (callbacks (snd (execute (shell_behaviour E) Async s)) Async).
       task_handler t' = Loop Set_title \<and> task_interval t' = task_interval t"
    by (auto simp: kept_def)
qed

definition demo_game :: "byte list \<Rightarrow> shell" where
  "demo_game title = \<lparr>desktop = [(5, \<lparr>window_process = 9, window_thread = 1, window_class = lit ''W2ViewportClass'',
     window_title = title, window_shown = True, window_rect = (0, 0, 1, 1)\<rparr>)],
     game_window = 5, splash_window = 0, foreground = 5\<rparr>"

definition demo_env :: shell_env where
  "demo_env = \<lparr>modname = lit ''W3m'', game_process = 9, async_thread = 2, pump_messages = id\<rparr>"

text \<open>The second execution overwrites the title the game has set after the first.\<close>

theorem title_is_set_forever_witness:
  "has_title (lit ''W3m'') 5 (world (snd (execute (shell_behaviour demo_env) Async
     (snd (execute (shell_behaviour demo_env) Async (window_post_load (initial_scheduler (\<lambda>n. int n) (demo_game (lit ''a'')))))
        \<lparr>world := demo_game (lit ''b'')\<rparr>))))"
proof -
  let ?s0 = "window_post_load (initial_scheduler (\<lambda>n. int n) (demo_game (lit ''a'')))"
  let ?s1 = "snd (execute (shell_behaviour demo_env) Async ?s0)"
  let ?s = "?s1\<lparr>world := demo_game (lit ''b'')\<rparr>"
  have game: "game_runs (game_process demo_env) 5 (world ?s)"
    by (simp add: game_runs_def get_game_window_def is_window_def demo_game_def)
  have s1: "callbacks ?s1 Async = [\<lparr>task_handler = Loop Set_title, task_interval = 0, last_call = 1\<rparr>] \<and>
      clock ?s1 = int \<and> readings ?s1 = 2"
    by (simp add: window_post_load_def schedule_loop_def schedule_def add_task_def read_clock_def initial_scheduler_def
        execute_def merge_callbacks_def run_handler_def title_callback_def get_game_window_def is_window_def
        demo_game_def demo_env_def change_window_def Let_def)
  let ?t = "\<lparr>task_handler = Loop Set_title, task_interval = 0, last_call = 1\<rparr> :: shell_callback task"
  have "?t \<in> set (callbacks ?s Async @ new_callbacks ?s Async)" "due_title ?s ?t"
    using s1 by (simp_all add: due_title_def)
  from title_is_set_forever [OF game this] show ?thesis by (simp add: demo_env_def)
qed

end
