(* ===== verification/Update_Thread.thy ===== *)
theory Update_Thread
  imports File_Updater Bootstrap
begin

text \<open>
  The component that updates the client (src/client/module/updater.cpp) among the others: its
  thread is started when the component is made, before \<open>main\<close>, and every phase of the component
  joins it first. The end of the program is the deleter of the list of components
  (component_loader.cpp, \<open>get_components\<close>). Between its start and its join the program does
  nothing the update could see, so that the update is one step at the join; \<open>finish\<close>, what
  \<open>update_module\<close> does to the world, is a parameter.
\<close>

section \<open>Model\<close>

text \<open>The process: whether the thread can be joined, how the update ended, whether the process was
  terminated, and everything else.\<close>

record 'w update_process =
  update_thread :: bool
  update_result :: "update_outcome option"
  terminated :: bool
  world :: 'w

definition start_update_thread :: "'w update_process \<Rightarrow> 'w update_process" where
  "start_update_thread s = s\<lparr>update_thread := True\<rparr>"

definition join_update :: "('w \<Rightarrow> update_outcome \<times> 'w) \<Rightarrow> 'w update_process \<Rightarrow> 'w update_process" where
  "join_update finish s =
     (if \<not> update_thread s then s
      else case finish (world s) of (r, w) \<Rightarrow>
        s\<lparr>update_thread := False, update_result := Some r, terminated := (r = Process_terminated), world := w\<rparr>)"

definition updater_component :: "('w \<Rightarrow> update_outcome \<times> 'w) \<Rightarrow> 'w update_process component" where
  "updater_component finish = component_interface\<lparr>comp_priority := Updater_priority,
     comp_post_start := (\<lambda>s. (None, join_update finish s)),
     comp_post_load := (\<lambda>s. (None, join_update finish s)),
     comp_pre_destroy := (\<lambda>s. (None, join_update finish s))\<rparr>"

text \<open>\<open>exit\<close> destroys the list of the components, whose deleter takes them through \<open>pre_destroy\<close>.\<close>

definition delete_components :: "'s loader \<Rightarrow> 's loader" where
  "delete_components l = (pre_destroy l)\<lparr>components := []\<rparr>"

section \<open>Properties\<close>

text \<open>
  Another component has a smaller priority, does nothing once the process is terminated and
  cannot reach the private thread of the updater.
\<close>

definition keeps_thread :: "'w update_process action \<Rightarrow> bool" where
  "keeps_thread f \<longleftrightarrow> (\<forall>s. (terminated s \<longrightarrow> f s = (None, s)) \<and> update_thread (snd (f s)) = update_thread s)"

definition other_component :: "'w update_process component \<Rightarrow> bool" where
  "other_component c \<longleftrightarrow> comp_priority c \<noteq> Updater_priority \<and>
     keeps_thread (comp_post_start c) \<and> keeps_thread (comp_post_load c) \<and> keeps_thread (comp_pre_destroy c)"

lemma priority_of_updater [simp]: "comp_priority (updater_component finish) = Updater_priority"
  by (simp add: updater_component_def component_interface_def)

lemma phases_of_updater [simp]:
  "comp_post_start (updater_component finish) s = (None, join_update finish s)"
  "comp_post_load (updater_component finish) s = (None, join_update finish s)"
  "comp_pre_destroy (updater_component finish) s = (None, join_update finish s)"
  by (simp_all add: updater_component_def component_interface_def)

lemma joined [simp]: "\<not> update_thread (join_update finish s)"
  by (simp add: join_update_def split: prod.splits)

lemma join_again [simp]: "\<not> update_thread s \<Longrightarrow> join_update finish s = s"
  by (simp add: join_update_def)

text \<open>However the components come to register themselves, the updater is in front of all others.\<close>

lemma lower_priority: "comp_priority c \<noteq> Updater_priority \<Longrightarrow> priority_value (comp_priority c) < 5"
  by (cases "comp_priority c") simp_all

lemma updater_in_front:
  assumes "\<forall>c \<in> set (cs @ ds). other_component c"
  shows "fold register_component (cs @ updater_component finish # ds) [] =
    updater_component finish # fold register_component (cs @ ds) []"
proof -
  let ?u = "updater_component finish" and ?f = "\<lambda>c. - priority_value (comp_priority c)"
  have low: "?f ?u < ?f c" if "c \<in> set (cs @ ds)" for c
    using assms that lower_priority [of c] by (auto simp: other_component_def)
  have "sort_key ?f (cs @ ?u # ds) = ?u # sort_key ?f (cs @ ds)"
  proof (rule properties_for_sort_key)
    show "mset (?u # sort_key ?f (cs @ ds)) = mset (cs @ ?u # ds)" by simp
    show "sorted (map ?f (?u # sort_key ?f (cs @ ds)))" using low by (auto intro: less_imp_le)
    fix k assume "k \<in> set (?u # sort_key ?f (cs @ ds))"
    have eq: "(\<lambda>y. ?f k = ?f y) = (\<lambda>y. ?f y = ?f k)" by auto
    have stable: "filter (\<lambda>y. ?f k = ?f y) (sort_key ?f (cs @ ds)) = filter (\<lambda>y. ?f k = ?f y) (cs @ ds)"
      unfolding eq by (rule sort_key_stable)
    show "filter (\<lambda>y. ?f k = ?f y) (?u # sort_key ?f (cs @ ds)) = filter (\<lambda>y. ?f k = ?f y) (cs @ ?u # ds)"
    proof (cases "?f k = ?f ?u")
      case True
      with low have "filter (\<lambda>y. ?f k = ?f y) (cs @ ds) = []" by (fastforce simp: filter_empty_conv)
      with stable True show ?thesis by (simp del: set_append)
    next
      case False
      with stable show ?thesis by simp
    qed
  qed
  then show ?thesis unfolding registration_sorts_by_priority .
qed

lemma run_phase_terminated:
  assumes "\<forall>c \<in> set cs. keeps_thread (f c)" and "terminated s"
  shows "run_phase f cs s = (None, s)"
  using assms by (induction cs) (simp_all add: keeps_thread_def)

lemma run_phase_thread:
  assumes "\<forall>c \<in> set cs. keeps_thread (f c)"
  shows "update_thread (snd (run_phase f cs s)) = update_thread s"
  using assms
proof (induction cs arbitrary: s)
  case (Cons c cs)
  then have keep: "update_thread (snd (f c s)) = update_thread s" by (simp add: keeps_thread_def)
  obtain e s' where r: "f c s = (e, s')" by fastforce
  with keep Cons show ?case by (cases e) simp_all
qed simp

lemma registered_set: "set (fold register_component cs []) = set cs"
  unfolding registration_sorts_by_priority by simp

definition phases :: "('w update_process component \<Rightarrow> 'w update_process action) set" where
  "phases = {comp_post_start, comp_post_load, comp_pre_destroy}"

lemma phase_of_others:
  assumes "phase \<in> phases" and "\<forall>c \<in> set cs. other_component c"
  shows "\<forall>c \<in> set cs. keeps_thread (phase c)"
  using assms by (auto simp: phases_def other_component_def)

lemma phase_joins_first:
  "phase \<in> phases \<Longrightarrow> run_phase phase (updater_component finish # cs) s = run_phase phase cs (join_update finish s)"
  by (auto simp: phases_def)

lemma update_ends_before_components_run:
  assumes "\<forall>c \<in> set (cs @ ds). other_component c" and "phase \<in> phases"
    and "update_thread s" and "finish (world s) = (r, w)"
  shows "run_phase phase (fold register_component (cs @ updater_component finish # ds) []) s =
    (let s1 = s\<lparr>update_thread := False, update_result := Some r, terminated := (r = Process_terminated), world := w\<rparr>
     in if r = Process_terminated then (None, s1)
        else run_phase phase (fold register_component (cs @ ds) []) s1)"
proof -
  have keep: "\<forall>c \<in> set (fold register_component (cs @ ds) []). keeps_thread (phase c)"
    using phase_of_others [OF assms(2)] assms(1) registered_set by blast
  have j: "join_update finish s =
      s\<lparr>update_thread := False, update_result := Some r, terminated := (r = Process_terminated), world := w\<rparr>"
    using assms(3,4) by (simp add: join_update_def)
  show ?thesis
    unfolding updater_in_front [OF assms(1)] phase_joins_first [OF assms(2)]
    using run_phase_terminated [OF keep, of "join_update finish s"] by (simp add: j Let_def)
qed


text \<open>The ways out of \<open>main\<close> and the phase that joined the thread on each of them.\<close>

lemma phase_leaves_joined:
  assumes "phase \<in> phases" and "\<forall>c \<in> set cs. other_component c"
    and "run_phase phase (updater_component finish # cs) s = (e, s')"
  shows "\<not> update_thread s'"
  using run_phase_thread [OF phase_of_others [OF assms(1,2)], of "join_update finish s"] assms(3)
  unfolding phase_joins_first [OF assms(1)] by simp

lemma pre_destroy_joins:
  assumes "components l = updater_component finish # cs" and "\<forall>c \<in> set cs. other_component c"
    and "destroy_result l = None"
  shows "\<not> update_thread (process_state (pre_destroy l))"
proof -
  obtain e s' where run: "run_phase comp_pre_destroy (updater_component finish # cs) (process_state l) = (e, s')"
    by fastforce
  have "comp_pre_destroy \<in> phases" by (simp add: phases_def)
  note j = phase_leaves_joined [OF this assms(2) run]
  have "process_state (pre_destroy l) = s'"
    by (cases e) (simp_all add: pre_destroy_def assms(1,3) run del: run_phase.simps)
  with j show ?thesis by simp
qed

lemma pre_destroy_once:
  assumes "destroy_result l \<noteq> None"
  shows "process_state (pre_destroy l) = process_state l"
  using assms by (cases "destroy_result l") (simp_all add: pre_destroy_def)

lemma post_load_keeps:
  assumes "post_load l = (r, l')"
  shows "components l' = components l" "destroy_result l' = destroy_result l"
  using assms by (auto simp: post_load_def split: prod.splits option.splits)

text \<open>Every exit but that of the waiting process has run \<open>pre_destroy\<close> over the same components.\<close>

definition destroyed :: "'s loader \<Rightarrow> 's loader \<Rightarrow> bool" where
  "destroyed l l' \<longleftrightarrow>
     (\<exists>l1. l' = pre_destroy l1 \<and> Component_Loader.components l1 = Component_Loader.components l \<and> destroy_result l1 = None)"

lemma destroyedI:
  "Component_Loader.components l1 = Component_Loader.components l \<Longrightarrow> destroy_result l1 = None \<Longrightarrow>
   destroyed l (pre_destroy l1)"
  by (auto simp: destroyed_def)

lemma load_exit_destroyed:
  assumes "post_load l1 = (False, l2)" and "Component_Loader.components l1 = Component_Loader.components l"
    and "destroy_result l1 = None"
  shows "destroyed l (pre_destroy l2)"
  using post_load_keeps [OF assms(1)] assms(2,3) by (intro destroyedI) simp_all

lemma exit_runs_pre_destroy:
  assumes fresh: "fresh_loader l" and "handle_process_runner command_line = None"
    and main: "client_main tls_error load_game exit_hook command_line l = Some (Exit code, l')"
  shows "destroyed l l'"
proof (cases "tls_error (process_state l)")
  case (Some e)
  then have "l' = pre_destroy (show_error e l)" using assms(2) main by (simp add: client_main_def)
  then show ?thesis using fresh by (auto simp: show_error_def fresh_loader_def intro!: destroyedI)
next
  case None
  obtain r l1 where start: "post_start l = (r, l1)" by fastforce
  note s = post_start_fields [OF start fresh]
  note main' = main [unfolded client_main_def, simplified assms(2) None start, simplified]
  consider e where "r = Inl e" | "r = Inr False" | "r = Inr True" by (cases r) auto
  then show ?thesis
  proof cases
    case 1
    with main' have "l' = pre_destroy (show_error e l1)" by simp
    with s show ?thesis by (auto simp: show_error_def intro!: destroyedI)
  next
    case 2
    with main' have "l' = pre_destroy l1" by simp
    with s show ?thesis by (auto intro!: destroyedI)
  next
    case 3
    from 3 main' obtain g s2 where load: "load_game (import_resolver exit_hook l1) (process_state l1) = Some (g, s2)"
      by (auto split: option.splits)
    note main'' = main' [simplified 3 load, simplified]
    show ?thesis
    proof (cases g)
      case (Inl e)
      with main'' have "l' = pre_destroy (show_error e (l1\<lparr>process_state := s2\<rparr>))" by simp
      with s show ?thesis by (auto simp: show_error_def intro!: destroyedI)
    next
      case (Inr a)
      with main'' obtain l2 where "post_load (l1\<lparr>process_state := s2\<rparr>) = (False, l2)" "l' = pre_destroy l2"
        by (auto split: prod.splits bool.splits)
      with s show ?thesis by (auto intro: load_exit_destroyed)
    qed
  qed
qed

lemma post_start_loaded:
  assumes "fresh_loader l" and "client_main tls_error load_game exit_hook command_line l = Some (Entry a, l')"
  obtains s2 where "run_phase comp_post_load (Component_Loader.components l) s2 = (None, process_state l')"
proof -
  from assms(2) obtain l1 s2 where start: "post_start l = (Inr True, l1)"
      and post: "post_load (l1\<lparr>process_state := s2\<rparr>) = (True, l')"
    by (auto simp: client_main_def split: if_splits option.splits sum.splits prod.splits bool.splits)
  note s = post_start_fields [OF start assms(1)]
  from post_load_fields(1) [OF post] s that show ?thesis by simp
qed

text \<open>
  Whatever way \<open>main\<close> takes, the thread has been joined when the game is entered, and by the
  end of the program on every other way: no object of a thread is destroyed while it can be
  joined, which would end the process with \<open>std::terminate\<close>.
\<close>

theorem update_thread_is_joined:
  assumes "Component_Loader.components l = fold register_component (cs @ updater_component finish # ds) []"
    and "\<forall>c \<in> set (cs @ ds). other_component c" and "fresh_loader l"
    and "client_main tls_error load_game exit_hook command_line l = Some (r, l')"
  shows "\<not> update_thread (process_state (case r of Entry a \<Rightarrow> l' | Exit code \<Rightarrow> delete_components l'))"
proof -
  let ?os = "fold register_component (cs @ ds) []"
  note front = assms(1) [unfolded updater_in_front [OF assms(2)]]
  have others: "\<forall>c \<in> set ?os. other_component c" using assms(2) registered_set by blast
  show ?thesis
  proof (cases r)
    case (Entry a)
    with assms(4) have "client_main tls_error load_game exit_hook command_line l = Some (Entry a, l')" by simp
    from post_start_loaded [OF assms(3) this] obtain s2 where
      "run_phase comp_post_load (updater_component finish # ?os) s2 = (None, process_state l')"
      unfolding front .
    from phase_leaves_joined [OF _ others this] Entry show ?thesis by (simp add: phases_def)
  next
    case (Exit code)
    note main = assms(4) [unfolded Exit]
    show ?thesis
    proof (cases "handle_process_runner command_line = None")
      case True
      from exit_runs_pre_destroy [OF assms(3) True main] obtain l1 where
        l1: "l' = pre_destroy l1" "Component_Loader.components l1 = Component_Loader.components l" "destroy_result l1 = None"
        unfolding destroyed_def by blast
      have "\<not> update_thread (process_state l')"
        unfolding l1(1) by (rule pre_destroy_joins [OF l1(2) [unfolded front] others l1(3)])
      then show ?thesis using Exit pre_destroy_once [OF pre_destroy_ran, of l1]
        by (simp add: delete_components_def l1(1))
    next
      case False
      then have "l' = l" using main by (simp add: client_main_def)
      moreover have "destroy_result l = None" using assms(3) by (simp add: fresh_loader_def)
      ultimately show ?thesis using Exit pre_destroy_joins [OF front others] by (simp add: delete_components_def)
    qed
  qed
qed

text \<open>
  The second role of the executable, a process that only waits for another, has made its
  components before it looks at its command line: it runs an update of its own.
\<close>

theorem waiting_process_updates:
  assumes "Component_Loader.components l = fold register_component (cs @ updater_component finish # ds) []"
    and "\<forall>c \<in> set (cs @ ds). other_component c" and "fresh_loader l"
    and "handle_process_runner command_line \<noteq> None"
    and "update_thread (process_state l)" and "finish (world (process_state l)) = (Process_terminated, w)"
  shows "client_main tls_error load_game exit_hook command_line l = Some (Exit 0, l) \<and>
    world (process_state (delete_components l)) = w \<and> terminated (process_state (delete_components l))"
proof -
  let ?s = "(process_state l)\<lparr>update_thread := False, update_result := Some Process_terminated,
    terminated := True, world := w\<rparr>"
  have "comp_pre_destroy \<in> phases" by (simp add: phases_def)
  from update_ends_before_components_run [where finish = finish, OF assms(2) this assms(5,6)]
  have "run_phase comp_pre_destroy (Component_Loader.components l) (process_state l) = (None, ?s)"
    unfolding assms(1) by simp
  then have "process_state (pre_destroy l) = ?s"
    using assms(3) by (simp add: pre_destroy_def fresh_loader_def)
  then show ?thesis using assms(4) by (simp add: client_main_def delete_components_def)
qed

section \<open>A concrete start\<close>

definition demo_updater :: "nat update_process component" where
  "demo_updater = updater_component (\<lambda>w. (if w = 0 then Process_terminated else Process_continues, w + 1))"

definition counting_component :: "nat update_process component" where
  "counting_component = component_interface\<lparr>comp_post_load :=
     (\<lambda>s. (None, if terminated s then s else s\<lparr>world := 10 * world s\<rparr>))\<rparr>"

definition demo_process :: "nat \<Rightarrow> nat update_process loader" where
  "demo_process w = \<lparr>components = fold register_component ([counting_component] @ demo_updater # []) [],
     start_handled = False, load_result = None, destroy_result = None, message_boxes = [], process_ended = False,
     process_state = start_update_thread
       \<lparr>update_thread = False, update_result = None, terminated = False, world = w\<rparr>\<rparr>"

lemma counting_is_other: "\<forall>c \<in> set ([counting_component] @ []). other_component c"
  by (simp add: other_component_def keeps_thread_def counting_component_def component_interface_def)

lemma demo_process_fields:
  "Component_Loader.components (demo_process w) =
     fold register_component ([counting_component] @ demo_updater # []) []"
  "fresh_loader (demo_process w)" "update_thread (process_state (demo_process w))"
  "world (process_state (demo_process w)) = w"
  by (simp_all add: demo_process_def fresh_loader_def start_update_thread_def)


theorem update_thread_is_joined_witness:
  "\<exists>l'. client_main (\<lambda>s. None) (\<lambda>R s. None) 1 (lit ''-proc 7'') (demo_process 4) = Some (Exit 0, l') \<and>
     \<not> update_thread (process_state (delete_components l'))"
proof -
  let ?c = "lit ''-proc 7''"
  have "handle_process_runner ?c \<noteq> None"
    by (simp add: handle_process_runner_def process_command_def lit_def)
  then have main: "client_main (\<lambda>s. None) (\<lambda>R s. None) 1 ?c (demo_process 4) = Some (Exit 0, demo_process 4)"
    by (simp add: client_main_def)
  show ?thesis
    using update_thread_is_joined [OF demo_process_fields(1) [unfolded demo_updater_def] counting_is_other
        demo_process_fields(2) main] main by auto
qed

theorem waiting_process_updates_witness:
  "terminated (process_state (delete_components (demo_process 0)))"
proof -
  have "handle_process_runner (lit ''-proc 7'') \<noteq> None"
    by (simp add: handle_process_runner_def process_command_def lit_def)
  from waiting_process_updates [OF demo_process_fields(1) [unfolded demo_updater_def] counting_is_other
      demo_process_fields(2) this demo_process_fields(3)]
  show ?thesis by (simp add: demo_process_fields)
qed

end
