(* ===== verification/Second_Instance.thy ===== *)
theory Second_Instance
  imports Relay Nt_Handles
begin

text \<open>
  A second client on one machine (src/client/utils/identity.cpp, \<open>is_second_instance\<close> and
  \<open>get_guid\<close>): it draws an identity instead of taking the hash of its key. Here it meets the
  server, which asks for exactly that hash.
\<close>

section \<open>Model\<close>

definition error_already_exists :: u32 where "error_already_exists = 183"

text \<open>What \<open>CreateMutexA\<close> gave and the error that is set after it.\<close>

definition is_second_instance :: "resource \<Rightarrow> u32 \<Rightarrow> bool" where
  "is_second_instance mutex last_error =
     (\<not> (handle_is_set 0 mutex \<and> last_error \<noteq> error_already_exists))"

text \<open>The identity is made at the first call and kept.\<close>

definition kept_guid ::
    "crypto_lib \<Rightarrow> resource \<times> u32 \<Rightarrow> byte list \<Rightarrow> key \<Rightarrow> u64 option \<Rightarrow> u64 \<times> u64 option" where
  "kept_guid L mutex rnd own made =
     (case made of
        Some g \<Rightarrow> (g, made)
      | None \<Rightarrow> (let g = get_guid L (is_second_instance (fst mutex) (snd mutex)) rnd own in (g, Some g)))"

text \<open>The datagrams a client with the key \<open>own\<close> and the identity \<open>g\<close> can send.\<close>

inductive client_datagram :: "crypto_lib \<Rightarrow> fpu \<Rightarrow> key \<Rightarrow> u64 \<Rightarrow> byte list \<Rightarrow> bool"
  for L :: crypto_lib and F :: fpu and own :: key and g :: u64 where
  reported: "own_player F g username st = Inr p \<Longrightarrow>
     client_datagram L F own g (make_packet (lit ''state'') 32 (state_message p))"
| answered: "client_datagram L F own g (make_packet (lit ''authResponse'') 32
     (auth_response (key_serialize L PK_PUBLIC own) (sign_message L own nonce)))"

text \<open>The server's runs in which the endpoint \<open>a\<close> is that client and everybody else is anybody.\<close>

inductive endpoint_run :: "crypto_lib \<Rightarrow> address \<Rightarrow> (byte list \<Rightarrow> bool) \<Rightarrow> server_state \<Rightarrow> bool"
  for L :: crypto_lib and a :: address and sent :: "byte list \<Rightarrow> bool" where
  init: "endpoint_run L a sent init_server"
| packet: "endpoint_run L a sent s \<Longrightarrow> length rnd = challenge_size \<Longrightarrow>
     (addr_eq source a \<Longrightarrow> sent datagram) \<Longrightarrow>
     handle_data (server_callbacks L now rnd) source datagram s = (s', r) \<Longrightarrow> endpoint_run L a sent s'"
| frame: "endpoint_run L a sent s \<Longrightarrow> run_frame now (clients s) = (cs, effs, err) \<Longrightarrow>
     endpoint_run L a sent (s\<lparr>clients := cs, effects := effects s @ effs\<rparr>)"
| rehash: "endpoint_run L a sent s \<Longrightarrow> mset cs = mset (clients s) \<Longrightarrow>
     endpoint_run L a sent (s\<lparr>clients := cs\<rparr>)"

section \<open>What the client sends\<close>

definition sends_only :: "(byte list \<Rightarrow> bool) \<Rightarrow> session \<Rightarrow> bool" where
  "sends_only sent sess \<longleftrightarrow> (\<forall>(a, command, data) \<in> set (outbox sess). sent (make_packet command 32 data))"

lemma store_sends:
  assumes "sends_only (client_datagram L F own g) sess"
  shows "sends_only (client_datagram L F own g) (fst (store_player_state F master g st sess))"
  using assms client_datagram.reported [of F g "player_name sess" st _ L own]
  by (auto simp: store_player_state_def sends_only_def send_out_def split: sum.splits)

lemma answer_sends:
  assumes "sends_only (client_datagram L F own g) sess"
  shows "sends_only (client_datagram L F own g) (fst (handle_data (client_callbacks L own master g) source datagram sess))"
  using assms client_datagram.answered [of L F own g]
  by (auto simp: sends_only_def client_sends_asked)

text \<open>Every datagram of a client is one of these.\<close>

inductive client_session :: "crypto_lib \<Rightarrow> fpu \<Rightarrow> key \<Rightarrow> address \<Rightarrow> u64 \<Rightarrow> session \<Rightarrow> bool"
  for L :: crypto_lib and F :: fpu and own :: key and master :: address and g :: u64 where
  fresh: "outbox sess = [] \<Longrightarrow> client_session L F own master g sess"
| store: "client_session L F own master g sess \<Longrightarrow>
     client_session L F own master g (fst (store_player_state F master g st sess))"
| rename: "client_session L F own master g sess \<Longrightarrow> client_session L F own master g (update_player_name n sess)"
| receive: "client_session L F own master g sess \<Longrightarrow>
     client_session L F own master g (fst (handle_data (client_callbacks L own master g) source datagram sess))"

lemma session_sends: "client_session L F own master g sess \<Longrightarrow> sends_only (client_datagram L F own g) sess"
proof (induction rule: client_session.induct)
  case (fresh sess)
  then show ?case by (simp add: sends_only_def)
next
  case (rename sess n)
  then show ?case by (simp add: sends_only_def update_player_name_def)
qed (simp_all add: store_sends answer_sends)

section \<open>What the server makes of it\<close>

text \<open>The entry of an endpoint that has not been authenticated, and has a challenge only under \<open>g\<close>.\<close>

definition waiting :: "u64 \<Rightarrow> client \<Rightarrow> bool" where
  "waiting g c \<longleftrightarrow> \<not> is_authenticated c \<and> (authentication_nonce c = [] \<or> c_guid c = g)"

lemma waiting_new [simp]: "waiting g new_client"
  by (simp add: waiting_def) (simp add: new_client_def)

lemma own_player_valid:
  assumes "own_player F g u st = Inr p"
  shows "valid_player p" "guid p = g"
  using assms by (auto simp: own_player_sent valid_player_def name_size_def)

text \<open>A datagram of somebody else leaves the entry as it is.\<close>

lemma packet_elsewhere:
  assumes "handle_data (server_callbacks L now rnd) source datagram s = (s', r)" and "\<not> addr_eq source a"
  shows "client_at a (clients s') = client_at a (clients s)"
  using assms(1)
proof (cases rule: packet_cases)
  case (response c sep data)
  then show ?thesis using assms(2)
    by (auto simp: handle_authentication_response_def Let_def client_at_put_iff prod.case_eq_if split: sum.splits)
next
  case (state c sep data)
  then show ?thesis using assms(2)
    by (auto simp: handle_player_state_def Let_def client_at_put_iff prod.case_eq_if split: sum.splits)
qed (simp_all add: kill_clients)

lemma fst_handled:
  assumes "server_callbacks L now rnd (to_lower c) = Some (lift_handler h)" and "plain_command c"
    and "h (clients s) source data = (cs, effs, None)"
  shows "clients (fst (handle_data (server_callbacks L now rnd) source (make_packet c 32 data) s)) = cs"
  using dispatch_handled [OF assms(1,2) is_divider_space assms(3)] by simp

lemma waiting_reported:
  assumes "waiting g (client_at source (clients s))" and "own_player F g u st = Inr p" and "addr_eq source a"
    and "handle_data (server_callbacks L now rnd) source (make_packet (lit ''state'') 32 (state_message p)) s = (s', r)"
  shows "waiting g (client_at a (clients s'))"
proof -
  note p = own_player_valid [OF assms(2)]
  have un: "\<not> is_authenticated (client_at source (clients s))" using assms(1) by (simp add: waiting_def)
  obtain n logs where "handle_data (server_callbacks L now rnd) source (make_packet (lit ''state'') 32 (state_message p)) s =
    (s\<lparr>clients := put_client source ((update_client now p (client_at source (clients s)))\<lparr>authentication_nonce := n\<rparr>) (clients s),
       effects := logs\<rparr>, Handled)"
    using dispatch_state_unauthenticated [OF p(1) is_divider_space un refl refl] unfolding state_message_def by blast
  then have "clients s' =
      put_client source ((update_client now p (client_at source (clients s)))\<lparr>authentication_nonce := n\<rparr>) (clients s)"
    using assms(4) by auto
  then show ?thesis using assms(3) un p(2)
    by (simp add: client_at_put_iff waiting_def is_authenticated_def)
qed

text \<open>What the client sends fits the length fields, and the server's hash of its key is not \<open>g\<close>.\<close>

definition short_messages :: "crypto_lib \<Rightarrow> key \<Rightarrow> bool" where
  "short_messages L own \<longleftrightarrow>
     length (key_serialize L PK_PUBLIC own) < 2 ^ 32 \<and> (\<forall>m. length (sign_message L own m) < 2 ^ 32)"

definition wrong_identity :: "crypto_lib \<Rightarrow> key \<Rightarrow> u64 \<Rightarrow> bool" where
  "wrong_identity L own g \<longleftrightarrow> key_get_hash L (public_of L own) \<noteq> g \<and> short_messages L own"

lemma waiting_check:
  assumes "waiting g c" and "key_get_hash L k \<noteq> g"
  shows "waiting g (fst (check_response L now source k signature c))"
  using assms by (auto simp: waiting_def check_response_fields is_authenticated_def)

lemma waiting_answered:
  assumes "waiting g (client_at source (clients s))" and "wrong_identity L own g" and "addr_eq source a"
    and "handle_data (server_callbacks L now rnd) source (make_packet (lit ''authResponse'') 32
      (auth_response (key_serialize L PK_PUBLIC own) (sign_message L own nonce))) s = (s', r)"
  shows "waiting g (client_at a (clients s'))"
proof -
  let ?k = "key_deserialize L (key_serialize L PK_PUBLIC own) (key_new L)"
  let ?c = "check_response L now source ?k (sign_message L own nonce) (client_at source (clients s))"
  have len: "length (key_serialize L PK_PUBLIC own) < 2 ^ 32" "length (sign_message L own nonce) < 2 ^ 32"
    and hash: "key_get_hash L ?k \<noteq> g" using assms(2) by (simp_all add: wrong_identity_def short_messages_def public_of_def)
  have here: "client_at a (clients s) = client_at source (clients s)" by (rule client_at_cong [OF assms(3), symmetric])
  let ?h = "handle_authentication_response L now (clients s) source
    (auth_response (key_serialize L PK_PUBLIC own) (sign_message L own nonce))"
  have h: "?h = (if \<not> key_is_valid L ?k then (clients s, [], None)
      else (put_client source (fst ?c) (clients s), snd ?c, None))"
    unfolding auth_response_def by (simp add: handle_response_message [OF len] Let_def prod.case_eq_if)
  obtain cs effs where cs: "?h = (cs, effs, None)"
    and table: "cs = (if \<not> key_is_valid L ?k then clients s else put_client source (fst ?c) (clients s))"
    unfolding h by (cases "key_is_valid L ?k") simp_all
  from fst_handled [OF server_callback_commands(1) server_commands_plain(1) cs, of rnd] assms(4)
  have "clients s' = cs" by simp
  with table here assms(1,3) waiting_check [OF assms(1) hash] show ?thesis
    by (simp add: client_at_put_iff)
qed

lemma waiting_packet:
  assumes "handle_data (server_callbacks L now rnd) source datagram s = (s', r)"
    and "waiting g (client_at a (clients s))" and "wrong_identity L own g"
    and "addr_eq source a \<Longrightarrow> client_datagram L F own g datagram"
  shows "waiting g (client_at a (clients s'))"
proof (cases "addr_eq source a")
  case False
  then show ?thesis using packet_elsewhere [OF assms(1)] assms(2) by simp
next
  case True
  then have w: "waiting g (client_at source (clients s))" using assms(2) client_at_cong [OF True] by simp
  from assms(4) [OF True] show ?thesis
  proof cases
    case (reported u st p)
    then show ?thesis using waiting_reported [OF w _ True] assms(1) by blast
  next
    case (answered nonce)
    then show ?thesis using waiting_answered [OF w assms(3) True] assms(1) by blast
  qed
qed

lemma endpoint_run_waiting:
  assumes "endpoint_run L a (client_datagram L F own g) s" and "wrong_identity L own g"
  shows "um_ok addr_eq (clients s) \<and> waiting g (client_at a (clients s))"
  using assms(1)
proof (induction rule: endpoint_run.induct)
  case init
  then show ?case by (simp add: init_server_def client_at_def um_at_def um_find_def)
next
  case (packet s rnd source datagram now s' r)
  have "um_ok addr_eq (clients s')"
    using step_um_ok [OF server_step.packet [OF packet.hyps(2,4)]] packet.IH by blast
  with waiting_packet [OF packet.hyps(4) _ assms(2) packet.hyps(3)] packet.IH show ?case by blast
next
  case (frame s now cs effs err)
  have "um_ok addr_eq cs"
    using step_um_ok [OF server_step.frame [OF frame.hyps(2)]] frame.IH by simp
  with frame_client [OF frame.hyps(2), of a] frame.IH show ?case by fastforce
next
  case (rehash s cs)
  have "um_ok addr_eq cs"
    using step_um_ok [OF server_step.rehash [OF rehash.hyps(2)]] rehash.IH by simp
  with rehash_client [OF rehash.hyps(2)] rehash.IH show ?case by simp
qed

section \<open>Properties\<close>

lemma drawn_prefix:
  "drop_bit 31 (0x110000100000000 OR ucast (n AND NOT 0x80000000 :: u32) :: u64) = 0x2200002"
proof -
  have "(NOT 0x80000000 :: u32) = mask 31" by (simp add: mask_eq_exp_minus_1)
  then have "n AND NOT 0x80000000 = take_bit 31 n" by (simp add: take_bit_eq_mask)
  moreover have "drop_bit 31 (ucast (take_bit 31 n) :: u64) = 0"
    by (rule bit_word_eqI) (auto simp: bit_simps)
  ultimately show ?thesis by simp
qed

text \<open>C3: 
  A client that finds another one running on its machine is never authenticated, whatever it is
  asked, whatever it reports and whatever everybody else sends: it draws an identity under a
  fixed prefix, and the server wants the hash of its key, which has another prefix.
\<close>

theorem second_instance_never_authenticated:
  assumes "last_error = error_already_exists"
    and "kept_guid L (mutex, last_error) rnd own None = (g, made)"
    and "drop_bit 31 (key_get_hash L (public_of L own)) \<noteq> 0x2200002" and "short_messages L own"
    and "endpoint_run L a (client_datagram L F own g) s"
  shows "\<not> is_authenticated (client_at a (clients s))"
proof -
  have "is_second_instance mutex last_error" using assms(1) by (simp add: is_second_instance_def)
  then have "g = 0x110000100000000 OR ucast (get_integer rnd AND NOT 0x80000000)"
    using assms(2) by (simp add: kept_guid_def get_guid_def Let_def)
  then have "drop_bit 31 g = 0x2200002" by (simp only: drawn_prefix)
  then have "wrong_identity L own g" using assms(3,4) by (auto simp: wrong_identity_def)
  from endpoint_run_waiting [OF assms(5) this] show ?thesis by (simp add: waiting_def)
qed

text \<open>The first instance has the identity the server wants.\<close>

lemma first_instance_guid:
  assumes "handle_is_set 0 mutex" and "last_error \<noteq> error_already_exists"
  shows "kept_guid L (mutex, last_error) rnd own None = (key_get_hash L own, Some (key_get_hash L own))"
  using assms by (simp add: kept_guid_def is_second_instance_def get_guid_def Let_def)

text \<open>A second instance that has reported a state and was asked for its key.\<close>

lemma toy_short: "short_messages toy_lib [7]"
  using toy_key_pair by (simp add: short_messages_def key_pair_def)

lemma toy_prefix: "drop_bit 31 (key_get_hash toy_lib (public_of toy_lib [7])) \<noteq> 0x2200002"
proof -
  have "public_of toy_lib [7] = [7]"
    using toy_key_pair by (simp add: public_of_def key_pair_def key_deserialize_Some)
  moreover have zero: "le_nat (replicate n 0) = 0" for n by (induction n) simp_all
  ultimately show ?thesis
    by (simp add: key_get_hash_def key_get_public_key_def sha1_compute_def hex_or_raw_def bytes_or_empty_def toy_lib_def toy_digest_def bytes_u64_def Let_def zero)
qed

definition idle_state :: w3m_state where
  "idle_state = \<lparr>w_angles = (0, 0, 0), w_position = (0, 0, 0, 0), w_velocity = (0, 0, 0, 0), w_speed = 0,
     w_move_type = 0\<rparr>"

theorem second_instance_never_authenticated_witness:
  "\<exists>s g p. kept_guid toy_lib (1, 183) [1, 2, 3, 4] [7] None = (g, Some g) \<and>
     handle_data (server_callbacks toy_lib 0 demo_random) demo_address
       (make_packet (lit ''state'') 32 (state_message p)) init_server = (s, Handled) \<and>
     guid p = g \<and> \<not> is_authenticated (client_at demo_address (clients s))"
proof -
  let ?g = "fst (kept_guid toy_lib (1, 183) [1, 2, 3, 4] [7] None)"
  have kept: "kept_guid toy_lib (1, 183) [1, 2, 3, 4] [7] None = (?g, Some ?g)"
    by (simp add: kept_guid_def Let_def)
  obtain p where p: "own_player raw_fpu ?g [] idle_state = Inr p" using own_player_ok by blast
  note v = own_player_valid [OF p]
  have un: "\<not> is_authenticated (client_at demo_address (clients init_server))"
    by (simp add: init_server_def client_at_def um_at_def um_find_def)
  obtain s where s: "handle_data (server_callbacks toy_lib 0 demo_random) demo_address
      (make_packet (lit ''state'') 32 (state_message p)) init_server = (s, Handled)"
    using dispatch_state_unauthenticated [OF v(1) is_divider_space un refl refl] unfolding state_message_def by blast
  have "endpoint_run toy_lib demo_address (client_datagram toy_lib raw_fpu [7] ?g) s"
    by (rule endpoint_run.packet [OF endpoint_run.init demo_random_length _ s])
       (rule client_datagram.reported [OF p])
  from second_instance_never_authenticated [OF _ kept toy_prefix toy_short this]
  have "\<not> is_authenticated (client_at demo_address (clients s))" by (simp add: error_already_exists_def)
  with kept s v(2) show ?thesis by blast
qed

end
