(* ===== verification/Challenge_Source.thy ===== *)
theory Challenge_Source
  imports Agreement Ciphers
begin

text \<open>
  Where the challenges come from (src/common/utils/cryptography.cpp, class \<open>prng\<close> and
  \<open>random\<close>): a generator of libtomcrypt that is seeded from the system at the start of the
  program. No result of the library but that of the registration is looked at. The library is
  a record; a read gives the bytes it wrote.
\<close>

section \<open>Model\<close>

record 'p generator =
  descriptor_name :: "byte list"
  register_prng :: int
  rng_make_prng :: "nat \<Rightarrow> int \<Rightarrow> 'p \<Rightarrow> 'p"
  gen_start :: "'p \<Rightarrow> 'p"
  gen_add_entropy :: "byte list \<Rightarrow> 'p \<Rightarrow> 'p"
  gen_ready :: "'p \<Rightarrow> 'p"
  gen_read :: "nat \<Rightarrow> 'p \<Rightarrow> byte list \<times> 'p"

text \<open>What the seed is made of: an uninitialised array and its address, the time, and the words of
  the system's random device, which may throw.\<close>

record seed =
  stack_words :: "byte list"
  stack_address :: u64
  time_now :: u64
  random_device :: "exn + u32 list"


definition add_entropy :: "'p generator \<Rightarrow> byte list \<Rightarrow> 'p \<Rightarrow> 'p" where
  "add_entropy G data s = gen_add_entropy G (take (ul (length data)) data) s"

definition auto_seed :: "'p generator \<Rightarrow> seed \<Rightarrow> int \<Rightarrow> 'p \<Rightarrow> exn + 'p" where
  "auto_seed G E prng_id s =
     (let s1 = rng_make_prng G 128 prng_id s;
          s2 = add_entropy G (stack_words E) s1;
          s3 = add_entropy G (u64_bytes (stack_address E)) s2;
          s4 = add_entropy G (u64_bytes (time_now E)) s3
      in exn_bind (random_device E) (\<lambda>words.
           Inr (fold (\<lambda>x. add_entropy G (u32_bytes x)) (take 4 words) s4)))"

definition new_prng :: "'p generator \<Rightarrow> seed \<Rightarrow> bool \<Rightarrow> 'p \<Rightarrow> exn + int \<times> 'p" where
  "new_prng G E autoseed memory =
     (let prng_id = register_prng G in
      if prng_id = -1 then Inl (Runtime_error (lit ''PRNG '' @ descriptor_name G @ lit '' could not be registered!''))
      else if autoseed then exn_bind (auto_seed G E prng_id memory) (\<lambda>s. Inr (prng_id, s))
      else Inr (prng_id, gen_start G memory))"

definition get_state :: "'p generator \<Rightarrow> 'p \<Rightarrow> 'p" where
  "get_state G s = gen_ready G s"

text \<open>\<open>read\<close> into a buffer with contents: what the library does not write stays.\<close>

definition prng_read :: "'p generator \<Rightarrow> byte list \<Rightarrow> 'p \<Rightarrow> byte list \<times> 'p" where
  "prng_read G buffer s =
     (case gen_read G (ul (length buffer)) (get_state G s) of
        (out, s') \<Rightarrow> (take (length buffer) (out @ drop (length out) buffer), s'))"

definition random_get_data :: "'p generator \<Rightarrow> byte list \<Rightarrow> 'p \<Rightarrow> byte list \<times> 'p" where
  "random_get_data G buffer s = prng_read G buffer s"

text \<open>\<open>result\<close> is not initialised: \<open>junk\<close> is what its memory holds.\<close>

definition random_get_integer :: "'p generator \<Rightarrow> byte list \<Rightarrow> 'p \<Rightarrow> u32 \<times> 'p" where
  "random_get_integer G junk s = (case random_get_data G junk s of (bs, s') \<Rightarrow> (get_integer bs, s'))"

definition random_get_challenge :: "'p generator \<Rightarrow> 'p \<Rightarrow> byte list \<times> 'p" where
  "random_get_challenge G s =
     (case random_get_data G (replicate challenge_size 0) s of (bs, s') \<Rightarrow> (get_challenge bs, s'))"

text \<open>\<open>ecc::generate_key\<close> without entropy of the caller, over the shared generator.\<close>

definition generate_random_key :: "'c cipher_lib \<Rightarrow> 'c generator \<Rightarrow> nat \<Rightarrow> 'c \<Rightarrow> key" where
  "generate_random_key L G bits s = ecc_make_key L (bits div 8) (get_state G s)"

section \<open>Properties\<close>

lemma fst_prng_read:
  "fst (prng_read G buffer s) =
     (let out = fst (gen_read G (ul (length buffer)) (get_state G s))
      in take (length buffer) (out @ drop (length out) buffer))"
  by (simp add: prng_read_def prod.case_eq_if Let_def)

lemma length_prng_read [simp]: "length (fst (prng_read G buffer s)) = length buffer"
  by (simp add: fst_prng_read Let_def)

lemma fst_random_challenge:
  "fst (random_get_challenge G s) = get_challenge (fst (prng_read G (replicate challenge_size 0) s))"
  by (simp add: random_get_challenge_def random_get_data_def prod.case_eq_if)

text \<open>Challenges have sixteen digits, and two of them are equal only if the generator gave the same bytes.\<close>

lemma challenges_differ:
  assumes "length (fst (gen_read G 8 (get_state G s))) = 8" and "length (fst (gen_read G 8 (get_state G t))) = 8"
    and "fst (random_get_challenge G s) = fst (random_get_challenge G t)"
  shows "fst (gen_read G 8 (get_state G s)) = fst (gen_read G 8 (get_state G t))"
proof -
  have "fst (prng_read G (replicate challenge_size 0) u) = fst (gen_read G 8 (get_state G u))"
    if "length (fst (gen_read G 8 (get_state G u))) = 8" for u
    using that by (simp add: fst_prng_read Let_def ul_def challenge_size_def)
  then show ?thesis
    using get_challenge_inject [OF assms(3) [unfolded fst_random_challenge]] assms(1,2) by simp
qed

text \<open>The generator delivers nothing: every challenge is the same.\<close>

definition delivers_nothing :: "'p generator \<Rightarrow> bool" where
  "delivers_nothing G \<longleftrightarrow> (\<forall>n s. fst (gen_read G n s) = [])"

lemma silent_read: "delivers_nothing G \<Longrightarrow> fst (prng_read G buffer s) = buffer"
  by (simp add: fst_prng_read delivers_nothing_def Let_def)

lemma silent_challenge:
  "delivers_nothing G \<Longrightarrow> fst (random_get_challenge G s) = get_challenge (replicate challenge_size 0)"
  by (simp add: fst_random_challenge silent_read)

text \<open>C11: 
  When the generator fails, which nothing looks at, all challenges are the same, and the
  signature a client has given once to any server authenticates whoever sends it, from any
  endpoint, in every later session: the attacker reports a state under the client's identity
  and answers the request with the recorded response.
\<close>

theorem failed_generator_allows_replay:
  assumes "delivers_nothing G" and "key_pair L own k" and "key_get_hash L k = guid p" and "valid_player p"
    and "is_supported attacker" and "client_at attacker (clients s0) = new_client"
    and "recorded = auth_response (key_serialize L PK_PUBLIC own)
      (sign_message L own (fst (random_get_challenge G earlier)))"
    and "rnd = fst (random_get_data G (replicate challenge_size 0) later)"
  shows "\<exists>s1 s2.
    handle_data (server_callbacks L t1 rnd) attacker (make_packet (lit ''state'') 32 (state_message p)) s0 = (s1, Handled) \<and>
    handle_data (server_callbacks L t2 rnd2) attacker (make_packet (lit ''authResponse'') 32 recorded) s1 = (s2, Handled) \<and>
    public_key (client_at attacker (clients s2)) = Some k \<and> c_guid (client_at attacker (clients s2)) = guid p"
proof -
  let ?pub = "key_serialize L PK_PUBLIC own" and ?c = "update_client t1 p new_client"
  let ?nonce = "get_challenge (replicate challenge_size 0)"
  have rnd: "rnd = replicate challenge_size 0"
    using assms(1,8) by (simp add: random_get_data_def silent_read)
  have un: "\<not> is_authenticated (client_at attacker (clients s0))" using assms(6) by simp
  have nonce: "?nonce \<noteq> []" by (rule get_challenge_nonempty) simp
  have n: "?nonce = (if authentication_nonce ?c = [] then get_challenge rnd else authentication_nonce ?c)"
    by (simp add: new_client_def rnd)
  obtain logs where s1: "handle_data (server_callbacks L t1 rnd) attacker
      (make_packet (lit ''state'') 32 (state_message p)) s0 =
    (s0\<lparr>clients := put_client attacker (?c\<lparr>authentication_nonce := ?nonce\<rparr>) (clients s0), effects := logs\<rparr>, Handled)"
    using dispatch_state_unauthenticated [OF assms(4) is_divider_space un refl n [folded assms(6)]]
    by (auto simp: state_message_def assms(6))
  let ?s1 = "s0\<lparr>clients := put_client attacker (?c\<lparr>authentication_nonce := ?nonce\<rparr>) (clients s0), effects := logs\<rparr>"
  have at: "client_at attacker (clients ?s1) = ?c\<lparr>authentication_nonce := ?nonce\<rparr>"
    using assms(5) by (simp add: client_at_put)
  have k: "k = key_deserialize L ?pub (key_new L)"
    using assms(2) by (simp add: key_pair_def key_deserialize_Some)
  have rec: "recorded = write_string (sign_message L own ?nonce) (write_string ?pub (write_u32 PROTOCOL []))"
    using assms(1,7) by (simp add: auth_response_def silent_challenge)
  have s2: "handle_data (server_callbacks L t2 rnd2) attacker (make_packet (lit ''authResponse'') 32 recorded) ?s1 =
    (?s1\<lparr>clients := put_client attacker (?c\<lparr>authentication_nonce := ?nonce, public_key := Some k, last_packet := t2\<rparr>)
          (clients ?s1), effects := effects ?s1 @ [Log_authenticated attacker (c_guid ?c)]\<rparr>, Handled)"
    unfolding rec
    using dispatch_response_accepted [OF _ _ is_divider_space k at [symmetric]] assms(2,3) nonce
    by (simp add: key_pair_def)
  show ?thesis
    by (intro exI conjI, rule s1, rule s2) (use assms(5) in \<open>simp_all add: client_at_put\<close>)
qed

definition silent_generator :: "unit generator" where
  "silent_generator = \<lparr>descriptor_name = lit ''fortuna'', register_prng = 0, rng_make_prng = (\<lambda>n i s. s),
     gen_start = (\<lambda>s. s), gen_add_entropy = (\<lambda>d s. s), gen_ready = (\<lambda>s. s), gen_read = (\<lambda>n s. ([], s))\<rparr>"

lemma silent_generator_silent: "delivers_nothing silent_generator"
  by (simp add: delivers_nothing_def silent_generator_def)

theorem failed_generator_allows_replay_witness:
  "\<exists>s1 s2.
    handle_data (server_callbacks toy_lib 0 (replicate 8 0)) other_address
      (make_packet (lit ''state'') 32 (state_message demo_player)) init_server = (s1, Handled) \<and>
    handle_data (server_callbacks toy_lib 1 []) other_address (make_packet (lit ''authResponse'') 32
      (auth_response (key_serialize toy_lib PK_PUBLIC [7])
        (sign_message toy_lib [7] (fst (random_get_challenge silent_generator ()))))) s1 = (s2, Handled) \<and>
    public_key (client_at other_address (clients s2)) = Some [7] \<and>
    c_guid (client_at other_address (clients s2)) = guid demo_player"
proof -
  have "client_at other_address (clients init_server) = new_client"
    by (simp add: init_server_def client_at_def um_at_def um_find_def)
  moreover have "replicate 8 0 = fst (random_get_data silent_generator (replicate challenge_size 0) ())"
    using silent_generator_silent by (simp add: random_get_data_def silent_read challenge_size_def)
  ultimately show ?thesis
    using failed_generator_allows_replay [OF silent_generator_silent toy_key_pair demo_key_hash demo_player_valid
        other_address_supported] by blast
qed

text \<open>A generator that is not registered stops the program: the object is made before \<open>main\<close>.\<close>

lemma unregistered_generator:
  assumes "register_prng G = -1"
  shows "\<exists>m. new_prng G E autoseed s = Inl (Runtime_error m)"
  using assms by (simp add: new_prng_def)

end
