(* ===== verification/Known_Folders.thy ===== *)
theory Known_Folders
  imports Game_Path
begin

text \<open>
  The folders the client asks the system for (src/client/module/game_path.cpp): where Steam is
  installed, from the registry, and the client's own data. A query of the registry answers, for
  the size of the buffer in bytes, with what it wrote and the size it reports. Names are ASCII,
  so that a wide character becomes its low byte.
\<close>

section \<open>Model\<close>

definition path_room :: nat where "path_room = 260"

text \<open>\<open>None\<close> is a key that cannot be opened. The buffer starts zeroed; a reported size beyond it makes
  the string read behind its end.\<close>

type_synonym value_query = "nat \<Rightarrow> u16 list \<times> nat"

definition get_steam_install_directory :: "value_query option \<Rightarrow> exn + byte list" where
  "get_steam_install_directory opened =
     (case opened of
        None \<Rightarrow> Inr []
      | Some query \<Rightarrow>
          (case query (2 * path_room) of
             (written, reported) \<Rightarrow>
               if path_room < reported div 2 then Inl Undefined_behaviour
               else Inr (narrow (take (reported div 2) (written @ replicate path_room 0)))))"

text \<open>\<open>get_appdata_path\<close>: the first path that is found is kept; without one the next call asks again.\<close>

definition no_appdata :: exn where "no_appdata = Runtime_error (lit ''Failed to read APPDATA path!'')"

definition get_appdata_path :: "byte list option \<Rightarrow> byte list option \<Rightarrow> (exn + byte list) \<times> byte list option" where
  "get_appdata_path known_folder appdata =
     (case appdata of
        Some p \<Rightarrow> (Inr p, appdata)
      | None \<Rightarrow>
          (case known_folder of
             None \<Rightarrow> (Inl no_appdata, None)
           | Some p \<Rightarrow>
               (let q = p @ (if is_separator (last p) then [] else [0x5C]) @ lit ''w3m'' in (Inr q, Some q))))"

section \<open>Properties\<close>

text \<open>A text in the registry is stored with its terminator and counted with it.\<close>

definition stored_text :: "u16 list \<Rightarrow> value_query" where
  "stored_text name room =
     (if 2 * (length name + 1) \<le> room then (name @ [0], 2 * (length name + 1)) else ([], 2 * (length name + 1)))"

definition ascii :: "u16 list \<Rightarrow> bool" where "ascii name \<longleftrightarrow> (\<forall>c \<in> set name. 0 < c \<and> c < 0x80)"

lemma ascii_narrow: "ascii name \<Longrightarrow> \<forall>b \<in> set (narrow name). b \<noteq> 0"
proof
  fix b assume a: "ascii name" and "b \<in> set (narrow name)"
  from this(2) obtain c where c: "b = ucast c" "c \<in> set name" unfolding narrow_def by auto
  with a have "0 < c" "c < 0x80" by (auto simp: ascii_def)
  then have "unat c < 2 ^ 8" "unat c \<noteq> 0" by (auto simp: word_less_nat_alt unat_eq_zero)
  then have "unat (ucast c :: byte) \<noteq> 0" by (simp add: unsigned_ucast_eq take_bit_nat_eq_self)
  with c(1) show "b \<noteq> 0" by auto
qed

lemma takeWhile_terminated: "\<forall>b \<in> set p. b \<noteq> 0 \<Longrightarrow> takeWhile (\<lambda>b. b \<noteq> 0) (p @ 0 # q) = (p :: byte list)"
  by (simp add: takeWhile_append2)

lemma steam_directory_stored:
  assumes "length name < path_room"
  shows "get_steam_install_directory (Some (stored_text name)) = Inr (narrow name @ [0])"
  using assms by (simp add: get_steam_install_directory_def stored_text_def path_room_def narrow_def)

lemma terminated_game:
  "steam_game (p @ [0]) = p @ 0 # 0x5C # lit ''steamapps/common/The Witcher 3''"
  by (simp add: steam_game_def is_separator_def)

text \<open>
  The installation directory keeps the terminator of the registry's text in its middle: the
  test for the game's directory tests Steam's, and the dialog that asks for the game starts in
  Steam's directory, wherever below it the game is. A directory of 260 characters or more is
  read behind the buffer.
\<close>

theorem default_folder_is_steams:
  assumes "ascii name" and "steam = get_steam_install_directory (Some (stored_text name))"
  shows "if path_room \<le> length name then steam = Inl Undefined_behaviour
    else \<exists>p. steam = Inr p \<and>
      (exists_at (resolve_path (narrow name) st) st \<longrightarrow>
        takeWhile (\<lambda>b. b \<noteq> 0) (get_default_witcher_path False p st) = forward_slashes (narrow name)) \<and>
      (\<not> exists_at (resolve_path (narrow name) st) st \<longrightarrow> get_default_witcher_path False p st = [])"
proof (cases "path_room \<le> length name")
  case True
  then show ?thesis using assms(2) by (simp add: get_steam_install_directory_def stored_text_def path_room_def)
next
  case False
  let ?p = "narrow name"
  note seen = takeWhile_terminated [OF ascii_narrow [OF assms(1)]]
  have "takeWhile (\<lambda>b. b \<noteq> 0) (forward_slashes (?p @ 0 # q)) = forward_slashes ?p" for q
  proof -
    have "\<forall>b \<in> set (forward_slashes ?p). b \<noteq> 0" using ascii_narrow [OF assms(1)] by (auto simp: forward_slashes_def)
    from takeWhile_terminated [OF this, of "forward_slashes q"] show ?thesis by (simp add: forward_slashes_def)
  qed
  then show ?thesis
    using False assms(2) steam_directory_stored [of name]
    by (auto simp: get_default_witcher_path_def Let_def terminated_game seen not_le)
qed

definition demo_folder :: "u16 list" where "demo_folder = widen (lit ''C:/s'')"

theorem default_folder_is_steams_witness:
  "\<exists>p. get_steam_install_directory (Some (stored_text demo_folder)) = Inr p \<and>
     takeWhile (\<lambda>b. b \<noteq> 0) (get_default_witcher_path False p
       \<lparr>files = [([lit ''C:'', lit ''s''], Directory)], current_directory = [], dll_directory = [], stored_path = None\<rparr>) =
     lit ''C:/s''"
proof -
  let ?st = "\<lparr>files = [([lit ''C:'', lit ''s''], Directory)], current_directory = [], dll_directory = [], stored_path = None\<rparr>"
  have small: "ascii demo_folder" "length demo_folder < path_room" "narrow demo_folder = lit ''C:/s''"
      "forward_slashes (lit ''C:/s'') = lit ''C:/s''"
    by (simp_all add: demo_folder_def ascii_def widen_def narrow_def lit_def path_room_def forward_slashes_def)
  have "exists_at (resolve_path (lit ''C:/s'') ?st) ?st"
    by (simp add: exists_at_def resolve_path_def path_append_def is_absolute_def File_System.components_def
        lit_def is_separator_def node_at_def full_def dot_def dotdot_def)
  with default_folder_is_steams [OF small(1) refl, of ?st] small show ?thesis by (auto simp: not_le)
qed

text \<open>The folder the dialog is given starts it in Steam's directory.\<close>

lemma dialog_starts_in_steam:
  assumes "takeWhile (\<lambda>b. b \<noteq> 0) folder = p" and "folder \<noteq> []"
  shows "default_folder S folder \<in> {None, Some (takeWhile (\<lambda>c. c \<noteq> 0) (turned (copied_wide p)))}"
proof -
  have "takeWhile (\<lambda>c. c \<noteq> 0) (turned (copied_wide bs)) =
      takeWhile (\<lambda>c. c \<noteq> 0) (turned (copied_wide (takeWhile (\<lambda>b. b \<noteq> 0) bs)))" for bs
    by (induction bs) (auto simp: turned_def copied_wide_def)
  from this [of folder] show ?thesis using assms by (simp add: default_folder_def Let_def)
qed

text \<open>A path that was found is the answer from then on; a failure is not kept.\<close>

lemma appdata_kept:
  "get_appdata_path f a = (Inr p, a') \<Longrightarrow> get_appdata_path g a' = (Inr p, a')"
  "get_appdata_path f a = (Inl e, a') \<Longrightarrow> a' = None \<and> e = no_appdata"
  by (auto simp: get_appdata_path_def Let_def split: option.splits)

end
