(* ===== verification/Process_Control.thy ===== *)
theory Process_Control
  imports Bootstrap Nt_Handles
begin

text \<open>
  What the client does to its own process: the helpers of \<open>utils::nt\<close> that are not about a
  module (src/common/utils/nt.cpp), the names of threads (src/common/utils/thread.cpp), and of
  main.cpp the awareness of the screen's resolution, the callbacks of a thread and the exit of
  the game. A call of a function that was found by name is the pair of its address and its
  arguments; what the functions answer is a parameter.
\<close>

section \<open>Model\<close>

record process_world =
  handles :: resources
  calls :: "(addr \<times> u64 list) list"

definition call_function_at :: "addr \<Rightarrow> u64 list \<Rightarrow> process_world \<Rightarrow> process_world" where
  "call_function_at f args w = w\<lparr>calls := calls w @ [(f, args)]\<rparr>"

definition on_handles :: "(resources \<Rightarrow> resources) \<Rightarrow> process_world \<Rightarrow> process_world" where
  "on_handles f w = w\<lparr>handles := f (handles w)\<rparr>"

subsection \<open>Exports of the system\<close>

definition library_named :: "system \<Rightarrow> byte list \<Rightarrow> addr" where
  "library_named sys name = module_handle sys (c_name name)"

definition is_wine :: "system \<Rightarrow> bool" where
  "is_wine sys \<longleftrightarrow> get_proc sys (library_named sys (lit ''ntdll.dll'')) (lit ''wine_get_version'') \<noteq> 0"

text \<open>The export is called without a test.\<close>

definition is_shutdown_in_progress :: "system \<Rightarrow> (addr \<Rightarrow> byte) \<Rightarrow> exn + bool" where
  "is_shutdown_in_progress sys answer =
     (let f = get_proc sys (library_named sys (lit ''ntdll.dll'')) (lit ''RtlDllShutdownInProgress'')
      in if f = 0 then Inl Undefined_behaviour else Inr (answer f \<noteq> 0))"

text \<open>\<open>data\<close> is the address of the local both calls write to; \<open>_Exit\<close> follows whatever they do.\<close>

definition raise_hard_exception ::
    "system \<Rightarrow> code \<Rightarrow> u64 \<Rightarrow> process_world \<Rightarrow> int \<times> process_world" where
  "raise_hard_exception sys c data w =
     (let ntdll = library_named sys (lit ''ntdll.dll'');
          call = (\<lambda>f args w. (0, call_function_at f args w));
          w1 = snd (lib_invoke call sys ntdll c (lit ''RtlAdjustPrivilege'') [19, 1, 0, data] w);
          w2 = snd (lib_invoke call sys ntdll c (lit ''NtRaiseHardError'') [0xC000007B, 0, 0, 0, 6, data] w1)
      in (0, w2))"

text \<open>A resource is found, loaded, and its bytes are copied.\<close>

definition load_resource :: "(nat \<Rightarrow> 'r option) \<Rightarrow> ('r \<Rightarrow> byte list option) \<Rightarrow> nat \<Rightarrow> byte list" where
  "load_resource found load resource_id =
     (case found resource_id of None \<Rightarrow> [] | Some res \<Rightarrow> (case load res of None \<Rightarrow> [] | Some bytes \<Rightarrow> bytes))"

subsection \<open>Starting again\<close>

definition invalid_handle :: resource where "invalid_handle = - 1"

definition close_unless_invalid :: "resource \<Rightarrow> process_world \<Rightarrow> process_world" where
  "close_unless_invalid h w =
     (if h \<noteq> 0 \<and> h \<noteq> invalid_handle then on_handles (close_resource h) w else w)"

text \<open>\<open>create\<close> answers with the handles of the process and of its thread; without an answer the
  structure stays zero.\<close>

definition relaunch_self ::
    "(byte list \<Rightarrow> byte list \<Rightarrow> byte list \<Rightarrow> (resource \<times> resource) option) \<Rightarrow>
     byte list \<Rightarrow> byte list \<Rightarrow> byte list \<Rightarrow> process_world \<Rightarrow> process_world" where
  "relaunch_self create self command_line current_dir w =
     (case create self command_line current_dir of
        None \<Rightarrow> close_unless_invalid 0 (close_unless_invalid 0 w)
      | Some (hProcess, hThread) \<Rightarrow>
          close_unless_invalid hProcess (close_unless_invalid hThread
            (on_handles (open_resource hThread \<circ> open_resource hProcess) w)))"

subsection \<open>Names of threads\<close>

definition set_name_of :: "system \<Rightarrow> code \<Rightarrow> (addr \<Rightarrow> resource \<Rightarrow> u16 list \<Rightarrow> u32) \<Rightarrow> resource \<Rightarrow> byte list \<Rightarrow> bool" where
  "set_name_of sys c describe t thread_name =
     (let kernel32 = library_named sys (lit ''kernel32.dll'') in
      if \<not> lib_is_valid kernel32 c then False
      else let set_description = get_proc sys kernel32 (lit ''SetThreadDescription'') in
        if set_description = 0 then False
        else 0 \<le> sint (describe set_description t (widen thread_name)))"

text \<open>By number: the thread is opened for the call.\<close>

definition set_name_by_id ::
    "system \<Rightarrow> code \<Rightarrow> (addr \<Rightarrow> resource \<Rightarrow> u16 list \<Rightarrow> u32) \<Rightarrow> resource option \<Rightarrow> byte list \<Rightarrow>
     process_world \<Rightarrow> bool \<times> process_world" where
  "set_name_by_id sys c describe opened thread_name w =
     (case opened of
        None \<Rightarrow> (False, w)
      | Some t \<Rightarrow> (set_name_of sys c describe t thread_name,
          on_handles (close_resource t) (on_handles (open_resource t) w)))"

subsection \<open>The resolution of the screen\<close>

definition export_of :: "system \<Rightarrow> code \<Rightarrow> string \<Rightarrow> string \<Rightarrow> addr" where
  "export_of sys c library function =
     (let m = library_named sys (lit library) in if lib_is_valid m c then get_proc sys m (lit function) else 0)"

definition enable_dpi_awareness :: "system \<Rightarrow> code \<Rightarrow> process_world \<Rightarrow> process_world" where
  "enable_dpi_awareness sys c w =
     (let f1 = export_of sys c ''user32.dll'' ''SetProcessDpiAwarenessContext'' in
      if f1 \<noteq> 0 then call_function_at f1 [- 4] w
      else let f2 = export_of sys c ''shcore.dll'' ''SetProcessDpiAwareness'' in
        if f2 \<noteq> 0 then call_function_at f2 [2] w
        else let f3 = export_of sys c ''user32.dll'' ''SetProcessDPIAware'' in
          if f3 \<noteq> 0 then call_function_at f3 [] w else w)"

subsection \<open>The game's view of threads and of the end\<close>

definition DLL_THREAD_ATTACH :: u64 where "DLL_THREAD_ATTACH = 2"
definition DLL_THREAD_DETACH :: u64 where "DLL_THREAD_DETACH = 3"

text \<open>What the object of a thread calls when it is made and when the thread ends; the callbacks may
  have been enabled in between.\<close>

definition callback_calls :: "bool \<Rightarrow> addr \<Rightarrow> code \<Rightarrow> u64 \<Rightarrow> process_world \<Rightarrow> process_world option" where
  "callback_calls enabled game c reason w =
     map_option (\<lambda>fs. fold (\<lambda>f. call_function_at f [game, reason, 0]) fs w) (run_tls_callbacks enabled game c)"

definition tls_runner ::
    "bool \<Rightarrow> bool \<Rightarrow> addr \<Rightarrow> code \<Rightarrow> (process_world \<Rightarrow> process_world) \<Rightarrow> process_world \<Rightarrow> process_world option" where
  "tls_runner enabled_at_start enabled_at_end game c body w =
     Option.bind (callback_calls enabled_at_start game c DLL_THREAD_ATTACH w)
       (\<lambda>w1. callback_calls enabled_at_end game c DLL_THREAD_DETACH (body w1))"

text \<open>The exit of the game destroys the components and leaves with its code.\<close>

definition game_exit :: "int \<Rightarrow> 's loader \<Rightarrow> int \<times> 's loader" where
  "game_exit code l = (code, pre_destroy l)"

section \<open>Properties\<close>

lemma on_handles_simps [simp]:
  "handles (on_handles f w) = f (handles w)" "calls (on_handles f w) = calls w"
  "handles (call_function_at g args w) = handles w"
  by (simp_all add: on_handles_def call_function_at_def)

lemma close_opened [simp]: "close_resource h (open_resource h os) = os"
  by (simp add: close_resource_def open_resource_def)

text \<open>
  The helpers close what they open, exactly once: a start of the program leaves the table of
  handles as it was, and so does naming a thread, named or not.
\<close>

theorem helpers_close_handles:
  assumes "\<forall>a b d p t. create a b d = Some (p, t) \<longrightarrow> p \<notin> {0, invalid_handle} \<and> t \<notin> {0, invalid_handle}"
  shows "handles (relaunch_self create self command_line current_dir w) = handles w \<and>
    handles (snd (set_name_by_id sys c describe opened thread_name w)) = handles w"
proof
  show "handles (relaunch_self create self command_line current_dir w) = handles w"
  proof (cases "create self command_line current_dir")
    case (Some r)
    then obtain p t where r: "create self command_line current_dir = Some (p, t)" by (cases r) simp
    with assms have "p \<notin> {0, invalid_handle}" "t \<notin> {0, invalid_handle}" by blast+
    with r show ?thesis by (simp add: relaunch_self_def close_unless_invalid_def)
  qed (simp add: relaunch_self_def close_unless_invalid_def)
  show "handles (snd (set_name_by_id sys c describe opened thread_name w)) = handles w"
    by (cases opened) (simp_all add: set_name_by_id_def)
qed

theorem helpers_close_handles_witness:
  "handles (relaunch_self (\<lambda>a b d. Some (8, 12)) [] [] [] \<lparr>handles = \<lparr>open_set = {#4#}, bad_closes = 0\<rparr>, calls = []\<rparr>) =
     \<lparr>open_set = {#4#}, bad_closes = 0\<rparr>"
proof -
  have "(8 :: resource) \<notin> {0, invalid_handle} \<and> (12 :: resource) \<notin> {0, invalid_handle}"
    by (simp add: invalid_handle_def)
  then show ?thesis
    using helpers_close_handles [of "\<lambda>a b d. Some (8, 12)" "[]" "[]" "[]"
        "\<lparr>handles = \<lparr>open_set = {#4#}, bad_closes = 0\<rparr>, calls = []\<rparr>"] by simp
qed

text \<open>At most one of the three functions is called, the first there is.\<close>

lemma dpi_calls_one:
  "calls (enable_dpi_awareness sys c w) = calls w \<or>
   (\<exists>f args. f \<noteq> 0 \<and> calls (enable_dpi_awareness sys c w) = calls w @ [(f, args)])"
  by (auto simp: enable_dpi_awareness_def call_function_at_def Let_def)

lemma dpi_prefers_context:
  "export_of sys c ''user32.dll'' ''SetProcessDpiAwarenessContext'' = f \<Longrightarrow> f \<noteq> 0 \<Longrightarrow>
   calls (enable_dpi_awareness sys c w) = calls w @ [(f, [- 4])]"
  by (simp add: enable_dpi_awareness_def call_function_at_def)

text \<open>A thread attaches the game's callbacks before its body and detaches the same ones after it.\<close>

lemma fold_calls: "calls (fold (\<lambda>f. call_function_at f args) fs w) = calls w @ map (\<lambda>f. (f, args)) fs"
  by (induction fs arbitrary: w) (simp_all add: call_function_at_def)

lemma tls_runner_calls:
  assumes "run_tls_callbacks True game c = Some fs" and "\<And>w. calls (body w) = calls w @ own"
  shows "\<exists>w'. tls_runner True True game c body w = Some w' \<and>
    calls w' = calls w @ map (\<lambda>f. (f, [game, DLL_THREAD_ATTACH, 0])) fs @ own @
      map (\<lambda>f. (f, [game, DLL_THREAD_DETACH, 0])) fs"
  using assms by (simp add: tls_runner_def callback_calls_def fold_calls)

text \<open>A thread from before the game is loaded detaches callbacks it has never attached.\<close>

lemma early_thread_detaches:
  assumes "run_tls_callbacks True game c = Some fs"
  shows "\<exists>w'. tls_runner False True game c (\<lambda>w. w) w = Some w' \<and>
    calls w' = calls w @ map (\<lambda>f. (f, [game, DLL_THREAD_DETACH, 0])) fs"
proof -
  have "run_tls_callbacks False game c = Some []" by (simp add: run_tls_callbacks_def)
  then show ?thesis using assms by (simp add: tls_runner_def callback_calls_def fold_calls)
qed

text \<open>Leaving through the game destroys the components once, however often it is asked.\<close>

lemma game_exit_once:
  "destroy_result (snd (game_exit code l)) = Some True \<Longrightarrow>
   snd (game_exit code' (snd (game_exit code l))) = snd (game_exit code l)"
  using phases_once(3) [of l] by (simp add: game_exit_def)

text \<open>An export that is not there is called all the same.\<close>

lemma missing_export_is_called:
  "get_proc sys (library_named sys (lit ''ntdll.dll'')) (lit ''RtlDllShutdownInProgress'') = 0 \<Longrightarrow>
   is_shutdown_in_progress sys answer = Inl Undefined_behaviour"
  by (simp add: is_shutdown_in_progress_def)

end
