(* ===== verification/Client_Network.thy ===== *)
theory Client_Network
  imports Script_Calls Component_Loader
begin

text \<open>
  The client's side of the network as a component (src/client/module/network.cpp): the one
  manager, made when it is first used, the address of the server, resolved when it is first
  asked for, and what both mean for the calls of the scripts and the packets of the server
  (scripting_experiments.cpp). Every use of the name may meet another answer of the resolver.
\<close>

section \<open>Model\<close>

subsection \<open>The manager\<close>

text \<open>The two sockets, the callbacks, and whether the thread runs; \<open>None\<close> before the first use.\<close>

record 's client_manager =
  manager_v4 :: socket
  manager_v6 :: socket
  manager_callbacks :: "'s callback_map"
  receiving :: bool

text \<open>The manager of the client is made without a port: neither socket is bound.\<close>

definition get_network_manager :: "int \<times> int \<Rightarrow> 's client_manager option \<Rightarrow> 's client_manager" where
  "get_network_manager fds m =
     (case m of
        Some m \<Rightarrow> m
      | None \<Rightarrow> \<lparr>manager_v4 = fst (new_socket AF_INET (fst fds) {}), manager_v6 = fst (new_socket AF_INET6 (snd fds) {}),
          manager_callbacks = Map.empty, receiving = True\<rparr>)"

definition network_on ::
    "int \<times> int \<Rightarrow> byte list \<Rightarrow> 's callback \<Rightarrow> 's client_manager option \<Rightarrow> 's client_manager option" where
  "network_on fds command cb m =
     (let m = get_network_manager fds m
      in Some (m\<lparr>manager_callbacks := manager_on command cb (manager_callbacks m)\<rparr>))"

definition network_send ::
    "(int \<Rightarrow> byte list \<Rightarrow> byte list \<Rightarrow> int) \<Rightarrow> int \<times> int \<Rightarrow> address \<Rightarrow> byte list \<Rightarrow> byte list \<Rightarrow> byte \<Rightarrow>
     's client_manager option \<Rightarrow> bool \<times> 's client_manager option" where
  "network_send sendto fds a command data separator m =
     (let m = get_network_manager fds m
      in (manager_send sendto (manager_v4 m) (manager_v6 m) a command data separator, Some m))"

definition network_send_data ::
    "(int \<Rightarrow> byte list \<Rightarrow> byte list \<Rightarrow> int) \<Rightarrow> int \<times> int \<Rightarrow> address \<Rightarrow> byte list \<Rightarrow>
     's client_manager option \<Rightarrow> bool \<times> 's client_manager option" where
  "network_send_data sendto fds a data m =
     (let m = get_network_manager fds m in (send_data sendto (manager_v4 m) (manager_v6 m) a data, Some m))"

text \<open>The component: \<open>post_load\<close> makes the manager, \<open>pre_destroy\<close> stops its thread.\<close>

definition network_component :: "int \<times> int \<Rightarrow> 's client_manager option component" where
  "network_component fds = component_interface\<lparr>
     comp_post_load := (\<lambda>m. (None, Some (get_network_manager fds m))),
     comp_pre_destroy := (\<lambda>m. (None, Some (get_network_manager fds m \<lparr>receiving := False\<rparr>)))\<rparr>"

subsection \<open>The server's address\<close>

definition master_name :: "byte list" where "master_name = lit ''server.momo5502.com:28960''"

text \<open>A static object whose construction throws is not made: the next call tries again.\<close>

definition get_master_server :: "resolver \<Rightarrow> address option \<Rightarrow> (exn + address) \<times> address option" where
  "get_master_server gai master =
     (case master of
        Some a \<Rightarrow> (Inr a, master)
      | None \<Rightarrow> (case address_of_string gai master_name None of
            Inl e \<Rightarrow> (Inl e, None)
          | Inr a \<Rightarrow> (Inr a, Some a)))"

text \<open>The client with the address it has resolved.\<close>

record online =
  known_master :: "address option"
  online_session :: session

text \<open>\<open>store_player_state\<close> makes the player before it asks for the address.\<close>

definition report_state :: "resolver \<Rightarrow> fpu \<Rightarrow> u64 \<Rightarrow> w3m_state \<Rightarrow> online \<Rightarrow> online \<times> exn option" where
  "report_state gai F own st w =
     (case own_player F own (player_name (online_session w)) st of
        Inl e \<Rightarrow> (w, Some e)
      | Inr p \<Rightarrow>
          (case get_master_server gai (known_master w) of
             (Inl e, m) \<Rightarrow> (w\<lparr>known_master := m\<rparr>, Some e)
           | (Inr master, m) \<Rightarrow>
               (let (sess, e) = store_player_state F master own st (online_session w)
                in (\<lparr>known_master = m, online_session = sess\<rparr>, e))))"

text \<open>Both handlers ask for the address first.\<close>

definition with_master ::
    "resolver \<Rightarrow> (address \<Rightarrow> session callback) \<Rightarrow> online callback" where
  "with_master gai handler source data w =
     (case get_master_server gai (known_master w) of
        (Inl e, m) \<Rightarrow> (w\<lparr>known_master := m\<rparr>, Some e)
      | (Inr master, m) \<Rightarrow>
          (let (sess, e) = handler master source data (online_session w)
           in (\<lparr>known_master = m, online_session = sess\<rparr>, e)))"

definition online_callbacks :: "resolver \<Rightarrow> crypto_lib \<Rightarrow> key \<Rightarrow> u64 \<Rightarrow> online callback_map" where
  "online_callbacks gai L own_key own =
     manager_on (lit ''authRequest'') (with_master gai (receive_auth_request L own_key))
       (manager_on (lit ''states'') (with_master gai (\<lambda>master. receive_player_states master own)) Map.empty)"

text \<open>What the client does, each time with the resolver of the moment; the threads take turns.\<close>

inductive online_step :: "crypto_lib \<Rightarrow> fpu \<Rightarrow> key \<Rightarrow> u64 \<Rightarrow> online \<Rightarrow> online \<Rightarrow> bool"
  for L :: crypto_lib and F :: fpu and own_key :: key and own :: u64 where
  report: "online_step L F own_key own w (fst (report_state gai F own st w))"
| receive: "online_step L F own_key own w
     (fst (handle_data (online_callbacks gai L own_key own) source datagram w))"
| rename: "online_step L F own_key own w (w\<lparr>online_session := update_player_name n (online_session w)\<rparr>)"

inductive online_reachable :: "crypto_lib \<Rightarrow> fpu \<Rightarrow> key \<Rightarrow> u64 \<Rightarrow> online \<Rightarrow> bool"
  for L :: crypto_lib and F :: fpu and own_key :: key and own :: u64 where
  start: "outbox sess = [] \<Longrightarrow> online_reachable L F own_key own \<lparr>known_master = None, online_session = sess\<rparr>"
| step: "online_reachable L F own_key own w \<Longrightarrow> online_step L F own_key own w w' \<Longrightarrow>
     online_reachable L F own_key own w'"

section \<open>Properties\<close>

lemma master_kept: "get_master_server gai m = (Inr a, m') \<Longrightarrow> m' = Some a \<and> (m = None \<or> m = Some a)"
  "get_master_server gai m = (Inl e, m') \<Longrightarrow> m = None \<and> m' = None"
  by (auto simp: get_master_server_def split: option.splits sum.splits)

text \<open>Everything has been sent to one address: the one the name was resolved to first.\<close>

definition sent_to :: "address option \<Rightarrow> session \<Rightarrow> bool" where
  "sent_to m sess \<longleftrightarrow> (\<forall>(a, c, d) \<in> set (outbox sess). \<exists>master. m = Some master \<and> (a = master \<or> addr_eq a master))"

definition online_ok :: "online \<Rightarrow> bool" where "online_ok w \<longleftrightarrow> sent_to (known_master w) (online_session w)"

lemma sent_nothing: "sent_to None sess \<Longrightarrow> sent_to m sess"
  by (auto simp: sent_to_def)

lemma store_sent: "sent_to (Some a) sess \<Longrightarrow> sent_to (Some a) (fst (store_player_state F a own st sess))"
  by (auto simp: store_player_state_def sent_to_def send_out_def split: sum.splits)

lemma request_sent: "sent_to (Some a) sess \<Longrightarrow> sent_to (Some a) (fst (receive_auth_request L k a source data sess))"
  by (auto simp: receive_auth_request_def sent_to_def send_out_def Let_def split: sum.splits)

lemma states_sent: "sent_to (Some a) sess \<Longrightarrow> sent_to (Some a) (fst (receive_player_states a own source data sess))"
  by (auto simp: receive_player_states_def sent_to_def split: sum.splits)

text \<open>One packet, in both of its commands.\<close>

lemma online_commands:
  "online_callbacks gai L k own c =
     (if c = lit ''authrequest'' then Some (with_master gai (receive_auth_request L k))
      else if c = lit ''states'' then Some (with_master gai (\<lambda>master. receive_player_states master own)) else None)"
  by (simp add: online_callbacks_def manager_on_def to_lower_def lit_def tolower_def is_upper_def)

lemma packet_runs:
  obtains "fst (handle_data (online_callbacks gai L k own) source datagram w) = w"
  | data where "fst (handle_data (online_callbacks gai L k own) source datagram w) =
      fst (with_master gai (receive_auth_request L k) source data w)"
  | data where "fst (handle_data (online_callbacks gai L k own) source datagram w) =
      fst (with_master gai (\<lambda>master. receive_player_states master own) source data w)"
proof (cases "handle_data (online_callbacks gai L k own) source datagram w = (w, Dropped)")
  case True
  with that(1) show ?thesis by simp
next
  case False
  then obtain c sep data where d: "datagram = make_packet c sep data" "plain_command c" "is_divider sep"
    using handle_data_framed [OF False] by blast
  have run: "fst (handle_data (online_callbacks gai L k own) source datagram w) =
      (case online_callbacks gai L k own (to_lower c) of None \<Rightarrow> w | Some cb \<Rightarrow> fst (cb source data w))"
    unfolding d(1) handle_data_make_packet [OF d(2,3)]
    by (auto simp: dispatch_command_def Let_def split: option.splits prod.splits)
  show ?thesis
    using that run unfolding online_commands by (auto split: if_splits)
qed

lemma with_master_ok:
  assumes "online_ok w"
    and "\<And>master sess. sent_to (Some master) sess \<Longrightarrow> sent_to (Some master) (fst (handler master source data sess))"
  shows "online_ok (fst (with_master gai handler source data w))"
    and "known_master w \<noteq> None \<Longrightarrow> known_master (fst (with_master gai handler source data w)) = known_master w"
proof -
  obtain r m where g: "get_master_server gai (known_master w) = (r, m)" by fastforce
  show "online_ok (fst (with_master gai handler source data w))"
  proof (cases r)
    case (Inl e)
    with g master_kept(2) [of gai "known_master w" e m] assms(1) show ?thesis
      by (simp add: with_master_def online_ok_def)
  next
    case (Inr a)
    with g have k: "m = Some a" "known_master w = None \<or> known_master w = Some a" using master_kept(1) by blast+
    with assms(1) have "sent_to (Some a) (online_session w)" using sent_nothing by (auto simp: online_ok_def)
    from assms(2) [OF this] show ?thesis by (simp add: with_master_def g Inr k online_ok_def prod.case_eq_if Let_def)
  qed
  show "known_master (fst (with_master gai handler source data w)) = known_master w" if "known_master w \<noteq> None"
    using that by (auto simp: with_master_def get_master_server_def prod.case_eq_if Let_def)
qed

text \<open>A report is a call with the address like the handlers.\<close>

lemma report_as_handler:
  "fst (report_state gai F own st w) = w \<or>
   fst (report_state gai F own st w) =
     fst (with_master gai (\<lambda>master source data sess. store_player_state F master own st sess) source data w)"
  by (simp add: report_state_def with_master_def split: sum.split)

lemma online_step_ok:
  assumes "online_step L F k own w w'" and "online_ok w"
  shows "online_ok w' \<and> (known_master w \<noteq> None \<longrightarrow> known_master w' = known_master w)"
  using assms(1)
proof (cases rule: online_step.cases)
  case (report gai st)
  then show ?thesis
    using report_as_handler [of gai F own st w undefined undefined] assms(2)
      with_master_ok [OF assms(2), of "\<lambda>master source data sess. store_player_state F master own st sess" undefined undefined gai]
      store_sent by auto
next
  case (receive gai source datagram)
  show ?thesis
    using packet_runs [of gai L k own source datagram w] assms(2) receive
      with_master_ok [OF assms(2), of "receive_auth_request L k" source _ gai] request_sent
      with_master_ok [OF assms(2), of "\<lambda>master. receive_player_states master own" source _ gai] states_sent
    by metis
next
  case (rename n)
  then show ?thesis using assms(2) by (simp add: online_ok_def sent_to_def update_player_name_def)
qed

lemma online_reachable_ok: "online_reachable L F k own w \<Longrightarrow> online_ok w"
proof (induction rule: online_reachable.induct)
  case (start sess)
  then show ?case by (simp add: online_ok_def sent_to_def)
next
  case (step w w')
  then show ?case using online_step_ok by blast
qed

text \<open>C29: 
  Whatever the resolver answers from call to call, everything the client sends goes to the one
  address its server's name had at the first success, which the client keeps for ever.
\<close>

theorem one_master_for_ever:
  assumes "online_reachable L F k own w" and "(a, command, data) \<in> set (outbox (online_session w))"
  shows "\<exists>master. known_master w = Some master \<and> (a = master \<or> addr_eq a master) \<and>
    (\<forall>w'. online_step L F k own w w' \<longrightarrow> known_master w' = Some master)"
proof -
  note ok = online_reachable_ok [OF assms(1)]
  with assms(2) obtain master where m: "known_master w = Some master" "a = master \<or> addr_eq a master"
    by (fastforce simp: online_ok_def sent_to_def)
  with online_step_ok [OF _ ok] show ?thesis by auto
qed

text \<open>
  While the name cannot be resolved, every report throws into the script of the game that made
  it, and every packet of the server ends in an exception; nothing is sent and nothing changes.
\<close>

lemma master_host: "take 19 master_name = lit ''server.momo5502.com''" "find_last 58 master_name = Some 19"
  by (simp_all add: master_name_def lit_def find_last_def)

definition unresolved :: exn where
  "unresolved = Runtime_error (lit ''Unable to resolve hostname: '' @ lit ''server.momo5502.com'')"

theorem unresolved_name_reaches_game:
  assumes "gai (lit ''server.momo5502.com'') = None" and "known_master w = None"
  shows "report_state gai F own st w = (w, Some unresolved) \<and>
    fst (handle_data (online_callbacks gai L k own) source datagram w) = w"
proof -
  have host: "takeWhile (\<lambda>b. b \<noteq> 0) (lit ''server.momo5502.com'') = lit ''server.momo5502.com''"
    by (simp add: lit_def)
  have "address_of_string gai master_name None = Inl unresolved"
    using assms(1)
    by (simp add: address_of_string_def parse_def master_host resolve_def resolve_multiple_def host unresolved_def Let_def)
  then have g: "get_master_server gai (known_master w) = (Inl unresolved, None)"
    using assms(2) by (simp add: get_master_server_def)
  have w: "w\<lparr>known_master := None\<rparr> = w" using assms(2) by simp
  obtain p where "own_player F own (player_name (online_session w)) st = Inr p" using own_player_ok by blast
  then have "report_state gai F own st w = (w, Some unresolved)"
    by (simp add: report_state_def g w)
  moreover have "fst (with_master gai handler source data w) = w" for handler source data
    by (simp add: with_master_def g w)
  ultimately show ?thesis using packet_runs [of gai L k own source datagram w] by metis
qed

section \<open>The examples\<close>

definition demo_resolver :: resolver where
  "demo_resolver host = (if host = lit ''server.momo5502.com'' then Some demo_infos else None)"

lemma demo_master: "\<exists>a. address_of_string demo_resolver master_name None = Inr a"
proof -
  let ?host = "lit ''server.momo5502.com''"
  obtain r where r: "collect_addresses demo_infos = Inr [r]" "is_ipv4 r" using demo_infos_collected by blast
  have "takeWhile (\<lambda>b. b \<noteq> 0) ?host = ?host" by (simp add: lit_def)
  then have "resolve_multiple demo_resolver ?host = Inr [r]"
    using r(1) by (simp add: resolve_multiple_def demo_resolver_def)
  moreover have "List.find (wanted None) [r] = Some r" using r(2) by (simp add: wanted_def is_supported_def)
  ultimately obtain b1 where b1: "resolve demo_resolver ?host None new_address = Inr b1" "is_ipv4 b1"
    using resolve_found [OF _ _ new_address_ok, of demo_resolver ?host "[r]" None r] r(2)
    by (auto simp: is_ipv4_def)
  then have "is_supported b1" by (simp add: is_supported_def)
  then obtain b2 where "set_port (of_int (atoi (drop 20 master_name))) b1 = Inr b2" using set_port_total by blast
  then show ?thesis using b1(1) by (simp add: address_of_string_def parse_def master_host)
qed

definition demo_online :: online where
  "demo_online = \<lparr>known_master = None, online_session = \<lparr>g_players = no_players, player_name = [], outbox = []\<rparr>\<rparr>"

definition zero_report :: w3m_state where
  "zero_report = \<lparr>w_angles = (0, 0, 0), w_position = (0, 0, 0, 0), w_velocity = (0, 0, 0, 0), w_speed = 0, w_move_type = 0\<rparr>"

theorem one_master_for_ever_witness:
  "\<exists>w master data. report_state demo_resolver raw_fpu 5 zero_report demo_online = (w, None) \<and>
     outbox (online_session w) = [(master, lit ''state'', data)] \<and> known_master w = Some master"
proof -
  obtain a where a: "address_of_string demo_resolver master_name None = Inr a" using demo_master by blast
  obtain p where p: "own_player raw_fpu 5 [] zero_report = Inr p" using own_player_ok by blast
  obtain w where w: "report_state demo_resolver raw_fpu 5 zero_report demo_online = (w, None)"
      "outbox (online_session w) = [(a, lit ''state'', state_message p)]" "known_master w = Some a"
    using a p by (auto simp: report_state_def demo_online_def get_master_server_def store_player_state_def send_out_def)
  have "online_reachable toy_lib raw_fpu [7] 5 demo_online"
    unfolding demo_online_def by (rule online_reachable.start) simp
  from online_reachable.step [OF this online_step.report [of toy_lib raw_fpu "[7]" 5 demo_online demo_resolver zero_report]]
  have "online_reachable toy_lib raw_fpu [7] 5 w" by (simp add: w(1))
  from one_master_for_ever [OF this, of a "lit ''state''" "state_message p"] w show ?thesis by auto
qed

theorem unresolved_name_reaches_game_witness:
  "report_state (\<lambda>host. None) raw_fpu 5 zero_report demo_online = (demo_online, Some unresolved)"
  using unresolved_name_reaches_game [of "\<lambda>host. None" demo_online raw_fpu 5 zero_report]
  by (simp add: demo_online_def)

end
