(* ===== verification/Game_Patches.thy ===== *)
theory Game_Patches
  imports Loader Address
begin

text \<open>
  What the client changes in the game's code and data when it is loaded: the patches against
  pausing and against a second instance (src/client/module/patches.cpp) and the console
  (src/client/module/console.cpp), at fixed addresses of the game that the loader converts.
\<close>

section \<open>Model\<close>

definition game_address :: "loader_state \<Rightarrow> u64 \<Rightarrow> addr" where "game_address L v = fst (literal_g v L)"

subsection \<open>The patches\<close>

text \<open>The name of the game's mutex is replaced by one with the time in seconds.\<close>

definition mutex_name :: "nat \<Rightarrow> byte list" where "mutex_name now = lit ''w3m-mutex-'' @ decimal (now mod 2 ^ 64)"

definition patches_post_load :: "loader_state \<Rightarrow> nat \<Rightarrow> hook_state \<Rightarrow> exn + hook_state" where
  "patches_post_load L now st =
     copy_string (game_address L 0x1423291F8) (mutex_name now @ [0])
       (copy_to (game_address L 0x141495479) [0xEB] st)"

subsection \<open>The console\<close>

datatype console_call =
    Alloc_console
  | Attach_console
  | Reopen "byte list" nat
  | Set_title "byte list"
  | Set_handler

text \<open>The streams are numbered as their descriptors.\<close>

definition create_console :: "bool \<Rightarrow> console_call list" where
  "create_console has_output =
     (if has_output then []
      else [Alloc_console, Attach_console, Reopen (lit ''CONIN$'') 0, Reopen (lit ''CONOUT$'') 1,
        Reopen (lit ''CONOUT$'') 2, Set_title (lit ''Witcher 3: Console''), Set_handler])"

definition console_post_start :: "bool \<Rightarrow> bool \<Rightarrow> console_call list" where
  "console_post_start wine has_output = (if \<not> wine then create_console has_output else [])"

text \<open>The game's log message goes to the output with a line end; \<open>print\<close> is the library's conversion.\<close>

definition log_message_stub :: "(u16 list \<Rightarrow> 'a \<Rightarrow> u16 list) \<Rightarrow> u16 list \<Rightarrow> 'a \<Rightarrow> u16 list" where
  "log_message_stub print format args = print (format @ [10]) args"

definition console_patches :: "loader_state \<Rightarrow> hook_state \<Rightarrow> exn + hook_state" where
  "console_patches L st =
     exn_bind (hook_inject (game_address L 0x140119441) (game_address L 0x142373070) st) (\<lambda>st1.
       exn_bind (hook_inject (game_address L 0x140119465) (game_address L 0x142373070) st1) (\<lambda>st2.
         Inr (copy_to (game_address L 0x1400F0CBD) [1] st2)))"

definition console_post_load ::
    "u64 \<Rightarrow> loader_state \<Rightarrow> bool \<Rightarrow> addr \<Rightarrow> hook_state \<Rightarrow> (exn + hook_state) option" where
  "console_post_load granularity L wine stub st =
     (if wine then Some (console_patches L st)
      else map_option (\<lambda>r. exn_bind r (console_patches L))
        (hook_jump granularity st (game_address L 0x14027E700) stub False False))"

section \<open>Properties\<close>

lemma game_address_base: "literal_base L = Some base \<Longrightarrow> game_address L v = base + (v - 0x140000000)"
  by (simp add: game_address_def literal_g_def Let_def)

lemma fetch_written: "length bs < 2 ^ 64 \<Longrightarrow> fetch (length bs) p (hook_copy p bs c) = bs"
  using fetch_copy [of 0 "length bs" bs p c] by simp

lemma apart_from_base: "n \<le> unat (b - a) \<Longrightarrow> m \<le> unat (a - b) \<Longrightarrow> apart (base + a) n (base + b) m"
  by (rule far_apart) simp_all

lemma extract_fetched:
  "fetch 4 p c = u32_bytes (ucast (d - (p + 4))) \<Longrightarrow> \<not> is_relatively_far p d 4 \<Longrightarrow> hook_extract p c = d"
  using scast_near [of p d 4] by (simp add: hook_extract_def)

text \<open>The places the console writes to, and the displacement it writes.\<close>

definition font_operand :: "addr \<Rightarrow> addr \<Rightarrow> byte list" where
  "font_operand base place = u32_bytes (ucast ((base + 0x2373070) - (place + 4)))"

lemma console_patches_writes:
  assumes "literal_base L = Some base"
  shows "console_patches L st = Inr (copy_to (base + 0xF0CBD) [1]
    (copy_to (base + 0x119465) (font_operand base (base + 0x119465))
      (copy_to (base + 0x119441) (font_operand base (base + 0x119441)) st)))"
  using assms
  by (simp add: console_patches_def game_address_base hook_inject_def is_relatively_far_def font_operand_def Let_def)

lemma decimal_length: "n < 10 ^ k \<Longrightarrow> 0 < k \<Longrightarrow> length (decimal n) \<le> k"
proof (induction n arbitrary: k rule: decimal.induct)
  case (1 n)
  show ?case
  proof (cases "n < 10")
    case True
    with 1(3) show ?thesis by (simp add: decimal.simps [of n])
  next
    case False
    with 1(2) obtain j where k: "k = Suc j" "0 < j" by (cases k; cases "k - 1") auto
    with 1(2) have "n div 10 < 10 ^ j" by (simp add: less_mult_imp_div_less mult.commute)
    from 1(1) [OF False this k(2)] False k show ?thesis by (simp add: decimal.simps [of n])
  qed
qed

lemma mutex_name_length: "length (mutex_name now) \<le> 30"
  using decimal_length [of "now mod 2 ^ 64" 20] by (simp add: mutex_name_def lit_def)

lemma mutex_name_text: "0 \<notin> set (mutex_name now)"
  using decimal_digits [of "now mod 2 ^ 64"]
  by (auto simp: mutex_name_def lit_def list_all_iff dest: digit_facts)

lemma patches_writes:
  assumes "literal_base L = Some base"
  shows "patches_post_load L now st =
    Inr (copy_to (base + 0x23291F8) (mutex_name now @ [0]) (copy_to (base + 0x1495479) [0xEB] st))"
  using assms strlen_terminated [OF mutex_name_text, of now "[]"]
  by (simp add: patches_post_load_def game_address_base copy_string_def)

text \<open>
  After the two components have been loaded, the game's operands of the console's font lead to
  the client's choice, the console is on, the pause is skipped and the mutex has the new name:
  no patch is in the place of another, wherever the game is in memory and whatever the jump of
  the log function needed.
\<close>

theorem patches_take_effect:
  assumes "literal_base L = Some base"
    and "console_post_load g L wine stub st = Some (Inr st1)" and "patches_post_load L now st1 = Inr st2"
  shows "hook_extract (base + 0x119441) (code_of st2) = base + 0x2373070 \<and>
    hook_extract (base + 0x119465) (code_of st2) = base + 0x2373070 \<and>
    code_of st2 (base + 0xF0CBD) = 1 \<and> code_of st2 (base + 0x1495479) = 0xEB \<and>
    fetch (length (mutex_name now) + 1) (base + 0x23291F8) (code_of st2) = mutex_name now @ [0]"
proof -
  let ?o1 = "font_operand base (base + 0x119441)" and ?o2 = "font_operand base (base + 0x119465)"
  let ?name = "mutex_name now @ [0]"
  obtain st0 where st0: "console_patches L st0 = Inr st1"
    using assms(2) by (auto simp: console_post_load_def exn_bind_eq_Inr split: if_splits)
  have code: "code_of st2 = hook_copy (base + 0x23291F8) ?name (hook_copy (base + 0x1495479) [0xEB]
      (hook_copy (base + 0xF0CBD) [1] (hook_copy (base + 0x119465) ?o2 (hook_copy (base + 0x119441) ?o1 (code_of st0)))))"
    using st0 assms(3) patches_writes [OF assms(1), of now st1] console_patches_writes [OF assms(1), of st0] by auto
  have len: "length ?o1 = 4" "length ?o2 = 4" "length ?name \<le> 31"
    using mutex_name_length [of now] by (simp_all add: font_operand_def)
  have single: "c a = x" if "fetch 1 a c = [x]" for a c x using that by (simp add: fetch_def)
  have kept: "fetch n (base + a) (hook_copy (base + b) bs c) = fetch n (base + a) c"
    if "n \<le> unat (b - a)" "length bs \<le> unat (a - b)" for n a b bs c
    by (rule fetch_apart [OF apart_from_base [OF that]])
  have "fetch 4 (base + 0x119441) (code_of st2) = ?o1" "fetch 4 (base + 0x119465) (code_of st2) = ?o2"
    "fetch 1 (base + 0xF0CBD) (code_of st2) = [1]" "fetch 1 (base + 0x1495479) (code_of st2) = [0xEB]"
    using len fetch_written [of ?o1] fetch_written [of ?o2] fetch_written [of "[1]"] fetch_written [of "[0xEB]"]
    by (simp_all add: code kept)
  moreover have "fetch (length ?name) (base + 0x23291F8) (code_of st2) = ?name"
    unfolding code by (rule fetch_written) (use len in simp)
  ultimately show ?thesis
    by (simp add: single extract_fetched font_operand_def is_relatively_far_def Let_def)
qed

definition demo_game :: loader_state where
  "demo_game = \<lparr>game_module = 0x150000000, main_module = 0, memory = (\<lambda>a. 0), reverse_base = None,
     literal_base = Some 0x150000000\<rparr>"

theorem patches_take_effect_witness:
  "\<exists>st1 st2. console_post_load 0x10000 demo_game True 0 demo_hooks = Some (Inr st1) \<and>
     patches_post_load demo_game 7 st1 = Inr st2 \<and>
     hook_extract 0x150119441 (code_of st2) = 0x152373070 \<and> code_of st2 0x1500F0CBD = 1"
proof -
  have base: "literal_base demo_game = Some 0x150000000" by (simp add: demo_game_def)
  obtain st1 where st1: "console_post_load 0x10000 demo_game True 0 demo_hooks = Some (Inr st1)"
    using console_patches_writes [OF base, of demo_hooks] by (simp add: console_post_load_def)
  obtain st2 where st2: "patches_post_load demo_game 7 st1 = Inr st2"
    using patches_writes [OF base, of 7 st1] by blast
  from patches_take_effect [OF base st1 st2] st1 st2 show ?thesis by simp
qed

text \<open>The console is made at most once, and not where there is an output.\<close>

lemma console_made: "console_post_start wine has_output \<noteq> [] \<longleftrightarrow> \<not> wine \<and> \<not> has_output"
  by (simp add: console_post_start_def create_console_def)

end
