(* ===== verification/Virtual_Table.thy ===== *)
theory Virtual_Table
  imports Pe_Image
begin

text \<open>
  Finding the entry of a virtual function (src/common/utils/hook.hpp, \<open>get_vtable_entry\<close>): the
  pointer to the member function is called on an object whose table answers with the index. A
  pointer to a member is a stub that jumps through the table at an index when the function is
  virtual, and its code otherwise.
\<close>

section \<open>Model\<close>

datatype member_pointer = Virtual_stub nat | Direct_code addr

text \<open>The functions \<open>[]() { return Entries - 1; }\<close> by what they return.\<close>

fun get_iota_functions :: "nat \<Rightarrow> nat list" where
  "get_iota_functions 0 = []"
| "get_iota_functions (Suc n) = get_iota_functions n @ [n]"

text \<open>The call of the pointer on the object that has the functions as its table: beyond the table, and
  into the code of a function that is not virtual, anything can happen.\<close>

definition call_on_iota :: "nat \<Rightarrow> member_pointer \<Rightarrow> exn + nat" where
  "call_on_iota entries p =
     (case p of
        Virtual_stub i \<Rightarrow>
          if i < length (get_iota_functions entries) then Inr (get_iota_functions entries ! i) else Inl Undefined_behaviour
      | Direct_code f \<Rightarrow> Inl Undefined_behaviour)"

definition get_vtable_entry :: "nat \<Rightarrow> addr \<Rightarrow> member_pointer \<Rightarrow> code \<Rightarrow> exn + addr" where
  "get_vtable_entry entries obj entry c =
     exn_bind (call_on_iota entries entry) (\<lambda>index. Inr (read64 obj c + 8 * of_nat index))"

text \<open>A virtual call on an object: where it goes.\<close>

definition virtual_target :: "addr \<Rightarrow> nat \<Rightarrow> code \<Rightarrow> addr" where
  "virtual_target obj i c = read64 (read64 obj c + 8 * of_nat i) c"

section \<open>Properties\<close>

lemma iota_functions: "get_iota_functions n = [0..<n]"
  by (induction n) simp_all

lemma unat_of_nat_small: "n < 2 ^ 64 \<Longrightarrow> unat (of_nat n :: u64) = n"
  by (simp add: unat_of_nat)

text \<open>Two slots of a table have no byte in common.\<close>

lemma slots_apart:
  assumes "i \<noteq> j" and "i < 2 ^ 32" and "j < 2 ^ 32"
  shows "apart (p + 8 * of_nat i) 8 (p + 8 * of_nat j) 8"
  unfolding apart_def
proof (intro allI impI notI)
  fix k l :: nat
  assume kl: "k < 8" "l < 8" and eq: "p + 8 * of_nat i + of_nat k = p + 8 * of_nat j + of_nat l"
  from eq have "(of_nat (8 * i + k) :: u64) = of_nat (8 * j + l)" by (simp add: add.assoc)
  then have "unat (of_nat (8 * i + k) :: u64) = unat (of_nat (8 * j + l) :: u64)" by simp
  moreover have "8 * i + k < 2 ^ 64" "8 * j + l < 2 ^ 64" using assms(2,3) kl by simp_all
  ultimately have "8 * i + k = 8 * j + l"
    by (simp only: unat_of_nat_small)
  with kl assms(1) show False by presburger
qed

text \<open>The entry that is found is the one a virtual call goes through: who writes an address there has
  the calls of that function, and of no other, on every object with that table.\<close>

theorem vtable_entry_is_called:
  assumes "get_vtable_entry entries obj (Virtual_stub i) c = Inr e" and "entries \<le> 2 ^ 32"
    and "apart obj 8 e 8" and "j < entries"
  shows "virtual_target obj j (hook_copy e (u64_bytes f) c) = (if j = i then f else virtual_target obj j c)"
proof -
  have i: "i < entries" and e: "e = read64 obj c + 8 * of_nat i"
    using assms(1) by (auto simp: get_vtable_entry_def call_on_iota_def iota_functions split: if_splits)
  let ?c = "hook_copy e (u64_bytes f) c"
  have obj: "read64 obj ?c = read64 obj c"
    using fetch_apart [of obj 8 e "u64_bytes f" c] assms(3) by (simp add: read64_def)
  show ?thesis
  proof (cases "j = i")
    case True
    have "fetch 8 e ?c = u64_bytes f" using fetch_copy [of 0 8 "u64_bytes f" e c] by simp
    with True show ?thesis by (simp add: virtual_target_def obj e [symmetric]) (simp add: read64_def)
  next
    case False
    have "apart (read64 obj c + 8 * of_nat j) 8 e (length (u64_bytes f))"
      unfolding e using slots_apart [OF False] i assms(2,4) by simp
    from fetch_apart [OF this] False show ?thesis by (simp add: virtual_target_def obj) (simp add: read64_def)
  qed
qed

definition demo_table_code :: code where
  "demo_table_code = hook_copy 0x1000 (u64_bytes 0x2000) (\<lambda>a. 0)"

theorem vtable_entry_is_called_witness:
  "get_vtable_entry 100 0x1000 (Virtual_stub 3) demo_table_code = Inr 0x2018 \<and>
   virtual_target 0x1000 3 (hook_copy 0x2018 (u64_bytes 0x77) demo_table_code) = 0x77"
proof -
  have "read64 0x1000 demo_table_code = 0x2000"
    using fetch_copy [of 0 8 "u64_bytes 0x2000" "0x1000" "\<lambda>a. 0"] by (simp add: read64_def demo_table_code_def)
  then have e: "get_vtable_entry 100 0x1000 (Virtual_stub 3) demo_table_code = Inr 0x2018"
    by (simp add: get_vtable_entry_def call_on_iota_def iota_functions)
  have "apart 0x1000 8 0x2018 8" by (rule far_apart) simp_all
  from vtable_entry_is_called [where j = 3 and f = "0x77", OF e _ this] e show ?thesis by simp
qed

text \<open>A function at a larger index, and one that is not virtual, is not looked up but called.\<close>

lemma no_entry:
  "entries \<le> i \<Longrightarrow> get_vtable_entry entries obj (Virtual_stub i) c = Inl Undefined_behaviour"
  "get_vtable_entry entries obj (Direct_code f) c = Inl Undefined_behaviour"
  by (simp_all add: get_vtable_entry_def call_on_iota_def iota_functions)

end
