(* ===== verification/Scoped_Resources.thy ===== *)
theory Scoped_Resources
  imports Folder_Dialog Compression
begin

text \<open>
  What objects with a destructor and scope guards take from the system and give back: the
  clipboard (src/common/utils/string.cpp), the stream of zlib (compression.cpp), the apartment
  of a thread and the dialogs (com.cpp), the start of MinHook (hook.cpp). A call leaves the
  trace of what it took and gave back, in order; the system's answers are parameters.
\<close>

section \<open>Model\<close>

datatype held = Clipboard | Text_lock | Inflate_state | Apartment | Dialog_object | Default_folder | Result_item
  | Display_name | Progress_object | Min_hook

datatype scope_event = Take held | Give held

text \<open>\<open>get_clipboard_data\<close>: the clipboard opens, has a text, and the text can be locked.\<close>

definition get_clipboard_data :: "bool \<Rightarrow> 'd option \<Rightarrow> ('d \<Rightarrow> byte list option) \<Rightarrow> byte list \<times> scope_event list" where
  "get_clipboard_data opens clipboard_data lock =
     (if \<not> opens then ([], [])
      else case clipboard_data of
        None \<Rightarrow> ([], [Take Clipboard, Give Clipboard])
      | Some d \<Rightarrow>
          (case lock d of
             None \<Rightarrow> ([], [Take Clipboard, Give Clipboard])
           | Some cliptext \<Rightarrow> (takeWhile (\<lambda>b. b \<noteq> 0) cliptext,
               [Take Clipboard, Take Text_lock, Give Text_lock, Give Clipboard])))"

text \<open>The stream around \<open>decompress\<close>: its destructor ends what its constructor has initialised.\<close>

definition zlib_stream :: "'z zlib \<Rightarrow> scope_event list \<times> scope_event list" where
  "zlib_stream Z = (case inflate_init Z of None \<Rightarrow> ([], []) | Some z \<Rightarrow> ([Take Inflate_state], [Give Inflate_state]))"

definition decompress_scoped :: "'z zlib \<Rightarrow> byte list \<Rightarrow> (byte list \<times> scope_event list) option" where
  "decompress_scoped Z data =
     (case zlib_stream Z of (made, ended) \<Rightarrow> map_option (\<lambda>r. (r, made @ ended)) (decompress Z data))"

text \<open>
  The apartment of a thread is entered at the first use in it and left at its end, when
  entering has succeeded; the state is the thread's optional object.
\<close>

definition initialize_com :: "bool \<Rightarrow> bool option \<Rightarrow> bool option \<times> scope_event list" where
  "initialize_com succeeds initializer =
     (case initializer of
        None \<Rightarrow> (Some succeeds, if succeeds then [Take Apartment] else [])
      | Some s \<Rightarrow> (initializer, []))"

definition leave_thread :: "bool option \<Rightarrow> scope_event list" where
  "leave_thread initializer = (if initializer = Some True then [Give Apartment] else [])"

fun com_thread :: "bool option \<Rightarrow> (bool \<times> scope_event list) list \<Rightarrow> scope_event list" where
  "com_thread initializer [] = leave_thread initializer"
| "com_thread initializer ((succeeds, use) # uses) =
     (case initialize_com succeeds initializer of
        (initializer', entered) \<Rightarrow> entered @ use @ com_thread initializer' uses)"

text \<open>\<open>create_progress_dialog\<close>: the pointer the caller gets owns the object.\<close>

definition create_progress_dialog :: "bool \<Rightarrow> exn + scope_event list" where
  "create_progress_dialog creates =
     (if creates then Inr [Take Progress_object] else Inl (fail ''Failed to create co instance''))"

text \<open>What \<open>select_folder\<close> takes and gives back, along its way; the item of the default folder is held
  by a plain pointer.\<close>

definition folder_trace :: "shell \<Rightarrow> byte list \<Rightarrow> byte list \<Rightarrow> scope_event list" where
  "folder_trace S title selected_folder =
     (if \<not> creates_dialog S then []
      else [Take Dialog_object] @
        (case dialog_options S of
           None \<Rightarrow> []
         | Some options \<Rightarrow>
             if \<not> accepts_options S (options OR FOS_PICKFOLDERS OR FOS_FORCESHOWHIDDEN) \<or>
               \<not> accepts_title S (takeWhile (\<lambda>c. c \<noteq> 0) (copied_wide title)) then []
             else (if default_folder S selected_folder \<noteq> None then [Take Default_folder] else []) @
               (if shown S \<noteq> Dialog_ok \<or> \<not> gives_item S then []
                else [Take Result_item] @ (if item_path S = None then [] else [Take Display_name, Give Display_name]) @
                  [Give Result_item])) @
        [Give Dialog_object])"

text \<open>MinHook is initialised by the first object of a hook; a failure throws and the next tries again.\<close>

definition initialize_min_hook :: "bool \<Rightarrow> bool \<Rightarrow> (exn option \<times> bool) \<times> scope_event list" where
  "initialize_min_hook succeeds initialized =
     (if initialized then ((None, True), [])
      else if succeeds then ((None, True), [Take Min_hook])
      else ((Some (Runtime_error (lit ''Failed to initialize MinHook'')), False), []))"

fun min_hook_uses :: "bool \<Rightarrow> bool list \<Rightarrow> scope_event list" where
  "min_hook_uses initialized [] = (if initialized then [Give Min_hook] else [])"
| "min_hook_uses initialized (succeeds # uses) =
     (case initialize_min_hook succeeds initialized of
        ((e, initialized'), taken) \<Rightarrow> taken @ min_hook_uses initialized' uses)"

section \<open>Properties\<close>

text \<open>Scopes nest: only what was taken last is given back.\<close>

fun holding :: "held list \<Rightarrow> scope_event list \<Rightarrow> held list option" where
  "holding hs [] = Some hs"
| "holding hs (Take h # es) = holding (h # hs) es"
| "holding [] (Give h # es) = None"
| "holding (k # hs) (Give h # es) = (if k = h then holding hs es else None)"

definition well_nested :: "scope_event list \<Rightarrow> bool" where "well_nested es \<longleftrightarrow> holding [] es = Some []"

lemma holding_append: "holding hs (es @ fs) = Option.bind (holding hs es) (\<lambda>ks. holding ks fs)"
  by (induction hs es rule: holding.induct) simp_all

lemma holding_under: "holding [] es = Some [] \<Longrightarrow> holding hs es = Some hs"
proof -
  have "holding ks es = Some ls \<Longrightarrow> holding (ks @ hs) es = Some (ls @ hs)" for ks ls
    by (induction ks es arbitrary: ls rule: holding.induct) (auto split: if_splits)
  from this [of "[]" "[]"] show "holding [] es = Some [] \<Longrightarrow> holding hs es = Some hs" by simp
qed

lemma com_thread_nested:
  assumes "\<forall>(s, use) \<in> set uses. well_nested use"
  shows "holding (if initializer = Some True then [Apartment] else []) (com_thread initializer uses) = Some []"
  using assms
proof (induction uses arbitrary: initializer)
  case Nil
  then show ?case by (simp add: leave_thread_def)
next
  case (Cons u uses)
  obtain s use where u: "u = (s, use)" by fastforce
  from Cons.prems u have "holding [] use = Some []" by (simp add: well_nested_def)
  note use = holding_under [OF this]
  from Cons.prems have rest: "\<forall>(s, use) \<in> set uses. well_nested use" by simp
  show ?case
    using Cons.IH [OF rest, of initializer] Cons.IH [OF rest, of "Some s"]
    by (cases initializer) (auto simp: u initialize_com_def holding_append use)
qed

lemma min_hook_nested: "holding (if initialized then [Min_hook] else []) (min_hook_uses initialized uses) = Some []"
proof (induction uses arbitrary: initialized)
  case (Cons a uses)
  from Cons.IH [of True] Cons.IH [of False] show ?case
    by (auto simp: initialize_min_hook_def holding_append)
qed simp

text \<open>
  On every path everything is given back, in the reverse order: the clipboard and its text, the
  stream of zlib, the apartment of a thread however often and successfully it is asked for, and
  MinHook.
\<close>

theorem scopes_are_closed:
  assumes "\<forall>(s, use) \<in> set uses. well_nested use"
  shows "well_nested (snd (get_clipboard_data opens clipboard_data lock)) \<and>
    pred_option (\<lambda>r. well_nested (snd r)) (decompress_scoped Z data) \<and>
    well_nested (com_thread None uses) \<and> well_nested (min_hook_uses False starts)"
proof (intro conjI)
  show "well_nested (snd (get_clipboard_data opens clipboard_data lock))"
    by (auto simp: get_clipboard_data_def well_nested_def split: option.splits)
  show "pred_option (\<lambda>r. well_nested (snd r)) (decompress_scoped Z data)"
    by (cases "decompress Z data") (auto simp: decompress_scoped_def zlib_stream_def well_nested_def split: option.splits)
  show "well_nested (com_thread None uses)"
    using com_thread_nested [OF assms, of None] by (simp add: well_nested_def)
  show "well_nested (min_hook_uses False starts)"
    using min_hook_nested [of False starts] by (simp add: well_nested_def)
qed

theorem scopes_are_closed_witness:
  "well_nested (com_thread None [(True, [Take Dialog_object, Give Dialog_object]), (False, [])])"
proof -
  have "\<forall>(s, use) \<in> set [(True, [Take Dialog_object, Give Dialog_object]), (False, [])]. well_nested use"
    by (simp add: well_nested_def)
  from scopes_are_closed [OF this] show ?thesis by blast
qed

text \<open>Choosing a folder gives back everything but the item of the default folder.\<close>

lemma folder_leak:
  assumes "creates_dialog S" and "dialog_options S = Some options"
    and "accepts_options S (options OR FOS_PICKFOLDERS OR FOS_FORCESHOWHIDDEN)"
    and "accepts_title S (takeWhile (\<lambda>c. c \<noteq> 0) (copied_wide title))"
    and "default_folder S selected_folder \<noteq> None"
  shows "Take Default_folder \<in> set (folder_trace S title selected_folder) \<and>
    Give Default_folder \<notin> set (folder_trace S title selected_folder)"
  using assms by (auto simp: folder_trace_def)

lemma folder_closed:
  assumes "default_folder S selected_folder = None"
  shows "well_nested (folder_trace S title selected_folder)"
  using assms by (auto simp: folder_trace_def well_nested_def split: option.splits)

end
