(* ===== verification/Socket_Wait.thy ===== *)
theory Socket_Wait
  imports Network
begin

text \<open>
  Waiting for datagrams (src/common/network/socket.cpp, from \<open>set_blocking\<close> on) and the thread
  that receives them until it is stopped (manager.cpp, \<open>packet_receiver\<close> and \<open>stop\<close>). Times are
  milliseconds, points in time nanoseconds. The system's \<open>poll\<close> gives, for the descriptors and
  a timeout, its result and how long it took, or never returns.
\<close>

section \<open>Model\<close>

type_synonym poll = "int list \<Rightarrow> int \<Rightarrow> (int \<times> nat) option"

definition socket_is_ready :: bool where "socket_is_ready = True"

text \<open>\<open>ioctlsocket\<close> with the mode, by its success.\<close>

definition set_blocking :: "(int \<Rightarrow> u32 \<Rightarrow> bool) \<Rightarrow> socket \<Rightarrow> bool \<Rightarrow> bool" where
  "set_blocking ioctlsocket s blocking = ioctlsocket (fd s) (if blocking then 0 else 1)"

text \<open>The count of the timeout is converted to \<open>int\<close>.\<close>

definition int_of_count :: "int \<Rightarrow> int" where "int_of_count n = sint (of_int n :: u32)"

definition sleep_sockets :: "poll \<Rightarrow> socket list \<Rightarrow> int \<Rightarrow> (bool \<times> nat) option" where
  "sleep_sockets os_poll sockets timeout =
     (case os_poll (map fd sockets) (int_of_count timeout) of
        None \<Rightarrow> None
      | Some (retval, elapsed) \<Rightarrow>
          Some (if retval = -1 then (socket_is_ready, elapsed + 1)
                else if retval > 0 then (socket_is_ready, elapsed)
                else (\<not> socket_is_ready, elapsed)))"

definition socket_sleep :: "poll \<Rightarrow> socket \<Rightarrow> int \<Rightarrow> (bool \<times> nat) option" where
  "socket_sleep os_poll s timeout = sleep_sockets os_poll [s] timeout"

text \<open>\<open>duration_cast\<close> rounds towards zero.\<close>

definition milliseconds :: "int \<Rightarrow> int" where
  "milliseconds ns = (if 0 \<le> ns then ns div 1000000 else - (- ns div 1000000))"

definition socket_sleep_until :: "poll \<Rightarrow> socket \<Rightarrow> int \<Rightarrow> int \<Rightarrow> (bool \<times> nat) option" where
  "socket_sleep_until os_poll s now time_point = socket_sleep os_poll s (milliseconds (time_point - now))"

definition sleep_sockets_until :: "poll \<Rightarrow> socket list \<Rightarrow> int \<Rightarrow> int \<Rightarrow> (bool \<times> nat) option" where
  "sleep_sockets_until os_poll sockets now time_point =
     sleep_sockets os_poll sockets (milliseconds (time_point - now))"

text \<open>
  The thread: before each round it looks at its stop token; the datagrams that have come since
  the last round are behind those that wait. The world's part is a list of rounds; the result
  is the state at the end with the time the thread has slept, \<open>None\<close> while it has not ended.
\<close>

record 's receiver =
  queue4 :: datagrams
  queue6 :: datagrams
  app :: 's
  slept :: nat

definition receive_round :: "poll \<Rightarrow> socket list \<Rightarrow> 's callback_map \<Rightarrow> 's receiver \<Rightarrow> 's receiver option" where
  "receive_round os_poll sockets callbacks r =
     (case receiver_round callbacks (queue4 r, queue6 r, app r) of
        ((q4, q6, s), idle) \<Rightarrow>
          let r' = \<lparr>queue4 = q4, queue6 = q6, app = s, slept = slept r\<rparr> in
          if idle then map_option (\<lambda>(ready, t). r'\<lparr>slept := slept r + t\<rparr>) (sleep_sockets os_poll sockets 1000)
          else Some r')"

fun packet_receiver ::
    "poll \<Rightarrow> socket list \<Rightarrow> 's callback_map \<Rightarrow> (bool \<times> datagrams \<times> datagrams) list \<Rightarrow> 's receiver \<Rightarrow> 's receiver option"
  where
  "packet_receiver os_poll sockets callbacks [] r = None"
| "packet_receiver os_poll sockets callbacks ((stop_requested, new4, new6) # world) r =
     (if stop_requested then Some r
      else Option.bind (receive_round os_poll sockets callbacks
            (r\<lparr>queue4 := queue4 r @ new4, queue6 := queue6 r @ new6\<rparr>))
          (packet_receiver os_poll sockets callbacks world))"

text \<open>\<open>stop\<close>: the assignment to the thread requests the stop, which may find it in the middle of a
  round, and joins.\<close>

definition manager_stop ::
    "poll \<Rightarrow> socket list \<Rightarrow> 's callback_map \<Rightarrow> (datagrams \<times> datagrams) option \<Rightarrow> 's receiver \<Rightarrow> 's receiver option" where
  "manager_stop os_poll sockets callbacks in_round r =
     packet_receiver os_poll sockets callbacks
       ((case in_round of None \<Rightarrow> [] | Some (new4, new6) \<Rightarrow> [(False, new4, new6)]) @ [(True, [], [])]) r"

section \<open>Properties\<close>

text \<open>What is documented of \<open>poll\<close>: with a timeout it returns within it, without one it returns when
  something can be read.\<close>

definition poll_ok :: "poll \<Rightarrow> bool" where
  "poll_ok os_poll \<longleftrightarrow> (\<forall>fds t. 0 \<le> t \<longrightarrow> (\<exists>r d. os_poll fds t = Some (r, d) \<and> int d \<le> t))"

definition nothing_comes :: "poll \<Rightarrow> bool" where
  "nothing_comes os_poll \<longleftrightarrow> (\<forall>fds t. t < 0 \<longrightarrow> os_poll fds t = None)"

lemma int_of_count_small: "- (2 ^ 31) \<le> n \<Longrightarrow> n < 2 ^ 31 \<Longrightarrow> int_of_count n = n"
  by (simp add: int_of_count_def signed_of_int signed_take_bit_int_eq_self)

lemma sleep_returns:
  assumes "poll_ok os_poll" and "0 \<le> timeout" and "timeout < 2 ^ 31"
  shows "\<exists>ready t. sleep_sockets os_poll sockets timeout = Some (ready, t) \<and> int t \<le> timeout + 1"
proof -
  have "int_of_count timeout = timeout" using assms(2,3) by (intro int_of_count_small) simp_all
  moreover obtain r d where "os_poll (map fd sockets) timeout = Some (r, d)" "int d \<le> timeout"
    using assms(1,2) unfolding poll_ok_def by blast
  ultimately show ?thesis by (auto simp: sleep_sockets_def)
qed

text \<open>A deadline that has passed by a millisecond makes the timeout negative, which waits for ever; a
  timeout of 2 ^ 31 milliseconds or more does the same.\<close>

lemma past_deadline_blocks:
  assumes "nothing_comes os_poll" and "time_point \<le> now - 1000000" and "now - time_point < 2 ^ 31"
  shows "socket_sleep_until os_poll s now time_point = None"
proof -
  let ?d = "(now - time_point) div 1000000"
  have d: "1 \<le> ?d" "?d \<le> now - time_point"
    using assms(2) pos_imp_zdiv_nonneg_iff [of 1000000 "now - time_point"]
    by (auto simp: pos_imp_zdiv_pos_iff)
  have "milliseconds (time_point - now) = - ?d" using assms(2) by (simp add: milliseconds_def)
  moreover have "int_of_count (- ?d) = - ?d" using d assms(3) by (intro int_of_count_small) simp_all
  ultimately show ?thesis using assms(1) d(1)
    by (simp add: socket_sleep_until_def socket_sleep_def sleep_sockets_def nothing_comes_def)
qed

lemma long_timeout_blocks:
  assumes "nothing_comes os_poll"
  shows "sleep_sockets os_poll sockets (2 ^ 31) = None"
proof -
  have "int_of_count (2 ^ 31) < 0" by (simp add: int_of_count_def)
  with assms show ?thesis by (simp add: sleep_sockets_def nothing_comes_def)
qed

lemma receive_round_returns:
  assumes "poll_ok os_poll"
  shows "\<exists>r'. receive_round os_poll sockets callbacks r = Some r' \<and> slept r' \<le> slept r + 1001"
proof -
  obtain q4 q6 s idle where run: "receiver_round callbacks (queue4 r, queue6 r, app r) = ((q4, q6, s), idle)"
    by (metis surj_pair)
  obtain ready t where "sleep_sockets os_poll sockets 1000 = Some (ready, t)" "int t \<le> 1000 + 1"
    using sleep_returns [OF assms, of 1000 sockets] by auto
  then show ?thesis by (auto simp: receive_round_def run Let_def)
qed



lemma stop_returns_soon:
  assumes "poll_ok os_poll"
  shows "\<exists>r'. manager_stop os_poll sockets callbacks in_round r = Some r' \<and> slept r' \<le> slept r + 1001"
proof (cases in_round)
  case (Some new)
  obtain r' where "receive_round os_poll sockets callbacks
      (r\<lparr>queue4 := queue4 r @ fst new, queue6 := queue6 r @ snd new\<rparr>) = Some r'" "slept r' \<le> slept r + 1001"
    using receive_round_returns [OF assms] by fastforce
  then show ?thesis by (cases new) (simp add: manager_stop_def Some)
qed (simp add: manager_stop_def)

end
