(* ===== verification/Spec2Isabelle.thy ===== *)
theory Spec2Isabelle
  imports Relay Signature Detour Assembler Updater_Properties Script_String
    Bootstrap Nt_Handles Server_Console Threads Ciphers Flags Render_Queue Game_Path Steam_Session Compression Server_Main Player_Name Format_Buffer Game_Windows
    Update_Thread Second_Instance Challenge_Source Known_Folders Process_Control Client_Network
    Game_Patches Virtual_Table Scoped_Resources Socket_Wait
begin

text \<open>
  W3m adds multiplayer to The Witcher 3: a client that is loaded in front of the game, and a
  server that relays what the players do. This development models the program's own logic
  from its sources under src/src and proves what makes each part correct. The theories of
  the model name, definition by definition, the function they translate; the properties
  are the theorems whose text begins with a claim number.

  How the parts work together. The client (main.cpp) runs its components through their
  phases: the updater replaces the client's own files, the game path is found, the game's
  executable is mapped, relocated and bound to imports that the client may replace, and the
  code of the game is patched to call the client. From then on the scripts of the game call
  functions the client registers. A script reports the player's state; the client sends it
  in a packet to the server; the server keeps a table of clients by address, asks an unknown
  one to sign a nonce, checks the signature and the identity made from the key, and sends
  the states of all authenticated clients to each of them, frame by frame. The client keeps
  the last broadcast, and a script polls it; the scripts keep one actor of the game for each
  other player.

  Shared foundations.
    \<^item> \<open>W3m_Prelude\<close>: bytes and words, little-endian encodings, exceptions as values, patches
      of an array of bytes, C strings.
    \<^item> \<open>Unordered_Map\<close>: the hash map with a key equality of its own, as a locale.
    \<^item> \<open>String_Utils\<close> (common/utils/string.cpp), \<open>Byte_Buffer\<close> (byte_buffer.hpp),
      \<open>Format_Buffer\<close> (\<open>va\<close> of string.cpp), \<open>Memory_Utils\<close> (memory.cpp), \<open>Crypto\<close>, \<open>Ciphers\<close> and \<open>Challenge_Source\<close> (cryptography.cpp, and
      client/utils/identity.cpp for the material of the key), \<open>Compression\<close>, \<open>Flags\<close>,
      \<open>Threads\<close> (thread.cpp, finally.hpp, timer.hpp), \<open>Nt_Handles\<close> and \<open>Pe_Image\<close> (nt.cpp,
      nt.hpp, and \<open>hook::iat\<close>), \<open>Process_Control\<close> (the rest of nt.cpp, names of threads),
      \<open>Scoped_Resources\<close> (what destructors and scope guards give back), \<open>Folder_Dialog\<close> (com.cpp), \<open>File_System\<close> (io.cpp), \<open>Properties\<close>
      (properties.cpp).

  Network and server.
    \<^item> \<open>Game_Structs\<close> (common/game/structs.hpp): the structures on the wire.
    \<^item> \<open>Address\<close>, \<open>Network\<close> (common/network): addresses as the bytes of their union, sockets,
      the dispatch of a packet to the callback of its command. \<open>Socket_Wait\<close>: waiting, and the
      receiving thread until it is stopped.
    \<^item> \<open>Server\<close> (server/server.cpp): the table of clients, the three handlers, the frame; the
      step relation \<open>server_step\<close> interleaves packets and frames. \<open>Server_Properties\<close>: who
      is authenticated, what is sent, and what holds in every reachable state; the locale
      \<open>client_invariant\<close> lifts a property of one client to the table.
    \<^item> \<open>Server_Console\<close> (server/console.cpp), \<open>Server_Main\<close> (server/main.cpp and the loop of
      server.cpp): the run of the server until it is interrupted.
    \<^item> \<open>Client_Session\<close> (client/module/scripting_experiments.cpp): the client's side of the
      protocol. \<open>Client_Network\<close> (client/module/network.cpp): the session over the address that is
      resolved at its first use. \<open>Second_Instance\<close> (client/utils/identity.cpp): the identity of a
      second client before the server. \<open>Player_Name\<close>: the name over the settings. \<open>Script_Calls\<close>: the functions the
      scripts call, with the types of both sides. \<open>Script_World\<close> (data/scripts/local/w3mp.ws):
      the scripts themselves, which keep the actors.
    \<^item> Both sides together. This theory: the handshake. \<open>Agreement\<close>: the server, honest clients
      and an attacker who owns the network but forges no signature, as one inductive relation.
      \<open>Relay\<close>: a state from the script that stores it to the actor that shows it.

  The client in the game.
    \<^item> \<open>Bootstrap\<close> (client/main.cpp), \<open>Component_Loader\<close>, \<open>Loader\<close> (client/loader): the start,
      the phases, and the image of the game in memory. \<open>Update_Thread\<close>
      (client/module/updater.cpp): the update before everything else. \<open>Game_Path\<close>,
      \<open>Known_Folders\<close> (game_path.cpp). \<open>Game_Patches\<close> (patches.cpp, console.cpp). \<open>Steam\<close>
      (client/steam/interface.cpp), \<open>Steam_Session\<close> (client/module/steam_proxy.cpp).
    \<^item> \<open>Game_Windows\<close> (client/module/window.cpp, splash.cpp, launcher.cpp, icon.cpp,
      game_module.cpp): the windows, over the pipelines of \<open>Scheduler\<close>.
    \<^item> \<open>Hook\<close>, \<open>Detour\<close>, \<open>Assembler\<close>, \<open>Virtual_Table\<close>, \<open>Signature\<close> (common/utils/hook.cpp, hook.hpp, signature.cpp):
      code as a function from addresses to bytes, with the effect of a patch read back by
      what the processor would do next (\<open>next_target\<close>).
    \<^item> \<open>Script_Array\<close>, \<open>Script_String\<close> (client/module/scripting.hpp, scripting.cpp,
      scripting_filesystem.cpp): the game's arrays over an explicit heap, refined by lists.
    \<^item> \<open>Scheduler\<close>, \<open>Render_Queue\<close> (client/module/scheduler.cpp, renderer.cpp).
    \<^item> \<open>Http\<close>, \<open>Updater_Ui\<close>, \<open>File_Updater\<close>, \<open>Updater_Properties\<close> (client/utils/http.cpp,
      client/updater): downloads by several threads over the model of the file system; the
      locale \<open>run_invariant\<close> lifts what every step keeps to whole runs.

  Conventions. A string is its bytes. An exception is \<open>Inl\<close>; a step C++ gives no meaning to
  is the exception \<open>Undefined_behaviour\<close>, so that safety is its absence. Words have their
  width; a \<open>size_t\<close> in a bounds check is a number with the reduction modulo \<open>2 ^ 64\<close>
  written out. A lock makes what it guards one step, and threads are an explicit order of
  steps: an inductive relation for the server, a list of steps elsewhere.

  Bounds and termination. Loops over data recur on it. Loops that may not end are partial
  functions into options, where \<open>None\<close> is not returning: the search for memory near an
  address and the jumps that use it, the walks over import tables, relocations, firmware
  tables, virtual tables and C strings, and the loops around \<open>inflate\<close>. The theorems about
  them say that they return, with the result. A run of the updater's threads is a given
  schedule; it is \<open>None\<close> when the schedule ends before the threads do, and
  \<open>update_files_returns\<close> gives a number of rounds (five for each file and two for each
  thread) after which every schedule that gives each thread its turns has ended. A download
  is tried as often as the code tries it.

  What is not in the repository is a parameter: libtomcrypt (\<open>crypto_lib\<close>, \<open>cipher_lib\<close>, with
  what its manual promises as \<open>lib_ok\<close>), libcurl, zlib, MinHook, udis86, the name resolver,
  the calls of Windows and the functions of the game. A theorem that assumes something of one
  has a witness with a concrete instance.

  What the lemmas show, by theory: round trips of the encoders and the readers' bounds
  (\<open>Byte_Buffer\<close>, \<open>Game_Structs\<close>, \<open>Smbios\<close>); loops against a reference on lists
  (\<open>String_Utils\<close>, \<open>Signature\<close>, \<open>Pe_Image\<close>, \<open>Loader\<close>, \<open>Server_Console\<close>); refinement of an
  abstract value (\<open>Script_Array\<close>, \<open>Address\<close>); invariants of reachable states (\<open>Server\<close>,
  \<open>Scheduler\<close>, \<open>Render_Queue\<close>, \<open>Nt_Handles\<close>, \<open>Memory_Utils\<close>, \<open>File_Updater\<close>); error paths
  (\<open>Http\<close>, \<open>Updater_Properties\<close>, \<open>Game_Path\<close>, \<open>Bootstrap\<close>, \<open>Compression\<close>).

  Not modelled: the conversions of \<open>printf\<close> and the document parser of rapidjson themselves,
  which are parameters; the window class of the splash screen, assembling through asmjit and
  ending the process, which are calls without a state of the program; the debug functions of
  the script experiments; the tables of udis86 under deps, which are generated. Headers that
  only declare (cryptography.hpp, address.hpp, the includes) have nothing to model.
\<close>

section \<open>Authentication from end to end\<close>

text \<open>C4: the three packets of the handshake, each made by one side and handled by the other,
  authenticate a client whose identity is the hash of its key: state, authRequest, authResponse.\<close>

theorem handshake_authenticates:
  assumes "key_pair L own k" and "key_get_hash L k = guid p" and "valid_player p"
    and "is_supported source" and "addr_eq server master"
    and "client_at source (clients s0) = new_client" and "length rnd = challenge_size"
  shows "\<exists>s1 s2 logs request response.
    handle_data (server_callbacks L t1 rnd) source
      (make_packet (lit ''state'') 32 (state_message p)) s0 = (s1, Handled) \<and>
    effects s1 = effects s0 @ logs @ [Send source (lit ''authRequest'') request] \<and>
    handle_data (client_callbacks L own master (guid p)) server
      (make_packet (lit ''authRequest'') 32 request) sess =
      (sess\<lparr>outbox := outbox sess @ [(server, lit ''authResponse'', response)]\<rparr>, Handled) \<and>
    handle_data (server_callbacks L t2 rnd2) source
      (make_packet (lit ''authResponse'') 32 response) s1 = (s2, Handled) \<and>
    public_key (client_at source (clients s2)) = Some k \<and>
    c_guid (client_at source (clients s2)) = guid p"
proof -
  let ?nonce = "get_challenge rnd" and ?pub = "key_serialize L PK_PUBLIC own"
  let ?c = "(update_client t1 p new_client)\<lparr>authentication_nonce := ?nonce\<rparr>"
  let ?request = "write_string ?nonce (write_u32 PROTOCOL [])"
  let ?response = "auth_response ?pub (sign_message L own ?nonce)"
  have un: "\<not> is_authenticated (client_at source (clients s0))" using assms(6) by simp
  have n: "?nonce = (if authentication_nonce (update_client t1 p new_client) = [] then get_challenge rnd
      else authentication_nonce (update_client t1 p new_client))"
    by (simp add: new_client_def)
  obtain logs where s1: "handle_data (server_callbacks L t1 rnd) source
      (make_packet (lit ''state'') 32 (state_message p)) s0 =
    (s0\<lparr>clients := put_client source ?c (clients s0),
        effects := effects s0 @ logs @ [Send source (lit ''authRequest'') ?request]\<rparr>, Handled)"
    using dispatch_state_unauthenticated [OF assms(3) is_divider_space un refl n [folded assms(6)]]
    by (auto simp: state_message_def assms(6))
  let ?s1 = "s0\<lparr>clients := put_client source ?c (clients s0),
        effects := effects s0 @ logs @ [Send source (lit ''authRequest'') ?request]\<rparr>"
  have "length ?nonce < 2 ^ 32" using length_get_challenge [OF assms(7)] by simp
  from client_handles_request [OF assms(5) this is_divider_space]
  have c: "handle_data (client_callbacks L own master (guid p)) server
      (make_packet (lit ''authRequest'') 32 ?request) sess =
    (sess\<lparr>outbox := outbox sess @ [(server, lit ''authResponse'', ?response)]\<rparr>, Handled)"
    by (simp add: send_out_def)
  have at: "client_at source (clients ?s1) = ?c" using assms(4) by (simp add: client_at_put)
  have k: "k = key_deserialize L ?pub (key_new L)"
    using assms(1) by (simp add: key_pair_def key_deserialize_Some)
  have s2: "handle_data (server_callbacks L t2 rnd2) source
      (make_packet (lit ''authResponse'') 32 ?response) ?s1 =
    (?s1\<lparr>clients := put_client source (?c\<lparr>public_key := Some k, last_packet := t2\<rparr>) (clients ?s1),
         effects := effects ?s1 @ [Log_authenticated source (c_guid ?c)]\<rparr>, Handled)"
    unfolding auth_response_def
    by (rule dispatch_response_accepted [OF _ _ is_divider_space k at [symmetric]])
       (use assms(1,2) get_challenge_nonempty [OF assms(7)] in \<open>simp_all add: key_pair_def\<close>)
  show ?thesis
    by (intro exI conjI, rule s1, simp, rule c, rule s2) (simp_all add: client_at_put assms(4))
qed

theorem handshake_authenticates_witness:
  "\<exists>s1 s2 logs request response.
    handle_data (server_callbacks toy_lib 0 demo_random) demo_address
      (make_packet (lit ''state'') 32 (state_message demo_player)) init_server = (s1, Handled) \<and>
    effects s1 = effects init_server @ logs @ [Send demo_address (lit ''authRequest'') request] \<and>
    handle_data (client_callbacks toy_lib [7] demo_address (guid demo_player)) demo_address
      (make_packet (lit ''authRequest'') 32 request)
      \<lparr>g_players = no_players, player_name = [], outbox = []\<rparr> =
      (\<lparr>g_players = no_players, player_name = [],
        outbox = [(demo_address, lit ''authResponse'', response)]\<rparr>, Handled) \<and>
    handle_data (server_callbacks toy_lib 1 []) demo_address
      (make_packet (lit ''authResponse'') 32 response) s1 = (s2, Handled) \<and>
    public_key (client_at demo_address (clients s2)) = Some [7] \<and>
    c_guid (client_at demo_address (clients s2)) = guid demo_player"
proof -
  have serial: "key_serialize toy_lib PK_PUBLIC [7] = [7]" "ecc_import toy_lib [7] = Some [7]"
    by (simp_all add: key_serialize_def bytes_or_empty_def toy_lib_def toy_import_def)
  have "length (sign_message toy_lib [7] m) < 2 ^ 32" for m
    by (simp add: sign_message_def toy_key sha512_compute_def hex_or_raw_def) (simp add: toy_lib_def)
  then have "key_pair toy_lib [7] [7]"
    using toy_verify by (simp add: key_pair_def serial)
  moreover have "key_get_hash toy_lib [7] = guid demo_player" by (simp add: demo_player_def)
  moreover have "client_at demo_address (clients init_server) = new_client"
    by (simp add: init_server_def)
  ultimately show ?thesis
    using handshake_authenticates [of toy_lib "[7]" "[7]" demo_player demo_address demo_address
        demo_address init_server demo_random 0
        "\<lparr>g_players = no_players, player_name = [], outbox = []\<rparr>" 1 "[]"] by simp
qed

end
